(* ===== verification/Prelude.thy ===== *)
theory Prelude
  imports Main "HOL-Library.Word"
begin

text \<open>
  Shared vocabulary of the development.  Rust's byte slices, vectors and fixed
  arrays are lists of 8-bit words, a Rust \<open>String\<close> is the list of its UTF-8
  bytes, a \<open>Result<T, E>\<close> is the sum \<open>'e + 't\<close> and instants and durations are
  natural numbers.  The theory also holds the locale of a wire codec, which the
  frame layer and the local RPC framing both implement.
\<close>

named_theorems const_defs "compile-time constants of the program"
named_theorems wire_simps "lengths and slices of encoded values"

type_synonym byte = "8 word"
type_synonym bytes = "byte list"

abbreviation Ok :: "'a \<Rightarrow> 'e + 'a" where "Ok \<equiv> Inr"
abbreviation Err :: "'e \<Rightarrow> 'e + 'a" where "Err \<equiv> Inl"

section \<open>Results\<close>

text \<open>Rust's \<open>?\<close> operator, and \<open>Result::map_err\<close>.\<close>

fun res_bind :: "'e + 'a \<Rightarrow> ('a \<Rightarrow> 'e + 'b) \<Rightarrow> 'e + 'b" where
  "res_bind (Inl e) f = Inl e"
| "res_bind (Inr x) f = f x"

fun map_err :: "('e \<Rightarrow> 'f) \<Rightarrow> 'e + 'a \<Rightarrow> 'f + 'a" where
  "map_err g (Inl e) = Inl (g e)"
| "map_err g (Inr x) = Inr x"

fun is_ok :: "'e + 'a \<Rightarrow> bool" where
  "is_ok (Inl e) = False"
| "is_ok (Inr x) = True"

lemma res_bind_Ok_iff [simp]: "res_bind r f = Inr y \<longleftrightarrow> (\<exists>x. r = Inr x \<and> f x = Inr y)"
  by (cases r) auto

lemma res_bind_Err_iff:
  "res_bind r f = Inl e \<longleftrightarrow> r = Inl e \<or> (\<exists>x. r = Inr x \<and> f x = Inl e)"
  by (cases r) auto

lemma map_err_Ok_iff [simp]: "map_err g r = Inr y \<longleftrightarrow> r = Inr y"
  by (cases r) auto

lemma map_err_Err_iff [simp]: "map_err g r = Inl f \<longleftrightarrow> (\<exists>e. r = Inl e \<and> f = g e)"
  by (cases r) auto

lemma is_ok_iff [simp]: "is_ok r \<longleftrightarrow> (\<exists>x. r = Inr x)"
  by (cases r) auto

section \<open>Slices\<close>

text \<open>The slice \<open>xs[start..to]\<close>; only used where \<open>start \<le> to \<le> xs.len()\<close> holds.\<close>

definition slice :: "nat \<Rightarrow> nat \<Rightarrow> 'a list \<Rightarrow> 'a list" where
  "slice start stop xs = take (stop - start) (drop start xs)"

lemma length_slice [wire_simps]: "stop \<le> length xs \<Longrightarrow> length (slice start stop xs) = stop - start"
  by (simp add: slice_def)

lemma slice_append_left [wire_simps]: "stop \<le> length xs \<Longrightarrow> slice start stop (xs @ ys) = slice start stop xs"
  by (cases "start \<le> length xs") (simp_all add: slice_def)

lemma slice_append_mid:
  "length xs = start \<Longrightarrow> length ys = stop - start \<Longrightarrow> slice start stop (xs @ ys @ zs) = ys"
  by (simp add: slice_def)

lemma slice_join: "a \<le> b \<Longrightarrow> b \<le> c \<Longrightarrow> slice a b xs @ slice b c xs = slice a c xs"
  using take_add [of "b - a" "c - b" "drop a xs"] by (simp add: slice_def)

lemma slice_full [simp]: "slice 0 (length xs) xs = xs"
  by (simp add: slice_def)

section \<open>Wire codecs\<close>

text \<open>
  An encoder that may refuse a value, a decoder that may refuse a byte string
  and the set of values the decoder can produce.  The two laws say that the
  decoder inverts the encoder and that it accepts nothing but encodings.
\<close>

locale wire_codec =
  fixes enc :: "'a \<Rightarrow> 'e + bytes"
    and dec :: "bytes \<Rightarrow> 'd + 'a"
    and valid :: "'a \<Rightarrow> bool"
  assumes dec_enc: "valid x \<Longrightarrow> enc x = Ok bs \<Longrightarrow> dec bs = Ok x"
    and enc_dec: "dec bs = Ok x \<Longrightarrow> valid x \<and> enc x = Ok bs"
begin

lemma dec_iff: "dec bs = Ok x \<longleftrightarrow> valid x \<and> enc x = Ok bs"
  using dec_enc enc_dec by blast

lemma enc_inj: "valid x \<Longrightarrow> valid y \<Longrightarrow> enc x = Ok bs \<Longrightarrow> enc y = Ok bs \<Longrightarrow> x = y"
  by (frule (1) dec_enc, frule (1) dec_enc [of y]) simp

lemma dec_canonical: "dec as = Ok x \<Longrightarrow> dec bs = Ok x \<Longrightarrow> as = bs"
  by (drule enc_dec, drule enc_dec) simp

end

end
