(* ===== verification/Frame.thy ===== *)
theory Frame
  imports Prelude
begin

text \<open>
  The v1 wire frame of \<open>syauth-core\<close>: its layout constants, the encoder and
  decoder of \<open>frame.rs\<close>, the truncated keyed-hash tag of \<open>mac.rs\<close> and the
  signature over the frame body of \<open>sign.rs\<close>.  BLAKE3 and Ed25519 are foreign
  code and are arguments of the definitions that call them.
\<close>

section \<open>Layout\<close>

definition SYAUTH_WIRE_VERSION_V1 :: byte where [const_defs]: "SYAUTH_WIRE_VERSION_V1 = 1"
definition VERSION_LEN :: nat where [const_defs]: "VERSION_LEN = 1"
definition NONCE_LEN :: nat where [const_defs]: "NONCE_LEN = 16"
definition TAG_LEN :: nat where [const_defs]: "TAG_LEN = 16"
definition VERSION_OFFSET :: nat where [const_defs]: "VERSION_OFFSET = 0"
definition NONCE_OFFSET :: nat where [const_defs]: "NONCE_OFFSET = VERSION_OFFSET + VERSION_LEN"
definition PAYLOAD_OFFSET :: nat where [const_defs]: "PAYLOAD_OFFSET = NONCE_OFFSET + NONCE_LEN"
definition HEADER_LEN :: nat where [const_defs]: "HEADER_LEN = VERSION_LEN + NONCE_LEN"
definition MIN_FRAME_LEN :: nat where [const_defs]: "MIN_FRAME_LEN = HEADER_LEN + TAG_LEN"
definition MAX_PAYLOAD_LEN :: nat where [const_defs]: "MAX_PAYLOAD_LEN = 4096"
definition MAX_FRAME_LEN :: nat where [const_defs]: "MAX_FRAME_LEN = MIN_FRAME_LEN + MAX_PAYLOAD_LEN"

record frame =
  f_version :: byte
  f_nonce :: bytes
  f_payload :: bytes
  f_tag :: bytes

datatype frame_error = TooShort nat nat | BadVersion byte | BadLength

text \<open>
  The fixed-size arrays of the Rust struct are byte lists here; \<open>frame_typed\<close> is
  what the Rust type says of them, \<open>frame_valid\<close> what a decoder may return.
\<close>

definition frame_typed :: "frame \<Rightarrow> bool" where
  "frame_typed f \<longleftrightarrow> length (f_nonce f) = NONCE_LEN \<and> length (f_tag f) = TAG_LEN"

definition frame_valid :: "frame \<Rightarrow> bool" where
  "frame_valid f \<longleftrightarrow>
     frame_typed f \<and> f_version f = SYAUTH_WIRE_VERSION_V1 \<and> length (f_payload f) \<le> MAX_PAYLOAD_LEN"

section \<open>Encoding and decoding\<close>

text \<open>\<open>Frame::encode\<close> appends to the caller's buffer and returns the buffer it leaves.\<close>

definition frame_encode :: "frame \<Rightarrow> bytes \<Rightarrow> (frame_error + unit) \<times> bytes" where
  "frame_encode f buf =
     (if length (f_payload f) > MAX_PAYLOAD_LEN then (Err BadLength, buf)
      else (Ok (), buf @ [f_version f] @ f_nonce f @ f_payload f @ f_tag f))"

definition body_bytes :: "frame \<Rightarrow> frame_error + bytes" where
  "body_bytes f =
     (if length (f_payload f) > MAX_PAYLOAD_LEN then Err BadLength
      else Ok ([f_version f] @ f_nonce f @ f_payload f))"

definition frame_decode :: "bytes \<Rightarrow> frame_error + frame" where
  "frame_decode input =
     (if length input < MIN_FRAME_LEN then Err (TooShort MIN_FRAME_LEN (length input))
      else let version = input ! VERSION_OFFSET in
        if version \<noteq> SYAUTH_WIRE_VERSION_V1 then Err (BadVersion version)
        else let payload_len = length input - MIN_FRAME_LEN in
          if payload_len > MAX_PAYLOAD_LEN then Err BadLength
          else let payload_end = PAYLOAD_OFFSET + payload_len in
            Ok \<lparr> f_version = version,
                 f_nonce = slice NONCE_OFFSET (NONCE_OFFSET + NONCE_LEN) input,
                 f_payload = slice PAYLOAD_OFFSET payload_end input,
                 f_tag = slice payload_end (payload_end + TAG_LEN) input \<rparr>)"

text \<open>Encoding into an empty buffer, the way every caller in the program uses it.\<close>

definition frame_wire :: "frame \<Rightarrow> frame_error + bytes" where
  "frame_wire f = (case frame_encode f [] of (Inl e, _) \<Rightarrow> Err e | (Inr _, buf) \<Rightarrow> Ok buf)"

section \<open>Tags and signatures\<close>

definition BOND_KEY_BYTES :: nat where [const_defs]: "BOND_KEY_BYTES = 32"
definition SIGNED_MESSAGE_PREFIX_LEN :: nat where
  [const_defs]: "SIGNED_MESSAGE_PREFIX_LEN = VERSION_LEN + NONCE_LEN"
definition SIGNATURE_LEN :: nat where [const_defs]: "SIGNATURE_LEN = 64"

text \<open>The keyed BLAKE3 hash takes a key and a message and returns 32 bytes.\<close>

type_synonym keyed_hash = "bytes \<Rightarrow> bytes \<Rightarrow> bytes"

definition compute_tag :: "keyed_hash \<Rightarrow> bytes \<Rightarrow> bytes \<Rightarrow> bytes" where
  "compute_tag kh bond_key frame_body = slice 0 TAG_LEN (kh bond_key frame_body)"

definition verify_tag :: "keyed_hash \<Rightarrow> bytes \<Rightarrow> bytes \<Rightarrow> bytes \<Rightarrow> bool" where
  "verify_tag kh bond_key frame_body t \<longleftrightarrow> compute_tag kh bond_key frame_body = t"

datatype verify_error = Signature | BadEncoding frame_error

definition sign_frame :: "('sk \<Rightarrow> bytes \<Rightarrow> bytes) \<Rightarrow> 'sk \<Rightarrow> frame \<Rightarrow> frame_error + bytes" where
  "sign_frame sign privkey f = res_bind (body_bytes f) (\<lambda>body. Ok (sign privkey body))"

definition verify_frame ::
    "('pk \<Rightarrow> bytes \<Rightarrow> bytes \<Rightarrow> bool) \<Rightarrow> 'pk \<Rightarrow> frame \<Rightarrow> bytes \<Rightarrow> verify_error + unit" where
  "verify_frame verify_strict pubkey f sig =
     res_bind (map_err BadEncoding (body_bytes f))
       (\<lambda>body. if verify_strict pubkey body sig then Ok () else Err Signature)"

text \<open>
  What the program relies on of its cryptographic libraries: the keyed hash has
  32 bytes, signatures have 64 and a signature verifies under the signer's key.
\<close>

definition keyed_hash_len :: "keyed_hash \<Rightarrow> bool" where
  "keyed_hash_len kh \<longleftrightarrow> (\<forall>k m. length (kh k m) = 32)"

definition signature_scheme ::
    "('sk \<Rightarrow> 'pk) \<Rightarrow> ('sk \<Rightarrow> bytes \<Rightarrow> bytes) \<Rightarrow> ('pk \<Rightarrow> bytes \<Rightarrow> bytes \<Rightarrow> bool) \<Rightarrow> bool" where
  "signature_scheme pk_of sign verify \<longleftrightarrow>
     (\<forall>sk m. length (sign sk m) = SIGNATURE_LEN \<and> verify (pk_of sk) m (sign sk m))"

section \<open>Lemmas of the frame layer\<close>

lemma frame_wire_eq:
  "frame_wire f = (if length (f_payload f) > MAX_PAYLOAD_LEN then Err BadLength
                   else Ok (f_version f # f_nonce f @ f_payload f @ f_tag f))"
  by (simp add: frame_wire_def frame_encode_def)

lemma frame_wire_body: "frame_wire f = res_bind (body_bytes f) (\<lambda>body. Ok (body @ f_tag f))"
  by (simp add: frame_wire_eq body_bytes_def)

lemma frame_wire_length:
  assumes "frame_typed f" "frame_wire f = Ok bs"
  shows "length bs = MIN_FRAME_LEN + length (f_payload f)"
  using assms by (auto simp: frame_wire_eq frame_typed_def const_defs split: if_splits)

lemma frame_decode_wire:
  assumes "frame_valid f" "frame_wire f = Ok bs"
  shows "frame_decode bs = Ok f"
proof -
  from assms have len: "length (f_nonce f) = 16" "length (f_tag f) = 16" "length (f_payload f) \<le> 4096"
    and ver: "f_version f = 1" and bs: "bs = f_version f # f_nonce f @ f_payload f @ f_tag f"
    by (auto simp: frame_valid_def frame_typed_def frame_wire_eq const_defs split: if_splits)
  then show ?thesis
    by (cases f) (simp add: frame_decode_def const_defs slice_def Let_def drop_Cons')
qed

lemma frame_wire_decode:
  assumes "frame_decode bs = Ok f"
  shows "frame_valid f \<and> frame_wire f = Ok bs"
proof -
  from assms have len: "33 \<le> length bs" "length bs \<le> 4129" and v: "bs ! 0 = 1"
    and f: "f = \<lparr> f_version = bs ! 0, f_nonce = slice 1 17 bs,
                 f_payload = slice 17 (length bs - 16) bs,
                 f_tag = slice (length bs - 16) (length bs) bs \<rparr>"
    by (auto simp: frame_decode_def const_defs Let_def split: if_splits)
  have "bs ! 0 # slice 1 (length bs) bs = bs"
    using len by (cases bs) (auto simp: slice_def)
  moreover have "slice 1 17 bs @ slice 17 (length bs - 16) bs
      @ slice (length bs - 16) (length bs) bs = slice 1 (length bs) bs"
    using len by (simp add: slice_join)
  ultimately show ?thesis
    using len v
    by (simp add: f frame_valid_def frame_typed_def frame_wire_eq const_defs length_slice)
qed

interpretation frame_codec: wire_codec frame_wire frame_decode frame_valid
  by unfold_locales (rule frame_decode_wire, assumption+, rule frame_wire_decode)

lemma compute_tag_length [wire_simps]:
  "keyed_hash_len kh \<Longrightarrow> length (compute_tag kh k m) = TAG_LEN"
  by (simp add: compute_tag_def keyed_hash_len_def length_slice const_defs)

section \<open>Properties\<close>

text \<open>
  C16: the decoder of the wire frame accepts exactly the encodings of version-1
  frames whose payload is within the cap: it returns a frame if and only if the
  frame is a valid one and the input is its encoding.
\<close>

theorem frame_decode_exact:
  "frame_decode bs = Ok f \<longleftrightarrow> frame_valid f \<and> frame_encode f [] = (Ok (), bs)"
  unfolding frame_codec.dec_iff
  by (auto simp: frame_wire_def frame_encode_def split: if_splits)

text \<open>
  Every rejection of the decoder is classified by length first, then by the
  version byte, then by the payload cap, and an error carries the offending
  values.
\<close>

theorem frame_decode_errors:
  "frame_decode bs = Err e \<longleftrightarrow>
     (if length bs < 33 then e = TooShort 33 (length bs)
      else if hd bs \<noteq> 1 then e = BadVersion (hd bs)
      else length bs > 33 + 4096 \<and> e = BadLength)"
proof -
  have "33 \<le> length bs \<Longrightarrow> bs ! 0 = hd bs"
    by (cases bs) auto
  then show ?thesis
    by (auto simp: frame_decode_def const_defs Let_def)
qed

text \<open>
  A frame signed by \<open>sign_frame\<close> verifies with \<open>verify_frame\<close> under the
  signer's public key, and no signature at all verifies for a frame over the
  payload cap: the error is then the encoding error, before any cryptography.
\<close>

theorem sign_then_verify:
  assumes "signature_scheme pk_of sign verify"
  shows "(\<forall>sig. sign_frame sign sk f = Ok sig \<longrightarrow>
            verify_frame verify (pk_of sk) f sig = Ok () \<and> length sig = 64) \<and>
         (length (f_payload f) > 4096 \<longrightarrow>
            (\<forall>sig. verify_frame verify (pk_of sk) f sig = Err (BadEncoding BadLength)))"
  using assms
  by (auto simp: sign_frame_def verify_frame_def signature_scheme_def body_bytes_def const_defs)

theorem sign_then_verify_witness:
  "sign_frame (\<lambda>sk m. replicate 64 (sk::8 word)) 7
       \<lparr> f_version = 1, f_nonce = [], f_payload = [5], f_tag = [] \<rparr> = Ok (replicate 64 7) \<and>
   verify_frame (\<lambda>pk m s. s = replicate 64 pk) 7
        \<lparr> f_version = 1, f_nonce = [], f_payload = [5], f_tag = [] \<rparr> (replicate 64 7) = Ok ()"
  using sign_then_verify [where pk_of = "\<lambda>k. k" and sign = "\<lambda>sk m. replicate 64 (sk::8 word)"
      and verify = "\<lambda>pk m s. s = replicate 64 pk" and sk = 7
      and f = "\<lparr> f_version = 1, f_nonce = [], f_payload = [5], f_tag = [] \<rparr>"]
  by (simp add: signature_scheme_def sign_frame_def body_bytes_def const_defs)

end
