(* ===== verification/Replay.thy ===== *)
theory Replay
  imports Frame
begin

text \<open>
  The two bounded nonce memories of the program: the sliding LRU and TTL cache
  of \<open>syauth-core/src/replay.rs\<close> and the per-peer LRU of challenge nonces of
  \<open>syauth-presenced/src/orchestrator.rs\<close>.  Both push at the back and drop at the
  front; the locale \<open>recent_window\<close> states that contract once and is interpreted
  on both.
\<close>

section \<open>The contract of a bounded window\<close>

text \<open>\<open>lastn n xs\<close> is the list of the last \<open>n\<close> elements of \<open>xs\<close> (all, if there are fewer).\<close>

definition lastn :: "nat \<Rightarrow> 'a list \<Rightarrow> 'a list" where
  "lastn n xs = drop (length xs - n) xs"

lemma length_lastn [simp]: "length (lastn n xs) = min n (length xs)"
  by (simp add: lastn_def)

lemma lastn_lastn_append: "lastn n (lastn n xs @ ys) = lastn n (xs @ ys)"
  by (cases "length xs \<le> n") (auto simp: lastn_def add.commute)

lemma lastn_Nil [simp]: "lastn n [] = []"
  by (simp add: lastn_def)

lemma lastn_0 [simp]: "lastn 0 xs = []"
  by (simp add: lastn_def)

lemma lastn_all [simp]: "length xs \<le> n \<Longrightarrow> lastn n xs = xs"
  by (simp add: lastn_def)

lemma lastn_snoc: "0 < n \<Longrightarrow> lastn n (xs @ [x]) = lastn (n - 1) xs @ [x]"
  by (cases "length xs < n") (auto simp: lastn_def Suc_diff_le)

lemma set_lastn: "set (lastn n xs) \<subseteq> set xs"
  by (simp add: lastn_def set_drop_subset)

lemma lastn_keeps: "length ys < n \<Longrightarrow> x \<in> set (lastn n (xs @ x # ys))"
  by (simp add: lastn_def)

lemma lastn_pred: "0 < n \<Longrightarrow> n \<le> length xs \<Longrightarrow> lastn (n - 1) xs = tl (lastn n xs)"
  by (simp add: lastn_def tl_drop drop_Suc [symmetric] Suc_diff_le [symmetric])

lemma distinct_lastn: "distinct xs \<Longrightarrow> distinct (lastn n xs)"
  by (simp add: lastn_def)

locale recent_window =
  fixes push :: "'c \<Rightarrow> 'k \<Rightarrow> 'c"
    and window :: "'c \<Rightarrow> 'k list"
    and capacity :: nat
    and bounded :: "'c \<Rightarrow> bool"
  assumes window_push: "bounded c \<Longrightarrow> window (push c k) = lastn capacity (window c @ [k])"
    and bounded_push: "bounded c \<Longrightarrow> bounded (push c k)"
begin

lemma bounded_pushes: "bounded c \<Longrightarrow> bounded (foldl push c ks)"
  by (induction ks arbitrary: c) (auto simp: bounded_push)

lemma window_pushes:
  "bounded c \<Longrightarrow> ks \<noteq> [] \<Longrightarrow> window (foldl push c ks) = lastn capacity (window c @ ks)"
proof (induction ks rule: rev_induct)
  case (snoc k ks)
  then show ?case
    by (cases "ks = []") (simp_all add: window_push bounded_pushes lastn_lastn_append)
qed simp

lemma window_remembers:
  "bounded c \<Longrightarrow> length ks < capacity \<Longrightarrow> k \<in> set (window (foldl push (push c k) ks))"
  using window_pushes [of c "k # ks"] by (simp add: lastn_keeps)

end

section \<open>The replay cache\<close>

definition DEFAULT_REPLAY_CAP :: nat where [const_defs]: "DEFAULT_REPLAY_CAP = 64"

text \<open>Instants and durations of the cache are counted in milliseconds.\<close>

definition DEFAULT_REPLAY_TTL :: nat where [const_defs]: "DEFAULT_REPLAY_TTL = 10 * 1000"

datatype acceptance = Fresh | Replayed

type_synonym nonce_entry = "bytes \<times> nat"

record replay_cache =
  rc_cap :: nat
  rc_ttl :: nat
  rc_entries :: "nonce_entry list"

definition replay_new :: "nat \<Rightarrow> nat \<Rightarrow> replay_cache" where
  "replay_new cap ttl = \<lparr> rc_cap = cap, rc_ttl = ttl, rc_entries = [] \<rparr>"

text \<open>The \<open>while let\<close> loop of \<open>evict_expired\<close>; subtraction on naturals saturates.\<close>

fun evict_entries :: "nat \<Rightarrow> nat \<Rightarrow> nonce_entry list \<Rightarrow> nonce_entry list" where
  "evict_entries ttl now [] = []"
| "evict_entries ttl now ((n, inserted_at) # es) =
     (if now - inserted_at \<ge> ttl then evict_entries ttl now es else (n, inserted_at) # es)"

definition evict_expired :: "replay_cache \<Rightarrow> nat \<Rightarrow> replay_cache" where
  "evict_expired c now = c\<lparr> rc_entries := evict_entries (rc_ttl c) now (rc_entries c) \<rparr>"

text \<open>The \<open>while len > cap\<close> loop of \<open>observe\<close>.\<close>

fun pop_overflow :: "nat \<Rightarrow> 'a list \<Rightarrow> 'a list" where
  "pop_overflow cap [] = []"
| "pop_overflow cap (e # es) = (if length (e # es) > cap then pop_overflow cap es else e # es)"

definition replay_push :: "nat \<Rightarrow> 'a list \<Rightarrow> 'a \<Rightarrow> 'a list" where
  "replay_push cap es e = pop_overflow cap (es @ [e])"

definition observe :: "replay_cache \<Rightarrow> bytes \<Rightarrow> nat \<Rightarrow> acceptance \<times> replay_cache" where
  "observe c0 n now =
     (let c = evict_expired c0 now in
      if \<exists>e \<in> set (rc_entries c). fst e = n then (Replayed, c)
      else if rc_cap c = 0 then (Fresh, c)
      else (Fresh, c\<lparr> rc_entries := replay_push (rc_cap c) (rc_entries c) (n, now) \<rparr>))"

text \<open>A sequence of observations, with the outcome of each.\<close>

fun observe_all :: "replay_cache \<Rightarrow> nonce_entry list \<Rightarrow> acceptance list \<times> replay_cache" where
  "observe_all c [] = ([], c)"
| "observe_all c ((n, now) # obs) =
     (let (a, c1) = observe c n now; (rest, c2) = observe_all c1 obs in (a # rest, c2))"

section \<open>The nonce cache of the daemon\<close>

definition NONCE_LRU_CAP :: nat where [const_defs]: "NONCE_LRU_CAP = 64"

record nonce_cache =
  nc_nonces :: "bytes list"

definition nonce_cache_new :: nonce_cache where
  "nonce_cache_new = \<lparr> nc_nonces = [] \<rparr>"

definition nc_contains :: "nonce_cache \<Rightarrow> bytes \<Rightarrow> bool" where
  "nc_contains c n \<longleftrightarrow> list_ex (\<lambda>m. m = n) (nc_nonces c)"

definition nc_insert :: "nonce_cache \<Rightarrow> bytes \<Rightarrow> nonce_cache" where
  "nc_insert c n =
     (let pushed = nc_nonces c @ [n] in
      c\<lparr> nc_nonces := (if length pushed > NONCE_LRU_CAP then tl pushed else pushed) \<rparr>)"

section \<open>An abstract replay window\<close>

text \<open>
  The specification remembers every accepted nonce with its time of acceptance
  and calls an observation a replay when the nonce is among the last \<open>cap\<close>
  accepted ones and younger than the TTL.
\<close>

definition live_window :: "nat \<Rightarrow> nat \<Rightarrow> nat \<Rightarrow> nonce_entry list \<Rightarrow> nonce_entry list" where
  "live_window cap ttl now H = filter (\<lambda>(_, t). now - t < ttl) (lastn cap H)"

definition spec_observe ::
    "nat \<Rightarrow> nat \<Rightarrow> nonce_entry list \<Rightarrow> bytes \<Rightarrow> nat \<Rightarrow> acceptance \<times> nonce_entry list" where
  "spec_observe cap ttl H n now =
     (if n \<in> fst ` set (live_window cap ttl now H) then (Replayed, H) else (Fresh, H @ [(n, now)]))"

fun spec_observe_all ::
    "nat \<Rightarrow> nat \<Rightarrow> nonce_entry list \<Rightarrow> nonce_entry list \<Rightarrow> acceptance list \<times> nonce_entry list" where
  "spec_observe_all cap ttl H [] = ([], H)"
| "spec_observe_all cap ttl H ((n, now) # obs) =
     (let (a, H1) = spec_observe cap ttl H n now; (rest, H2) = spec_observe_all cap ttl H1 obs
      in (a # rest, H2))"

section \<open>Lemmas\<close>

lemma pop_overflow_lastn: "pop_overflow cap es = lastn cap es"
proof (induction es)
  case (Cons e es)
  then show ?case
    by (cases "length (e # es) > cap") (auto simp: lastn_def Suc_diff_le)
qed simp

interpretation replay_window: recent_window "replay_push cap" "\<lambda>es. es" cap "\<lambda>_. True" for cap
  by unfold_locales (simp add: replay_push_def pop_overflow_lastn)

definition nc_invar :: "nonce_cache \<Rightarrow> bool" where
  "nc_invar c \<longleftrightarrow> length (nc_nonces c) \<le> NONCE_LRU_CAP \<and> distinct (nc_nonces c)"

lemma nc_insert_window:
  "length (nc_nonces c) \<le> NONCE_LRU_CAP \<Longrightarrow>
     nc_nonces (nc_insert c n) = lastn NONCE_LRU_CAP (nc_nonces c @ [n])"
  by (cases "nc_nonces c") (auto simp: nc_insert_def lastn_def const_defs Let_def le_Suc_eq drop_Cons')

interpretation daemon_window: recent_window nc_insert nc_nonces NONCE_LRU_CAP
    "\<lambda>c. length (nc_nonces c) \<le> NONCE_LRU_CAP"
  by unfold_locales (simp_all add: nc_insert_window)

lemma nc_invar_new [simp]: "nc_invar nonce_cache_new"
  by (simp add: nc_invar_def nonce_cache_new_def)

lemma nc_contains_iff [simp]: "nc_contains c n \<longleftrightarrow> n \<in> set (nc_nonces c)"
  by (auto simp: nc_contains_def list_ex_iff)

lemma nc_invar_insert:
  assumes "nc_invar c" "\<not> nc_contains c n"
  shows "nc_invar (nc_insert c n)"
  using assms by (simp add: nc_invar_def nc_insert_window distinct_lastn)

lemma nc_contains_insert: "nc_contains (nc_insert c n) n"
  by (cases "nc_nonces c") (auto simp: nc_insert_def const_defs Let_def)

text \<open>Eviction only removes a prefix of expired entries; with sorted times it is a filter.\<close>

lemma evict_entries_dropWhile: "evict_entries ttl now es = dropWhile (\<lambda>(_, t). now - t \<ge> ttl) es"
  by (induction es rule: evict_entries.induct) auto

lemma dropWhile_sorted_filter:
  "sorted (map snd es) \<Longrightarrow>
     dropWhile (\<lambda>(_, t). (now::nat) - t \<ge> ttl) es = filter (\<lambda>(_, t). now - t < ttl) es"
proof (induction es)
  case (Cons e es)
  obtain n t where e: "e = (n, t)" by (cases e)
  show ?case
  proof (cases "now - t \<ge> ttl")
    case False
    then have "filter (\<lambda>(_, t). now - t < ttl) es = es"
      using Cons.prems by (auto simp: e filter_id_conv)
    with False show ?thesis by (simp add: e)
  qed (use Cons e in auto)
qed simp

lemma sorted_lastn: "sorted (map f xs) \<Longrightarrow> sorted (map f (lastn n xs))"
  by (simp add: lastn_def drop_map [symmetric] sorted_wrt_drop)

lemma filter_lastn_snoc:
  assumes "sorted (map snd xs)" "0 < cap" "now - t < ttl"
  shows "lastn cap (filter (\<lambda>(_, s). now - s < ttl) (lastn cap xs) @ [(n, t)])
       = filter (\<lambda>(_, s). (now::nat) - s < ttl) (lastn cap (xs @ [(n, t)]))"
    (is "lastn cap (filter ?P _ @ _) = _")
proof (cases "length xs < cap")
  case True
  have "length (filter ?P xs) < cap" using True length_filter_le le_less_trans by blast
  then show ?thesis using True assms(3) by simp
next
  case False
  define w where "w = lastn cap xs"
  have lw: "length w = cap" using False by (simp add: w_def)
  then obtain h r where w: "w = h # r" using assms(2) by (cases w) auto
  have r: "lastn (cap - 1) xs = r" using False assms(2) w lastn_pred [of cap xs] by (simp add: w_def)
  have "sorted (map snd w)" using assms(1) by (simp add: w_def sorted_lastn)
  then have all: "?P h \<Longrightarrow> filter ?P r = r" using w by (auto simp: filter_id_conv)
  have le: "length (filter ?P r) < cap" using lw w le_imp_less_Suc [OF length_filter_le [of ?P r]] by simp
  have "lastn cap (filter ?P w @ [(n, t)]) = filter ?P r @ [(n, t)]"
    using all le lw w by (cases "?P h") (auto simp: lastn_def)
  then show ?thesis using r assms(2,3) by (simp add: lastn_snoc w_def)
qed

text \<open>The simulation between the cache and the abstract window.\<close>

definition replay_rel :: "replay_cache \<Rightarrow> nat \<Rightarrow> nat \<Rightarrow> nonce_entry list \<Rightarrow> nat \<Rightarrow> bool" where
  "replay_rel c cap ttl H prev \<longleftrightarrow>
     rc_cap c = cap \<and> rc_ttl c = ttl \<and> sorted (map snd H) \<and> (\<forall>t \<in> set (map snd H). t \<le> prev) \<and>
     rc_entries c = live_window cap ttl prev H"

lemma live_window_evict:
  assumes "sorted (map snd H)" "prev \<le> now"
  shows "evict_entries ttl now (live_window cap ttl prev H) = live_window cap ttl now H"
proof -
  have "sorted (map snd (live_window cap ttl prev H))"
    using assms(1) by (simp add: live_window_def sorted_filter sorted_lastn)
  then have "evict_entries ttl now (live_window cap ttl prev H)
      = filter (\<lambda>(_, t). now - t < ttl) (live_window cap ttl prev H)"
    by (simp add: evict_entries_dropWhile dropWhile_sorted_filter)
  also have "\<dots> = live_window cap ttl now H"
    using assms(2) by (auto simp: live_window_def intro!: filter_cong)
  finally show ?thesis .
qed

lemma replay_rel_step:
  assumes "replay_rel c cap ttl H prev" "prev \<le> now" "0 < ttl"
    and "observe c n now = (a, c')" "spec_observe cap ttl H n now = (a', H')"
  shows "a = a' \<and> replay_rel c' cap ttl H' now"
proof -
  let ?L = "live_window cap ttl now H"
  from assms(1) have c: "rc_cap c = cap" "rc_ttl c = ttl" and H: "sorted (map snd H)"
    "\<forall>t \<in> set (map snd H). t \<le> prev" "rc_entries c = live_window cap ttl prev H"
    by (auto simp: replay_rel_def)
  have ev: "evict_expired c now = c\<lparr> rc_entries := ?L \<rparr>"
    using live_window_evict [OF H(1) assms(2)] c H(3) by (simp add: evict_expired_def)
  have push: "0 < cap \<Longrightarrow> replay_push cap ?L (n, now) = live_window cap ttl now (H @ [(n, now)])"
    using filter_lastn_snoc [OF H(1), of cap now now ttl n] assms(3)
    by (simp add: replay_push_def pop_overflow_lastn live_window_def)
  have mem: "(\<exists>e \<in> set ?L. fst e = n) \<longleftrightarrow> n \<in> fst ` set ?L" by force
  have H': "sorted (map snd (H @ [(n, now)]))" "\<forall>t \<in> set (map snd (H @ [(n, now)])). t \<le> now"
    using H(1,2) assms(2) by (auto simp: sorted_append)
  have "observe c n now =
      (if n \<in> fst ` set ?L then (Replayed, c\<lparr> rc_entries := ?L \<rparr>)
       else (Fresh, c\<lparr> rc_entries := live_window cap ttl now (H @ [(n, now)]) \<rparr>))"
    using push by (simp add: observe_def Let_def ev c mem [symmetric] live_window_def [of 0])
  moreover have "\<forall>t \<in> set (map snd H). t \<le> now" using H(2) assms(2) by fastforce
  ultimately show ?thesis
    using assms(4,5) c H H' by (auto simp: spec_observe_def replay_rel_def split: if_splits)
qed

lemma replay_rel_run:
  assumes "replay_rel c cap ttl H prev" "sorted (prev # map snd obs)" "0 < ttl"
  shows "fst (observe_all c obs) = fst (spec_observe_all cap ttl H obs)"
  using assms
proof (induction obs arbitrary: c H prev)
  case (Cons o' obs)
  obtain n now where o': "o' = (n, now)" by (cases o')
  obtain a c1 where ob: "observe c n now = (a, c1)" by fastforce
  obtain a' H1 where sp: "spec_observe cap ttl H n now = (a', H1)" by fastforce
  have "a = a' \<and> replay_rel c1 cap ttl H1 now"
    using replay_rel_step [OF Cons.prems(1) _ Cons.prems(3) ob sp] Cons.prems(2) by (simp add: o')
  then have "a = a'" and "fst (observe_all c1 obs) = fst (spec_observe_all cap ttl H1 obs)"
    using Cons.IH [of c1 H1 now] Cons.prems(2,3) by (auto simp: o')
  then show ?case by (simp add: o' ob sp split_def Let_def)
qed simp

text \<open>An accepted nonce stays in the cache until it expires or \<open>cap\<close> others were accepted.\<close>

definition holds_entry :: "replay_cache \<Rightarrow> nonce_entry \<Rightarrow> nat \<Rightarrow> bool" where
  "holds_entry c e k \<longleftrightarrow> (\<exists>xs ys. rc_entries c = xs @ e # ys \<and> length ys \<le> k)"

lemma evict_keeps:
  "now - t < ttl \<Longrightarrow>
     \<exists>zs. evict_entries ttl now (xs @ (n, t) # ys) = zs @ (n, t) # ys"
  by (induction xs) auto

lemma observe_params: "rc_cap (snd (observe c n now)) = rc_cap c \<and> rc_ttl (snd (observe c n now)) = rc_ttl c"
  by (simp add: observe_def Let_def evict_expired_def)

lemma observe_keeps:
  assumes "holds_entry c (n, t) k" "now - t < rc_ttl c" "observe c m now = (a, c')"
    and "k + (if a = Fresh then 1 else 0) < rc_cap c"
  shows "holds_entry c' (n, t) (k + (if a = Fresh then 1 else 0))"
proof -
  from assms(1) obtain xs ys where es: "rc_entries c = xs @ (n, t) # ys" "length ys \<le> k"
    by (auto simp: holds_entry_def)
  obtain zs where ev: "evict_entries (rc_ttl c) now (xs @ (n, t) # ys) = zs @ (n, t) # ys"
    using evict_keeps [OF assms(2)] by blast
  have "replay_push (rc_cap c) (zs @ (n, t) # ys) (m, now)
      = drop (length zs + length ys + 2 - rc_cap c) zs @ (n, t) # ys @ [(m, now)]"
    if "a = Fresh"
    using that assms(4) es(2) by (simp add: replay_push_def pop_overflow_lastn lastn_def)
  then show ?thesis
    using assms(3,4) es ev
    by (auto simp: observe_def evict_expired_def Let_def holds_entry_def split: if_splits) fastforce+
qed

lemma observe_all_keeps:
  assumes "holds_entry c (n, t) k" "observe_all c obs = (outs, c')"
    and "\<forall>o' \<in> set obs. snd o' - t < rc_ttl c" "k + count_list outs Fresh < rc_cap c"
  shows "holds_entry c' (n, t) (k + count_list outs Fresh) \<and> rc_ttl c' = rc_ttl c"
  using assms
proof (induction obs arbitrary: c k outs)
  case (Cons o' obs)
  obtain m now where o': "o' = (m, now)" by (cases o')
  obtain a c1 where ob: "observe c m now = (a, c1)" by fastforce
  obtain rest c2 where r: "observe_all c1 obs = (rest, c2)" by fastforce
  have outs: "outs = a # rest" "c' = c2" using Cons.prems(2) by (auto simp: o' ob r)
  have par: "rc_cap c1 = rc_cap c" "rc_ttl c1 = rc_ttl c" using observe_params [of c m now] ob by auto
  have "holds_entry c1 (n, t) (k + (if a = Fresh then 1 else 0))"
    using observe_keeps [OF Cons.prems(1) _ ob] Cons.prems(3,4) by (simp add: o' outs split: if_splits)
  from Cons.IH [OF this, of rest] show ?case
    using Cons.prems(3,4) r par outs by (auto simp: o' split: if_splits)
qed (auto)

section \<open>Properties\<close>

text \<open>
  C15: the replay cache implements the abstract window.  On any sequence of
  observations at non-decreasing instants, starting from an empty cache with any
  capacity and any positive TTL, it answers exactly as the specification that
  remembers every accepted nonce and looks for the observed one among the last
  \<open>cap\<close> accepted nonces that are younger than the TTL.
\<close>

theorem replay_cache_refines_window:
  assumes "0 < ttl" "sorted (map snd obs)"
  shows "fst (observe_all (replay_new cap ttl) obs) = fst (spec_observe_all cap ttl [] obs)"
  by (rule replay_rel_run [of _ _ _ _ 0])
     (use assms in \<open>auto simp: replay_rel_def replay_new_def live_window_def\<close>)

theorem replay_cache_refines_window_witness:
  "fst (observe_all (replay_new 2 10) [([1], 0), ([1], 9), ([2], 9), ([1], 10)])
     = [Fresh, Replayed, Fresh, Fresh]"
  by (subst replay_cache_refines_window; code_simp)

text \<open>
  A captured response cannot be replayed inside the window.  Once the cache
  accepted a nonce at instant \<open>t\<close>, any later observation of the same nonce less
  than the TTL after \<open>t\<close>, with fewer than \<open>cap\<close> other nonces accepted since, is
  answered with \<open>Replayed\<close>, whatever was observed in between.
\<close>

theorem replay_rejected:
  assumes "observe c n t = (Fresh, c1)" "observe_all c1 obs = (outs, c2)"
    and "\<forall>o' \<in> set obs. snd o' \<le> t'" "t' - t < rc_ttl c" "count_list outs Fresh < rc_cap c"
  shows "fst (observe c2 n t') = Replayed"
proof -
  have par: "rc_cap c1 = rc_cap c" "rc_ttl c1 = rc_ttl c" using observe_params [of c n t] assms(1) by auto
  have "holds_entry c1 (n, t) 0"
    using assms(1,5) unfolding holds_entry_def
    by (auto simp: observe_def Let_def evict_expired_def replay_push_def pop_overflow_lastn lastn_snoc
             split: if_splits)
  from observe_all_keeps [OF this assms(2)] have "holds_entry c2 (n, t) (count_list outs Fresh)"
    and ttl: "rc_ttl c2 = rc_ttl c"
    using assms(3-5) par by fastforce+
  then obtain xs ys where es: "rc_entries c2 = xs @ (n, t) # ys" by (auto simp: holds_entry_def)
  obtain zs where "evict_entries (rc_ttl c) t' (xs @ (n, t) # ys) = zs @ (n, t) # ys"
    using evict_keeps [OF assms(4)] by blast
  then show ?thesis by (simp add: observe_def evict_expired_def Let_def es ttl)
qed

theorem replay_rejected_witness:
  "fst (observe (snd (observe_all (snd (observe (replay_new 4 10) [7] 5)) [([8], 6)])) [7] 14)
     = Replayed"
  by (rule replay_rejected [of "replay_new 4 10" "[7]" 5
        "snd (observe (replay_new 4 10) [7] 5)" "[([8], 6)]" "[Fresh]"])
     code_simp+

text \<open>
  C26: the nonce memory of the daemon holds exactly the last 64 distinct nonces
  inserted: whatever was inserted before, after a run of inserts the cache
  contains a nonce if and only if it is one of the last 64.
\<close>

theorem nonce_cache_last_64:
  "ns \<noteq> [] \<Longrightarrow>
     nc_contains (foldl nc_insert nonce_cache_new ns) n \<longleftrightarrow> n \<in> set (lastn 64 ns)"
  using daemon_window.window_pushes [of nonce_cache_new ns]
  by (simp add: nonce_cache_new_def const_defs)

theorem nonce_cache_last_64_witness:
  "nc_contains (foldl nc_insert nonce_cache_new [[1], [2]]) [1]"
  using nonce_cache_last_64 [of "[[1], [2]]" "[1]"] by (simp add: lastn_def)

end
