(* ===== verification/FileSystem.thy ===== *)
theory FileSystem
  imports Prelude
begin

text \<open>
  What the program uses of the operating system's files.  A path is the list of
  its components, a node is a file with its bytes and mode or a directory with
  its mode.  Every primitive may fail: the environment record names, for each
  operation, the error it returns.  The record of the file system also keeps the
  list of all states it went through, so that a theorem can speak about a crash
  between two primitives.
\<close>

type_synonym path = "string list"
type_synonym mode = "32 word"

datatype io_error =
    NotFound | PermissionDenied | AlreadyExists | InvalidInput | InvalidData | NotADirectory
  | IsADirectory | WouldBlock | TimedOutIo | ConnectionRefused | UnexpectedEof | OtherIo nat

datatype node = FileNode bytes mode | DirNode mode

type_synonym nodes = "path \<Rightarrow> node option"

record fs =
  fs_nodes :: nodes
  fs_past :: "nodes list"

datatype sys_op =
    OpRead path | OpStat path | OpMkdir path | OpChmod path | OpTemp path
  | OpWrite path | OpSync path | OpRename path path | OpOpen path | OpRemove path

record sys_env =
  sys_fail :: "sys_op \<Rightarrow> io_error option"
  sys_short :: nat
  sys_temp :: string
  sys_umask_dir :: mode
  sys_umask_file :: mode

definition fs_set :: "path \<Rightarrow> node option \<Rightarrow> fs \<Rightarrow> fs" where
  "fs_set p n s = s\<lparr> fs_nodes := (fs_nodes s)(p := n), fs_past := fs_nodes s # fs_past s \<rparr>"

text \<open>\<open>Path::parent\<close>: \<open>None\<close> for the root only.\<close>

definition parent :: "path \<Rightarrow> path option" where
  "parent p = (if p = [] then None else Some (butlast p))"

text \<open>A primitive first asks the environment whether it fails.\<close>

definition guarded :: "sys_env \<Rightarrow> sys_op \<Rightarrow> fs \<Rightarrow> (io_error + 'a) \<times> fs \<Rightarrow> (io_error + 'a) \<times> fs" where
  "guarded e op s r = (case sys_fail e op of Some err \<Rightarrow> (Err err, s) | None \<Rightarrow> r)"

definition read_file :: "sys_env \<Rightarrow> fs \<Rightarrow> path \<Rightarrow> io_error + bytes" where
  "read_file e s p =
     (case sys_fail e (OpRead p) of
        Some err \<Rightarrow> Err err
      | None \<Rightarrow> (case fs_nodes s p of
            None \<Rightarrow> Err NotFound
          | Some (DirNode _) \<Rightarrow> Err IsADirectory
          | Some (FileNode bs _) \<Rightarrow> Ok bs))"

definition metadata :: "sys_env \<Rightarrow> fs \<Rightarrow> path \<Rightarrow> io_error + node" where
  "metadata e s p =
     (case sys_fail e (OpStat p) of
        Some err \<Rightarrow> Err err
      | None \<Rightarrow> (case fs_nodes s p of None \<Rightarrow> Err NotFound | Some n \<Rightarrow> Ok n))"

definition node_mode :: "node \<Rightarrow> mode" where
  "node_mode n = (case n of FileNode _ m \<Rightarrow> m | DirNode m \<Rightarrow> m)"

text \<open>\<open>fs::create_dir_all\<close>: make every missing prefix, outermost first.\<close>

fun mkdirs :: "mode \<Rightarrow> path list \<Rightarrow> fs \<Rightarrow> (io_error + unit) \<times> fs" where
  "mkdirs mode [] s = (Ok (), s)"
| "mkdirs mode (p # ps) s =
     (case fs_nodes s p of
        Some (FileNode _ _) \<Rightarrow> (Err NotADirectory, s)
      | Some (DirNode _) \<Rightarrow> mkdirs mode ps s
      | None \<Rightarrow> mkdirs mode ps (fs_set p (Some (DirNode mode)) s))"

definition ancestors :: "path \<Rightarrow> path list" where
  "ancestors p = map (\<lambda>k. take k p) [1..<Suc (length p)]"

definition create_dir_all :: "sys_env \<Rightarrow> path \<Rightarrow> fs \<Rightarrow> (io_error + unit) \<times> fs" where
  "create_dir_all e p s = guarded e (OpMkdir p) s (mkdirs (sys_umask_dir e) (ancestors p) s)"

definition set_permissions :: "sys_env \<Rightarrow> path \<Rightarrow> mode \<Rightarrow> fs \<Rightarrow> (io_error + unit) \<times> fs" where
  "set_permissions e p md s = guarded e (OpChmod p) s
     (case fs_nodes s p of
        None \<Rightarrow> (Err NotFound, s)
      | Some (FileNode bs _) \<Rightarrow> (Ok (), fs_set p (Some (FileNode bs md)) s)
      | Some (DirNode _) \<Rightarrow> (Ok (), fs_set p (Some (DirNode md)) s))"

text \<open>\<open>NamedTempFile::new_in\<close>: an empty private file under a name no entry has.\<close>

definition temp_path :: "sys_env \<Rightarrow> path \<Rightarrow> path" where
  "temp_path e dir = dir @ [sys_temp e]"

definition new_temp :: "sys_env \<Rightarrow> path \<Rightarrow> fs \<Rightarrow> (io_error + path) \<times> fs" where
  "new_temp e dir s = guarded e (OpTemp dir) s
     (case fs_nodes s dir of
        Some (DirNode _) \<Rightarrow>
          (if fs_nodes s (temp_path e dir) = None
           then (Ok (temp_path e dir), fs_set (temp_path e dir) (Some (FileNode [] 384)) s)
           else (Err AlreadyExists, s))
      | Some (FileNode _ _) \<Rightarrow> (Err NotADirectory, s)
      | None \<Rightarrow> (Err NotFound, s))"

text \<open>\<open>write_all\<close>: a failing write leaves a prefix of the bytes behind.\<close>

definition write_all :: "sys_env \<Rightarrow> path \<Rightarrow> bytes \<Rightarrow> fs \<Rightarrow> (io_error + unit) \<times> fs" where
  "write_all e p bs s =
     (case fs_nodes s p of
        Some (FileNode old m) \<Rightarrow>
          (case sys_fail e (OpWrite p) of
             Some err \<Rightarrow> (Err err, fs_set p (Some (FileNode (old @ take (sys_short e) bs) m)) s)
           | None \<Rightarrow> (Ok (), fs_set p (Some (FileNode (old @ bs) m)) s))
      | _ \<Rightarrow> (Err NotFound, s))"

definition sync_all :: "sys_env \<Rightarrow> path \<Rightarrow> fs \<Rightarrow> (io_error + unit) \<times> fs" where
  "sync_all e p s = guarded e (OpSync p) s (Ok (), s)"

text \<open>\<open>rename(2)\<close> replaces the destination in one step.\<close>

definition rename :: "sys_env \<Rightarrow> path \<Rightarrow> path \<Rightarrow> fs \<Rightarrow> (io_error + unit) \<times> fs" where
  "rename e src dst s = guarded e (OpRename src dst) s
     (case fs_nodes s src of
        None \<Rightarrow> (Err NotFound, s)
      | Some n \<Rightarrow>
          (case fs_nodes s dst of
             Some (DirNode _) \<Rightarrow> (Err IsADirectory, s)
           | _ \<Rightarrow> (Ok (), s\<lparr> fs_nodes := (fs_nodes s)(dst := Some n, src := None),
                           fs_past := fs_nodes s # fs_past s \<rparr>)))"

text \<open>Dropping a \<open>NamedTempFile\<close> that was not persisted removes it.\<close>

definition drop_temp :: "path \<Rightarrow> fs \<Rightarrow> fs" where
  "drop_temp p s = fs_set p None s"

text \<open>\<open>OpenOptions::new().create(true).append(true)\<close> and one \<open>write_all\<close> on the handle.\<close>

definition open_append :: "sys_env \<Rightarrow> path \<Rightarrow> mode \<Rightarrow> fs \<Rightarrow> (io_error + unit) \<times> fs" where
  "open_append e p mode s = guarded e (OpOpen p) s
     (case fs_nodes s p of
        Some (DirNode _) \<Rightarrow> (Err IsADirectory, s)
      | Some (FileNode _ _) \<Rightarrow> (Ok (), s)
      | None \<Rightarrow>
          (case parent p of
             None \<Rightarrow> (Err InvalidInput, s)
           | Some d \<Rightarrow>
               (case fs_nodes s d of
                  Some (DirNode _) \<Rightarrow> (Ok (), fs_set p (Some (FileNode [] mode)) s)
                | Some (FileNode _ _) \<Rightarrow> (Err NotADirectory, s)
                | None \<Rightarrow> (Err NotFound, s))))"

text \<open>\<open>fs::write\<close>: create or truncate, then write; a failing write leaves a prefix.\<close>

definition write_file :: "sys_env \<Rightarrow> path \<Rightarrow> bytes \<Rightarrow> fs \<Rightarrow> (io_error + unit) \<times> fs" where
  "write_file e p bs s = guarded e (OpOpen p) s
     (case fs_nodes s p of
        Some (DirNode _) \<Rightarrow> (Err IsADirectory, s)
      | Some (FileNode _ m) \<Rightarrow> write_all e p bs (fs_set p (Some (FileNode [] m)) s)
      | None \<Rightarrow>
          (case parent p of
             None \<Rightarrow> (Err InvalidInput, s)
           | Some d \<Rightarrow>
               (case fs_nodes s d of
                  Some (DirNode _) \<Rightarrow> write_all e p bs (fs_set p (Some (FileNode [] (sys_umask_file e))) s)
                | Some (FileNode _ _) \<Rightarrow> (Err NotADirectory, s)
                | None \<Rightarrow> (Err NotFound, s))))"

definition remove_file :: "sys_env \<Rightarrow> path \<Rightarrow> fs \<Rightarrow> (io_error + unit) \<times> fs" where
  "remove_file e p s = guarded e (OpRemove p) s
     (case fs_nodes s p of
        Some (FileNode _ _) \<Rightarrow> (Ok (), fs_set p None s)
      | Some (DirNode _) \<Rightarrow> (Err IsADirectory, s)
      | None \<Rightarrow> (Err NotFound, s))"

text \<open>\<open>Path::exists\<close>.\<close>

definition path_exists :: "sys_env \<Rightarrow> fs \<Rightarrow> path \<Rightarrow> bool" where
  "path_exists e s p = (case metadata e s p of Inl _ \<Rightarrow> False | Inr _ \<Rightarrow> True)"

text \<open>
  \<open>fs::copy\<close>: the source is opened, the destination created or truncated with the
  mode of the source, then the bytes are copied; a failing copy leaves a prefix.
  A file copied onto itself has been truncated before its bytes are read.
\<close>

definition copy_file :: "sys_env \<Rightarrow> path \<Rightarrow> path \<Rightarrow> fs \<Rightarrow> (io_error + unit) \<times> fs" where
  "copy_file e src dst s =
     (case sys_fail e (OpRead src) of
        Some err \<Rightarrow> (Err err, s)
      | None \<Rightarrow>
          (case fs_nodes s src of
             None \<Rightarrow> (Err NotFound, s)
           | Some (DirNode _) \<Rightarrow> (Err InvalidInput, s)
           | Some (FileNode bs m) \<Rightarrow> guarded e (OpOpen dst) s
               (case fs_nodes s dst of
                  Some (DirNode _) \<Rightarrow> (Err IsADirectory, s)
                | Some (FileNode _ _) \<Rightarrow>
                    write_all e dst (if src = dst then [] else bs) (fs_set dst (Some (FileNode [] m)) s)
                | None \<Rightarrow>
                    (case parent dst of
                       None \<Rightarrow> (Err InvalidInput, s)
                     | Some d \<Rightarrow>
                         (case fs_nodes s d of
                            Some (DirNode _) \<Rightarrow> write_all e dst bs (fs_set dst (Some (FileNode [] m)) s)
                          | Some (FileNode _ _) \<Rightarrow> (Err NotADirectory, s)
                          | None \<Rightarrow> (Err NotFound, s))))))"

section \<open>Replacing a file through a temporary one\<close>

text \<open>
  The idiom of every writer in the program: make a temporary file beside the
  target, run some steps on it, rename it over the target; on any error the
  temporary is dropped.  Each failure is mapped to the caller's error.
\<close>

definition on_err :: "('e \<Rightarrow> 'f) \<Rightarrow> ('e + 'a) \<times> 's \<Rightarrow> ('f + 'a) \<times> 's" where
  "on_err g r = (map_err g (fst r), snd r)"

fun run_steps :: "(path \<Rightarrow> fs \<Rightarrow> ('e + unit) \<times> fs) list \<Rightarrow> path \<Rightarrow> fs \<Rightarrow> ('e + unit) \<times> fs" where
  "run_steps [] t s = (Ok (), s)"
| "run_steps (f # fs) t s = (case f t s of (Inl x, s1) \<Rightarrow> (Err x, s1) | (Inr _, s1) \<Rightarrow> run_steps fs t s1)"

definition replace_via_temp ::
    "sys_env \<Rightarrow> path \<Rightarrow> (io_error \<Rightarrow> 'e) \<Rightarrow> (path \<Rightarrow> fs \<Rightarrow> ('e + unit) \<times> fs) list \<Rightarrow> path \<Rightarrow>
     (io_error \<Rightarrow> 'e) \<Rightarrow> fs \<Rightarrow> ('e + unit) \<times> fs" where
  "replace_via_temp e dir terr steps dst perr s =
     (case new_temp e dir s of
        (Inl x, s1) \<Rightarrow> (Err (terr x), s1)
      | (Inr t, s1) \<Rightarrow>
          (case run_steps steps t s1 of
             (Inl x, s2) \<Rightarrow> (Err x, drop_temp t s2)
           | (Inr _, s2) \<Rightarrow>
               (case rename e t dst s2 of
                  (Inl x, s3) \<Rightarrow> (Err (perr x), drop_temp t s3)
                | (Inr _, s3) \<Rightarrow> (Ok (), s3))))"

section \<open>States seen by a crash\<close>

text \<open>All states from \<open>s\<close> (inclusive) up to \<open>s'\<close>, newest first.\<close>

definition fs_all :: "fs \<Rightarrow> nodes list" where
  "fs_all s = fs_nodes s # fs_past s"

text \<open>
  \<open>only_touches P s s'\<close>: every state added between \<open>s\<close> and \<open>s'\<close> agrees with \<open>s\<close> on
  the paths outside \<open>P\<close>.
\<close>

definition only_touches :: "path set \<Rightarrow> fs \<Rightarrow> fs \<Rightarrow> bool" where
  "only_touches P s s' \<longleftrightarrow>
     (\<exists>new. fs_all s' = new @ fs_all s \<and> (\<forall>m \<in> set new. \<forall>p. p \<notin> P \<longrightarrow> m p = fs_nodes s p))"

lemma only_touches_nodes:
  assumes "only_touches P s s'" "p \<notin> P"
  shows "fs_nodes s' p = fs_nodes s p"
proof -
  from assms(1) obtain new where "fs_all s' = new @ fs_all s"
    and "\<forall>m \<in> set new. \<forall>p. p \<notin> P \<longrightarrow> m p = fs_nodes s p"
    unfolding only_touches_def by blast
  then show ?thesis using assms(2) by (cases new) (auto simp: fs_all_def)
qed

lemma only_touches_refl [simp]: "only_touches P s s"
  by (auto simp: only_touches_def intro: exI [of _ "[]"])

lemma only_touches_trans:
  assumes "only_touches P s s'" "only_touches P s' s''"
  shows "only_touches P s s''"
proof -
  from assms obtain n1 n2 where n: "fs_all s' = n1 @ fs_all s" "fs_all s'' = n2 @ fs_all s'"
    and a: "\<forall>m \<in> set n1. \<forall>p. p \<notin> P \<longrightarrow> m p = fs_nodes s p"
           "\<forall>m \<in> set n2. \<forall>p. p \<notin> P \<longrightarrow> m p = fs_nodes s' p"
    unfolding only_touches_def by blast
  have "\<forall>p. p \<notin> P \<longrightarrow> fs_nodes s' p = fs_nodes s p" using only_touches_nodes [OF assms(1)] by blast
  with a n show ?thesis unfolding only_touches_def by (intro exI [of _ "n2 @ n1"]) auto
qed

lemma only_touches_set [intro]: "p \<in> P \<Longrightarrow> only_touches P s (fs_set p n s)"
  unfolding only_touches_def fs_all_def fs_set_def
  by (rule exI [of _ "[(fs_nodes s)(p := n)]"]) auto

lemma fs_nodes_set [simp]: "fs_nodes (fs_set p n s) = (fs_nodes s)(p := n)"
  by (simp add: fs_set_def)

lemma fs_all_set [simp]: "fs_all (fs_set p n s) = (fs_nodes s)(p := n) # fs_all s"
  by (simp add: fs_all_def fs_set_def)

text \<open>Effects of the primitives, one lemma each.\<close>

lemma guarded_touches:
  assumes "guarded e op s r = (x, s')" "\<And>y. r = (y, s') \<Longrightarrow> only_touches P s s'"
  shows "only_touches P s s'"
  using assms by (auto simp: guarded_def split: option.splits)

lemma mkdirs_touches:
  "mkdirs mode ps s = (r, s') \<Longrightarrow> set ps \<subseteq> P \<Longrightarrow> only_touches P s s'"
proof (induction mode ps s rule: mkdirs.induct)
  case (2 mode p ps s)
  then show ?case
    by (auto split: option.splits node.splits intro: only_touches_trans [OF only_touches_set])
qed simp

lemma create_dir_all_touches:
  "create_dir_all e p s = (r, s') \<Longrightarrow> only_touches (set (ancestors p)) s s'"
  unfolding create_dir_all_def by (erule guarded_touches) (simp add: mkdirs_touches)

lemma set_permissions_touches: "set_permissions e p m s = (r, s') \<Longrightarrow> only_touches {p} s s'"
  unfolding set_permissions_def by (erule guarded_touches) (auto split: option.splits node.splits)

lemma new_temp_touches: "new_temp e d s = (r, s') \<Longrightarrow> only_touches {temp_path e d} s s'"
  unfolding new_temp_def by (erule guarded_touches) (auto split: option.splits node.splits if_splits)

lemma write_all_touches: "write_all e p bs s = (r, s') \<Longrightarrow> only_touches {p} s s'"
  by (auto simp: write_all_def split: option.splits node.splits)

lemma sync_all_same: "sync_all e p s = (r, s') \<Longrightarrow> s' = s"
  by (auto simp: sync_all_def guarded_def split: option.splits)

lemma write_file_touches: "write_file e p bs s = (r, s') \<Longrightarrow> only_touches {p} s s'"
  unfolding write_file_def
  by (erule guarded_touches)
     (auto split: option.splits node.splits
           intro: only_touches_trans [OF only_touches_set write_all_touches])

lemma ancestors_shorter: "q \<in> set (ancestors p) \<Longrightarrow> length q \<le> length p"
  by (auto simp: ancestors_def)

lemma set_permissions_temp: "set_permissions e p m s = (r, s') \<Longrightarrow> p \<in> P \<Longrightarrow> only_touches P s s'"
  unfolding set_permissions_def by (erule guarded_touches) (auto split: option.splits node.splits)

lemma on_err_Pair: "on_err g r = (x, s') \<longleftrightarrow> (\<exists>y. r = (y, s') \<and> x = map_err g y)"
  by (cases r) (auto simp: on_err_def)

text \<open>A step list is local when each of its steps changes the temporary file only.\<close>

definition local_steps :: "(path \<Rightarrow> fs \<Rightarrow> ('e + unit) \<times> fs) list \<Rightarrow> bool" where
  "local_steps steps \<longleftrightarrow> (\<forall>f \<in> set steps. \<forall>t s r s'. f t s = (r, s') \<longrightarrow> only_touches {t} s s')"

lemma local_steps_Nil [simp]: "local_steps []"
  by (simp add: local_steps_def)

lemma local_steps_Cons [simp]:
  "local_steps (f # fs) \<longleftrightarrow> (\<forall>t s r s'. f t s = (r, s') \<longrightarrow> only_touches {t} s s') \<and> local_steps fs"
  by (auto simp: local_steps_def)

lemma run_steps_touches:
  "local_steps steps \<Longrightarrow> run_steps steps t s = (r, s') \<Longrightarrow> only_touches {t} s s'"
proof (induction steps t s rule: run_steps.induct)
  case (2 f fs t s)
  obtain x s1 where f: "f t s = (x, s1)" by fastforce
  then have "only_touches {t} s s1" using 2(2) by auto
  then show ?case using 2 f only_touches_trans [of "{t}" s s1 s'] by (cases x) auto
qed simp

text \<open>
  What a crash or an error can leave at the target: at every instant the old
  node, until the rename; the new one only when the whole routine succeeds.
\<close>

text \<open>A replacement fails with nothing but the temporary file touched, or ends with the rename.\<close>

lemma replace_via_temp_cases:
  assumes "replace_via_temp e dir terr steps dst perr s = (r, s')" "local_steps steps"
  obtains (err) "only_touches {temp_path e dir} s s'" "\<not> is_ok r"
    | (ok) s2 n where "only_touches {temp_path e dir} s s2" "r = Ok ()" "fs_all s' = fs_nodes s' # fs_all s2"
        "fs_nodes s' = (fs_nodes s2)(dst := Some n, temp_path e dir := None)"
proof -
  let ?t = "temp_path e dir"
  obtain x s1 where nt: "new_temp e dir s = (x, s1)" by fastforce
  have t1: "only_touches {?t} s s1" using new_temp_touches [OF nt] .
  have xt: "x = Ok t \<Longrightarrow> t = ?t" for t
    using nt by (auto simp: new_temp_def guarded_def split: option.splits node.splits if_splits)
  show thesis
  proof (cases x)
    case (Inl err)
    then show ?thesis using assms(1) nt t1 that(1) by (auto simp: replace_via_temp_def)
  next
    case (Inr t)
    obtain y s2 where rs: "run_steps steps ?t s1 = (y, s2)" by fastforce
    have t2: "only_touches {?t} s s2" using t1 run_steps_touches [OF assms(2) rs] only_touches_trans by blast
    have dr: "only_touches {?t} s (drop_temp ?t s2)"
      using t2 unfolding drop_temp_def by (rule only_touches_trans) auto
    show ?thesis
      using assms(1) nt rs t2 dr xt [OF Inr] Inr that
      by (cases y)
         (auto simp: replace_via_temp_def rename_def guarded_def fs_all_def split: option.splits node.splits)
  qed
qed

lemma replace_via_temp_atomic:
  assumes "replace_via_temp e dir terr steps dst perr s = (r, s')" "local_steps steps"
    and "dst \<noteq> temp_path e dir"
  shows "\<exists>new. fs_all s' = new @ fs_all s \<and>
           (\<forall>m \<in> set new. m dst = fs_nodes s dst \<or> (r = Ok () \<and> m dst = fs_nodes s' dst))"
    and "is_ok r \<or> fs_nodes s' dst = fs_nodes s dst"
    and "p \<noteq> dst \<Longrightarrow> p \<noteq> temp_path e dir \<Longrightarrow> fs_nodes s' p = fs_nodes s p"
proof -
  let ?t = "temp_path e dir"
  let ?A = "\<exists>new. fs_all s' = new @ fs_all s \<and>
      (\<forall>m \<in> set new. m dst = fs_nodes s dst \<or> (r = Ok () \<and> m dst = fs_nodes s' dst))"
  have ex: "only_touches {?t} s s'' \<Longrightarrow> \<exists>new. fs_all s'' = new @ fs_all s \<and> (\<forall>m \<in> set new. m dst = fs_nodes s dst)"
    for s'' using assms(3) unfolding only_touches_def by blast
  from assms(1,2) have "?A \<and> (is_ok r \<or> fs_nodes s' dst = fs_nodes s dst) \<and> (p \<noteq> dst \<longrightarrow> p \<noteq> ?t \<longrightarrow> fs_nodes s' p = fs_nodes s p)"
  proof (cases rule: replace_via_temp_cases)
    case err
    then show ?thesis using ex [of s'] assms(3) only_touches_nodes [OF err(1)] by auto
  next
    case (ok s2 n)
    obtain new where "fs_all s2 = new @ fs_all s" "\<forall>m \<in> set new. m dst = fs_nodes s dst"
      using ex [OF ok(1)] by blast
    then have "fs_all s' = (fs_nodes s' # new) @ fs_all s" "\<forall>m \<in> set new. m dst = fs_nodes s dst"
      using ok(3) by auto
    then show ?thesis
      using ok(2,4) only_touches_nodes [OF ok(1)] by (intro conjI exI [of _ "fs_nodes s' # new"]) auto
  qed
  then show ?A and "is_ok r \<or> fs_nodes s' dst = fs_nodes s dst"
    and "p \<noteq> dst \<Longrightarrow> p \<noteq> temp_path e dir \<Longrightarrow> fs_nodes s' p = fs_nodes s p"
    by blast+
qed

lemma replace_via_temp_ok:
  assumes "replace_via_temp e dir terr steps dst perr s = (Ok (), s')" "dst \<noteq> temp_path e dir"
  obtains s1 s2 where "run_steps steps (temp_path e dir) s1 = (Ok (), s2)"
    and "fs_nodes s1 (temp_path e dir) = Some (FileNode [] 384)"
    and "fs_nodes s' dst = fs_nodes s2 (temp_path e dir)"
  using assms
  by (auto simp: replace_via_temp_def new_temp_def rename_def guarded_def
           split: option.splits prod.splits sum.splits node.splits if_splits)

lemma set_permissions_ok:
  "set_permissions e p md s = (Ok (), s') \<Longrightarrow> fs_nodes s p = Some (FileNode bs m0) \<Longrightarrow>
     fs_nodes s' p = Some (FileNode bs md)"
  by (auto simp: set_permissions_def guarded_def split: option.splits)

lemma write_all_ok:
  "write_all e p bs s = (Ok (), s') \<Longrightarrow> fs_nodes s p = Some (FileNode old m) \<Longrightarrow>
     fs_nodes s' p = Some (FileNode (old @ bs) m)"
  by (auto simp: write_all_def split: option.splits)

lemma only_touches_mono: "only_touches P s s' \<Longrightarrow> P \<subseteq> Q \<Longrightarrow> only_touches Q s s'"
  unfolding only_touches_def by blast

lemma copy_file_touches: "copy_file e src dst s = (r, s') \<Longrightarrow> only_touches {dst} s s'"
  by (auto simp: copy_file_def guarded_def split: option.splits node.splits
           intro: only_touches_trans [OF only_touches_set write_all_touches])

lemma copy_file_ok:
  assumes "copy_file e src dst s = (Ok (), s')" "fs_nodes s src = Some (FileNode bs m)" "src \<noteq> dst"
  shows "fs_nodes s' dst = Some (FileNode bs m)"
  using assms by (auto simp: copy_file_def guarded_def write_all_def split: option.splits node.splits)

lemma remove_file_touches: "remove_file e p s = (r, s') \<Longrightarrow> only_touches {p} s s'"
  unfolding remove_file_def by (erule guarded_touches) (auto split: option.splits node.splits)

lemma rename_touches: "rename e a b s = (r, s') \<Longrightarrow> only_touches {a, b} s s'"
  by (auto simp: rename_def guarded_def only_touches_def fs_all_def split: option.splits node.splits)

lemma replace_via_temp_touches:
  assumes "replace_via_temp e dir terr steps dst perr s = (r, s')" "local_steps steps"
  shows "only_touches {dst, temp_path e dir} s s'"
proof -
  let ?t = "temp_path e dir" and ?P = "{dst, temp_path e dir}"
  obtain x s1 where nt: "new_temp e dir s = (x, s1)" by fastforce
  have t1: "only_touches ?P s s1" by (rule only_touches_mono [OF new_temp_touches [OF nt]]) simp
  show ?thesis
  proof (cases x)
    case (Inl err)
    then show ?thesis using assms(1) nt t1 by (simp add: replace_via_temp_def)
  next
    case (Inr t)
    then have t: "t = ?t" using nt by (auto simp: new_temp_def guarded_def split: option.splits node.splits if_splits)
    obtain y s2 where rs: "run_steps steps ?t s1 = (y, s2)" by fastforce
    have t2: "only_touches ?P s s2"
      by (rule only_touches_trans [OF t1 only_touches_mono [OF run_steps_touches [OF assms(2) rs]]]) simp
    have dr: "only_touches ?P u (drop_temp ?t u)" for u unfolding drop_temp_def by auto
    obtain z s3 where rn: "rename e ?t dst s2 = (z, s3)" by fastforce
    have t3: "only_touches ?P s s3"
      by (rule only_touches_trans [OF t2 only_touches_mono [OF rename_touches [OF rn]]]) auto
    show ?thesis
      using assms(1) nt Inr t rs rn only_touches_trans [OF t2 dr] only_touches_trans [OF t3 dr] t3
      by (cases y; cases z) (auto simp: replace_via_temp_def)
  qed
qed

end
