(* ===== verification/Text.thy ===== *)
theory Text
  imports Prelude
begin

text \<open>
  Strings of the program.  A Rust \<open>String\<close> is its list of UTF-8 bytes, held as a
  \<open>string\<close>.  The theory models what the sources use of \<open>str\<close>: the validity of
  UTF-8, prefixes, lines, white space, decimal and hexadecimal numbers.
\<close>

section \<open>Bytes and characters\<close>

definition byte_of_char :: "char \<Rightarrow> byte" where
  "byte_of_char c = word_of_nat (of_char c)"

definition char_of_byte :: "byte \<Rightarrow> char" where
  "char_of_byte b = char_of (unat b)"

definition str_bytes :: "string \<Rightarrow> bytes" where
  "str_bytes s = map byte_of_char s"

definition bytes_str :: "bytes \<Rightarrow> string" where
  "bytes_str bs = map char_of_byte bs"

lemma char_of_byte_of_char [simp]: "char_of_byte (byte_of_char c) = c"
  by (simp add: char_of_byte_def byte_of_char_def unat_of_nat)

lemma byte_of_char_of_byte [simp]: "byte_of_char (char_of_byte b) = b"
proof -
  have "unat b < 256" using unsigned_less [of b] by simp
  then have "(of_char (char_of (unat b) :: char) :: nat) = unat b" by (simp add: of_char_of)
  then show ?thesis by (simp add: char_of_byte_def byte_of_char_def)
qed

lemma bytes_str_bytes [simp]: "bytes_str (str_bytes s) = s"
  by (simp add: bytes_str_def str_bytes_def o_def)

lemma str_bytes_str [simp]: "str_bytes (bytes_str bs) = bs"
  by (simp add: bytes_str_def str_bytes_def o_def)

section \<open>UTF-8\<close>

definition utf8_cont :: "byte \<Rightarrow> bool" where
  "utf8_cont b \<longleftrightarrow> 128 \<le> b \<and> b \<le> 191"

text \<open>The well-formed two-, three- and four-byte sequences of the Unicode standard.\<close>

definition utf8_lead2 :: "byte \<Rightarrow> byte \<Rightarrow> bool" where
  "utf8_lead2 b0 b1 \<longleftrightarrow> 194 \<le> b0 \<and> b0 \<le> 223 \<and> utf8_cont b1"

definition utf8_lead3 :: "byte \<Rightarrow> byte \<Rightarrow> bool" where
  "utf8_lead3 b0 b1 \<longleftrightarrow> 224 \<le> b0 \<and> b0 \<le> 239 \<and> utf8_cont b1 \<and>
     (b0 = 224 \<longrightarrow> 160 \<le> b1) \<and> (b0 = 237 \<longrightarrow> b1 \<le> 159)"

definition utf8_lead4 :: "byte \<Rightarrow> byte \<Rightarrow> bool" where
  "utf8_lead4 b0 b1 \<longleftrightarrow> 240 \<le> b0 \<and> b0 \<le> 244 \<and> utf8_cont b1 \<and>
     (b0 = 240 \<longrightarrow> 144 \<le> b1) \<and> (b0 = 244 \<longrightarrow> b1 \<le> 143)"

fun utf8_valid :: "bytes \<Rightarrow> bool" where
  "utf8_valid [] = True"
| "utf8_valid (b0 # r0) =
     (if b0 < 128 then utf8_valid r0
      else case r0 of [] \<Rightarrow> False
      | b1 # r1 \<Rightarrow>
          if utf8_lead2 b0 b1 then utf8_valid r1
          else case r1 of [] \<Rightarrow> False
          | b2 # r2 \<Rightarrow>
              if utf8_lead3 b0 b1 \<and> utf8_cont b2 then utf8_valid r2
              else case r2 of [] \<Rightarrow> False
              | b3 # r3 \<Rightarrow> utf8_lead4 b0 b1 \<and> utf8_cont b2 \<and> utf8_cont b3 \<and> utf8_valid r3)"

text \<open>\<open>String::from_utf8\<close>.\<close>

definition from_utf8 :: "bytes \<Rightarrow> string option" where
  "from_utf8 bs = (if utf8_valid bs then Some (bytes_str bs) else None)"

text \<open>\<open>str::is_char_boundary\<close>: slicing a \<open>str\<close> elsewhere panics.\<close>

definition char_boundary :: "string \<Rightarrow> nat \<Rightarrow> bool" where
  "char_boundary s i \<longleftrightarrow> i = length s \<or> (i < length s \<and> \<not> utf8_cont (byte_of_char (s ! i)))"

lemma utf8_valid_ascii: "(\<forall>b \<in> set bs. b < 128) \<Longrightarrow> utf8_valid bs"
  by (induction bs) auto

section \<open>Numbers\<close>

definition hex_char :: "nat \<Rightarrow> char" where
  "hex_char n = ''0123456789abcdef'' ! n"

text \<open>\<open>char::to_digit(16)\<close>.\<close>

definition hex_digit :: "char \<Rightarrow> nat option" where
  "hex_digit c =
     (let n = of_char c :: nat in
      if 48 \<le> n \<and> n \<le> 57 then Some (n - 48)
      else if 97 \<le> n \<and> n \<le> 102 then Some (n - 87)
      else if 65 \<le> n \<and> n \<le> 70 then Some (n - 55)
      else None)"

fun hex_digits :: "nat \<Rightarrow> string \<Rightarrow> nat option" where
  "hex_digits acc [] = Some acc"
| "hex_digits acc (c # cs) =
     (case hex_digit c of None \<Rightarrow> None
      | Some d \<Rightarrow> if acc * 16 + d > 255 then None else hex_digits (acc * 16 + d) cs)"

text \<open>
  \<open>u8::from_str_radix(s, 16)\<close>: one leading plus sign is allowed when a digit
  follows, both letter cases are, and a value over 255 is an error.
\<close>

definition from_str_radix16 :: "string \<Rightarrow> nat option" where
  "from_str_radix16 s =
     (case s of [] \<Rightarrow> None
      | c # cs \<Rightarrow> if c = CHR ''+'' then (if cs = [] then None else hex_digits 0 cs) else hex_digits 0 s)"

text \<open>\<open>Display\<close> of an unsigned integer.\<close>

fun show_nat :: "nat \<Rightarrow> string" where
  "show_nat n = (if n < 10 then [char_of (48 + n)] else show_nat (n div 10) @ [char_of (48 + n mod 10)])"

declare show_nat.simps [simp del]

definition is_digit :: "char \<Rightarrow> bool" where
  "is_digit c \<longleftrightarrow> 48 \<le> (of_char c :: nat) \<and> (of_char c :: nat) \<le> 57"

fun digits_value :: "nat \<Rightarrow> string \<Rightarrow> nat option" where
  "digits_value acc [] = Some acc"
| "digits_value acc (c # cs) =
     (if is_digit c then digits_value (acc * 10 + (of_char c - 48)) cs else None)"

text \<open>\<open>str::parse\<close> into an unsigned integer of the given maximum.\<close>

definition parse_nat :: "nat \<Rightarrow> string \<Rightarrow> nat option" where
  "parse_nat bound s =
     (let ds = (case s of c # cs \<Rightarrow> if c = CHR ''+'' then cs else s | [] \<Rightarrow> []) in
      if ds = [] then None
      else case digits_value 0 ds of Some n \<Rightarrow> if n \<le> bound then Some n else None | None \<Rightarrow> None)"

lemma digit_char [simp]: "d < 10 \<Longrightarrow> (of_char (char_of (48 + d) :: char) :: nat) = 48 + d"
  by (simp add: of_char_of)

lemma digits_value_append:
  "digits_value acc (xs @ ys) =
     (case digits_value acc xs of None \<Rightarrow> None | Some a \<Rightarrow> digits_value a ys)"
  by (induction acc xs rule: digits_value.induct) auto

lemma digits_value_show: "digits_value 0 (show_nat n) = Some n"
proof (induction n rule: show_nat.induct)
  case (1 n)
  show ?case
  proof (cases "n < 10")
    case True
    then show ?thesis by (subst show_nat.simps) (simp add: is_digit_def)
  next
    case False
    then show ?thesis using 1 by (subst show_nat.simps) (simp add: is_digit_def digits_value_append)
  qed
qed

lemma show_nat_digits: "show_nat n \<noteq> [] \<and> (\<forall>c \<in> set (show_nat n). is_digit c)"
proof (induction n rule: show_nat.induct)
  case (1 n)
  have "show_nat n = (if n < 10 then [char_of (48 + n)]
      else show_nat (n div 10) @ [char_of (48 + n mod 10)])"
    by (rule show_nat.simps)
  then show ?case using 1 by (cases "n < 10") (simp_all add: is_digit_def)
qed

lemma parse_show_nat: "n \<le> bound \<Longrightarrow> parse_nat bound (show_nat n) = Some n"
proof -
  assume "n \<le> bound"
  obtain c cs where s: "show_nat n = c # cs" using show_nat_digits [of n] by (cases "show_nat n") auto
  then have "c \<noteq> CHR ''+''" using show_nat_digits [of n] by (auto simp: is_digit_def)
  then show ?thesis
    using \<open>n \<le> bound\<close> digits_value_show [of n] s by (simp add: parse_nat_def)
qed

lemma show_nat_inj: "show_nat a = show_nat b \<Longrightarrow> a = b"
  by (metis digits_value_show option.inject)

subsection \<open>Cutting and joining valid texts\<close>

text \<open>One character, and texts as sequences of characters.\<close>

fun utf8_unit :: "bytes \<Rightarrow> bool" where
  "utf8_unit [b] = (b < 128)"
| "utf8_unit [b0, b1] = utf8_lead2 b0 b1"
| "utf8_unit [b0, b1, b2] = (utf8_lead3 b0 b1 \<and> utf8_cont b2)"
| "utf8_unit [b0, b1, b2, b3] = (utf8_lead4 b0 b1 \<and> utf8_cont b2 \<and> utf8_cont b3)"
| "utf8_unit _ = False"

lemma utf8_leads:
  "utf8_lead2 b c \<Longrightarrow> \<not> b < 128" "utf8_lead3 b c \<Longrightarrow> \<not> b < 128 \<and> \<not> utf8_lead2 b c"
  "utf8_lead4 b c \<Longrightarrow> \<not> b < 128 \<and> \<not> utf8_lead2 b c \<and> \<not> utf8_lead3 b c"
  by (auto simp: utf8_lead2_def utf8_lead3_def utf8_lead4_def word_le_nat_alt word_less_nat_alt)

lemma utf8_valid_unit: "utf8_unit u \<Longrightarrow> utf8_valid (u @ t) = utf8_valid t"
  by (cases u rule: utf8_unit.cases) (auto dest: utf8_leads)

lemma utf8_valid_parts:
  assumes "utf8_valid s" "s \<noteq> []"
  obtains u t where "s = u @ t" "utf8_unit u" "utf8_valid t"
proof (cases s)
  case (Cons b0 r0)
  show thesis
  proof (cases "b0 < 128")
    case True
    then show thesis using that [of "[b0]" r0] assms(1) Cons by simp
  next
    case n1: False
    then obtain b1 r1 where r0: "r0 = b1 # r1" using assms(1) Cons by (cases r0) auto
    show thesis
    proof (cases "utf8_lead2 b0 b1")
      case True
      then show thesis using that [of "[b0, b1]" r1] assms(1) Cons r0 n1 by simp
    next
      case n2: False
      then obtain b2 r2 where r1: "r1 = b2 # r2" using assms(1) Cons r0 n1 by (cases r1) auto
      show thesis
      proof (cases "utf8_lead3 b0 b1 \<and> utf8_cont b2")
        case True
        then show thesis using that [of "[b0, b1, b2]" r2] assms(1) Cons r0 r1 n1 n2 by simp
      next
        case n3: False
        then obtain b3 r3 where "r2 = b3 # r3" using assms(1) Cons r0 r1 n1 n2 by (cases r2) auto
        then show thesis using that [of "[b0, b1, b2, b3]" r3] assms(1) Cons r0 r1 n1 n2 n3 by simp
      qed
    qed
  qed
qed (use assms(2) in simp)

subsection \<open>Lossy conversion\<close>

text \<open>
  \<open>String::from_utf8_lossy\<close>: a unit is taken as it is; otherwise the longest start of
  a unit, at least one byte, becomes one replacement character.  \<open>lossy_unit\<close> says
  whether a list that is not empty starts with a unit, and how many bytes are taken.
\<close>

definition lossy_unit :: "bytes \<Rightarrow> bool \<times> nat" where
  "lossy_unit bs =
     (case bs of
        [] \<Rightarrow> (False, 0)
      | b0 # r0 \<Rightarrow>
          if b0 < 128 then (True, 1)
          else case r0 of
            [] \<Rightarrow> (False, 1)
          | b1 # r1 \<Rightarrow>
              if utf8_lead2 b0 b1 then (True, 2)
              else if utf8_lead3 b0 b1 then (if r1 \<noteq> [] \<and> utf8_cont (hd r1) then (True, 3) else (False, 2))
              else if utf8_lead4 b0 b1 then
                (if r1 \<noteq> [] \<and> utf8_cont (hd r1)
                 then if tl r1 \<noteq> [] \<and> utf8_cont (hd (tl r1)) then (True, 4) else (False, 3)
                 else (False, 2))
              else (False, 1))"

definition REPLACEMENT :: string where
  "REPLACEMENT = bytes_str [239, 191, 189]"

lemma lossy_unit_pos: "bs \<noteq> [] \<Longrightarrow> 0 < snd (lossy_unit bs)"
  by (auto simp: lossy_unit_def split: list.splits)

function from_utf8_lossy :: "bytes \<Rightarrow> string" where
  "from_utf8_lossy bs =
     (if bs = [] then []
      else (if fst (lossy_unit bs) then bytes_str (take (snd (lossy_unit bs)) bs) else REPLACEMENT) @
             from_utf8_lossy (drop (snd (lossy_unit bs)) bs))"
  by auto

termination
  by (relation "measure length") (simp_all add: lossy_unit_pos)

declare from_utf8_lossy.simps [simp del]

lemma lossy_unit_unit: "utf8_unit u \<Longrightarrow> lossy_unit (u @ t) = (True, length u)"
  by (cases u rule: utf8_unit.cases) (auto simp: lossy_unit_def dest: utf8_leads)

text \<open>Valid text is kept as it is.\<close>

lemma from_utf8_lossy_valid: "utf8_valid bs \<Longrightarrow> from_utf8_lossy bs = bytes_str bs"
proof (induction bs rule: length_induct)
  case (1 bs)
  show ?case
  proof (cases "bs = []")
    case True
    then show ?thesis by (simp add: from_utf8_lossy.simps [of "[]"] bytes_str_def)
  next
    case False
    then obtain u t where ut: "bs = u @ t" "utf8_unit u" "utf8_valid t" using utf8_valid_parts 1(2) by metis
    then have "u \<noteq> []" by auto
    then have "from_utf8_lossy t = bytes_str t" using 1(1) ut by simp
    then show ?thesis
      using ut(1) False lossy_unit_unit [OF ut(2), of t] by (subst from_utf8_lossy.simps) (simp add: bytes_str_def)
  qed
qed

lemma utf8_unit_cont: "utf8_unit u \<Longrightarrow> 0 < i \<Longrightarrow> i < length u \<Longrightarrow> utf8_cont (u ! i)"
  by (induction u rule: utf8_unit.induct)
     (auto simp: utf8_lead2_def utf8_lead3_def utf8_lead4_def less_Suc_eq nth_Cons')

lemma utf8_valid_append: "utf8_valid a \<Longrightarrow> utf8_valid (a @ b) = utf8_valid b"
proof (induction a rule: length_induct)
  case (1 a)
  show ?case
  proof (cases "a = []")
    case False
    then obtain u t where a: "a = u @ t" "utf8_unit u" "utf8_valid t" using utf8_valid_parts 1(2) by blast
    moreover have "u \<noteq> []" using a(2) by auto
    ultimately show ?thesis using 1(1) by (simp add: utf8_valid_unit)
  qed simp
qed

text \<open>An ASCII character inside a text is a place to cut it.\<close>

lemma utf8_valid_cut: "c < 128 \<Longrightarrow> utf8_valid (a @ c # b) \<longleftrightarrow> utf8_valid a \<and> utf8_valid b"
proof (induction a rule: length_induct)
  case (1 a)
  have nc: "\<not> utf8_cont c" using 1(2) by (auto simp: utf8_cont_def)
  show ?case
  proof
    assume v: "utf8_valid (a @ c # b)"
    show "utf8_valid a \<and> utf8_valid b"
    proof (cases "a = []")
      case True
      with v 1(2) show ?thesis by simp
    next
      case False
      obtain u t where ut: "a @ c # b = u @ t" "utf8_unit u" "utf8_valid t" using utf8_valid_parts [OF v] by blast
      have "u \<noteq> []" using ut(2) by auto
      have "length u \<le> length a"
      proof (rule ccontr)
        assume "\<not> length u \<le> length a"
        then have l: "length a < length u" by simp
        then have "u ! length a = c" using ut(1) by (metis nth_append nth_append_length)
        with utf8_unit_cont [OF ut(2) _ l] False nc show False by simp
      qed
      then obtain a' where a': "a = u @ a'" using ut(1) by (metis append_eq_append_conv_if append_take_drop_id)
      then have "utf8_valid (a' @ c # b)" using ut by simp
      then show ?thesis using 1(1,2) a' \<open>u \<noteq> []\<close> ut(2) by (auto simp: utf8_valid_unit)
    qed
  next
    assume "utf8_valid a \<and> utf8_valid b"
    then show "utf8_valid (a @ c # b)" using 1(2) by (simp add: utf8_valid_append)
  qed
qed
section \<open>Prefixes, white space and lines\<close>

definition starts_with :: "string \<Rightarrow> string \<Rightarrow> bool" where
  "starts_with s pre \<longleftrightarrow> take (length pre) s = pre"

definition strip_prefix :: "string \<Rightarrow> string \<Rightarrow> string option" where
  "strip_prefix s pre = (if starts_with s pre then Some (drop (length pre) s) else None)"

fun contains_str :: "string \<Rightarrow> string \<Rightarrow> bool" where
  "contains_str [] pat = (pat = [])"
| "contains_str (c # cs) pat = (starts_with (c # cs) pat \<or> contains_str cs pat)"

lemma strip_prefix_append [simp]: "strip_prefix (pre @ s) pre = Some s"
  by (simp add: strip_prefix_def starts_with_def)

lemma strip_prefix_Some: "strip_prefix s pre = Some t \<longleftrightarrow> s = pre @ t"
  by (auto simp: strip_prefix_def starts_with_def append_eq_conv_conj)
     (metis append_take_drop_id)

text \<open>White space: the ASCII characters first.\<close>

definition is_space :: "char \<Rightarrow> bool" where
  "is_space c \<longleftrightarrow> (of_char c :: nat) = 32 \<or> (9 \<le> (of_char c :: nat) \<and> (of_char c :: nat) \<le> 13)"

text \<open>
  Texts are UTF-8.  \<open>ws_len\<close> is the number of bytes of the white-space character a
  text begins with, 0 if it begins with another: the ASCII ones, U+0085, U+00A0,
  U+1680, U+2000 to U+200A, U+2028, U+2029, U+202F, U+205F and U+3000.
\<close>

definition white2 :: "nat \<Rightarrow> nat \<Rightarrow> bool" where
  "white2 a b \<longleftrightarrow> a = 194 \<and> (b = 133 \<or> b = 160)"

definition white3 :: "nat \<Rightarrow> nat \<Rightarrow> nat \<Rightarrow> bool" where
  "white3 a b c \<longleftrightarrow>
     a = 225 \<and> b = 154 \<and> c = 128 \<or>
     a = 226 \<and> b = 128 \<and> (128 \<le> c \<and> c \<le> 138 \<or> c = 168 \<or> c = 169 \<or> c = 175) \<or>
     a = 226 \<and> b = 129 \<and> c = 159 \<or>
     a = 227 \<and> b = 128 \<and> c = 128"

fun ws_len :: "string \<Rightarrow> nat" where
  "ws_len [] = 0"
| "ws_len (c # cs) =
     (if is_space c then 1
      else case cs of
        [] \<Rightarrow> 0
      | c1 # cs1 \<Rightarrow>
          if white2 (of_char c) (of_char c1) then 2
          else case cs1 of [] \<Rightarrow> 0 | c2 # _ \<Rightarrow> if white3 (of_char c) (of_char c1) (of_char c2) then 3 else 0)"

text \<open>\<open>trim_start\<close>, and the end of a run of other characters.\<close>

function skip_ws :: "string \<Rightarrow> string" where
  "skip_ws s = (if ws_len s = 0 then s else skip_ws (drop (ws_len s) s))"
  by pat_completeness auto
termination
proof (relation "measure length")
  fix s :: string assume "ws_len s \<noteq> 0"
  then show "(drop (ws_len s) s, s) \<in> measure length" by (cases s) auto
qed simp

declare skip_ws.simps [simp del] ws_len.simps(2) [simp del]

fun skip_nonws :: "string \<Rightarrow> string" where
  "skip_nonws [] = []"
| "skip_nonws (c # cs) = (if ws_len (c # cs) \<noteq> 0 then c # cs else skip_nonws cs)"

text \<open>\<open>trim_end\<close> cuts where nothing but white space follows; \<open>trim\<close> cuts at both ends.\<close>

fun trim_end :: "string \<Rightarrow> string" where
  "trim_end [] = []"
| "trim_end (c # cs) = (if skip_ws (c # cs) = [] then [] else c # trim_end cs)"

definition trim :: "string \<Rightarrow> string" where
  "trim s = trim_end (skip_ws s)"

text \<open>\<open>to_ascii_lowercase\<close>.\<close>

definition ascii_lower :: "char \<Rightarrow> char" where
  "ascii_lower c = (let n = (of_char c :: nat) in if 65 \<le> n \<and> n \<le> 90 then char_of (n + 32) else c)"

abbreviation NL :: char where "NL \<equiv> char_of (10::nat)"
abbreviation CR :: char where "CR \<equiv> char_of (13::nat)"

text \<open>Splitting at every occurrence of a character.\<close>

fun split_on :: "char \<Rightarrow> string \<Rightarrow> string list" where
  "split_on d [] = [[]]"
| "split_on d (c # cs) =
     (if c = d then [] # split_on d cs
      else case split_on d cs of [] \<Rightarrow> [[c]] | w # ws \<Rightarrow> (c # w) # ws)"

definition drop_cr :: "string \<Rightarrow> string" where
  "drop_cr s = (if s \<noteq> [] \<and> last s = CR then butlast s else s)"

text \<open>\<open>str::lines\<close>: line terminators are cut, an empty rest after the last one is not a line.\<close>

definition lines :: "string \<Rightarrow> string list" where
  "lines s = (let ps = split_on NL s in map drop_cr (butlast ps) @ (if last ps = [] then [] else [last ps]))"

lemma split_on_neq_Nil [simp]: "split_on d s \<noteq> []"
  by (induction s) (auto split: list.splits)

lemma split_on_single: "d \<notin> set s \<Longrightarrow> split_on d s = [s]"
  by (induction s) auto

lemma split_on_Cons: "d \<notin> set s \<Longrightarrow> split_on d (s @ d # t) = s # split_on d t"
  by (induction s) auto

text \<open>Terminated lines put together, and how they come apart.\<close>

definition unlines :: "string list \<Rightarrow> string" where
  "unlines ls = concat (map (\<lambda>l. l @ [NL]) ls)"

lemma unlines_simps [simp]: "unlines [] = []" "unlines (l # ls) = l @ NL # unlines ls" "unlines (xs @ ys) = unlines xs @ unlines ys"
  by (simp_all add: unlines_def)

lemma split_on_unlines: "\<forall>l \<in> set ls. NL \<notin> set l \<Longrightarrow> split_on NL (unlines ls @ t) = ls @ split_on NL t"
  by (induction ls) (simp_all add: split_on_Cons)

lemma lines_unlines: "\<forall>l \<in> set ls. NL \<notin> set l \<Longrightarrow> lines (unlines ls) = map drop_cr ls"
  using split_on_unlines [of ls "[]"] by (simp add: lines_def Let_def)

text \<open>
  The components of a path text: \<open>Path\<close> ignores repeated separators and single
  dots.  Paths of the program are absolute; the leading separator is not kept.
\<close>

definition path_components :: "string \<Rightarrow> string list" where
  "path_components s = filter (\<lambda>c. c \<noteq> [] \<and> c \<noteq> ''.'') (split_on (CHR ''/'') s)"

end
