(* ===== verification/Rpc.thy ===== *)
theory Rpc
  imports FileSystem Text
begin

text \<open>
  The local RPC of \<open>syauth-presenced/src/rpc.rs\<close>: requests and responses, and
  their framing as a CBOR payload behind a 4-byte big-endian length.  The CBOR
  encoder and decoder are foreign code and are arguments.  A connection is the
  list of bytes still to be read; \<open>read_exact\<close> fails when it runs dry.
\<close>

definition RPC_MAX_FRAME_LEN :: nat where [const_defs]: "RPC_MAX_FRAME_LEN = 64 * 1024"
definition LENGTH_PREFIX_BYTES :: nat where [const_defs]: "LENGTH_PREFIX_BYTES = 4"

datatype request = Req_Challenge string bytes | Req_Reload | Req_Status

record peer_status =
  ps_peer_id :: string
  ps_last_challenge_ms_ago :: "nat option"
  ps_last_connect_ms_ago :: "nat option"
  ps_current_session_uuid :: bytes
  ps_in_flight_challenges :: nat

text \<open>The start time of the daemon is an instant in milliseconds, possibly before the epoch.\<close>

datatype response =
    Resp_Challenge bool "bytes option" string
  | Resp_Reload bool
  | Resp_Status "peer_status list" int

datatype rpc_error = Rpc_Io io_error | Rpc_Decode | Rpc_Encode | Rpc_TooLarge "32 word" nat

section \<open>Length prefix\<close>

definition to_be_bytes :: "32 word \<Rightarrow> bytes" where
  "to_be_bytes w = map (\<lambda>k. word_of_nat (unat w div 256 ^ k)) [3, 2, 1, 0]"

fun from_be_bytes :: "bytes \<Rightarrow> 32 word" where
  "from_be_bytes bs = word_of_nat (foldl (\<lambda>acc b. acc * 256 + unat b) 0 bs)"

text \<open>\<open>u32::try_from(len).unwrap_or(u32::MAX)\<close>.\<close>

definition u32_saturate :: "nat \<Rightarrow> 32 word" where
  "u32_saturate n = (if n < 2 ^ 32 then word_of_nat n else - 1)"

definition encode_frame :: "('a \<Rightarrow> bytes option) \<Rightarrow> 'a \<Rightarrow> rpc_error + bytes" where
  "encode_frame cbor v =
     (case cbor v of
        None \<Rightarrow> Err Rpc_Encode
      | Some payload \<Rightarrow>
          if length payload > RPC_MAX_FRAME_LEN
          then Err (Rpc_TooLarge (u32_saturate (length payload)) RPC_MAX_FRAME_LEN)
          else if length payload \<ge> 2 ^ 32 then Err (Rpc_TooLarge (- 1) RPC_MAX_FRAME_LEN)
          else Ok (to_be_bytes (word_of_nat (length payload)) @ payload))"

definition decode_frame :: "(bytes \<Rightarrow> 'a option) \<Rightarrow> bytes \<Rightarrow> rpc_error + 'a" where
  "decode_frame uncbor bs =
     (if length bs > RPC_MAX_FRAME_LEN then Err (Rpc_TooLarge (u32_saturate (length bs)) RPC_MAX_FRAME_LEN)
      else case uncbor bs of None \<Rightarrow> Err Rpc_Decode | Some v \<Rightarrow> Ok v)"

definition read_exact :: "nat \<Rightarrow> bytes \<Rightarrow> (io_error + bytes) \<times> bytes" where
  "read_exact n s = (if n \<le> length s then (Ok (take n s), drop n s) else (Err UnexpectedEof, []))"

text \<open>
  Both readers take the prefix, refuse an announced length over the cap without
  reading on, then take the payload.  \<open>usize\<close> has 64 bits, so the conversion of the
  announced length cannot fail.
\<close>

definition read_prefixed :: "bytes \<Rightarrow> (rpc_error + bytes) \<times> bytes" where
  "read_prefixed s =
     (case read_exact LENGTH_PREFIX_BYTES s of
        (Inl e, s1) \<Rightarrow> (Err (Rpc_Io e), s1)
      | (Inr len_buf, s1) \<Rightarrow>
          (let announced = from_be_bytes len_buf in
           if unat announced > RPC_MAX_FRAME_LEN then (Err (Rpc_TooLarge announced RPC_MAX_FRAME_LEN), s1)
           else on_err Rpc_Io (read_exact (unat announced) s1)))"

definition read_frame :: "(bytes \<Rightarrow> 'a option) \<Rightarrow> bytes \<Rightarrow> (rpc_error + 'a) \<times> bytes" where
  "read_frame uncbor s =
     (case read_prefixed s of (Inl e, s1) \<Rightarrow> (Err e, s1) | (Inr payload, s1) \<Rightarrow> (decode_frame uncbor payload, s1))"

text \<open>Writing appends to what the other end has still to read.\<close>

definition write_frame :: "('a \<Rightarrow> bytes option) \<Rightarrow> 'a \<Rightarrow> bytes \<Rightarrow> (rpc_error + unit) \<times> bytes" where
  "write_frame cbor v sink =
     (case encode_frame cbor v of Inl e \<Rightarrow> (Err e, sink) | Inr framed \<Rightarrow> (Ok (), sink @ framed))"

text \<open>
  The blocking reader works on a socket with a receive timeout, which bounds each
  single read.  What arrives there is a list of pieces, each with the milliseconds
  that pass between the piece before it and its own arrival; an empty piece, and
  the end of the list, are the other end closing.  A read takes what is there of
  the next piece and fails as one that would block when the piece is too late.
\<close>

type_synonym arrivals = "(nat \<times> bytes) list"

fun read_exact_timed :: "nat \<Rightarrow> nat \<Rightarrow> arrivals \<Rightarrow> (io_error + bytes) \<times> arrivals" where
  "read_exact_timed lim 0 st = (Ok [], st)"
| "read_exact_timed lim (Suc n) [] = (Err UnexpectedEof, [])"
| "read_exact_timed lim (Suc n) ((gap, piece) # st) =
     (if gap > lim then (Err WouldBlock, (gap - lim, piece) # st)
      else if piece = [] then (Err UnexpectedEof, st)
      else if Suc n < length piece then (Ok (take (Suc n) piece), (0, drop (Suc n) piece) # st)
      else case read_exact_timed lim (Suc n - length piece) st of
        (Inl e, st1) \<Rightarrow> (Err e, st1)
      | (Inr bs, st1) \<Rightarrow> (Ok (piece @ bs), st1))"

definition read_frame_blocking :: "nat \<Rightarrow> (bytes \<Rightarrow> 'a option) \<Rightarrow> arrivals \<Rightarrow> (rpc_error + 'a) \<times> arrivals" where
  "read_frame_blocking lim uncbor st =
     (case read_exact_timed lim LENGTH_PREFIX_BYTES st of
        (Inl e, st1) \<Rightarrow> (Err (Rpc_Io e), st1)
      | (Inr len_buf, st1) \<Rightarrow>
          (let announced = from_be_bytes len_buf in
           if unat announced > RPC_MAX_FRAME_LEN then (Err (Rpc_TooLarge announced RPC_MAX_FRAME_LEN), st1)
           else case read_exact_timed lim (unat announced) st1 of
             (Inl e, st2) \<Rightarrow> (Err (Rpc_Io e), st2)
           | (Inr payload, st2) \<Rightarrow> (decode_frame uncbor payload, st2)))"

definition write_frame_blocking :: "('a \<Rightarrow> bytes option) \<Rightarrow> 'a \<Rightarrow> bytes \<Rightarrow> (rpc_error + unit) \<times> bytes" where
  "write_frame_blocking cbor v sink =
     (case encode_frame cbor v of Inl e \<Rightarrow> (Err e, sink) | Inr framed \<Rightarrow> (Ok (), sink @ framed))"

text \<open>The \<open>epoch_seconds\<close> helpers: whole seconds since the epoch, zero before it.\<close>

definition epoch_serialize :: "int \<Rightarrow> nat" where
  "epoch_serialize t = nat t div 1000"

definition epoch_deserialize :: "nat \<Rightarrow> int" where
  "epoch_deserialize secs = int secs * 1000"

text \<open>What a response is after its journey: the start time goes through those helpers.\<close>

fun on_wire :: "response \<Rightarrow> response" where
  "on_wire (Resp_Status peers started_at) = Resp_Status peers (epoch_deserialize (epoch_serialize started_at))"
| "on_wire r = r"

section \<open>The contract of a self-delimiting encoding\<close>

text \<open>
  An encoding that a reader can take off the front of a byte stream.  From the
  one law follow the reading of a whole sequence of messages and the absence of
  prefixes among encodings.
\<close>

locale stream_codec =
  fixes put :: "'a \<Rightarrow> bytes option"
    and get :: "bytes \<Rightarrow> ('e + 'a) \<times> bytes"
  assumes get_put: "put x = Some bs \<Longrightarrow> get (bs @ rest) = (Ok x, rest)"
begin

fun get_all :: "nat \<Rightarrow> bytes \<Rightarrow> ('e + 'a list) \<times> bytes" where
  "get_all 0 s = (Ok [], s)"
| "get_all (Suc n) s =
     (case get s of (Inl e, s1) \<Rightarrow> (Err e, s1)
      | (Inr x, s1) \<Rightarrow> (case get_all n s1 of (Inl e, s2) \<Rightarrow> (Err e, s2) | (Inr xs, s2) \<Rightarrow> (Ok (x # xs), s2)))"

lemma get_all_puts:
  "list_all2 (\<lambda>x bs. put x = Some bs) xs bss \<Longrightarrow> get_all (length xs) (concat bss @ rest) = (Ok xs, rest)"
  by (induction xs bss rule: list_all2_induct) (simp_all add: get_put)

lemma put_prefix_free: "put x = Some bs \<Longrightarrow> put y = Some (bs @ ext) \<Longrightarrow> x = y \<and> ext = []"
  using get_put [of x bs ext] get_put [of y "bs @ ext" "[]"] by simp

end

section \<open>Lemmas\<close>

lemma from_to_be_bytes [simp]: "from_be_bytes (to_be_bytes w) = w"
proof -
  let ?n = "unat w"
  have n: "?n < 2 ^ 32" using unsigned_less [of w, where 'a = nat] by simp
  have split: "m = m div 256 * 256 + m mod 256" for m :: nat by simp
  have d: "?n div 256 ^ 2 = ?n div 256 div 256" "?n div 256 ^ 3 = ?n div 256 div 256 div 256"
    by (simp_all add: div_mult2_eq [symmetric])
  have top: "?n div 256 div 256 div 256 < 256" "?n div 16777216 < 256"
    using n by (simp_all add: div_mult2_eq [symmetric])
  then have "?n = ((?n div 256 ^ 3 mod 256 * 256 + ?n div 256 ^ 2 mod 256) * 256 + ?n div 256 mod 256) * 256 + ?n mod 256"
    unfolding d
    using split [of ?n] split [of "?n div 256"] split [of "?n div 256 div 256"] by simp
  then have "foldl (\<lambda>acc b. acc * 256 + unat b) 0 (to_be_bytes w) = ?n"
    using top(2)
    by (simp only: to_be_bytes_def list.map foldl.simps unat_of_nat power_0 div_by_1 power_one_right) simp
  then show ?thesis by simp
qed

lemma length_to_be_bytes [simp, wire_simps]: "length (to_be_bytes w) = 4"
  by (simp add: to_be_bytes_def)

definition put_prefixed :: "bytes \<Rightarrow> bytes option" where
  "put_prefixed payload =
     (if length payload > RPC_MAX_FRAME_LEN then None
      else Some (to_be_bytes (word_of_nat (length payload)) @ payload))"

lemma read_exact_append [simp]: "length xs = n \<Longrightarrow> read_exact n (xs @ ys) = (Ok xs, ys)"
  by (auto simp: read_exact_def)

lemma unat_len [simp]: "n \<le> RPC_MAX_FRAME_LEN \<Longrightarrow> unat (word_of_nat n :: 32 word) = n"
  by (simp add: unat_of_nat const_defs)

lemma read_prefixed_put:
  assumes "put_prefixed x = Some bs"
  shows "read_prefixed (bs @ rest) = (Ok x, rest)"
proof -
  from assms have x: "length x \<le> RPC_MAX_FRAME_LEN" "bs = to_be_bytes (word_of_nat (length x)) @ x"
    by (auto simp: put_prefixed_def split: if_splits)
  then show ?thesis
    by (simp add: read_prefixed_def LENGTH_PREFIX_BYTES_def Let_def on_err_def del: from_be_bytes.simps)
qed

interpretation rpc_stream: stream_codec put_prefixed read_prefixed
  by unfold_locales (rule read_prefixed_put)

lemma encode_frame_put:
  "encode_frame cbor v = Ok bs \<longleftrightarrow> (\<exists>payload. cbor v = Some payload \<and> put_prefixed payload = Some bs)"
  by (auto simp: encode_frame_def put_prefixed_def const_defs split: option.splits if_splits)

lemma read_prefixed_length: "read_prefixed s = (Ok payload, rest) \<Longrightarrow> length payload \<le> RPC_MAX_FRAME_LEN"
  by (auto simp: read_prefixed_def read_exact_def Let_def on_err_def split: if_splits)

lemma read_frame_encode:
  assumes "encode_frame cbor v = Ok bs" "\<And>w p. cbor w = Some p \<Longrightarrow> uncbor p = Some (f w)"
  shows "read_frame uncbor (bs @ rest) = (Ok (f v), rest)"
proof -
  from assms(1) obtain p where p: "cbor v = Some p" "put_prefixed p = Some bs" by (auto simp: encode_frame_put)
  then have "length p \<le> RPC_MAX_FRAME_LEN" by (simp add: put_prefixed_def split: if_splits)
  then show ?thesis
    using p assms(2) by (simp add: read_frame_def read_prefixed_put decode_frame_def)
qed

section \<open>Properties\<close>

fun read_frames :: "(bytes \<Rightarrow> 'a option) \<Rightarrow> nat \<Rightarrow> bytes \<Rightarrow> (rpc_error + 'a list) \<times> bytes" where
  "read_frames uncbor 0 s = (Ok [], s)"
| "read_frames uncbor (Suc n) s =
     (case read_frame uncbor s of (Inl e, s1) \<Rightarrow> (Err e, s1)
      | (Inr x, s1) \<Rightarrow>
          (case read_frames uncbor n s1 of (Inl e, s2) \<Rightarrow> (Err e, s2) | (Inr xs, s2) \<Rightarrow> (Ok (x # xs), s2)))"

text \<open>
  C17: messages written to a connection one after the other are read back in
  order.  For any list of messages that the daemon or the module managed to
  encode, the reader called once per message on the concatenated bytes returns
  exactly those messages and leaves what follows them untouched, for every CBOR
  library that decodes what it encodes.
\<close>

theorem rpc_messages_in_order:
  assumes "\<And>v p. cbor v = Some p \<Longrightarrow> uncbor p = Some v"
    and "list_all2 (\<lambda>v bs. encode_frame cbor v = Ok bs) vs bss"
  shows "read_frames uncbor (length vs) (concat bss @ rest) = (Ok vs, rest)"
  using assms(2) by (induction vs bss rule: list_all2_induct) (simp_all add: read_frame_encode [where f = "\<lambda>w. w", OF _ assms(1)])

theorem rpc_messages_in_order_witness:
  "read_frames (\<lambda>p. Some p) (Suc (Suc 0)) ([0, 0, 0, 1, 9, 0, 0, 0, 2, 7, 8] @ [5]) = (Ok [[9], [7, 8]], [5])"
  using rpc_messages_in_order [of Some "\<lambda>p. Some p" "[[9], [7, 8]]" "[[0, 0, 0, 1, 9], [0, 0, 0, 2, 7, 8]]" "[5]"]
  by (simp add: encode_frame_def const_defs to_be_bytes_def)

text \<open>
  A reader never takes more than the length prefix and 64 KiB from a
  connection, and an announced length over that cap is refused after the four
  bytes of the prefix, before anything is read or allocated for it.
\<close>

theorem rpc_read_bounded:
  "(\<forall>r rest. read_frame uncbor s = (r, rest) \<longrightarrow> r \<noteq> Err (Rpc_Io UnexpectedEof) \<longrightarrow>
      length s - length rest \<le> 4 + 64 * 1024) \<and>
   (length s \<ge> 4 \<longrightarrow> unat (from_be_bytes (take 4 s)) > 64 * 1024 \<longrightarrow>
      read_frame uncbor s = (Err (Rpc_TooLarge (from_be_bytes (take 4 s)) (64 * 1024)), drop 4 s))"
  by (auto simp: read_frame_def read_prefixed_def read_exact_def on_err_def Let_def const_defs
           split: if_splits sum.splits prod.splits simp del: from_be_bytes.simps)

theorem rpc_read_bounded_witness:
  "read_frame (\<lambda>p. Some p) [0, 1, 0, 1, 42] = (Err (Rpc_TooLarge 65537 65536), [42])"
  using rpc_read_bounded [of "\<lambda>p. Some p" "[0, 1, 0, 1, 42]"] by simp

section \<open>The blocking reader\<close>

text \<open>The bytes that arrive before the first piece that is late, and all that is sent.\<close>

definition prompt_bytes :: "nat \<Rightarrow> arrivals \<Rightarrow> bytes" where
  "prompt_bytes lim st = concat (map snd (takeWhile (\<lambda>(gap, piece). gap \<le> lim \<and> piece \<noteq> []) st))"

definition sent_bytes :: "arrivals \<Rightarrow> bytes" where
  "sent_bytes st = concat (map snd st)"

lemma prompt_bytes_simps [simp]:
  "prompt_bytes lim [] = []"
  "prompt_bytes lim ((gap, piece) # st) = (if gap \<le> lim \<and> piece \<noteq> [] then piece @ prompt_bytes lim st else [])"
  by (auto simp: prompt_bytes_def)

lemma prompt_bytes_prefix: "\<exists>late. sent_bytes st = prompt_bytes lim st @ late"
proof -
  have "sent_bytes st = concat (map snd (takeWhile P st)) @ concat (map snd (dropWhile P st))" for P
    unfolding sent_bytes_def by (metis concat_append map_append takeWhile_dropWhile_id)
  then show ?thesis unfolding prompt_bytes_def by blast
qed

lemma read_exact_timed_ok:
  "read_exact_timed lim n st = (Ok bs, st1) \<Longrightarrow>
     n \<le> length (prompt_bytes lim st) \<and> bs = take n (prompt_bytes lim st) \<and> prompt_bytes lim st1 = drop n (prompt_bytes lim st)"
  by (induction lim n st arbitrary: bs st1 rule: read_exact_timed.induct)
    (auto split: if_splits prod.splits sum.splits)

lemma read_exact_timed_enough:
  "n \<le> length (prompt_bytes lim st) \<Longrightarrow> \<exists>st1. read_exact_timed lim n st = (Ok (take n (prompt_bytes lim st)), st1)"
proof (induction lim n st rule: read_exact_timed.induct)
  case (3 lim n gap piece st)
  then have p: "gap \<le> lim" "piece \<noteq> []" by (auto split: if_splits)
  show ?case
  proof (cases "Suc n < length piece")
    case True
    with p show ?thesis by simp
  next
    case False
    moreover have "Suc n - length piece \<le> length (prompt_bytes lim st)" using "3.prems" p by simp
    ultimately show ?thesis using "3.IH" p by fastforce
  qed
qed simp_all

lemma read_exact_timed_then:
  "fst (case read_exact_timed lim n st of (Inl e, st2) \<Rightarrow> (Err (f e), st2) | (Inr bs, st2) \<Rightarrow> (g bs, st2)) = Ok v \<longleftrightarrow>
     n \<le> length (prompt_bytes lim st) \<and> g (take n (prompt_bytes lim st)) = Ok v"
proof (cases "n \<le> length (prompt_bytes lim st)")
  case True
  then obtain st1 where "read_exact_timed lim n st = (Ok (take n (prompt_bytes lim st)), st1)"
    using read_exact_timed_enough by blast
  with True show ?thesis by simp
next
  case False
  then have "read_exact_timed lim n st \<noteq> (Ok bs, st1)" for bs st1 using read_exact_timed_ok by blast
  with False show ?thesis by (cases "read_exact_timed lim n st") (auto split: sum.splits)
qed

text \<open>
  The blocking reader of the PAM module and the asynchronous reader of the daemon
  take the same messages off the wire: what the blocking one returns within its
  limit is what the other one returns on the bytes that come without a late piece.
\<close>

theorem rpc_blocking_agrees:
  "fst (read_frame_blocking lim uncbor st) = Ok v \<longleftrightarrow> fst (read_frame uncbor (prompt_bytes lim st)) = Ok v"
proof (cases "read_exact_timed lim LENGTH_PREFIX_BYTES st")
  case (Pair r st1)
  let ?p = "prompt_bytes lim st"
  show ?thesis
  proof (cases r)
    case (Inl e)
    then have "\<not> LENGTH_PREFIX_BYTES \<le> length ?p" using read_exact_timed_enough [of LENGTH_PREFIX_BYTES lim st] Pair by auto
    with Inl Pair show ?thesis by (simp add: read_frame_blocking_def read_frame_def read_prefixed_def read_exact_def)
  next
    case (Inr len_buf)
    note hd = read_exact_timed_ok [OF Pair [unfolded Inr]]
    let ?n = "unat (from_be_bytes len_buf)"
    have body: "fst (case read_exact_timed lim ?n st1 of (Inl e, st2) \<Rightarrow> (Err (Rpc_Io e), st2) | (Inr payload, st2) \<Rightarrow> (decode_frame uncbor payload, st2)) = Ok v
        \<longleftrightarrow> ?n \<le> length (prompt_bytes lim st1) \<and> decode_frame uncbor (take ?n (prompt_bytes lim st1)) = Ok v"
      by (rule read_exact_timed_then)
    have blocking: "fst (read_frame_blocking lim uncbor st) = Ok v \<longleftrightarrow>
        ?n \<le> RPC_MAX_FRAME_LEN \<and> ?n \<le> length (prompt_bytes lim st1) \<and> decode_frame uncbor (take ?n (prompt_bytes lim st1)) = Ok v"
      unfolding body [symmetric] by (simp add: read_frame_blocking_def Pair Inr Let_def del: from_be_bytes.simps)
    have "fst (read_frame uncbor ?p) = Ok v \<longleftrightarrow>
        ?n \<le> RPC_MAX_FRAME_LEN \<and> ?n \<le> length (prompt_bytes lim st1) \<and> decode_frame uncbor (take ?n (prompt_bytes lim st1)) = Ok v"
      using hd by (simp add: read_frame_def read_prefixed_def read_exact_def on_err_def Let_def del: from_be_bytes.simps)
    with blocking show ?thesis by blast
  qed
qed

text \<open>A message read from the first part of a byte stream is the message read from all of it.\<close>

lemma read_frame_longer:
  "read_frame uncbor s = (Ok v, rest) \<Longrightarrow> read_frame uncbor (s @ late) = (Ok v, rest @ late)"
  by (auto simp: read_frame_def read_prefixed_def read_exact_def on_err_def Let_def decode_frame_def
      simp del: from_be_bytes.simps split: if_splits sum.splits prod.splits)

lemma read_frame_prompt:
  assumes "read_frame uncbor (sent_bytes st) = (Ok v, [])"
  shows "fst (read_frame_blocking lim uncbor st) = Ok u \<longleftrightarrow> u = v \<and> prompt_bytes lim st = sent_bytes st"
proof -
  obtain late where late: "sent_bytes st = prompt_bytes lim st @ late" using prompt_bytes_prefix by blast
  have "u = v \<and> late = []" if "read_frame uncbor (prompt_bytes lim st) = (Ok u, rest)" for rest
    using read_frame_longer [OF that, of late] assms late by simp
  then show ?thesis
    unfolding rpc_blocking_agrees using assms late by (cases "read_frame uncbor (prompt_bytes lim st)") auto
qed

lemma read_frame_blocking_sound:
  "fst (read_frame_blocking lim uncbor st) = Ok v \<Longrightarrow> fst (read_frame uncbor (sent_bytes st)) = Ok v"
  unfolding rpc_blocking_agrees
  using prompt_bytes_prefix [of st lim] read_frame_longer [of uncbor "prompt_bytes lim st" v] by (metis fst_conv prod.collapse)

end
