(* ===== verification/Bond.thy ===== *)
theory Bond
  imports FileSystem Text Frame
begin

text \<open>
  The bond store of \<open>syauth-core/src/bond.rs\<close>: bonds and their status, the store
  with its operations, and the TOML file it is loaded from and atomically saved
  to.  The TOML text layer and the RFC 3339 clock format are foreign code and
  come as the record \<open>toml_lib\<close>; BLAKE3 and HKDF are function arguments.
\<close>

unbundle bit_operations_syntax

section \<open>Data\<close>

definition PUBKEY_LEN :: nat where [const_defs]: "PUBKEY_LEN = 32"
definition PEER_ID_BLAKE3_BYTES :: nat where [const_defs]: "PEER_ID_BLAKE3_BYTES = 16"
definition PEER_ID_HEX_LEN :: nat where [const_defs]: "PEER_ID_HEX_LEN = PEER_ID_BLAKE3_BYTES * 2"
definition BOND_FILE_MODE :: mode where [const_defs]: "BOND_FILE_MODE = 384" \<comment> \<open>0o600\<close>
definition BOND_DIR_MODE :: mode where [const_defs]: "BOND_DIR_MODE = 448" \<comment> \<open>0o700\<close>
definition BOND_SCHEMA_VERSION_LATEST :: nat where [const_defs]: "BOND_SCHEMA_VERSION_LATEST = 1"
definition BOND_HKDF_INFO_V1 :: bytes where [const_defs]: "BOND_HKDF_INFO_V1 = str_bytes ''syauth-bond-v1''"
definition BOND_KEY_DERIVED_BYTES :: nat where [const_defs]: "BOND_KEY_DERIVED_BYTES = 32"
definition BOND_DIR_PERMISSION_MASK :: mode where [const_defs]: "BOND_DIR_PERMISSION_MASK = 511" \<comment> \<open>0o777\<close>

datatype bond_status = Bonded | Revoked string

record bond =
  b_peer_id :: string
  b_pubkey :: bytes
  b_name :: string
  b_created_at :: int
  b_status :: bond_status

definition is_revoked :: "bond \<Rightarrow> bool" where
  "is_revoked b = (case b_status b of Revoked _ \<Rightarrow> True | Bonded \<Rightarrow> False)"

record bond_file =
  bf_schema_version :: nat
  bf_bonds :: "bond list"

record bond_store =
  bs_bonds :: "bond list"

text \<open>
  The variants of \<open>BondError\<close>; \<open>Bond_Panicked\<close> is not one of them, it stands for
  the panic of a \<open>str\<close> slice inside the public-key deserializer.
\<close>

datatype bond_error =
    Bond_Io path io_error
  | Bond_Parse
  | Bond_Serialize
  | Bond_UnsupportedSchemaVersion nat nat
  | Bond_AlreadyBonded string
  | Bond_UnknownPeer string
  | Bond_ParentDirTooPermissive path mode mode
  | Bond_PeerIdMismatch string string
  | Bond_Panicked

section \<open>Identifiers and keys\<close>

definition hex_byte :: "byte \<Rightarrow> string" where
  "hex_byte b = [hex_char (unat (drop_bit 4 b)), hex_char (unat (b AND 15))]"

fun hex_lowercase :: "bytes \<Rightarrow> string" where
  "hex_lowercase [] = []"
| "hex_lowercase (b # bs) = hex_byte b @ hex_lowercase bs"

definition peer_id_from_pubkey :: "(bytes \<Rightarrow> bytes) \<Rightarrow> bytes \<Rightarrow> string" where
  "peer_id_from_pubkey blake3 pubkey = hex_lowercase (slice 0 PEER_ID_BLAKE3_BYTES (blake3 pubkey))"

text \<open>HKDF-SHA256 without salt: keying material, info and length to the expanded bytes.\<close>

type_synonym hkdf = "bytes \<Rightarrow> bytes \<Rightarrow> nat \<Rightarrow> bytes option"

definition bond_key_from_pubkeys :: "hkdf \<Rightarrow> bytes \<Rightarrow> bytes \<Rightarrow> bytes" where
  "bond_key_from_pubkeys hk host_pubkey phone_pubkey =
     (let ikm = host_pubkey @ phone_pubkey in
      case hk ikm BOND_HKDF_INFO_V1 BOND_KEY_DERIVED_BYTES of
        Some out \<Rightarrow> out
      | None \<Rightarrow> replicate BOND_KEY_DERIVED_BYTES 0)"

section \<open>Operations on the store\<close>

definition bs_empty :: bond_store where
  "bs_empty = \<lparr> bs_bonds = [] \<rparr>"

definition bs_list :: "bond_store \<Rightarrow> bond list" where
  "bs_list st = bs_bonds st"

fun position :: "('a \<Rightarrow> bool) \<Rightarrow> 'a list \<Rightarrow> nat option" where
  "position P [] = None"
| "position P (x # xs) = (if P x then Some 0 else map_option Suc (position P xs))"

definition find_index :: "bond_store \<Rightarrow> string \<Rightarrow> nat option" where
  "find_index st pid = position (\<lambda>b. b_peer_id b = pid) (bs_bonds st)"

definition bs_add :: "bond_store \<Rightarrow> bond \<Rightarrow> (bond_error + unit) \<times> bond_store" where
  "bs_add st b =
     (if find_index st (b_peer_id b) \<noteq> None then (Err (Bond_AlreadyBonded (b_peer_id b)), st)
      else (Ok (), st\<lparr> bs_bonds := bs_bonds st @ [b] \<rparr>))"

definition remove_at :: "nat \<Rightarrow> 'a list \<Rightarrow> 'a list" where
  "remove_at i xs = take i xs @ drop (Suc i) xs"

definition bs_remove :: "bond_store \<Rightarrow> string \<Rightarrow> (bond_error + unit) \<times> bond_store" where
  "bs_remove st pid =
     (case find_index st pid of
        Some i \<Rightarrow> (Ok (), st\<lparr> bs_bonds := remove_at i (bs_bonds st) \<rparr>)
      | None \<Rightarrow> (Err (Bond_UnknownPeer pid), st))"

definition mark_revoked :: "bond_store \<Rightarrow> string \<Rightarrow> string \<Rightarrow> (bond_error + unit) \<times> bond_store" where
  "mark_revoked st pid reason =
     (case find_index st pid of
        Some i \<Rightarrow>
          (let b = bs_bonds st ! i in
           if is_revoked b then (Ok (), st)
           else (Ok (), st\<lparr> bs_bonds := (bs_bonds st)[i := b\<lparr> b_status := Revoked reason \<rparr>] \<rparr>))
      | None \<Rightarrow> (Err (Bond_UnknownPeer pid), st))"

section \<open>The text form\<close>

text \<open>
  A TOML document as \<open>serde\<close> sees it: every field is a string, \<open>kind\<close> is the tag
  of the status and \<open>reason\<close> its optional payload; the bond array may be absent.
\<close>

record raw_bond =
  rb_peer_id :: string
  rb_pubkey :: string
  rb_name :: string
  rb_created_at :: string
  rb_kind :: string
  rb_reason :: "string option"

record raw_file =
  rf_schema_version :: nat
  rf_bonds :: "raw_bond list option"

record toml_lib =
  toml_from :: "string \<Rightarrow> raw_file option"
  toml_to :: "raw_file \<Rightarrow> string option"
  rfc_format :: "int \<Rightarrow> string option"
  rfc_parse :: "string \<Rightarrow> int option"

datatype de_error = De_Error | De_Panic

text \<open>The loop over the 32 bytes of \<open>hex_pubkey::deserialize\<close>, from byte \<open>i\<close> on.\<close>

fun hex_pubkey_loop :: "string \<Rightarrow> nat \<Rightarrow> nat \<Rightarrow> de_error + bytes" where
  "hex_pubkey_loop raw i 0 = Ok []"
| "hex_pubkey_loop raw i (Suc n) =
     (if \<not> (char_boundary raw (i * 2) \<and> char_boundary raw (i * 2 + 2)) then Err De_Panic
      else case from_str_radix16 (slice (i * 2) (i * 2 + 2) raw) of
        None \<Rightarrow> Err De_Error
      | Some v \<Rightarrow> res_bind (hex_pubkey_loop raw (i + 1) n) (\<lambda>bs. Ok (word_of_nat v # bs)))"

definition hex_pubkey_deserialize :: "string \<Rightarrow> de_error + bytes" where
  "hex_pubkey_deserialize raw =
     (if length raw \<noteq> PUBKEY_LEN * 2 then Err De_Error else hex_pubkey_loop raw 0 PUBKEY_LEN)"

definition status_of_raw :: "string \<Rightarrow> string option \<Rightarrow> de_error + bond_status" where
  "status_of_raw kind reason =
     (if kind = ''Bonded'' then Ok Bonded
      else if kind = ''Revoked'' then (case reason of None \<Rightarrow> Err De_Error | Some r \<Rightarrow> Ok (Revoked r))
      else Err De_Error)"

definition bond_of_raw :: "toml_lib \<Rightarrow> raw_bond \<Rightarrow> de_error + bond" where
  "bond_of_raw L r =
     res_bind (hex_pubkey_deserialize (rb_pubkey r)) (\<lambda>pk.
     case rfc_parse L (rb_created_at r) of
       None \<Rightarrow> Err De_Error
     | Some t \<Rightarrow>
         res_bind (status_of_raw (rb_kind r) (rb_reason r)) (\<lambda>stat.
         Ok \<lparr> b_peer_id = rb_peer_id r, b_pubkey = pk, b_name = rb_name r, b_created_at = t, b_status = stat \<rparr>))"

fun map_res :: "('a \<Rightarrow> 'e + 'b) \<Rightarrow> 'a list \<Rightarrow> 'e + 'b list" where
  "map_res f [] = Ok []"
| "map_res f (x # xs) = res_bind (f x) (\<lambda>y. res_bind (map_res f xs) (\<lambda>ys. Ok (y # ys)))"

definition toml_from_str :: "toml_lib \<Rightarrow> string \<Rightarrow> de_error + bond_file" where
  "toml_from_str L raw =
     (case toml_from L raw of
        None \<Rightarrow> Err De_Error
      | Some rf \<Rightarrow>
          res_bind (map_res (bond_of_raw L) (case rf_bonds rf of None \<Rightarrow> [] | Some bs \<Rightarrow> bs))
            (\<lambda>bs. Ok \<lparr> bf_schema_version = rf_schema_version rf, bf_bonds = bs \<rparr>))"

definition raw_of_bond :: "toml_lib \<Rightarrow> bond \<Rightarrow> unit + raw_bond" where
  "raw_of_bond L b =
     (case rfc_format L (b_created_at b) of
        None \<Rightarrow> Err ()
      | Some t \<Rightarrow> Ok \<lparr> rb_peer_id = b_peer_id b, rb_pubkey = hex_lowercase (b_pubkey b), rb_name = b_name b,
           rb_created_at = t,
           rb_kind = (case b_status b of Bonded \<Rightarrow> ''Bonded'' | Revoked _ \<Rightarrow> ''Revoked''),
           rb_reason = (case b_status b of Bonded \<Rightarrow> None | Revoked r \<Rightarrow> Some r) \<rparr>)"

definition toml_to_string :: "toml_lib \<Rightarrow> bond_file \<Rightarrow> unit + string" where
  "toml_to_string L bf =
     res_bind (map_res (raw_of_bond L) (bf_bonds bf)) (\<lambda>rs.
       case toml_to L \<lparr> rf_schema_version = bf_schema_version bf, rf_bonds = Some rs \<rparr> of
         None \<Rightarrow> Err () | Some s \<Rightarrow> Ok s)"

definition serialize_to_toml :: "toml_lib \<Rightarrow> bond_store \<Rightarrow> bond_error + bytes" where
  "serialize_to_toml L st =
     (case toml_to_string L \<lparr> bf_schema_version = BOND_SCHEMA_VERSION_LATEST, bf_bonds = bs_bonds st \<rparr> of
        Inl _ \<Rightarrow> Err Bond_Serialize
      | Inr s \<Rightarrow> Ok (str_bytes s))"

section \<open>Loading and saving\<close>

fun check_peer_ids :: "(bytes \<Rightarrow> bytes) \<Rightarrow> bond list \<Rightarrow> bond_error + unit" where
  "check_peer_ids blake3 [] = Ok ()"
| "check_peer_ids blake3 (b # bs) =
     (let expected = peer_id_from_pubkey blake3 (b_pubkey b) in
      if b_peer_id b \<noteq> expected then Err (Bond_PeerIdMismatch (b_peer_id b) expected)
      else check_peer_ids blake3 bs)"

definition read_to_string :: "sys_env \<Rightarrow> fs \<Rightarrow> path \<Rightarrow> io_error + string" where
  "read_to_string e s p =
     res_bind (read_file e s p) (\<lambda>bs. case from_utf8 bs of None \<Rightarrow> Err InvalidData | Some t \<Rightarrow> Ok t)"

definition bs_load :: "toml_lib \<Rightarrow> (bytes \<Rightarrow> bytes) \<Rightarrow> sys_env \<Rightarrow> fs \<Rightarrow> path \<Rightarrow> bond_error + bond_store" where
  "bs_load L blake3 e s p =
     (case read_to_string e s p of
        Inl err \<Rightarrow> if err = NotFound then Ok \<lparr> bs_bonds = [] \<rparr> else Err (Bond_Io p err)
      | Inr raw \<Rightarrow>
          (case toml_from_str L raw of
             Inl De_Error \<Rightarrow> Err Bond_Parse
           | Inl De_Panic \<Rightarrow> Err Bond_Panicked
           | Inr parsed \<Rightarrow>
               if bf_schema_version parsed > BOND_SCHEMA_VERSION_LATEST
               then Err (Bond_UnsupportedSchemaVersion (bf_schema_version parsed) BOND_SCHEMA_VERSION_LATEST)
               else res_bind (check_peer_ids blake3 (bf_bonds parsed))
                      (\<lambda>_. Ok \<lparr> bs_bonds = bf_bonds parsed \<rparr>)))"

definition parent_dir_of :: "path \<Rightarrow> bond_error + path" where
  "parent_dir_of p = (case parent p of None \<Rightarrow> Err (Bond_Io p InvalidInput) | Some d \<Rightarrow> Ok d)"

definition ensure_parent_dir :: "sys_env \<Rightarrow> path \<Rightarrow> fs \<Rightarrow> (bond_error + unit) \<times> fs" where
  "ensure_parent_dir e d s =
     (case metadata e s d of
        Inr (DirNode m) \<Rightarrow>
          (let md = m AND BOND_DIR_PERMISSION_MASK in
           if md AND NOT BOND_DIR_MODE \<noteq> 0
           then (Err (Bond_ParentDirTooPermissive d md BOND_DIR_MODE), s)
           else (Ok (), s))
      | Inr (FileNode _ _) \<Rightarrow> (Err (Bond_Io d NotADirectory), s)
      | Inl err \<Rightarrow>
          if err = NotFound then
            (case create_dir_all e d s of
               (Inl x, s1) \<Rightarrow> (Err (Bond_Io d x), s1)
             | (Inr _, s1) \<Rightarrow> on_err (Bond_Io d) (set_permissions e d BOND_DIR_MODE s1))
          else (Err (Bond_Io d err), s))"

definition set_temp_file_mode :: "sys_env \<Rightarrow> mode \<Rightarrow> path \<Rightarrow> fs \<Rightarrow> (bond_error + unit) \<times> fs" where
  "set_temp_file_mode e md tmp s = on_err (Bond_Io tmp) (set_permissions e tmp md s)"

definition bs_save :: "toml_lib \<Rightarrow> sys_env \<Rightarrow> bond_store \<Rightarrow> path \<Rightarrow> fs \<Rightarrow> (bond_error + unit) \<times> fs" where
  "bs_save L e st p s =
     (case parent_dir_of p of
        Inl x \<Rightarrow> (Err x, s)
      | Inr d \<Rightarrow>
          (case ensure_parent_dir e d s of
             (Inl x, s1) \<Rightarrow> (Err x, s1)
           | (Inr _, s1) \<Rightarrow>
               (case serialize_to_toml L st of
                  Inl x \<Rightarrow> (Err x, s1)
                | Inr bs \<Rightarrow>
                    replace_via_temp e d (Bond_Io d)
                      [set_temp_file_mode e BOND_FILE_MODE,
                       \<lambda>tmp s. on_err (Bond_Io tmp) (write_all e tmp bs s),
                       \<lambda>tmp s. on_err (Bond_Io tmp) (sync_all e tmp s)]
                      p (Bond_Io p) s1)))"

section \<open>Invariant and abstraction\<close>

text \<open>
  The invariant of a store: every id is the one derived from the public key and
  no id occurs twice.  \<open>bs_map\<close> reads a store as a finite map.
\<close>

definition bond_wf :: "(bytes \<Rightarrow> bytes) \<Rightarrow> bond \<Rightarrow> bool" where
  "bond_wf blake3 b \<longleftrightarrow> length (b_pubkey b) = PUBKEY_LEN \<and> b_peer_id b = peer_id_from_pubkey blake3 (b_pubkey b)"

definition bs_map :: "bond_store \<Rightarrow> string \<rightharpoonup> bond" where
  "bs_map st = map_of (map (\<lambda>b. (b_peer_id b, b)) (bs_bonds st))"

text \<open>What the program relies on of the text libraries.\<close>

definition toml_lib_ok :: "toml_lib \<Rightarrow> bool" where
  "toml_lib_ok L \<longleftrightarrow>
     (\<forall>rf t. toml_to L rf = Some t \<longrightarrow> toml_from L t = Some rf \<and> utf8_valid (str_bytes t)) \<and>
     (\<forall>i t. rfc_format L i = Some t \<longrightarrow> rfc_parse L t = Some i)"

section \<open>Lemmas: hexadecimal keys\<close>

lemma hex_digit_char: "n < 16 \<Longrightarrow> hex_digit (hex_char n) = Some n"
proof -
  have "\<forall>n \<in> {0..<16}. hex_digit (hex_char n) = Some n" by code_simp
  then show "n < 16 \<Longrightarrow> hex_digit (hex_char n) = Some n" by simp
qed

lemma hex_char_plain: "n < 16 \<Longrightarrow> hex_char n \<noteq> CHR ''+'' \<and> \<not> utf8_cont (byte_of_char (hex_char n))"
proof -
  have "\<forall>n \<in> {0..<16}. hex_char n \<noteq> CHR ''+'' \<and> \<not> utf8_cont (byte_of_char (hex_char n))" by code_simp
  then show "n < 16 \<Longrightarrow> hex_char n \<noteq> CHR ''+'' \<and> \<not> utf8_cont (byte_of_char (hex_char n))" by simp
qed

lemma hi_nibble: "unat (drop_bit 4 (b::byte)) = unat b div 16" "unat b div 16 < 16"
  using unsigned_less [of b, where 'a = nat] by (simp_all add: drop_bit_eq_div unat_div_distrib)

lemma lo_nibble: "unat ((b::byte) AND 15) = unat b mod 16"
proof -
  have "b AND 15 = take_bit 4 b" by (simp add: take_bit_eq_mask mask_eq_exp_minus_1)
  then show ?thesis by (simp add: unsigned_take_bit_eq take_bit_eq_mod unat_mod_distrib)
qed

lemma from_str_radix16_hex_byte: "from_str_radix16 (hex_byte b) = Some (unat b)"
proof -
  have "unat b < 256" using unsigned_less [of b] by simp
  then show ?thesis
    by (simp add: from_str_radix16_def hex_byte_def hi_nibble lo_nibble hex_char_plain hex_digit_char)
qed

lemma length_hex_lowercase [simp]: "length (hex_lowercase bs) = 2 * length bs"
  by (induction bs) (simp_all add: hex_byte_def)

lemma hex_lowercase_append: "hex_lowercase (xs @ ys) = hex_lowercase xs @ hex_lowercase ys"
  by (induction xs) auto

lemma hex_lowercase_plain: "c \<in> set (hex_lowercase bs) \<Longrightarrow> \<not> utf8_cont (byte_of_char c)"
  by (induction bs) (auto simp: hex_byte_def hi_nibble lo_nibble hex_char_plain)

lemma hex_boundary: "i \<le> 2 * length bs \<Longrightarrow> char_boundary (hex_lowercase bs) i"
  using hex_lowercase_plain [of "hex_lowercase bs ! i" bs] by (auto simp: char_boundary_def)

lemma hex_lowercase_slice:
  assumes "i < length bs"
  shows "slice (i * 2) (i * 2 + 2) (hex_lowercase bs) = hex_byte (bs ! i)"
proof -
  have "hex_lowercase bs = hex_lowercase (take i bs) @ hex_byte (bs ! i) @ hex_lowercase (drop (Suc i) bs)"
    using assms by (metis Cons_nth_drop_Suc append_take_drop_id hex_lowercase.simps(2) hex_lowercase_append)
  then show ?thesis using assms by (simp add: slice_def hex_byte_def)
qed

lemma hex_pubkey_loop_hex:
  "i + n = length bs \<Longrightarrow> hex_pubkey_loop (hex_lowercase bs) i n = Ok (drop i bs)"
proof (induction n arbitrary: i)
  case (Suc n)
  then have "hex_pubkey_loop (hex_lowercase bs) (i + 1) n = Ok (drop (i + 1) bs)" by simp
  then show ?case
    using Suc.prems hex_lowercase_slice [of i bs]
    by (simp add: hex_boundary from_str_radix16_hex_byte Cons_nth_drop_Suc)
qed simp

lemma hex_pubkey_roundtrip: "length bs = PUBKEY_LEN \<Longrightarrow> hex_pubkey_deserialize (hex_lowercase bs) = Ok bs"
  by (simp add: hex_pubkey_deserialize_def hex_pubkey_loop_hex)

lemma hex_pubkey_loop_length: "hex_pubkey_loop raw i n = Ok bs \<Longrightarrow> length bs = n"
  by (induction raw i n arbitrary: bs rule: hex_pubkey_loop.induct) (auto split: if_splits option.splits)

lemma hex_pubkey_length: "hex_pubkey_deserialize raw = Ok bs \<Longrightarrow> length bs = PUBKEY_LEN"
  by (auto simp: hex_pubkey_deserialize_def hex_pubkey_loop_length split: if_splits)

section \<open>Lemmas: the store as a map\<close>

lemma position_None: "position P xs = None \<longleftrightarrow> (\<forall>x \<in> set xs. \<not> P x)"
  by (induction xs) auto

lemma position_Some: "position P xs = Some i \<Longrightarrow> i < length xs \<and> P (xs ! i)"
  by (induction xs arbitrary: i) (auto split: if_splits)

lemma find_index_None: "find_index st pid = None \<longleftrightarrow> pid \<notin> set (map b_peer_id (bs_bonds st))"
  by (auto simp: find_index_def position_None)

lemma find_index_Some:
  "find_index st pid = Some i \<Longrightarrow> i < length (bs_bonds st) \<and> b_peer_id (bs_bonds st ! i) = pid"
  unfolding find_index_def by (drule position_Some) simp

lemma bs_map_None: "bs_map st pid = None \<longleftrightarrow> find_index st pid = None"
  by (simp add: bs_map_def map_of_eq_None_iff find_index_None image_image)

lemma bs_map_nth:
  assumes "distinct (map b_peer_id (bs_bonds st))" "i < length (bs_bonds st)"
  shows "bs_map st (b_peer_id (bs_bonds st ! i)) = Some (bs_bonds st ! i)"
proof -
  have "distinct (map fst (map (\<lambda>b. (b_peer_id b, b)) (bs_bonds st)))" using assms(1) by (simp add: o_def)
  then show ?thesis unfolding bs_map_def using assms(2) by (intro map_of_is_SomeI) auto
qed

lemma bs_map_find:
  assumes "distinct (map b_peer_id (bs_bonds st))" "find_index st pid = Some i"
  shows "bs_map st pid = Some (bs_bonds st ! i)"
  using bs_map_nth [OF assms(1)] find_index_Some [OF assms(2)] by blast

lemma map_of_remove_at:
  assumes "distinct (map f xs)" "i < length xs"
  shows "map_of (map (\<lambda>b. (f b, b)) (remove_at i xs)) = (map_of (map (\<lambda>b. (f b, b)) xs))(f (xs ! i) := None)"
proof -
  have xs: "xs = take i xs @ xs ! i # drop (Suc i) xs" using assms(2) by (simp add: id_take_nth_drop)
  have d: "distinct (map f (take i xs @ xs ! i # drop (Suc i) xs))" using assms(1) xs by simp
  have n: "map_of (map (\<lambda>b. (f b, b)) (take i xs)) (f (xs ! i)) = None"
    "map_of (map (\<lambda>b. (f b, b)) (drop (Suc i) xs)) (f (xs ! i)) = None"
    using d by (auto simp: map_of_eq_None_iff)
  have "map_of (map (\<lambda>b. (f b, b)) xs)
      = map_of (map (\<lambda>b. (f b, b)) (take i xs @ xs ! i # drop (Suc i) xs))" using xs by simp
  then show ?thesis
    using n by (auto simp: remove_at_def fun_eq_iff map_add_def split: option.splits)
qed

lemma map_of_list_update:
  assumes "distinct (map f xs)" "i < length xs" "f y = f (xs ! i)"
  shows "map_of (map (\<lambda>b. (f b, b)) (xs[i := y])) = (map_of (map (\<lambda>b. (f b, b)) xs))(f y := Some y)"
proof -
  have xs: "xs = take i xs @ xs ! i # drop (Suc i) xs" using assms(2) by (simp add: id_take_nth_drop)
  have d: "distinct (map f (take i xs @ xs ! i # drop (Suc i) xs))" using assms(1) xs by simp
  have n: "map_of (map (\<lambda>b. (f b, b)) (drop (Suc i) xs)) (f (xs ! i)) = None"
    "map_of (map (\<lambda>b. (f b, b)) (take i xs)) (f (xs ! i)) = None"
    using d by (auto simp: map_of_eq_None_iff)
  have "map_of (map (\<lambda>b. (f b, b)) xs)
      = map_of (map (\<lambda>b. (f b, b)) (take i xs @ xs ! i # drop (Suc i) xs))" using xs by simp
  then show ?thesis
    using n assms(2,3) by (auto simp: upd_conv_take_nth_drop fun_eq_iff map_add_def split: option.splits)
qed

lemma bs_add_map:
  assumes "bs_add st b = (r, st')"
  shows "bs_map st (b_peer_id b) = None \<Longrightarrow> r = Ok () \<and> bs_map st' = (bs_map st)(b_peer_id b \<mapsto> b)"
    and "bs_map st (b_peer_id b) \<noteq> None \<Longrightarrow> r = Err (Bond_AlreadyBonded (b_peer_id b)) \<and> st' = st"
proof -
  show "bs_map st (b_peer_id b) = None \<Longrightarrow> r = Ok () \<and> bs_map st' = (bs_map st)(b_peer_id b \<mapsto> b)"
    using assms
    by (auto simp: bs_add_def bs_map_None [symmetric] bs_map_def fun_eq_iff map_add_def split: option.splits if_splits)
  show "bs_map st (b_peer_id b) \<noteq> None \<Longrightarrow> r = Err (Bond_AlreadyBonded (b_peer_id b)) \<and> st' = st"
    using assms by (auto simp: bs_add_def bs_map_None [symmetric] split: if_splits)
qed

lemma bs_remove_map:
  assumes "distinct (map b_peer_id (bs_bonds st))" "bs_remove st pid = (r, st')"
  shows "bs_map st pid \<noteq> None \<Longrightarrow> r = Ok () \<and> bs_map st' = (bs_map st)(pid := None)"
    and "bs_map st pid = None \<Longrightarrow> r = Err (Bond_UnknownPeer pid) \<and> st' = st"
proof -
  show "bs_map st pid = None \<Longrightarrow> r = Err (Bond_UnknownPeer pid) \<and> st' = st"
    using assms(2) by (simp add: bs_remove_def bs_map_None)
  assume "bs_map st pid \<noteq> None"
  then obtain i where i: "find_index st pid = Some i" by (auto simp: bs_map_None)
  show "r = Ok () \<and> bs_map st' = (bs_map st)(pid := None)"
    using assms(2) i find_index_Some [OF i] map_of_remove_at [OF assms(1)]
    by (auto simp: bs_remove_def bs_map_def)
qed

lemma mark_revoked_map:
  assumes "distinct (map b_peer_id (bs_bonds st))" "mark_revoked st pid reason = (r, st')"
  shows "bs_map st pid = Some b \<Longrightarrow> r = Ok () \<and>
           bs_map st' = (if is_revoked b then bs_map st
                         else (bs_map st)(pid \<mapsto> b\<lparr> b_status := Revoked reason \<rparr>))"
    and "bs_map st pid = None \<Longrightarrow> r = Err (Bond_UnknownPeer pid) \<and> st' = st"
proof -
  show "bs_map st pid = None \<Longrightarrow> r = Err (Bond_UnknownPeer pid) \<and> st' = st"
    using assms(2) by (auto simp: mark_revoked_def bs_map_None)
  assume b: "bs_map st pid = Some b"
  then obtain i where i: "find_index st pid = Some i" using bs_map_None [of st pid] by (cases "find_index st pid") auto
  have bi: "b = bs_bonds st ! i" "i < length (bs_bonds st)" "b_peer_id b = pid"
    using bs_map_find [OF assms(1) i] find_index_Some [OF i] b by auto
  show "r = Ok () \<and> bs_map st' = (if is_revoked b then bs_map st
      else (bs_map st)(pid \<mapsto> b\<lparr> b_status := Revoked reason \<rparr>))"
    using assms(2) i bi map_of_list_update [OF assms(1) bi(2), of "b\<lparr> b_status := Revoked reason \<rparr>"]
    by (auto simp: mark_revoked_def bs_map_def Let_def split: if_splits)
qed

section \<open>Lemmas: saving and loading\<close>

definition save_steps :: "sys_env \<Rightarrow> bytes \<Rightarrow> (path \<Rightarrow> fs \<Rightarrow> (bond_error + unit) \<times> fs) list" where
  "save_steps e bs =
     [set_temp_file_mode e BOND_FILE_MODE,
      \<lambda>tmp s. on_err (Bond_Io tmp) (write_all e tmp bs s),
      \<lambda>tmp s. on_err (Bond_Io tmp) (sync_all e tmp s)]"

lemma local_save_steps: "local_steps (save_steps e bs)"
  by (auto simp: save_steps_def set_temp_file_mode_def on_err_Pair
           dest: set_permissions_touches write_all_touches sync_all_same)

lemma save_steps_ok:
  assumes "run_steps (save_steps e bs) t s1 = (Ok (), s2)" "fs_nodes s1 t = Some (FileNode [] m)"
  shows "fs_nodes s2 t = Some (FileNode bs BOND_FILE_MODE)"
proof -
  obtain r1 sa where a: "set_permissions e t BOND_FILE_MODE s1 = (r1, sa)" by fastforce
  obtain r2 sb where b: "write_all e t bs sa = (r2, sb)" by fastforce
  obtain r3 sc where c: "sync_all e t sb = (r3, sc)" by fastforce
  from assms(1) have "r1 = Ok ()" "r2 = Ok ()" "s2 = sc"
    by (auto simp: save_steps_def set_temp_file_mode_def on_err_def a b c split: sum.splits)
  then show ?thesis
    using set_permissions_ok [of e t BOND_FILE_MODE s1 sa] write_all_ok [of e t bs sa sb] assms(2)
      sync_all_same [OF c] a b by auto
qed

text \<open>
  Making the parent directory never touches the bonds file itself: an existing
  file keeps its node, since a directory and its ancestors are shorter paths.
\<close>

lemma ensure_parent_dir_touches:
  assumes "ensure_parent_dir e d s = (r, s')"
  shows "only_touches (set (ancestors d) \<union> {d}) s s'"
proof -
  have mono: "only_touches P s s' \<Longrightarrow> P \<subseteq> Q \<Longrightarrow> only_touches Q s s'" for P Q s s'
    unfolding only_touches_def by blast
  show ?thesis
    using assms
    by (auto simp: ensure_parent_dir_def Let_def on_err_Pair
             split: sum.splits node.splits if_splits prod.splits
             intro: mono [OF create_dir_all_touches]
                    only_touches_trans [OF mono [OF create_dir_all_touches] mono [OF set_permissions_touches]])
qed

lemma parent_longer: "parent p = Some d \<Longrightarrow> q \<in> set (ancestors d) \<union> {d} \<Longrightarrow> q \<noteq> p"
  using ancestors_shorter [of q d]
  by (cases p rule: rev_cases) (auto simp: parent_def)

lemma bs_save_cases:
  assumes "bs_save L e st p s = (r, s')"
  obtains (early) "\<not> is_ok r" "parent p = None \<or> (\<exists>d. parent p = Some d \<and> only_touches (set (ancestors d) \<union> {d}) s s')"
    | (replace) d s1 bs where "parent p = Some d" "ensure_parent_dir e d s = (Ok (), s1)"
        "serialize_to_toml L st = Ok bs"
        "replace_via_temp e d (Bond_Io d) (save_steps e bs) p (Bond_Io p) s1 = (r, s')"
proof -
  show ?thesis
  proof (cases "parent p")
    case None
    then show ?thesis using assms early by (auto simp: bs_save_def parent_dir_of_def)
  next
    case (Some d)
    obtain x s1 where ed: "ensure_parent_dir e d s = (x, s1)" by fastforce
    note t = ensure_parent_dir_touches [OF ed]
    show ?thesis
      using assms Some ed t early replace
      by (cases x; cases "serialize_to_toml L st") (auto simp: bs_save_def parent_dir_of_def save_steps_def)
  qed
qed

lemma map_res_roundtrip:
  assumes "map_res f xs = Ok ys" "\<And>x y. x \<in> set xs \<Longrightarrow> f x = Ok y \<Longrightarrow> g y = Ok x"
  shows "map_res g ys = Ok xs"
  using assms by (induction xs arbitrary: ys) auto

lemma bond_raw_roundtrip:
  assumes "toml_lib_ok L" "raw_of_bond L b = Ok r" "length (b_pubkey b) = PUBKEY_LEN"
  shows "bond_of_raw L r = Ok b"
proof (cases "b_status b")
  case Bonded
  then show ?thesis using assms
    by (cases b) (auto simp: raw_of_bond_def bond_of_raw_def toml_lib_ok_def hex_pubkey_roundtrip
        status_of_raw_def split: option.splits)
next
  case (Revoked reason)
  then show ?thesis using assms
    by (cases b) (auto simp: raw_of_bond_def bond_of_raw_def toml_lib_ok_def hex_pubkey_roundtrip
        status_of_raw_def split: option.splits)
qed

lemma toml_string_roundtrip:
  assumes "toml_lib_ok L" "toml_to_string L bf = Ok t" "\<forall>b \<in> set (bf_bonds bf). length (b_pubkey b) = PUBKEY_LEN"
  shows "toml_from_str L t = Ok bf \<and> utf8_valid (str_bytes t)"
proof -
  from assms(2) obtain rs where rs: "map_res (raw_of_bond L) (bf_bonds bf) = Ok rs"
    and t: "toml_to L \<lparr> rf_schema_version = bf_schema_version bf, rf_bonds = Some rs \<rparr> = Some t"
    by (auto simp: toml_to_string_def split: option.splits)
  have "map_res (bond_of_raw L) rs = Ok (bf_bonds bf)"
    using rs assms(1,3) by (intro map_res_roundtrip [OF rs]) (auto intro: bond_raw_roundtrip)
  then show ?thesis using t assms(1) by (auto simp: toml_from_str_def toml_lib_ok_def)
qed

lemma check_peer_ids_Ok:
  "check_peer_ids blake3 bs = Ok u \<longleftrightarrow> (\<forall>b \<in> set bs. b_peer_id b = peer_id_from_pubkey blake3 (b_pubkey b))"
  by (induction bs) (auto simp: Let_def)

lemma map_res_elem: "map_res f xs = Ok ys \<Longrightarrow> y \<in> set ys \<Longrightarrow> \<exists>x \<in> set xs. f x = Ok y"
  by (induction xs arbitrary: ys) auto

lemma bs_load_wf:
  assumes "bs_load L blake3 e s p = Ok st" "b \<in> set (bs_bonds st)"
  shows "bond_wf blake3 b"
proof -
  from assms obtain raws where "b \<in> set (bs_bonds st)" "map_res (bond_of_raw L) raws = Ok (bs_bonds st)"
    "check_peer_ids blake3 (bs_bonds st) = Ok ()"
    by (auto simp: bs_load_def toml_from_str_def split: sum.splits if_splits de_error.splits option.splits
             intro: that)
  then show ?thesis
    by (auto simp: bond_wf_def check_peer_ids_Ok bond_of_raw_def hex_pubkey_length
             dest!: map_res_elem split: option.splits)
qed

lemma bs_save_unless_ok:
  assumes "bs_save L e st p s = (r, s')" "p \<noteq> temp_path e (butlast p)" "\<not> is_ok r"
  shows "fs_nodes s' p = fs_nodes s p"
  using assms(1)
proof (cases rule: bs_save_cases)
  case early
  show ?thesis
  proof (cases "parent p")
    case None
    then show ?thesis using assms(1) by (simp add: bs_save_def parent_dir_of_def)
  next
    case (Some d)
    then have "p \<notin> set (ancestors d) \<union> {d}" using parent_longer by blast
    then show ?thesis using early(2) Some only_touches_nodes by auto
  qed
next
  case (replace d s1 bs)
  then have "fs_nodes s1 p = fs_nodes s p"
    using only_touches_nodes [OF ensure_parent_dir_touches] parent_longer by blast
  moreover have "d = butlast p" using replace(1) by (auto simp: parent_def split: if_splits)
  ultimately show ?thesis
    using replace_via_temp_atomic(2) [OF replace(4) local_save_steps] assms(2,3) by auto
qed

lemma bs_save_content:
  assumes "bs_save L e st p s = (Ok (), s')" "p \<noteq> temp_path e (butlast p)"
  obtains bs where "serialize_to_toml L st = Ok bs" "fs_nodes s' p = Some (FileNode bs BOND_FILE_MODE)"
  using assms(1)
proof (cases rule: bs_save_cases)
  case (replace d s1 bs)
  then have "p \<noteq> temp_path e d" using assms(2) by (auto simp: parent_def split: if_splits)
  from replace(4) this obtain sa sb where "run_steps (save_steps e bs) (temp_path e d) sa = (Ok (), sb)"
    "fs_nodes sa (temp_path e d) = Some (FileNode [] 384)" "fs_nodes s' p = fs_nodes sb (temp_path e d)"
    by (rule replace_via_temp_ok)
  then show ?thesis using save_steps_ok that replace(3) by simp
qed simp

text \<open>Saving changes nothing but the file, the temporary one beside it and the directories above.\<close>

lemma bs_save_frame:
  assumes "bs_save L e st (d @ [f]) s = (r, s')" "f \<noteq> sys_temp e" "length q > Suc (length d)"
  shows "fs_nodes s' q = fs_nodes s q"
  using assms(1)
proof (cases rule: bs_save_cases)
  case early
  have "q \<notin> set (ancestors d) \<union> {d}" using ancestors_shorter [of q d] assms(3) by auto
  with early(2) show ?thesis by (auto simp: parent_def dest: only_touches_nodes)
next
  case (replace d' s1 bs)
  then have d': "d' = d" by (simp add: parent_def)
  have "q \<notin> set (ancestors d) \<union> {d}" using ancestors_shorter [of q d] assms(3) by auto
  then have "fs_nodes s1 q = fs_nodes s q"
    using only_touches_nodes [OF ensure_parent_dir_touches] replace(2) d' by blast
  moreover have "q \<noteq> d @ [f]" "q \<noteq> temp_path e d" using assms(3) by (auto simp: temp_path_def)
  ultimately show ?thesis
    using replace_via_temp_atomic(3) [OF replace(4) local_save_steps, of q] assms(2) d' by (simp add: temp_path_def)
qed

lemma bs_save_then_load:
  assumes "toml_lib_ok L" "\<forall>b \<in> set (bs_bonds st). bond_wf blake3 b"
    and "bs_save L e st p s = (Ok (), s')" "p \<noteq> temp_path e (butlast p)" "sys_fail e' (OpRead p) = None"
  shows "bs_load L blake3 e' s' p = Ok st"
proof -
  obtain bs where bs: "serialize_to_toml L st = Ok bs" "fs_nodes s' p = Some (FileNode bs BOND_FILE_MODE)"
    using bs_save_content [OF assms(3,4)] .
  then obtain t where t: "bs = str_bytes t"
    "toml_to_string L \<lparr> bf_schema_version = BOND_SCHEMA_VERSION_LATEST, bf_bonds = bs_bonds st \<rparr> = Ok t"
    by (auto simp: serialize_to_toml_def split: sum.splits)
  have "toml_from_str L t = Ok \<lparr> bf_schema_version = BOND_SCHEMA_VERSION_LATEST, bf_bonds = bs_bonds st \<rparr>
      \<and> utf8_valid (str_bytes t)"
    using toml_string_roundtrip [OF assms(1) t(2)] assms(2) by (simp add: bond_wf_def)
  moreover have "check_peer_ids blake3 (bs_bonds st) = Ok ()"
    using assms(2) by (simp add: check_peer_ids_Ok bond_wf_def)
  ultimately show ?thesis
    using bs t assms(5) by (simp add: bs_load_def read_to_string_def read_file_def from_utf8_def)
qed

lemma dir_mode_guard: "(m AND BOND_DIR_PERMISSION_MASK) AND NOT BOND_DIR_MODE = m AND 63"
  by (simp add: const_defs and.assoc)

section \<open>Properties\<close>

text \<open>
  The operations that change a store, one after the other, on the store and on a
  finite map from ids to bonds.
\<close>

datatype store_op = Op_Add bond | Op_Remove string | Op_Revoke string string

fun store_exec :: "store_op \<Rightarrow> bond_store \<Rightarrow> (bond_error + unit) \<times> bond_store" where
  "store_exec (Op_Add b) st = bs_add st b"
| "store_exec (Op_Remove pid) st = bs_remove st pid"
| "store_exec (Op_Revoke pid reason) st = mark_revoked st pid reason"

fun map_exec :: "store_op \<Rightarrow> (string \<rightharpoonup> bond) \<Rightarrow> (bond_error + unit) \<times> (string \<rightharpoonup> bond)" where
  "map_exec (Op_Add b) m =
     (case m (b_peer_id b) of None \<Rightarrow> (Ok (), m(b_peer_id b \<mapsto> b)) | Some _ \<Rightarrow> (Err (Bond_AlreadyBonded (b_peer_id b)), m))"
| "map_exec (Op_Remove pid) m =
     (case m pid of None \<Rightarrow> (Err (Bond_UnknownPeer pid), m) | Some _ \<Rightarrow> (Ok (), m(pid := None)))"
| "map_exec (Op_Revoke pid reason) m =
     (case m pid of
        None \<Rightarrow> (Err (Bond_UnknownPeer pid), m)
      | Some b \<Rightarrow> (Ok (), if is_revoked b then m else m(pid \<mapsto> b\<lparr> b_status := Revoked reason \<rparr>)))"

fun run_ops :: "('op \<Rightarrow> 's \<Rightarrow> 'r \<times> 's) \<Rightarrow> 'op list \<Rightarrow> 's \<Rightarrow> 'r list \<times> 's" where
  "run_ops f [] s = ([], s)"
| "run_ops f (x # xs) s = (case f x s of (r, s1) \<Rightarrow> (case run_ops f xs s1 of (rs, s2) \<Rightarrow> (r # rs, s2)))"

abbreviation distinct_ids :: "bond_store \<Rightarrow> bool" where
  "distinct_ids st \<equiv> distinct (map b_peer_id (bs_bonds st))"

lemma store_exec_map:
  assumes "distinct_ids st" "store_exec x st = (r, st')"
  shows "map_exec x (bs_map st) = (r, bs_map st')"
proof (cases x)
  case (Op_Add b)
  then show ?thesis using bs_add_map [of st b r st'] assms(2) by (auto split: option.splits)
next
  case (Op_Remove pid)
  then show ?thesis using bs_remove_map [OF assms(1), of pid r st'] assms(2) by (auto split: option.splits)
next
  case (Op_Revoke pid reason)
  then show ?thesis using mark_revoked_map [OF assms(1), of pid reason r st'] assms(2) by (auto split: option.splits)
qed

lemma mark_revoked_ids: "mark_revoked st i reason = (r, st') \<Longrightarrow> map b_peer_id (bs_bonds st') = map b_peer_id (bs_bonds st)"
  by (auto simp: mark_revoked_def Let_def map_update list_update_same_conv find_index_def split: option.splits if_splits
      dest!: position_Some)

lemma store_exec_distinct:
  assumes "distinct_ids st" "store_exec x st = (r, st')"
  shows "distinct_ids st'"
proof (cases x)
  case (Op_Add b)
  then show ?thesis using assms find_index_None [of st "b_peer_id b"] by (auto simp: bs_add_def split: if_splits)
next
  case (Op_Remove pid)
  have "distinct (map b_peer_id (remove_at i (bs_bonds st)))" for i
  proof -
    have "map b_peer_id (remove_at i (bs_bonds st)) = take i (map b_peer_id (bs_bonds st)) @ drop (Suc i) (map b_peer_id (bs_bonds st))"
      by (simp add: remove_at_def take_map drop_map)
    then show ?thesis
      using assms(1) set_take_disj_set_drop_if_distinct [of "map b_peer_id (bs_bonds st)" i "Suc i"] by simp
  qed
  then show ?thesis using assms Op_Remove by (auto simp: bs_remove_def split: option.splits)
next
  case (Op_Revoke pid reason)
  then show ?thesis using mark_revoked_ids [of st pid reason r st'] assms by simp
qed

text \<open>
  C10: the bond store is a finite map from peer ids to bonds.  Whatever sequence
  of operations runs on a store whose ids are pairwise distinct (the empty one to
  begin with), each gives the result that the map gives: \<open>add\<close> binds a new id and
  refuses a bound one, \<open>remove\<close> unbinds a bound id and refuses an unknown one,
  \<open>mark_revoked\<close> flips the status of a bonded peer and leaves a revoked one with
  its first reason, and a refused operation changes nothing.  At the end the
  store holds exactly the bonds of the map, each once.
\<close>

theorem bond_store_refines_map:
  assumes "distinct_ids st" "run_ops store_exec xs st = (rs, st')"
  shows "run_ops map_exec xs (bs_map st) = (rs, bs_map st') \<and> distinct_ids st' \<and> set (bs_list st') = ran (bs_map st')"
  using assms
proof (induction xs arbitrary: st rs)
  case Nil
  then show ?case by (simp add: bs_list_def bs_map_def ran_distinct o_def image_image)
next
  case (Cons x xs)
  obtain r st1 where x: "store_exec x st = (r, st1)" by fastforce
  obtain rs1 where xs: "run_ops store_exec xs st1 = (rs1, st')" "rs = r # rs1" using Cons.prems x by (auto split: prod.splits)
  show ?case
    using Cons.IH [OF store_exec_distinct [OF Cons.prems(1) x] xs(1)] store_exec_map [OF Cons.prems(1) x] xs(2) by simp
qed

definition ex_bond :: bond where
  "ex_bond = \<lparr> b_peer_id = ''aa'', b_pubkey = replicate 32 0, b_name = ''phone'', b_created_at = 0, b_status = Bonded \<rparr>"

theorem bond_store_refines_map_witness:
  "fst (run_ops store_exec [Op_Add ex_bond, Op_Add ex_bond, Op_Revoke ''aa'' ''lost'', Op_Remove ''bb''] \<lparr> bs_bonds = [] \<rparr>) =
     fst (run_ops map_exec [Op_Add ex_bond, Op_Add ex_bond, Op_Revoke ''aa'' ''lost'', Op_Remove ''bb''] Map.empty) \<and>
   fst (run_ops store_exec [Op_Add ex_bond, Op_Add ex_bond, Op_Revoke ''aa'' ''lost'', Op_Remove ''bb''] \<lparr> bs_bonds = [] \<rparr>) =
     [Ok (), Err (Bond_AlreadyBonded ''aa''), Ok (), Err (Bond_UnknownPeer ''bb'')]"
proof -
  let ?xs = "[Op_Add ex_bond, Op_Add ex_bond, Op_Revoke ''aa'' ''lost'', Op_Remove ''bb'']"
  obtain rs st' where r: "run_ops store_exec ?xs \<lparr> bs_bonds = [] \<rparr> = (rs, st')" by fastforce
  have "bs_map \<lparr> bs_bonds = [] \<rparr> = Map.empty" by (simp add: bs_map_def)
  then have "run_ops map_exec ?xs Map.empty = (rs, bs_map st')" using bond_store_refines_map [OF _ r] by simp
  moreover have "rs = [Ok (), Err (Bond_AlreadyBonded ''aa''), Ok (), Err (Bond_UnknownPeer ''bb'')]"
    using r by (simp add: bs_add_def mark_revoked_def bs_remove_def find_index_def ex_bond_def is_revoked_def)
  ultimately show ?thesis using r by simp
qed

text \<open>
  C11: saving the store is atomic.  Whatever primitive fails and wherever the
  process is killed, every state of the disk since the call shows at the bonds
  path either what was there before or, only when \<open>save\<close> returns \<open>Ok\<close>, the
  complete new file with mode 0600; when it returns an error the old file is
  still there.
\<close>

theorem bond_save_atomic:
  assumes "bs_save L e st p s = (r, s')" "p \<noteq> temp_path e (butlast p)"
  shows "\<exists>new. fs_all s' = new @ fs_all s \<and>
           (\<forall>m \<in> set new. m p = fs_nodes s p \<or>
              (r = Ok () \<and> (\<exists>bs. serialize_to_toml L st = Ok bs \<and> m p = Some (FileNode bs BOND_FILE_MODE)))) \<and>
           (r = Ok () \<or> fs_nodes s' p = fs_nodes s p)"
proof -
  have res: "r = Ok () \<or> fs_nodes s' p = fs_nodes s p"
    using bs_save_unless_ok [OF assms] by (cases r) auto
  have content: "r = Ok () \<Longrightarrow> \<exists>bs. serialize_to_toml L st = Ok bs \<and> fs_nodes s' p = Some (FileNode bs BOND_FILE_MODE)"
    using bs_save_content [of L e st p s s'] assms by blast
  from assms(1) show ?thesis
  proof (cases rule: bs_save_cases)
    case early
    show ?thesis
    proof (cases "parent p")
      case None
      then have "s' = s" using assms(1) by (simp add: bs_save_def parent_dir_of_def)
      then show ?thesis by (intro exI [of _ "[]"]) simp
    next
      case (Some d)
      then have "p \<notin> set (ancestors d) \<union> {d}" using parent_longer by blast
      then show ?thesis using early(2) Some res unfolding only_touches_def by (metis option.distinct(1) option.inject)
    qed
  next
    case (replace d s1 bs)
    have pd: "p \<notin> set (ancestors d) \<union> {d}" using parent_longer [OF replace(1)] by blast
    have pt: "p \<noteq> temp_path e d" using replace(1) assms(2) by (simp add: parent_def split: if_splits)
    obtain n1 where n1: "fs_all s1 = n1 @ fs_all s" "\<forall>m \<in> set n1. m p = fs_nodes s p"
      using ensure_parent_dir_touches [OF replace(2)] pd unfolding only_touches_def by blast
    have s1: "fs_nodes s1 p = fs_nodes s p"
      using only_touches_nodes [OF ensure_parent_dir_touches [OF replace(2)] pd] .
    obtain n2 where "fs_all s' = n2 @ fs_all s1"
      "\<forall>m \<in> set n2. m p = fs_nodes s1 p \<or> (r = Ok () \<and> m p = fs_nodes s' p)"
      using replace_via_temp_atomic(1) [OF replace(4) local_save_steps pt] by blast
    with n1 s1 content res show ?thesis by (intro exI [of _ "n2 @ n1"]) auto
  qed
qed

definition ex_toml :: toml_lib where
  "ex_toml = \<lparr> toml_from = (\<lambda>t. if t = ''v'' then Some \<lparr> rf_schema_version = 1, rf_bonds = Some [] \<rparr> else None),
     toml_to = (\<lambda>rf. if rf = \<lparr> rf_schema_version = 1, rf_bonds = Some [] \<rparr> then Some ''v'' else None),
     rfc_format = (\<lambda>_. None), rfc_parse = (\<lambda>_. None) \<rparr>"

definition ex_env :: sys_env where
  "ex_env = \<lparr> sys_fail = (\<lambda>_. None), sys_short = 0, sys_temp = ''tmp'', sys_umask_dir = 493, sys_umask_file = 420 \<rparr>"

definition ex_fs :: fs where
  "ex_fs = \<lparr> fs_nodes = [[''d''] \<mapsto> DirNode 448], fs_past = [] \<rparr>"

lemma ex_save:
  "bs_save ex_toml ex_env bs_empty [''d'', ''f''] ex_fs = (Ok (), snd (bs_save ex_toml ex_env bs_empty [''d'', ''f''] ex_fs))"
  by (simp add: bs_save_def parent_dir_of_def parent_def ensure_parent_dir_def metadata_def ex_env_def ex_fs_def
      ex_toml_def serialize_to_toml_def toml_to_string_def bs_empty_def const_defs replace_via_temp_def
      new_temp_def guarded_def temp_path_def set_temp_file_mode_def on_err_def set_permissions_def
      write_all_def sync_all_def rename_def)

theorem bond_save_atomic_witness:
  "\<exists>new. fs_all (snd (bs_save ex_toml ex_env bs_empty [''d'', ''f''] ex_fs)) = new @ fs_all ex_fs"
  using bond_save_atomic [OF ex_save] by (auto simp: temp_path_def ex_env_def)

text \<open>
  C12: what \<open>save\<close> wrote, \<open>load\<close> reads back: after a successful save of a store
  whose bonds carry their derived ids, loading the same path returns the same
  store, for every TOML and RFC 3339 library that parses what it prints.
\<close>

theorem bond_save_load:
  assumes "toml_lib_ok L" "\<forall>b \<in> set (bs_bonds st). bond_wf blake3 b"
    and "bs_save L e st p s = (Ok (), s')" "p \<noteq> temp_path e (butlast p)" "sys_fail e' (OpRead p) = None"
  shows "bs_load L blake3 e' s' p = Ok st"
  using assms by (rule bs_save_then_load)

theorem bond_save_load_witness:
  "bs_load ex_toml (\<lambda>b. b) ex_env (snd (bs_save ex_toml ex_env bs_empty [''d'', ''f''] ex_fs)) [''d'', ''f'']
     = Ok bs_empty"
  by (rule bond_save_load [OF _ _ ex_save])
     (auto simp: toml_lib_ok_def ex_toml_def bs_empty_def temp_path_def ex_env_def utf8_valid_ascii
        str_bytes_def byte_of_char_def split: if_splits)

text \<open>
  C20: a store that \<open>load\<close> returned holds only bonds with a 32-byte public key
  whose peer id is the one derived from that key: a file edited by hand to give
  a peer another identity is never accepted.
\<close>

theorem bond_load_checks_ids:
  assumes "bs_load L blake3 e s p = Ok st" "b \<in> set (bs_list st)"
  shows "length (b_pubkey b) = 32 \<and> b_peer_id b = peer_id_from_pubkey blake3 (b_pubkey b)"
  using bs_load_wf [OF assms(1)] assms(2) by (auto simp: bond_wf_def bs_list_def const_defs)

definition ex_raw :: raw_bond where
  "ex_raw = \<lparr> rb_peer_id = peer_id_from_pubkey (\<lambda>b. b) (replicate 32 7), rb_pubkey = hex_lowercase (replicate 32 7),
     rb_name = ''n'', rb_created_at = ''t'', rb_kind = ''Bonded'', rb_reason = None \<rparr>"

definition ex_toml1 :: toml_lib where
  "ex_toml1 = \<lparr> toml_from = (\<lambda>t. Some \<lparr> rf_schema_version = 1, rf_bonds = Some [ex_raw] \<rparr>),
     toml_to = (\<lambda>_. None), rfc_format = (\<lambda>_. None), rfc_parse = (\<lambda>_. Some 0) \<rparr>"

definition ex_bond1 :: bond where
  "ex_bond1 = \<lparr> b_peer_id = peer_id_from_pubkey (\<lambda>b. b) (replicate 32 7), b_pubkey = replicate 32 7,
     b_name = ''n'', b_created_at = 0, b_status = Bonded \<rparr>"

lemma ex_load1:
  "fs_nodes s p = Some (FileNode [] m) \<Longrightarrow> bs_load ex_toml1 (\<lambda>b. b) ex_env s p = Ok \<lparr> bs_bonds = [ex_bond1] \<rparr>"
  using hex_pubkey_roundtrip [of "replicate 32 7"]
  by (simp add: bs_load_def read_to_string_def read_file_def ex_env_def from_utf8_def toml_from_str_def ex_bond1_def
      ex_toml1_def ex_raw_def bond_of_raw_def status_of_raw_def PUBKEY_LEN_def BOND_SCHEMA_VERSION_LATEST_def)

theorem bond_load_checks_ids_witness:
  "bs_load ex_toml1 (\<lambda>b. b) ex_env \<lparr> fs_nodes = [[''f''] \<mapsto> FileNode [] 384], fs_past = [] \<rparr> [''f'']
     = Ok \<lparr> bs_bonds = [ex_bond1] \<rparr> \<and>
   length (b_pubkey ex_bond1) = 32 \<and> b_peer_id ex_bond1 = peer_id_from_pubkey (\<lambda>b. b) (b_pubkey ex_bond1)"
proof -
  let ?s = "\<lparr> fs_nodes = [[''f''] \<mapsto> FileNode [] 384], fs_past = [] \<rparr>"
  have "bs_load ex_toml1 (\<lambda>b. b) ex_env ?s [''f''] = Ok \<lparr> bs_bonds = [ex_bond1] \<rparr>" by (rule ex_load1) simp
  with bond_load_checks_ids [OF this, of ex_bond1] show ?thesis by (simp add: bs_list_def)
qed

text \<open>
  The store is never written into a directory that grants anything to group
  or others: if the parent directory exists with one of those six permission
  bits set, \<open>save\<close> returns the error that names the directory and changes nothing.
\<close>

theorem bond_save_refuses_open_dir:
  assumes "parent p = Some d" "fs_nodes s d = Some (DirNode m)" "m AND 63 \<noteq> 0" "sys_fail e (OpStat d) = None"
  shows "bs_save L e st p s = (Err (Bond_ParentDirTooPermissive d (m AND 511) 448), s)"
  using assms dir_mode_guard [of m]
  by (simp add: bs_save_def parent_dir_of_def ensure_parent_dir_def metadata_def Let_def const_defs)

theorem bond_save_refuses_open_dir_witness:
  "bs_save ex_toml ex_env bs_empty [''d'', ''f''] \<lparr> fs_nodes = [[''d''] \<mapsto> DirNode 493], fs_past = [] \<rparr>
     = (Err (Bond_ParentDirTooPermissive [''d''] 493 448), \<lparr> fs_nodes = [[''d''] \<mapsto> DirNode 493], fs_past = [] \<rparr>)"
  using bond_save_refuses_open_dir [of "[''d'', ''f'']" "[''d'']" "\<lparr> fs_nodes = [[''d''] \<mapsto> DirNode 493], fs_past = [] \<rparr>"
      493 ex_env ex_toml bs_empty]
  by (simp add: parent_def ex_env_def)

end
