(* ===== verification/Transport.thy ===== *)
theory Transport
  imports Bond
begin

text \<open>
  The Bluetooth transport of \<open>syauth-transport\<close>: its errors (\<open>error.rs\<close>), the
  rotating session UUID, fragment reassembly and the BlueZ client of
  \<open>bluez.rs\<close>, and the in-process peer of \<open>mock.rs\<close>.  BlueZ itself is foreign: an
  adapter is a record of the answers it gives to the calls of the client.
\<close>

type_synonym uuid = bytes

section \<open>Errors\<close>

datatype transport_error =
    T_Timeout | T_Unreachable | T_Closed | T_BadFrame frame_error | T_WrongVersion byte | T_Replay
  | T_NotPaired | T_AdapterMissing string | T_IncompleteReassembly | T_Backend string

fun frame_error_display :: "frame_error \<Rightarrow> string" where
  "frame_error_display (TooShort needed got) =
     ''frame too short: needed '' @ show_nat needed @ '' bytes, got '' @ show_nat got"
| "frame_error_display (BadVersion b) = ''unsupported wire-format version: 0x'' @ hex_byte b"
| "frame_error_display BadLength = ''frame payload exceeds maximum length''"

fun transport_display :: "transport_error \<Rightarrow> string" where
  "transport_display T_Timeout = ''transport timeout''"
| "transport_display T_Unreachable = ''transport unreachable''"
| "transport_display T_Closed = ''transport session closed''"
| "transport_display (T_BadFrame e) = ''bad frame: '' @ frame_error_display e"
| "transport_display (T_WrongVersion b) = ''peer advertised unsupported wire-format version 0x'' @ hex_byte b"
| "transport_display T_Replay = ''replayed frame''"
| "transport_display T_NotPaired = ''peer is not paired''"
| "transport_display (T_AdapterMissing n) = ''bluetooth adapter '' @ [char_of (39::nat)] @ n @ [char_of (39::nat)] @ '' not found''"
| "transport_display T_IncompleteReassembly = ''incomplete fragment reassembly''"
| "transport_display (T_Backend r) = ''transport backend error: '' @ r"

section \<open>Constants\<close>

definition DEFAULT_ADAPTER_NAME :: string where [const_defs]: "DEFAULT_ADAPTER_NAME = ''hci0''"
definition HKDF_INFO_SESSION_V1 :: bytes where [const_defs]: "HKDF_INFO_SESSION_V1 = str_bytes ''syauth-session-v1''"
definition SESSION_UUID_BYTES :: nat where [const_defs]: "SESSION_UUID_BYTES = 16"
definition MAX_BLE_MTU :: nat where [const_defs]: "MAX_BLE_MTU = 247"
definition FRAGMENT_HEADER_LEN :: nat where [const_defs]: "FRAGMENT_HEADER_LEN = 1"
definition FRAGMENT_MORE_BIT :: byte where [const_defs]: "FRAGMENT_MORE_BIT = 128"
definition FRAGMENT_PAYLOAD_MAX :: nat where [const_defs]: "FRAGMENT_PAYLOAD_MAX = MAX_BLE_MTU - FRAGMENT_HEADER_LEN"

text \<open>\<open>Uuid::from_u128\<close>: the sixteen bytes of the number, most significant first.\<close>

definition uuid_from_u128 :: "nat \<Rightarrow> uuid" where
  "uuid_from_u128 n = map (\<lambda>k. word_of_nat (n div 256 ^ k)) (rev [0..<16])"

definition SYAUTH_GATT_SERVICE_UUID :: uuid where
  "SYAUTH_GATT_SERVICE_UUID = uuid_from_u128 0x5a4e8e3c1c4c4a179c81d518a55a0001"
definition SYAUTH_CHALLENGE_CHAR_UUID :: uuid where
  "SYAUTH_CHALLENGE_CHAR_UUID = uuid_from_u128 0x5a4e8e3c1c4c4a179c81d518a55a0002"
definition SYAUTH_RESPONSE_CHAR_UUID :: uuid where
  "SYAUTH_RESPONSE_CHAR_UUID = uuid_from_u128 0x5a4e8e3c1c4c4a179c81d518a55a0003"
definition SYAUTH_PAIR_SERVICE_UUID :: uuid where
  "SYAUTH_PAIR_SERVICE_UUID = uuid_from_u128 0x5a4e8e3c1c4c4a179c81d518a55a0101"
definition SYAUTH_PAIR_HOST_PUBKEY_CHAR_UUID :: uuid where
  "SYAUTH_PAIR_HOST_PUBKEY_CHAR_UUID = uuid_from_u128 0x5a4e8e3c1c4c4a179c81d518a55a0102"
definition SYAUTH_PAIR_PHONE_PUBKEY_CHAR_UUID :: uuid where
  "SYAUTH_PAIR_PHONE_PUBKEY_CHAR_UUID = uuid_from_u128 0x5a4e8e3c1c4c4a179c81d518a55a0103"
definition PAIR_PUBKEY_LEN :: nat where [const_defs]: "PAIR_PUBKEY_LEN = 32"

text \<open>Durations of this layer are in milliseconds.\<close>

definition DEFAULT_SCAN_WINDOW :: nat where [const_defs]: "DEFAULT_SCAN_WINDOW = 8000"
definition MIN_SCAN_WINDOW :: nat where [const_defs]: "MIN_SCAN_WINDOW = 1000"

section \<open>Session UUID\<close>

datatype pairing_state = P_Bonded string | P_NotPaired

text \<open>The minute is a signed 64-bit integer, laid out big-endian.\<close>

definition i64_be_bytes :: "64 word \<Rightarrow> bytes" where
  "i64_be_bytes w = map (\<lambda>k. word_of_nat (unat w div 256 ^ k)) [7, 6, 5, 4, 3, 2, 1, 0]"

definition session_uuid_for :: "hkdf \<Rightarrow> bytes \<Rightarrow> 64 word \<Rightarrow> uuid" where
  "session_uuid_for hk bond_key minute =
     (let info = HKDF_INFO_SESSION_V1 @ i64_be_bytes minute in
      case hk bond_key info SESSION_UUID_BYTES of
        Some out \<Rightarrow> out
      | None \<Rightarrow> replicate SESSION_UUID_BYTES 0)"

section \<open>Fragments\<close>

text \<open>The loop of \<open>reassemble\<close>; the list is empty only when the input was.\<close>

fun reassemble_loop :: "bytes list \<Rightarrow> transport_error + bytes" where
  "reassemble_loop [] = Ok []"
| "reassemble_loop (seg # rest) =
     (if length seg < FRAGMENT_HEADER_LEN then Err T_IncompleteReassembly
      else let has_more = (seg ! 0 AND FRAGMENT_MORE_BIT \<noteq> 0); is_last = (rest = []) in
        if is_last \<and> has_more then Err T_IncompleteReassembly
        else if \<not> is_last \<and> \<not> has_more then Err T_IncompleteReassembly
        else res_bind (reassemble_loop rest) (\<lambda>out. Ok (drop FRAGMENT_HEADER_LEN seg @ out)))"

definition reassemble :: "bytes list \<Rightarrow> transport_error + bytes" where
  "reassemble segments = (if segments = [] then Err T_IncompleteReassembly else reassemble_loop segments)"

text \<open>The sender's side that \<open>reassemble\<close> documents: chunks of at most one MTU, all but the last flagged.\<close>

fun fragment :: "nat \<Rightarrow> bytes \<Rightarrow> bytes list" where
  "fragment n bs =
     (if n = 0 \<or> length bs \<le> n then [0 # bs] else (FRAGMENT_MORE_BIT # take n bs) # fragment n (drop n bs))"

declare fragment.simps [simp del]

section \<open>The BlueZ client\<close>

text \<open>What the client can observe of BlueZ: the outcome of every call it makes.\<close>

record bluer_error =
  be_not_found :: bool
  be_text :: string

record ble_char =
  bc_uuid :: "string + uuid"
  bc_write :: "string option"
  bc_read :: "string + bytes"
  bc_notify :: "string + (nat \<times> bytes) list"

record ble_service =
  bv_uuid :: "string + uuid"
  bv_chars :: "string + ble_char list"

record ble_device =
  bd_uuids :: "uuid list option"
  bd_connect :: "string option"
  bd_services :: "string + ble_service list"

record ble_adapter =
  ba_session :: "bluer_error option"
  ba_open :: "bluer_error option"
  ba_powered :: "string option"
  ba_set_filter :: "string option"
  ba_discover :: "string option"
  ba_known :: "string + ble_device option list"
  ba_events :: "(nat \<times> ble_device option) list"

definition map_adapter_open_error :: "string \<Rightarrow> bluer_error \<Rightarrow> transport_error" where
  "map_adapter_open_error adapter_id err =
     (if be_not_found err then T_AdapterMissing adapter_id else T_Backend (be_text err))"

record bluez_peer =
  bp_adapter_id :: string
  bp_bond_key :: bytes
  bp_pairing_state :: pairing_state
  bp_restart_count :: "64 word"

definition probe_adapter :: "ble_adapter \<Rightarrow> string \<Rightarrow> transport_error + unit" where
  "probe_adapter A adapter_id =
     (case ba_session A of
        Some err \<Rightarrow> Err (map_adapter_open_error adapter_id err)
      | None \<Rightarrow> (case ba_open A of
            Some err \<Rightarrow> Err (map_adapter_open_error adapter_id err)
          | None \<Rightarrow> Ok ()))"

definition bluez_new_sync :: "string \<Rightarrow> bytes \<Rightarrow> pairing_state \<Rightarrow> bluez_peer" where
  "bluez_new_sync adapter_id bond_key ps =
     \<lparr> bp_adapter_id = adapter_id, bp_bond_key = bond_key, bp_pairing_state = ps, bp_restart_count = 0 \<rparr>"

definition bluez_new :: "ble_adapter \<Rightarrow> string \<Rightarrow> bytes \<Rightarrow> pairing_state \<Rightarrow> transport_error + bluez_peer" where
  "bluez_new A adapter_id bond_key ps =
     (case ps of
        P_Bonded _ \<Rightarrow> res_bind (probe_adapter A adapter_id) (\<lambda>_. Ok (bluez_new_sync adapter_id bond_key ps))
      | P_NotPaired \<Rightarrow> Ok (bluez_new_sync adapter_id bond_key ps))"

definition current_session_uuid :: "hkdf \<Rightarrow> bluez_peer \<Rightarrow> 64 word \<Rightarrow> uuid" where
  "current_session_uuid hk p minute = session_uuid_for hk (bp_bond_key p) minute"

definition restart :: "bluez_peer \<Rightarrow> bluez_peer" where
  "restart p = p\<lparr> bp_restart_count := bp_restart_count p + 1 \<rparr>"

fun suspend_resume_loop :: "bool \<Rightarrow> bool list \<Rightarrow> bluez_peer \<Rightarrow> bluez_peer" where
  "suspend_resume_loop last_was_true [] p = p"
| "suspend_resume_loop last_was_true (event # events) p =
     suspend_resume_loop event events (if last_was_true \<and> \<not> event then restart p else p)"

definition run_suspend_resume_loop :: "bluez_peer \<Rightarrow> bool list \<Rightarrow> bluez_peer" where
  "run_suspend_resume_loop p events = suspend_resume_loop False events p"

definition scan_window_for :: "nat \<Rightarrow> nat" where
  "scan_window_for budget = max MIN_SCAN_WINDOW (min DEFAULT_SCAN_WINDOW (budget div 2))"

definition device_advertises_syauth :: "ble_device \<Rightarrow> bool" where
  "device_advertises_syauth d =
     (case bd_uuids d of Some us \<Rightarrow> SYAUTH_GATT_SERVICE_UUID \<in> set us | None \<Rightarrow> False)"

fun first_syauth :: "ble_device option list \<Rightarrow> ble_device option" where
  "first_syauth [] = None"
| "first_syauth (None # ds) = first_syauth ds"
| "first_syauth (Some d # ds) = (if device_advertises_syauth d then Some d else first_syauth ds)"

text \<open>
  \<open>find_syauth_device\<close> under the scan timeout: first the devices BlueZ already
  knows, then the ones that appear within the window.
\<close>

definition find_syauth_device :: "ble_adapter \<Rightarrow> nat \<Rightarrow> transport_error + ble_device" where
  "find_syauth_device A window =
     (case ba_known A of
        Inl e \<Rightarrow> Err (T_Backend (''device_addresses: '' @ e))
      | Inr known \<Rightarrow>
          (case first_syauth known of
             Some d \<Rightarrow> Ok d
           | None \<Rightarrow>
               (case first_syauth (map snd (filter (\<lambda>(t, _). t \<le> window) (ba_events A))) of
                  Some d \<Rightarrow> Ok d
                | None \<Rightarrow> Err T_Unreachable)))"

text \<open>The loop over the characteristics of one service: the last one with each UUID is kept.\<close>

fun scan_chars ::
    "uuid \<Rightarrow> uuid \<Rightarrow> ble_char list \<Rightarrow> ble_char option \<times> ble_char option \<Rightarrow>
     transport_error + (ble_char option \<times> ble_char option)" where
  "scan_chars ua ub [] acc = Ok acc"
| "scan_chars ua ub (ch # chs) acc =
     (case bc_uuid ch of
        Inl e \<Rightarrow> Err (T_Backend (''characteristic.uuid: '' @ e))
      | Inr cu \<Rightarrow>
          scan_chars ua ub chs
            (if cu = ua then (Some ch, snd acc) else if cu = ub then (fst acc, Some ch) else acc))"

text \<open>The loop over the services, left at the first one with the wanted UUID.\<close>

fun scan_services ::
    "uuid \<Rightarrow> uuid \<Rightarrow> uuid \<Rightarrow> ble_service list \<Rightarrow> transport_error + (ble_char option \<times> ble_char option)" where
  "scan_services us ua ub [] = Ok (None, None)"
| "scan_services us ua ub (svc # svcs) =
     (case bv_uuid svc of
        Inl e \<Rightarrow> Err (T_Backend (''service.uuid: '' @ e))
      | Inr u \<Rightarrow>
          if u \<noteq> us then scan_services us ua ub svcs
          else (case bv_chars svc of
                  Inl e \<Rightarrow> Err (T_Backend (''service.characteristics: '' @ e))
                | Inr chs \<Rightarrow> scan_chars ua ub chs (None, None)))"

record bluez_session =
  ss_challenge :: ble_char
  ss_notify :: "(nat \<times> bytes) list"
  ss_sent :: "bytes list"

definition connect_inner :: "ble_adapter \<Rightarrow> bluez_peer \<Rightarrow> nat \<Rightarrow> transport_error + bluez_session" where
  "connect_inner A p peer_timeout =
     res_bind (probe_adapter A (bp_adapter_id p)) (\<lambda>_.
     case ba_powered A of Some e \<Rightarrow> Err (T_Backend (''adapter set_powered: '' @ e)) | None \<Rightarrow>
     (case ba_set_filter A of Some e \<Rightarrow> Err (T_Backend (''set_discovery_filter: '' @ e)) | None \<Rightarrow>
     (case ba_discover A of Some e \<Rightarrow> Err (T_Backend (''discover_devices: '' @ e)) | None \<Rightarrow>
     res_bind (find_syauth_device A (scan_window_for peer_timeout)) (\<lambda>device.
     case bd_connect device of Some e \<Rightarrow> Err (T_Backend (''device.connect: '' @ e)) | None \<Rightarrow>
     (case bd_services device of Inl e \<Rightarrow> Err (T_Backend (''device.services: '' @ e)) | Inr services \<Rightarrow>
     res_bind (scan_services SYAUTH_GATT_SERVICE_UUID SYAUTH_CHALLENGE_CHAR_UUID SYAUTH_RESPONSE_CHAR_UUID services)
       (\<lambda>(chal, resp).
     case chal of None \<Rightarrow> Err (T_Backend ''syauth challenge characteristic not exposed by peer'') | Some chal \<Rightarrow>
     (case resp of None \<Rightarrow> Err (T_Backend ''syauth response characteristic not exposed by peer'') | Some resp \<Rightarrow>
     (case bc_notify resp of Inl e \<Rightarrow> Err (T_Backend (''response.notify subscribe: '' @ e)) | Inr stream \<Rightarrow>
        Ok \<lparr> ss_challenge = chal, ss_notify = stream, ss_sent = [] \<rparr>))))))))"

definition bluez_connect :: "ble_adapter \<Rightarrow> bluez_peer \<Rightarrow> nat \<Rightarrow> transport_error + bluez_session" where
  "bluez_connect A p peer_timeout =
     (case bp_pairing_state p of P_NotPaired \<Rightarrow> Err T_NotPaired | P_Bonded _ \<Rightarrow> connect_inner A p peer_timeout)"

definition bluez_send_frame :: "bluez_session \<Rightarrow> frame \<Rightarrow> (transport_error + unit) \<times> bluez_session" where
  "bluez_send_frame s f =
     (case frame_encode f [] of
        (Inl e, _) \<Rightarrow> (Err (T_BadFrame e), s)
      | (Inr _, bs) \<Rightarrow>
          (case bc_write (ss_challenge s) of
             Some e \<Rightarrow> (Err (T_Backend (''challenge.write: '' @ e)), s)
           | None \<Rightarrow> (Ok (), s\<lparr> ss_sent := ss_sent s @ [bs] \<rparr>)))"

text \<open>The notification stream lists, per item, the time it takes to arrive.\<close>

definition bluez_recv_frame :: "bluez_session \<Rightarrow> nat \<Rightarrow> (transport_error + frame) \<times> bluez_session" where
  "bluez_recv_frame s deadline =
     (case ss_notify s of
        [] \<Rightarrow> (Err T_Closed, s)
      | (t, bs) # rest \<Rightarrow>
          if t \<le> deadline then (map_err T_BadFrame (frame_decode bs), s\<lparr> ss_notify := rest \<rparr>)
          else (Err T_Timeout, s\<lparr> ss_notify := (t - deadline, bs) # rest \<rparr>))"

definition connect_pair_service :: "ble_device \<Rightarrow> bytes \<Rightarrow> transport_error + bytes" where
  "connect_pair_service device host_pubkey =
     (case bd_connect device of Some e \<Rightarrow> Err (T_Backend (''device.connect: '' @ e)) | None \<Rightarrow>
     (case bd_services device of Inl e \<Rightarrow> Err (T_Backend (''device.services: '' @ e)) | Inr services \<Rightarrow>
     res_bind (scan_services SYAUTH_PAIR_SERVICE_UUID SYAUTH_PAIR_HOST_PUBKEY_CHAR_UUID
                 SYAUTH_PAIR_PHONE_PUBKEY_CHAR_UUID services) (\<lambda>(host, phone).
     case host of None \<Rightarrow> Err T_Unreachable | Some host \<Rightarrow>
     (case phone of None \<Rightarrow> Err T_Unreachable | Some phone \<Rightarrow>
     (case bc_write host of Some e \<Rightarrow> Err (T_Backend (''host-pubkey.write: '' @ e)) | None \<Rightarrow>
     (case bc_read phone of Inl e \<Rightarrow> Err (T_Backend (''phone-pubkey.read: '' @ e)) | Inr phone_bytes \<Rightarrow>
        if length phone_bytes \<noteq> PAIR_PUBKEY_LEN
        then Err (T_BadFrame (TooShort PAIR_PUBKEY_LEN (length phone_bytes)))
        else Ok phone_bytes))))))"

section \<open>The in-process peer\<close>

definition GOLDEN_PAYLOAD_XOR_MASK :: byte where [const_defs]: "GOLDEN_PAYLOAD_XOR_MASK = 0x5A"
definition REORDERED_BUFFER_DEPTH :: nat where [const_defs]: "REORDERED_BUFFER_DEPTH = 4"
definition MOCK_CHAN_CAP :: nat where [const_defs]: "MOCK_CHAN_CAP = 16"

datatype mock_scenario =
    Golden | Offline | Slow nat | Reordered | ReplayScenario byte | WrongVersionScenario byte

record mock_session =
  ms_scenario :: mock_scenario
  ms_inbox :: "frame list"
  ms_sent_count :: "32 word"
  ms_reorder_pending :: "frame option"

definition mock_session_new :: "mock_scenario \<Rightarrow> mock_session" where
  "mock_session_new sc = \<lparr> ms_scenario = sc, ms_inbox = [], ms_sent_count = 0, ms_reorder_pending = None \<rparr>"

definition mock_connect :: "mock_scenario \<Rightarrow> nat \<Rightarrow> transport_error + mock_session" where
  "mock_connect sc timeout =
     (case sc of Offline \<Rightarrow> Err T_Unreachable | _ \<Rightarrow> Ok (mock_session_new sc))"

definition xor_payload :: "frame \<Rightarrow> byte \<Rightarrow> frame" where
  "xor_payload f xm = f\<lparr> f_payload := map (\<lambda>b. b XOR xm) (f_payload f) \<rparr>"

text \<open>The \<open>for\<close> loop of the replay scenario.\<close>

fun push_copies :: "nat \<Rightarrow> frame \<Rightarrow> frame list \<Rightarrow> (transport_error + unit) \<times> frame list" where
  "push_copies 0 f inbox = (Ok (), inbox)"
| "push_copies (Suc n) f inbox =
     (if length inbox \<ge> MOCK_CHAN_CAP then (Err T_Closed, inbox) else push_copies n f (inbox @ [f]))"

definition mock_send_frame :: "mock_session \<Rightarrow> frame \<Rightarrow> (transport_error + unit) \<times> mock_session" where
  "mock_send_frame s f =
     (case ms_scenario s of
        Offline \<Rightarrow> (Err T_Unreachable, s)
      | ReplayScenario duplicate_count \<Rightarrow>
          (let (r, inbox) = push_copies (unat duplicate_count + 1) f (ms_inbox s)
           in (r, s\<lparr> ms_inbox := inbox \<rparr>))
      | Reordered \<Rightarrow>
          (let current = (if ms_sent_count s = - 1 then - 1 else ms_sent_count s + 1);
               s1 = s\<lparr> ms_sent_count := current \<rparr> in
           if current = 1 then (Ok (), s1\<lparr> ms_reorder_pending := Some f \<rparr>)
           else let buffered = ms_reorder_pending s1; inbox = ms_inbox s1 @ [f];
                    s2 = s1\<lparr> ms_reorder_pending := None, ms_inbox := inbox \<rparr> in
             case buffered of
               None \<Rightarrow> (Ok (), s2)
             | Some first \<Rightarrow>
                 if length inbox \<ge> REORDERED_BUFFER_DEPTH then (Err T_Closed, s2)
                 else (Ok (), s2\<lparr> ms_inbox := inbox @ [first] \<rparr>))
      | _ \<Rightarrow>
          if length (ms_inbox s) \<ge> MOCK_CHAN_CAP then (Err T_Closed, s)
          else (Ok (), s\<lparr> ms_inbox := ms_inbox s @ [xor_payload f GOLDEN_PAYLOAD_XOR_MASK] \<rparr>))"

definition scenario_read :: "mock_session \<Rightarrow> (transport_error + frame) \<times> mock_session" where
  "scenario_read s =
     (case ms_inbox s of
        [] \<Rightarrow> (Err T_Timeout, s)
      | f # rest \<Rightarrow>
          (let s1 = s\<lparr> ms_inbox := rest \<rparr> in
           case ms_scenario s of
             WrongVersionScenario injected \<Rightarrow>
               if length (f_payload f) \<le> MAX_PAYLOAD_LEN then
                 (case frame_encode (f\<lparr> f_version := SYAUTH_WIRE_VERSION_V1 \<rparr>) [] of
                    (Inl e, _) \<Rightarrow> (Err (T_BadFrame e), s1)
                  | (Inr _, buf) \<Rightarrow> (map_err T_BadFrame (frame_decode (buf[VERSION_OFFSET := injected])), s1))
               else (Ok f, s1)
           | _ \<Rightarrow> (Ok f, s1)))"

text \<open>The sleep of the slow scenario is the only thing the caller's timeout can interrupt.\<close>

definition mock_recv_frame :: "mock_session \<Rightarrow> nat \<Rightarrow> (transport_error + frame) \<times> mock_session" where
  "mock_recv_frame s caller_timeout =
     (case ms_scenario s of
        Slow delay \<Rightarrow> if delay > caller_timeout then (Err T_Timeout, s) else scenario_read s
      | _ \<Rightarrow> scenario_read s)"

section \<open>Lemmas\<close>

lemma fragment_neq_Nil [simp]: "fragment n bs \<noteq> []"
  by (subst fragment.simps) simp

lemma reassemble_fragment: "reassemble_loop (fragment n bs) = Ok bs"
proof (induction n bs rule: fragment.induct)
  case (1 n bs)
  show ?case
  proof (cases "n = 0 \<or> length bs \<le> n")
    case True
    then show ?thesis by (subst fragment.simps) (simp add: const_defs)
  next
    case False
    then have "reassemble_loop (fragment n (drop n bs)) = Ok (drop n bs)" using 1 by blast
    then show ?thesis using False by (subst fragment.simps) (simp add: const_defs)
  qed
qed

lemma reassemble_loop_iff:
  "segs \<noteq> [] \<Longrightarrow> reassemble_loop segs = Ok out \<longleftrightarrow>
     (\<forall>s \<in> set segs. s \<noteq> []) \<and> (\<forall>s \<in> set (butlast segs). hd s AND FRAGMENT_MORE_BIT \<noteq> 0) \<and>
     hd (last segs) AND FRAGMENT_MORE_BIT = 0 \<and> out = concat (map tl segs)"
proof (induction segs arbitrary: out)
  case (Cons seg rest)
  show ?case
  proof (cases seg)
    case Nil
    then show ?thesis by (simp add: FRAGMENT_HEADER_LEN_def)
  next
    case (Cons b bs)
    then show ?thesis using Cons.IH
      by (cases "rest = []") (auto simp: FRAGMENT_HEADER_LEN_def Let_def)
  qed
qed simp

lemma i64_be_bytes_inj: "i64_be_bytes v = i64_be_bytes w \<Longrightarrow> v = w"
proof -
  assume eq: "i64_be_bytes v = i64_be_bytes w"
  have m: "unat v div 256 ^ k mod 256 = unat w div 256 ^ k mod 256" if "k < 8" for k
  proof -
    have "\<forall>k \<in> set [7, 6, 5, 4, 3, 2, 1, 0]. (word_of_nat (unat v div 256 ^ k) :: byte) = word_of_nat (unat w div 256 ^ k)"
      using eq by (simp add: i64_be_bytes_def)
    moreover have "k \<in> set [7, 6, 5, 4, 3, 2, 1, 0]" using that by (auto simp: less_Suc_eq numeral_eq_Suc)
    ultimately have "(word_of_nat (unat v div 256 ^ k) :: byte) = word_of_nat (unat w div 256 ^ k)" by blast
    then have "unat (word_of_nat (unat v div 256 ^ k) :: byte) = unat (word_of_nat (unat w div 256 ^ k) :: byte)" by simp
    then show ?thesis by (simp add: unat_of_nat)
  qed
  have step: "unat v mod 256 ^ k = unat w mod 256 ^ k" if "k \<le> 8" for k
    using that
  proof (induction k)
    case (Suc k)
    have "n mod 256 ^ Suc k = 256 ^ k * (n div 256 ^ k mod 256) + n mod 256 ^ k" for n :: nat
      by (simp add: mod_mult2_eq mult.commute [of 256])
    then show ?case using Suc m [of k] by simp
  qed simp
  have "unat v < 256 ^ 8" "unat w < 256 ^ 8"
    using unsigned_less [of v, where 'a = nat] unsigned_less [of w, where 'a = nat] by simp_all
  then show "v = w" using step [of 8] by (simp add: word_unat_eq_iff)
qed

section \<open>Properties\<close>

text \<open>
  C22: reassembly accepts exactly the well-formed segment sequences (at least one
  segment, none without a header, the more-fragments bit on all but the last)
  and returns their payloads in order; anything else is an error.
\<close>

theorem reassemble_exact:
  "reassemble segs = Ok out \<longleftrightarrow>
     segs \<noteq> [] \<and> (\<forall>s \<in> set segs. s \<noteq> []) \<and> (\<forall>s \<in> set (butlast segs). hd s AND 0x80 \<noteq> 0) \<and>
     hd (last segs) AND 0x80 = 0 \<and> out = concat (map tl segs)"
  using reassemble_loop_iff [of segs out] by (auto simp: reassemble_def FRAGMENT_MORE_BIT_def)

theorem reassemble_exact_witness:
  "reassemble [[0x80, 1, 2], [0, 3]] = Ok [1, 2, 3]"
  using reassemble_exact [of "[[0x80, 1, 2], [0, 3]]" "[1, 2, 3]"] by simp

text \<open>
  The unlock path never touches the radio for a peer that is not bonded: the
  connect call returns \<open>NotPaired\<close> whatever the adapter would answer, and
  constructing such a peer succeeds without opening the adapter.
\<close>

theorem connect_not_paired:
  "bluez_new A adapter_id k P_NotPaired = Ok p \<Longrightarrow>
     bluez_connect B p t = Err T_NotPaired \<and> p = bluez_new_sync adapter_id k P_NotPaired"
  by (auto simp: bluez_new_def bluez_connect_def bluez_new_sync_def)

theorem connect_not_paired_witness:
  "bluez_connect \<lparr> ba_session = None, ba_open = None, ba_powered = None, ba_set_filter = None, ba_discover = None,
      ba_known = Ok [], ba_events = [] \<rparr> (bluez_new_sync ''hci0'' [] P_NotPaired) 2000 = Err T_NotPaired"
  using connect_not_paired [of _ "''hci0''" "[]" "bluez_new_sync ''hci0'' [] P_NotPaired"]
  by (simp add: bluez_new_def)

end
