(* ===== verification/Peripheral.thy ===== *)
theory Peripheral
  imports Transport
begin

text \<open>
  The long-lived BLE peripheral of \<open>syauth-transport/src/peripheral.rs\<close>.  The trait
  \<open>Peripheral\<close> is a record of operations over a state (the daemon holds a
  \<open>dyn Peripheral\<close>) and a locale with the laws its clients rely on; it is
  interpreted on the production peripheral and on the radio-free fake.  BlueZ is
  foreign: the state carries the answers it will give.
\<close>

section \<open>Errors\<close>

datatype peripheral_error =
    Pe_AdapterMissing string
  | Pe_UnknownPeer string
  | Pe_PeerAlreadyAdded string
  | Pe_Backend string
  | Pe_ResponseTimeout string nat

fun peripheral_display :: "peripheral_error \<Rightarrow> string" where
  "peripheral_display (Pe_AdapterMissing n) = ''bluetooth adapter '' @ [char_of (39::nat)] @ n @ [char_of (39::nat)] @ '' not found''"
| "peripheral_display (Pe_UnknownPeer p) = ''unknown peer: peer_id='' @ p"
| "peripheral_display (Pe_PeerAlreadyAdded p) = ''peer already added: peer_id='' @ p"
| "peripheral_display (Pe_Backend r) = ''peripheral backend error: '' @ r"
| "peripheral_display (Pe_ResponseTimeout p ms) =
     ''response timed out: peer_id='' @ p @ '' deadline='' @ show_nat ms @ ''ms''"

fun peripheral_from_transport :: "transport_error \<Rightarrow> peripheral_error" where
  "peripheral_from_transport (T_AdapterMissing n) = Pe_AdapterMissing n"
| "peripheral_from_transport other = Pe_Backend (transport_display other)"

section \<open>The trait\<close>

record 'p periph_ops =
  op_add_peer :: "string \<Rightarrow> bytes \<Rightarrow> 'p \<Rightarrow> (peripheral_error + unit) \<times> 'p"
  op_remove_peer :: "string \<Rightarrow> 'p \<Rightarrow> (peripheral_error + unit) \<times> 'p"
  op_set_session_uuids :: "uuid set \<Rightarrow> 'p \<Rightarrow> (peripheral_error + unit) \<times> 'p"
  op_notify_challenge :: "string \<Rightarrow> bytes \<Rightarrow> 'p \<Rightarrow> (peripheral_error + unit) \<times> 'p"
  op_wait_for_response :: "string \<Rightarrow> nat \<Rightarrow> 'p \<Rightarrow> (peripheral_error + bytes) \<times> 'p"

text \<open>
  The laws of the trait's documentation: which peers are registered after each
  operation, and the two structural errors.
\<close>

locale peripheral_laws =
  fixes ops :: "'p periph_ops"
    and registered :: "'p \<Rightarrow> string set"
  assumes add_known: "i \<in> registered p \<Longrightarrow> op_add_peer ops i k p = (Err (Pe_PeerAlreadyAdded i), p)"
    and add_ok: "i \<notin> registered p \<Longrightarrow> op_add_peer ops i k p = (Ok (), p') \<Longrightarrow> registered p' = insert i (registered p)"
    and add_err: "i \<notin> registered p \<Longrightarrow> op_add_peer ops i k p = (Err e, p') \<Longrightarrow> registered p' = registered p"
    and remove_unknown: "i \<notin> registered p \<Longrightarrow> op_remove_peer ops i p = (Err (Pe_UnknownPeer i), p)"
    and remove_known: "i \<in> registered p \<Longrightarrow> \<exists>p'. op_remove_peer ops i p = (Ok (), p') \<and> registered p' = registered p - {i}"
    and set_uuids: "op_set_session_uuids ops us p = (r, p') \<Longrightarrow> registered p' = registered p"
    and notify_unknown: "i \<notin> registered p \<Longrightarrow> op_notify_challenge ops i f p = (Err (Pe_UnknownPeer i), p)"
    and notify_known: "op_notify_challenge ops i f p = (r, p') \<Longrightarrow> registered p' = registered p"
    and wait_unknown: "i \<notin> registered p \<Longrightarrow> op_wait_for_response ops i d p = (Err (Pe_UnknownPeer i), p)"
    and wait_known: "op_wait_for_response ops i d p = (w, p') \<Longrightarrow> registered p' = registered p"
begin

lemma add_registered:
  assumes "op_add_peer ops i k p = (r, p')"
  shows "registered p' = (if r = Ok () then insert i (registered p) else registered p)"
  using assms add_known [of i p k] add_ok [of i p k p'] add_err [of i p k _ p']
  by (cases r; cases "i \<in> registered p") auto

lemma remove_registered:
  assumes "op_remove_peer ops i p = (r, p')"
  shows "registered p' = registered p - {i} \<and> (r = Ok () \<longleftrightarrow> i \<in> registered p)"
  using assms remove_unknown [of i p] remove_known [of i p] by (cases "i \<in> registered p") auto

end

section \<open>The production peripheral\<close>

definition RESPONSE_BUFFER_DEPTH :: nat where [const_defs]: "RESPONSE_BUFFER_DEPTH = 8"
definition RESPONSE_READ_BUF_BYTES :: nat where [const_defs]: "RESPONSE_READ_BUF_BYTES = 512"
definition ADVERTISE_LOCAL_NAME :: string where [const_defs]: "ADVERTISE_LOCAL_NAME = ''syauth''"
definition ADVERTISE_DISCOVERABLE :: bool where [const_defs]: "ADVERTISE_DISCOVERABLE = True"

text \<open>
  A characteristic with the flags the program sets: readable, writable,
  notifying, and whether it asks BlueZ for an encrypted link.
\<close>

record gatt_char =
  gc_uuid :: uuid
  gc_read :: bool
  gc_write :: bool
  gc_notify :: bool
  gc_encrypted :: bool

record gatt_service =
  gs_uuid :: uuid
  gs_chars :: "gatt_char list"

record advertisement =
  adv_uuids :: "uuid set"
  adv_discoverable :: bool
  adv_local_name :: string

text \<open>Per peer: the queued responses in order of arrival, the installed notifier, the liveness of the control task.\<close>

record peer_char_set =
  pc_responses :: "bytes list"
  pc_notifier :: "nat option"
  pc_task :: bool

text \<open>
  The answers of BlueZ: one per registration and per advertisement (success
  when the list has run out), the result of a notification on a session, and
  the next write on a peer's response characteristic with its delay, and the
  devices the adapter knows: whether a handle to each can be had, whether it
  says that it is connected, and whether it lets itself be disconnected.
\<close>

record bt_device =
  dv_addr :: string
  dv_handle :: bool
  dv_connected :: "bool option"
  dv_disconnect :: bool

record radio =
  rd_serve :: "string option list"
  rd_advertise :: "string option list"
  rd_send :: "nat \<Rightarrow> string option"
  rd_arrival :: "string \<Rightarrow> (nat \<times> bytes) option"
  rd_devices :: "string + bt_device list"

record persistent =
  pp_app :: "gatt_service list option"
  pp_adv :: "advertisement option"
  pp_host_pubkey :: bytes
  pp_pair_events :: "(bytes \<times> bytes) list"
  pp_watcher :: bool
  pp_peers :: "string \<rightharpoonup> peer_char_set"
  pp_sent :: "(string \<times> bytes) list"
  pp_radio :: radio

fun pop_answer :: "string option list \<Rightarrow> string option \<times> string option list" where
  "pop_answer [] = (None, [])"
| "pop_answer (a # as) = (a, as)"

definition peer_service_uuid :: "hkdf \<Rightarrow> bytes \<Rightarrow> uuid" where
  "peer_service_uuid hk bond_key = session_uuid_for hk bond_key 0"

definition build_pair_service :: gatt_service where
  "build_pair_service =
     \<lparr> gs_uuid = SYAUTH_PAIR_SERVICE_UUID,
       gs_chars =
         [\<lparr> gc_uuid = SYAUTH_PAIR_HOST_PUBKEY_CHAR_UUID, gc_read = True, gc_write = False, gc_notify = False, gc_encrypted = False \<rparr>,
          \<lparr> gc_uuid = SYAUTH_PAIR_PHONE_PUBKEY_CHAR_UUID, gc_read = False, gc_write = True, gc_notify = False, gc_encrypted = False \<rparr>] \<rparr>"

definition peer_service :: "hkdf \<Rightarrow> bytes \<Rightarrow> gatt_service" where
  "peer_service hk bond_key =
     \<lparr> gs_uuid = peer_service_uuid hk bond_key,
       gs_chars =
         [\<lparr> gc_uuid = SYAUTH_CHALLENGE_CHAR_UUID, gc_read = False, gc_write = False, gc_notify = True, gc_encrypted = False \<rparr>,
          \<lparr> gc_uuid = SYAUTH_RESPONSE_CHAR_UUID, gc_read = False, gc_write = True, gc_notify = False, gc_encrypted = False \<rparr>] \<rparr>"

text \<open>\<open>serve_gatt_application\<close>: BlueZ takes the whole application or refuses it.\<close>

definition serve_app :: "gatt_service list \<Rightarrow> persistent \<Rightarrow> (peripheral_error + unit) \<times> persistent" where
  "serve_app services p =
     (let (a, rest) = pop_answer (rd_serve (pp_radio p));
          p1 = p\<lparr> pp_radio := (pp_radio p)\<lparr> rd_serve := rest \<rparr> \<rparr> in
      case a of
        Some err \<Rightarrow> (Err (Pe_Backend (''serve_gatt_application: '' @ err)), p1)
      | None \<Rightarrow> (Ok (), p1\<lparr> pp_app := Some services \<rparr>))"

text \<open>
  After a registration every connected phone is disconnected, so that it
  subscribes again; a device that cannot be reached is passed over, and the
  callers go on when the devices cannot be listed.
\<close>

definition kick_device :: "bt_device \<Rightarrow> bt_device" where
  "kick_device d = (if dv_handle d \<and> dv_connected d = Some True \<and> dv_disconnect d then d\<lparr> dv_connected := Some False \<rparr> else d)"

definition kick_connected_peers :: "persistent \<Rightarrow> (peripheral_error + unit) \<times> persistent" where
  "kick_connected_peers p =
     (case rd_devices (pp_radio p) of
        Inl err \<Rightarrow> (Err (Pe_Backend (''device_addresses: '' @ err)), p)
      | Inr ds \<Rightarrow> (Ok (), p\<lparr> pp_radio := (pp_radio p)\<lparr> rd_devices := Ok (map kick_device ds) \<rparr> \<rparr>))"

lemma kick_keeps [simp]:
  "pp_app (snd (kick_connected_peers p)) = pp_app p" "pp_adv (snd (kick_connected_peers p)) = pp_adv p"
  "pp_host_pubkey (snd (kick_connected_peers p)) = pp_host_pubkey p" "pp_pair_events (snd (kick_connected_peers p)) = pp_pair_events p"
  "pp_watcher (snd (kick_connected_peers p)) = pp_watcher p" "pp_peers (snd (kick_connected_peers p)) = pp_peers p"
  "pp_sent (snd (kick_connected_peers p)) = pp_sent p"
  "rd_serve (pp_radio (snd (kick_connected_peers p))) = rd_serve (pp_radio p)"
  "rd_advertise (pp_radio (snd (kick_connected_peers p))) = rd_advertise (pp_radio p)"
  "rd_send (pp_radio (snd (kick_connected_peers p))) = rd_send (pp_radio p)"
  "rd_arrival (pp_radio (snd (kick_connected_peers p))) = rd_arrival (pp_radio p)"
  by (simp_all add: kick_connected_peers_def split: sum.splits)

text \<open>
  Dropping the handle of an application ends the control streams of its
  characteristics: the watcher of the pair service and the control tasks of the
  peers see the end of their stream and exit.
\<close>

definition drop_application :: "persistent \<Rightarrow> persistent" where
  "drop_application p =
     p\<lparr> pp_app := None, pp_watcher := False, pp_peers := (\<lambda>i. map_option (\<lambda>cs. cs\<lparr> pc_task := False \<rparr>) (pp_peers p i)) \<rparr>"

lemma drop_application_keeps [simp]:
  "pp_app (drop_application p) = None" "pp_adv (drop_application p) = pp_adv p" "\<not> pp_watcher (drop_application p)"
  "pp_host_pubkey (drop_application p) = pp_host_pubkey p" "pp_pair_events (drop_application p) = pp_pair_events p"
  "pp_sent (drop_application p) = pp_sent p" "pp_radio (drop_application p) = pp_radio p"
  "pp_peers (drop_application p) i = map_option (\<lambda>cs. cs\<lparr> pc_task := False \<rparr>) (pp_peers p i)"
  by (simp_all add: drop_application_def)

definition rebuild_application :: "gatt_service list \<Rightarrow> persistent \<Rightarrow> (peripheral_error + unit) \<times> persistent" where
  "rebuild_application peer_services p =
     (let p1 = drop_application (p\<lparr> pp_watcher := False \<rparr>) in
      case serve_app (build_pair_service # peer_services) p1 of
        (Inl e, p2) \<Rightarrow> (Err e, p2)
      | (Inr _, p2) \<Rightarrow> (Ok (), (snd (kick_connected_peers p2))\<lparr> pp_watcher := True \<rparr>))"

text \<open>
  \<open>PersistentPeripheral::new\<close>: open the adapter, make it discoverable and pairable,
  register the pairing agent, draw the host key and register the application
  with the pair service only.  The record holds what each of these steps meets.
\<close>

record open_env =
  oe_session :: "bluer_error option"
  oe_adapter :: "bluer_error option"
  oe_powered :: "string option"
  oe_discoverable :: "string option"
  oe_pairable :: "string option"
  oe_agent :: "string option"
  oe_host_pubkey :: "string + bytes"

definition backend_err :: "string \<Rightarrow> string option \<Rightarrow> peripheral_error + unit" where
  "backend_err what r = (case r of None \<Rightarrow> Ok () | Some err \<Rightarrow> Err (Pe_Backend (what @ '': '' @ err)))"

definition open_err :: "string \<Rightarrow> bluer_error option \<Rightarrow> peripheral_error + unit" where
  "open_err adapter_id r =
     (case r of None \<Rightarrow> Ok () | Some err \<Rightarrow> Err (peripheral_from_transport (map_adapter_open_error adapter_id err)))"

definition pp_new :: "string \<Rightarrow> open_env \<Rightarrow> radio \<Rightarrow> peripheral_error + persistent" where
  "pp_new adapter_id oe rd =
     res_bind (open_err adapter_id (oe_session oe)) (\<lambda>_.
     res_bind (open_err adapter_id (oe_adapter oe)) (\<lambda>_.
     res_bind (backend_err ''adapter set_powered'' (oe_powered oe)) (\<lambda>_.
     res_bind (backend_err ''adapter set_discoverable'' (oe_discoverable oe)) (\<lambda>_.
     res_bind (backend_err ''adapter set_pairable'' (oe_pairable oe)) (\<lambda>_.
     res_bind (backend_err ''register_agent'' (oe_agent oe)) (\<lambda>_.
     res_bind (map_err (\<lambda>err. Pe_Backend (''host_pubkey rng: '' @ err)) (oe_host_pubkey oe)) (\<lambda>host_pubkey.
       case rebuild_application []
          \<lparr> pp_app = None, pp_adv = None, pp_host_pubkey = host_pubkey, pp_pair_events = [], pp_watcher = False,
            pp_peers = Map.empty, pp_sent = [], pp_radio = rd \<rparr> of
         (Inl e, _) \<Rightarrow> Err e
       | (Inr _, p) \<Rightarrow> Ok p)))))))"

text \<open>The pair watcher: 32 bytes written by a phone become an event; a short write is dropped.\<close>

definition pair_watcher_write :: "bytes \<Rightarrow> persistent \<Rightarrow> persistent" where
  "pair_watcher_write written p =
     (if pp_watcher p \<and> length written \<ge> PAIR_PUBKEY_LEN
      then p\<lparr> pp_pair_events := pp_pair_events p @ [(pp_host_pubkey p, take PAIR_PUBKEY_LEN written)] \<rparr>
      else p)"

definition build_advertisement :: "uuid set \<Rightarrow> advertisement" where
  "build_advertisement uuids =
     \<lparr> adv_uuids = uuids, adv_discoverable = ADVERTISE_DISCOVERABLE, adv_local_name = ADVERTISE_LOCAL_NAME \<rparr>"

definition fresh_char_set :: peer_char_set where
  "fresh_char_set = \<lparr> pc_responses = [], pc_notifier = None, pc_task = True \<rparr>"

definition build_and_register_peer ::
    "hkdf \<Rightarrow> bytes \<Rightarrow> persistent \<Rightarrow> (peripheral_error + peer_char_set) \<times> persistent" where
  "build_and_register_peer hk bond_key p =
     (case serve_app [peer_service hk bond_key] p of
        (Inl e, p1) \<Rightarrow> (Err e, p1)
      | (Inr _, p1) \<Rightarrow> (Ok fresh_char_set, snd (kick_connected_peers p1)))"

definition pp_add_peer :: "hkdf \<Rightarrow> string \<Rightarrow> bytes \<Rightarrow> persistent \<Rightarrow> (peripheral_error + unit) \<times> persistent" where
  "pp_add_peer hk peer_id bond_key p =
     (if pp_peers p peer_id \<noteq> None then (Err (Pe_PeerAlreadyAdded peer_id), p)
      else case build_and_register_peer hk bond_key (drop_application p) of
        (Inl e, p1) \<Rightarrow> (Err e, p1)
      | (Inr cs, p1) \<Rightarrow> (Ok (), p1\<lparr> pp_peers := (pp_peers p1)(peer_id \<mapsto> cs) \<rparr>))"

definition pp_remove_peer :: "string \<Rightarrow> persistent \<Rightarrow> (peripheral_error + unit) \<times> persistent" where
  "pp_remove_peer peer_id p =
     (case pp_peers p peer_id of
        None \<Rightarrow> (Err (Pe_UnknownPeer peer_id), p)
      | Some _ \<Rightarrow> (Ok (), drop_application (p\<lparr> pp_peers := (pp_peers p)(peer_id := None) \<rparr>)))"

definition pp_set_session_uuids :: "uuid set \<Rightarrow> persistent \<Rightarrow> (peripheral_error + unit) \<times> persistent" where
  "pp_set_session_uuids uuids p =
     (let (a, rest) = pop_answer (rd_advertise (pp_radio p));
          p1 = p\<lparr> pp_adv := None, pp_radio := (pp_radio p)\<lparr> rd_advertise := rest \<rparr> \<rparr> in
      case a of
        Some err \<Rightarrow> (Err (Pe_Backend (''advertise: '' @ err)), p1)
      | None \<Rightarrow> (Ok (), p1\<lparr> pp_adv := Some (build_advertisement uuids) \<rparr>))"

text \<open>
  \<open>NotificationChannel\<close>: one replaceable session.  A failing send and an observed
  closure clear the slot only if it still holds the same session.
\<close>

definition nch_clear_if_current :: "nat \<Rightarrow> nat option \<Rightarrow> nat option" where
  "nch_clear_if_current writer slot = (if slot = Some writer then None else slot)"

text \<open>
  Waiting for the end of the session in the slot: for ever without one, which is
  \<open>None\<close>, as it is while the session lasts.
\<close>

definition nch_wait_closed :: "(nat \<Rightarrow> bool) \<Rightarrow> nat option \<Rightarrow> nat option option" where
  "nch_wait_closed closed slot =
     (case slot of
        None \<Rightarrow> None
      | Some writer \<Rightarrow> if closed writer then Some (nch_clear_if_current writer slot) else None)"

definition nch_install :: "nat \<Rightarrow> nat option \<Rightarrow> nat option" where
  "nch_install writer slot = Some writer"

definition nch_send :: "(nat \<Rightarrow> string option) \<Rightarrow> nat option \<Rightarrow> (string + unit) \<times> nat option" where
  "nch_send send slot =
     (case slot of
        None \<Rightarrow> (Err ''not connected'', slot)
      | Some writer \<Rightarrow>
          (case send writer of
             None \<Rightarrow> (Ok (), slot)
           | Some err \<Rightarrow> (Err err, nch_clear_if_current writer slot)))"

text \<open>
  Before a challenge goes out the buffered responses are drained: the eight the
  channel can hold, not those that wait behind it.
\<close>

definition pp_notify_challenge :: "string \<Rightarrow> bytes \<Rightarrow> persistent \<Rightarrow> (peripheral_error + unit) \<times> persistent" where
  "pp_notify_challenge peer_id f p =
     (case pp_peers p peer_id of
        None \<Rightarrow> (Err (Pe_UnknownPeer peer_id), p)
      | Some cs \<Rightarrow>
          (let (r, slot) = nch_send (rd_send (pp_radio p)) (pc_notifier cs);
               p1 = p\<lparr> pp_peers := (pp_peers p)(peer_id \<mapsto> cs\<lparr> pc_responses := drop RESPONSE_BUFFER_DEPTH (pc_responses cs), pc_notifier := slot \<rparr>) \<rparr> in
           case r of
             Inl err \<Rightarrow> (Err (Pe_Backend (''notify_challenge write: '' @ err)), p1)
           | Inr _ \<Rightarrow> (Ok (), p1\<lparr> pp_sent := pp_sent p1 @ [(peer_id, f)] \<rparr>)))"

text \<open>
  The receiver first takes what is buffered, then waits for the next write.  The
  sender lives beside the receiver, so the channel is never closed here.
\<close>

definition pp_wait_for_response :: "string \<Rightarrow> nat \<Rightarrow> persistent \<Rightarrow> (peripheral_error + bytes) \<times> persistent" where
  "pp_wait_for_response peer_id deadline p =
     (case pp_peers p peer_id of
        None \<Rightarrow> (Err (Pe_UnknownPeer peer_id), p)
      | Some cs \<Rightarrow>
          (case pc_responses cs of
             bs # rest \<Rightarrow> (Ok bs, p\<lparr> pp_peers := (pp_peers p)(peer_id \<mapsto> cs\<lparr> pc_responses := rest \<rparr>) \<rparr>)
           | [] \<Rightarrow>
               (case rd_arrival (pp_radio p) peer_id of
                  Some (t, bs) \<Rightarrow>
                    if t \<le> deadline
                    then (Ok bs, p\<lparr> pp_radio := (pp_radio p)\<lparr> rd_arrival := (rd_arrival (pp_radio p))(peer_id := None) \<rparr> \<rparr>)
                    else (Err (Pe_ResponseTimeout peer_id deadline), p)
                | None \<Rightarrow> (Err (Pe_ResponseTimeout peer_id deadline), p))))"

text \<open>
  The carrier that still derives the rotating identifier of a minute.
\<close>

record bluer_advertiser =
  ba_adapter_id :: string
  ba_bond_key :: bytes
  ba_pairing_state :: pairing_state

definition advertiser_new_sync :: "string \<Rightarrow> bytes \<Rightarrow> pairing_state \<Rightarrow> bluer_advertiser" where
  "advertiser_new_sync adapter_id bond_key pairing_state =
     \<lparr> ba_adapter_id = adapter_id, ba_bond_key = bond_key, ba_pairing_state = pairing_state \<rparr>"

definition rotating_uuid_for :: "hkdf \<Rightarrow> bluer_advertiser \<Rightarrow> 64 word \<Rightarrow> uuid" where
  "rotating_uuid_for hk a minute = session_uuid_for hk (ba_bond_key a) minute"

text \<open>
  Events of the per-peer control task while it runs: subscription, closure, response write.
  When the buffer of eight is full the task waits with the next response in
  hand, so responses queue up behind it in order.
\<close>

definition control_subscribe :: "string \<Rightarrow> nat \<Rightarrow> persistent \<Rightarrow> persistent" where
  "control_subscribe peer_id writer p =
     (case pp_peers p peer_id of
        None \<Rightarrow> p
      | Some cs \<Rightarrow> p\<lparr> pp_peers := (pp_peers p)(peer_id \<mapsto> cs\<lparr> pc_notifier := nch_install writer (pc_notifier cs) \<rparr>) \<rparr>)"

definition control_closed :: "string \<Rightarrow> nat \<Rightarrow> persistent \<Rightarrow> persistent" where
  "control_closed peer_id writer p =
     (case pp_peers p peer_id of
        None \<Rightarrow> p
      | Some cs \<Rightarrow>
          (case nch_wait_closed (\<lambda>x. x = writer) (pc_notifier cs) of
             None \<Rightarrow> p
           | Some slot \<Rightarrow> p\<lparr> pp_peers := (pp_peers p)(peer_id \<mapsto> cs\<lparr> pc_notifier := slot \<rparr>) \<rparr>))"

definition control_response :: "string \<Rightarrow> bytes \<Rightarrow> persistent \<Rightarrow> persistent" where
  "control_response peer_id written p =
     (case pp_peers p peer_id of
        None \<Rightarrow> p
      | Some cs \<Rightarrow>
          (let bs = take RESPONSE_READ_BUF_BYTES written in
           if bs = [] then p
           else p\<lparr> pp_peers := (pp_peers p)(peer_id \<mapsto> cs\<lparr> pc_responses := pc_responses cs @ [bs] \<rparr>) \<rparr>))"

definition persistent_ops :: "hkdf \<Rightarrow> persistent periph_ops" where
  "persistent_ops hk =
     \<lparr> op_add_peer = pp_add_peer hk, op_remove_peer = pp_remove_peer,
       op_set_session_uuids = pp_set_session_uuids, op_notify_challenge = pp_notify_challenge,
       op_wait_for_response = pp_wait_for_response \<rparr>"

section \<open>The fake peripheral\<close>

definition FAKE_RESPONSE_POLL_INTERVAL :: nat where [const_defs]: "FAKE_RESPONSE_POLL_INTERVAL = 10"

record fake_state =
  fk_peers_in_order :: "string list"
  fk_peer_keys :: "string \<rightharpoonup> bytes"
  fk_session_uuid_calls :: "uuid set list"
  fk_notify_calls :: "(string \<times> bytes) list"
  fk_response_queue :: "string \<Rightarrow> bytes list"

definition fake_new :: fake_state where
  "fake_new = \<lparr> fk_peers_in_order = [], fk_peer_keys = Map.empty, fk_session_uuid_calls = [],
     fk_notify_calls = [], fk_response_queue = (\<lambda>_. []) \<rparr>"

definition inject_response :: "string \<Rightarrow> bytes \<Rightarrow> fake_state \<Rightarrow> fake_state" where
  "inject_response peer_id bs s =
     s\<lparr> fk_response_queue := (fk_response_queue s)(peer_id := fk_response_queue s peer_id @ [bs]) \<rparr>"

definition fk_add_peer :: "string \<Rightarrow> bytes \<Rightarrow> fake_state \<Rightarrow> (peripheral_error + unit) \<times> fake_state" where
  "fk_add_peer peer_id bond_key s =
     (if fk_peer_keys s peer_id \<noteq> None then (Err (Pe_PeerAlreadyAdded peer_id), s)
      else (Ok (), s\<lparr> fk_peers_in_order := fk_peers_in_order s @ [peer_id],
                     fk_peer_keys := (fk_peer_keys s)(peer_id \<mapsto> bond_key) \<rparr>))"

definition fk_remove_peer :: "string \<Rightarrow> fake_state \<Rightarrow> (peripheral_error + unit) \<times> fake_state" where
  "fk_remove_peer peer_id s =
     (if fk_peer_keys s peer_id = None then (Err (Pe_UnknownPeer peer_id), s)
      else (Ok (), s\<lparr> fk_peer_keys := (fk_peer_keys s)(peer_id := None),
                     fk_peers_in_order := filter (\<lambda>p. p \<noteq> peer_id) (fk_peers_in_order s) \<rparr>))"

definition fk_set_session_uuids :: "uuid set \<Rightarrow> fake_state \<Rightarrow> (peripheral_error + unit) \<times> fake_state" where
  "fk_set_session_uuids uuids s = (Ok (), s\<lparr> fk_session_uuid_calls := fk_session_uuid_calls s @ [uuids] \<rparr>)"

definition fk_notify_challenge :: "string \<Rightarrow> bytes \<Rightarrow> fake_state \<Rightarrow> (peripheral_error + unit) \<times> fake_state" where
  "fk_notify_challenge peer_id f s =
     (if fk_peer_keys s peer_id = None then (Err (Pe_UnknownPeer peer_id), s)
      else (Ok (), s\<lparr> fk_notify_calls := fk_notify_calls s @ [(peer_id, f)] \<rparr>))"

text \<open>Nothing is injected while the fake polls: an empty queue stays empty until the deadline.\<close>

definition fk_wait_for_response :: "string \<Rightarrow> nat \<Rightarrow> fake_state \<Rightarrow> (peripheral_error + bytes) \<times> fake_state" where
  "fk_wait_for_response peer_id deadline s =
     (if fk_peer_keys s peer_id = None then (Err (Pe_UnknownPeer peer_id), s)
      else case fk_response_queue s peer_id of
        bs # rest \<Rightarrow> (Ok bs, s\<lparr> fk_response_queue := (fk_response_queue s)(peer_id := rest) \<rparr>)
      | [] \<Rightarrow> (Err (Pe_ResponseTimeout peer_id deadline), s))"

definition fake_ops :: "fake_state periph_ops" where
  "fake_ops =
     \<lparr> op_add_peer = fk_add_peer, op_remove_peer = fk_remove_peer,
       op_set_session_uuids = fk_set_session_uuids, op_notify_challenge = fk_notify_challenge,
       op_wait_for_response = fk_wait_for_response \<rparr>"

section \<open>Interpretations\<close>

lemmas persistent_defs =
  persistent_ops_def pp_add_peer_def pp_remove_peer_def pp_set_session_uuids_def pp_notify_challenge_def
  pp_wait_for_response_def build_and_register_peer_def serve_app_def

lemmas fake_defs =
  fake_ops_def fk_add_peer_def fk_remove_peer_def fk_set_session_uuids_def fk_notify_challenge_def
  fk_wait_for_response_def

interpretation persistent: peripheral_laws "persistent_ops hk" "\<lambda>p. dom (pp_peers p)" for hk
  by unfold_locales
     (auto simp: persistent_defs Let_def split_def dom_def split: option.splits list.splits if_splits sum.splits)

interpretation fake: peripheral_laws fake_ops "\<lambda>s. dom (fk_peer_keys s)"
  by unfold_locales (auto simp: fake_defs split: list.splits if_splits)


section \<open>Properties\<close>

text \<open>
  Adding a peer to the production peripheral replaces the whole GATT
  application: afterwards the registered services are that peer's service
  alone, without the pair service and without the services of the peers that
  were added before; the watcher of the pair service is gone, and so are the
  control tasks of the other peers, which stay in the table.
\<close>

theorem add_peer_replaces_application:
  assumes "op_add_peer (persistent_ops hk) i key p = (Ok (), p')"
  shows "pp_app p' = Some [peer_service hk key] \<and> build_pair_service \<notin> set [peer_service hk key] \<and>
         dom (pp_peers p') = insert i (dom (pp_peers p)) \<and> \<not> pp_watcher p' \<and>
         (\<forall>j cs. j \<noteq> i \<longrightarrow> pp_peers p' j = Some cs \<longrightarrow> \<not> pc_task cs)"
proof -
  have "pp_app p' = Some [peer_service hk key]"
    using assms by (auto simp: persistent_defs Let_def split_def split: if_splits option.splits)
  moreover have "build_pair_service \<noteq> peer_service hk key"
    by (simp add: build_pair_service_def peer_service_def)
  moreover have "\<not> pp_watcher p'" "\<forall>j cs. j \<noteq> i \<longrightarrow> pp_peers p' j = Some cs \<longrightarrow> \<not> pc_task cs"
    using assms by (auto simp: persistent_defs Let_def split_def split: if_splits option.splits)
  ultimately show ?thesis using persistent.add_registered [OF assms] by simp
qed

theorem add_peer_replaces_application_witness:
  "pp_app (snd (op_add_peer (persistent_ops (\<lambda>k i n. Some (replicate n 0))) ''b'' [2]
     (snd (op_add_peer (persistent_ops (\<lambda>k i n. Some (replicate n 0))) ''a'' [1]
       \<lparr> pp_app = Some [build_pair_service], pp_adv = None, pp_host_pubkey = [], pp_pair_events = [], pp_watcher = True,
         pp_peers = Map.empty, pp_sent = [],
         pp_radio = \<lparr> rd_serve = [], rd_advertise = [], rd_send = (\<lambda>_. None), rd_arrival = (\<lambda>_. None), rd_devices = Ok [] \<rparr> \<rparr>))))
     = Some [peer_service (\<lambda>k i n. Some (replicate n 0)) [2]]"
proof -
  let ?ops = "persistent_ops (\<lambda>k i n. Some (replicate n 0))"
  let ?p = "\<lparr> pp_app = Some [build_pair_service], pp_adv = None, pp_host_pubkey = [], pp_pair_events = [], pp_watcher = True,
         pp_peers = Map.empty, pp_sent = [],
         pp_radio = \<lparr> rd_serve = [], rd_advertise = [], rd_send = (\<lambda>_. None), rd_arrival = (\<lambda>_. None), rd_devices = Ok [] \<rparr> \<rparr>"
  let ?r = "op_add_peer ?ops ''b'' [2] (snd (op_add_peer ?ops ''a'' [1] ?p))"
  have "?r = (Ok (), snd ?r)" by (simp add: persistent_defs)
  from add_peer_replaces_application [OF this] show ?thesis by simp
qed

text \<open>
  C23: an answer belongs to the challenge that was sent.  When at most eight old
  responses are queued for a peer, sending a challenge discards them, and the
  next wait returns the first response the phone writes afterwards.
\<close>

theorem answer_is_fresh:
  assumes "pp_peers p i = Some cs" "length (pc_responses cs) \<le> 8"
    and "pp_notify_challenge i f p = (Ok (), p1)" "bs \<noteq> []" "length bs \<le> 512"
  shows "fst (pp_wait_for_response i d (control_response i bs p1)) = Ok bs"
proof -
  obtain r slot where send: "nch_send (rd_send (pp_radio p)) (pc_notifier cs) = (r, slot)" by fastforce
  with assms(1,3) have "pp_peers p1 i = Some (cs\<lparr> pc_responses := drop RESPONSE_BUFFER_DEPTH (pc_responses cs), pc_notifier := slot \<rparr>)"
    by (auto simp: pp_notify_challenge_def Let_def split: sum.splits)
  with assms(2) have "pp_peers p1 i = Some (cs\<lparr> pc_responses := [], pc_notifier := slot \<rparr>)"
    by (simp add: RESPONSE_BUFFER_DEPTH_def)
  with assms(4,5) show ?thesis
    by (simp add: control_response_def pp_wait_for_response_def Let_def RESPONSE_READ_BUF_BYTES_def)
qed

theorem answer_is_fresh_witness:
  "fst (pp_wait_for_response ''a'' 10 (control_response ''a'' [7] (snd (pp_notify_challenge ''a'' [1]
     \<lparr> pp_app = None, pp_adv = None, pp_host_pubkey = [], pp_pair_events = [], pp_watcher = True,
       pp_peers = [''a'' \<mapsto> \<lparr> pc_responses = [[3], [4]], pc_notifier = Some 0, pc_task = True \<rparr>], pp_sent = [],
       pp_radio = \<lparr> rd_serve = [], rd_advertise = [], rd_send = (\<lambda>_. None), rd_arrival = (\<lambda>_. None), rd_devices = Ok [] \<rparr> \<rparr>)))) = Ok [7]"
proof -
  let ?cs = "\<lparr> pc_responses = [[3], [4]], pc_notifier = Some 0, pc_task = True \<rparr> :: peer_char_set"
  let ?p = "\<lparr> pp_app = None, pp_adv = None, pp_host_pubkey = [], pp_pair_events = [], pp_watcher = True,
       pp_peers = [''a'' \<mapsto> ?cs], pp_sent = [],
       pp_radio = \<lparr> rd_serve = [], rd_advertise = [], rd_send = (\<lambda>_. None), rd_arrival = (\<lambda>_. None), rd_devices = Ok [] \<rparr> \<rparr>"
  let ?r = "pp_notify_challenge ''a'' [1] ?p"
  have r: "?r = (Ok (), snd ?r)" by (simp add: pp_notify_challenge_def nch_send_def)
  show ?thesis by (rule answer_is_fresh [OF _ _ r, of ?cs]) simp_all
qed

text \<open>
  The end of an old notification session never takes down a newer one.
  After the phone has subscribed again, the closure of any earlier session
  leaves the new one installed, and so does a send that failed on the earlier.
\<close>

theorem new_session_survives:
  "old \<noteq> new \<longrightarrow> control_closed i old (control_subscribe i new p) = control_subscribe i new p \<and>
     nch_clear_if_current old (nch_install new slot) = Some new"
  by (auto simp: control_closed_def control_subscribe_def nch_install_def nch_wait_closed_def nch_clear_if_current_def split: option.splits)

theorem new_session_survives_witness:
  "nch_clear_if_current 0 (nch_install 1 (Some 0)) = Some 1"
  using new_session_survives [of 0 1 _ _ "Some 0"] by simp

text \<open>
  After a phone has been added, no phone that the adapter can reach and
  disconnect is still connected with a subscription to the old application.
\<close>

lemma add_peer_kicks:
  assumes "pp_add_peer hk i k p = (Ok (), p1)" "rd_devices (pp_radio p) = Ok ds"
  shows "\<exists>ds1. rd_devices (pp_radio p1) = Ok ds1 \<and> map dv_addr ds1 = map dv_addr ds \<and>
    (\<forall>d \<in> set ds1. dv_handle d \<and> dv_disconnect d \<longrightarrow> dv_connected d \<noteq> Some True)"
proof -
  have "rd_devices (pp_radio p1) = Ok (map kick_device ds)"
    using assms by (auto simp: pp_add_peer_def build_and_register_peer_def serve_app_def kick_connected_peers_def Let_def
        split: if_splits sum.splits prod.splits option.splits)
  then show ?thesis by (auto simp: kick_device_def)
qed

end
