(* ===== verification/AuditLog.thy ===== *)
theory AuditLog
  imports Bond
begin

text \<open>
  The audit log of \<open>syauth-presenced/src/audit.rs\<close>: one comma-separated line per
  challenge, appended to an open file that is synced every 32 records.  The open
  handle is the path; the file is not unlinked while the daemon runs.
\<close>

definition AUDIT_LOG_FILE_MODE :: mode where [const_defs]: "AUDIT_LOG_FILE_MODE = 384" \<comment> \<open>0o600\<close>
definition AUDIT_FSYNC_EVERY :: "64 word" where [const_defs]: "AUDIT_FSYNC_EVERY = 32"
definition AUDIT_FIELD_SEPARATOR :: string where [const_defs]: "AUDIT_FIELD_SEPARATOR = '',''"

record audit_record =
  ar_peer_id :: string
  ar_nonce_hex :: string
  ar_t_start_ms :: nat
  ar_t_end_ms :: nat
  ar_outcome :: string
  ar_reason :: string

record audit_log =
  al_path :: path
  al_appended_since_fsync :: "64 word"

definition audit_open :: "sys_env \<Rightarrow> path \<Rightarrow> fs \<Rightarrow> (io_error + audit_log) \<times> fs" where
  "audit_open e p s =
     (case open_append e p AUDIT_LOG_FILE_MODE s of
        (Inl err, s1) \<Rightarrow> (Err err, s1)
      | (Inr _, s1) \<Rightarrow> (Ok \<lparr> al_path = p, al_appended_since_fsync = 0 \<rparr>, s1))"

definition format_record :: "audit_record \<Rightarrow> string" where
  "format_record r =
     ar_peer_id r @ AUDIT_FIELD_SEPARATOR @ ar_nonce_hex r @ AUDIT_FIELD_SEPARATOR @
     show_nat (ar_t_start_ms r) @ AUDIT_FIELD_SEPARATOR @ show_nat (ar_t_end_ms r) @ AUDIT_FIELD_SEPARATOR @
     ar_outcome r @ AUDIT_FIELD_SEPARATOR @ ar_reason r @ [NL]"

definition audit_append :: "sys_env \<Rightarrow> audit_log \<Rightarrow> audit_record \<Rightarrow> fs \<Rightarrow> (io_error + unit) \<times> audit_log \<times> fs" where
  "audit_append e log r s =
     (case write_all e (al_path log) (str_bytes (format_record r)) s of
        (Inl err, s1) \<Rightarrow> (Err err, log, s1)
      | (Inr _, s1) \<Rightarrow>
          (let n = al_appended_since_fsync log + 1; log1 = log\<lparr> al_appended_since_fsync := n \<rparr> in
           if n mod AUDIT_FSYNC_EVERY = 0
           then (case sync_all e (al_path log) s1 of (r1, s2) \<Rightarrow> (r1, log1, s2))
           else (Ok (), log1, s1)))"

section \<open>Lemmas\<close>

lemma audit_append_write:
  assumes "audit_append e log r s = (x, log', s')"
    and "write_all e (al_path log) (str_bytes (format_record r)) s = (y, s1)"
  shows "s' = s1 \<and> al_path log' = al_path log \<and>
         al_appended_since_fsync log' = (if is_ok y then al_appended_since_fsync log + 1 else al_appended_since_fsync log)"
proof -
  let ?n = "al_appended_since_fsync log + 1"
  obtain z s2 where z: "sync_all e (al_path log) s1 = (z, s2)" by fastforce
  then have "s2 = s1" by (rule sync_all_same)
  with z assms have "(case y of Inl err \<Rightarrow> (Err err, log, s1)
      | Inr _ \<Rightarrow> (if ?n mod AUDIT_FSYNC_EVERY = 0 then z else Ok (), log\<lparr> al_appended_since_fsync := ?n \<rparr>, s1))
      = (x, log', s')"
    by (cases y) (auto simp: audit_append_def Let_def split: if_splits)
  then show ?thesis by (cases y) auto
qed

text \<open>An append either leaves the whole line at the end of the file or a prefix of it.\<close>

lemma audit_append_file:
  assumes "audit_append e log r s = (x, log', s')" "fs_nodes s (al_path log) = Some (FileNode old m)"
  shows "\<exists>k. fs_nodes s' (al_path log) = Some (FileNode (old @ take k (str_bytes (format_record r))) m)"
    and "sys_fail e (OpWrite (al_path log)) = None \<Longrightarrow>
           fs_nodes s' (al_path log) = Some (FileNode (old @ str_bytes (format_record r)) m)"
proof -
  let ?bs = "str_bytes (format_record r)"
  obtain y s1 where w: "write_all e (al_path log) ?bs s = (y, s1)" by fastforce
  have s': "s' = s1" using audit_append_write [OF assms(1) w] by simp
  show "\<exists>k. fs_nodes s' (al_path log) = Some (FileNode (old @ take k ?bs) m)"
    using w assms(2) s' by (cases "sys_fail e (OpWrite (al_path log))")
      (auto simp: write_all_def intro: exI [of _ "length ?bs"] exI [of _ "sys_short e"])
  show "sys_fail e (OpWrite (al_path log)) = None \<Longrightarrow>
      fs_nodes s' (al_path log) = Some (FileNode (old @ ?bs) m)"
    using w assms(2) s' by (auto simp: write_all_def)
qed

lemma show_nat_no_comma: "CHR '','' \<notin> set (show_nat n)"
  using show_nat_digits [of n] by (auto simp: is_digit_def)

section \<open>Properties\<close>

text \<open>
  An audit line can be read back.  When the texts of a record contain no
  comma, cutting the line at its commas (without the final newline) gives its
  six columns in order, and the two time columns parse to the recorded
  milliseconds.
\<close>

theorem audit_line_readable:
  assumes "\<forall>f \<in> {ar_peer_id r, ar_nonce_hex r, ar_outcome r, ar_reason r}. CHR '','' \<notin> set f"
  shows "split_on (CHR '','') (butlast (format_record r)) =
           [ar_peer_id r, ar_nonce_hex r, show_nat (ar_t_start_ms r), show_nat (ar_t_end_ms r), ar_outcome r, ar_reason r] \<and>
         last (format_record r) = NL \<and>
         parse_nat (ar_t_start_ms r) (show_nat (ar_t_start_ms r)) = Some (ar_t_start_ms r)"
proof -
  have "butlast (format_record r) =
      ar_peer_id r @ CHR '','' # ar_nonce_hex r @ CHR '','' # show_nat (ar_t_start_ms r) @ CHR '','' #
      show_nat (ar_t_end_ms r) @ CHR '','' # ar_outcome r @ CHR '','' # ar_reason r"
    by (simp add: format_record_def const_defs butlast_append)
  then show ?thesis
    using assms by (simp add: split_on_Cons split_on_single show_nat_no_comma parse_show_nat) (simp add: format_record_def)
qed

theorem audit_line_readable_witness:
  "split_on (CHR '','') (butlast (format_record \<lparr> ar_peer_id = ''ab'', ar_nonce_hex = ''00'', ar_t_start_ms = 7,
      ar_t_end_ms = 9, ar_outcome = ''ok'', ar_reason = ''ok'' \<rparr>)) =
   [''ab'', ''00'', show_nat 7, show_nat 9, ''ok'', ''ok'']"
  using audit_line_readable [of "\<lparr> ar_peer_id = ''ab'', ar_nonce_hex = ''00'', ar_t_start_ms = 7,
      ar_t_end_ms = 9, ar_outcome = ''ok'', ar_reason = ''ok'' \<rparr>"] by simp

end
