(* ===== verification/Orchestrator.thy ===== *)
theory Orchestrator
  imports Replay Rpc Peripheral BTree AuditLog
begin

text \<open>
  The orchestrator of \<open>syauth-presenced/src/orchestrator.rs\<close>: the live set of
  bonded peers, the challenge transaction, the rotation of the advertised UUIDs
  and the reload of the bond store.  It is generic in the peripheral, like the
  \<open>dyn Peripheral\<close> of the source: every operation takes the operation record of
  the trait.  Instants are milliseconds since the epoch and may be negative.
\<close>

section \<open>Constants\<close>

definition SECONDS_PER_MINUTE :: nat where [const_defs]: "SECONDS_PER_MINUTE = 60"
definition SHORT_UUID_HEX_LEN :: nat where [const_defs]: "SHORT_UUID_HEX_LEN = 8"
definition RELOAD_DEBOUNCE :: nat where [const_defs]: "RELOAD_DEBOUNCE = 200"
definition RELOAD_TRIGGER_SIGHUP :: string where [const_defs]: "RELOAD_TRIGGER_SIGHUP = ''sighup''"
definition RELOAD_TRIGGER_RPC :: string where [const_defs]: "RELOAD_TRIGGER_RPC = ''rpc''"
definition RELOAD_TRIGGER_INOTIFY :: string where [const_defs]: "RELOAD_TRIGGER_INOTIFY = ''inotify''"
definition RELOAD_TRIGGER_PAIR :: string where [const_defs]: "RELOAD_TRIGGER_PAIR = ''pair''"
definition RELOAD_TRIGGER_TEST :: string where [const_defs]: "RELOAD_TRIGGER_TEST = ''test''"
definition RELOAD_CHANNEL_CAPACITY :: nat where [const_defs]: "RELOAD_CHANNEL_CAPACITY = 16"
definition DEFAULT_AUTH_TIMEOUT :: nat where [const_defs]: "DEFAULT_AUTH_TIMEOUT = 8000"
definition NONCE_BYTES :: nat where [const_defs]: "NONCE_BYTES = NONCE_LEN"
definition OUTCOME_REASON_OK :: string where [const_defs]: "OUTCOME_REASON_OK = ''ok''"
definition OUTCOME_REASON_DENIED :: string where [const_defs]: "OUTCOME_REASON_DENIED = ''denied''"
definition OUTCOME_REASON_REPLAY :: string where [const_defs]: "OUTCOME_REASON_REPLAY = ''replay''"
definition OUTCOME_REASON_BAD_SIGNATURE :: string where [const_defs]: "OUTCOME_REASON_BAD_SIGNATURE = ''bad-signature''"
definition OUTCOME_REASON_RESPONSE_TIMEOUT :: string where [const_defs]: "OUTCOME_REASON_RESPONSE_TIMEOUT = ''response-timeout''"
definition OUTCOME_REASON_UNKNOWN_PEER :: string where [const_defs]: "OUTCOME_REASON_UNKNOWN_PEER = ''unknown-peer''"
definition OUTCOME_REASON_TRANSPORT_ERROR :: string where [const_defs]: "OUTCOME_REASON_TRANSPORT_ERROR = ''transport-error''"
definition OUTCOME_REASON_BUSY :: string where [const_defs]: "OUTCOME_REASON_BUSY = ''busy''"
definition BUSY_QUEUE_DEADLINE :: nat where [const_defs]: "BUSY_QUEUE_DEADLINE = 1000"
definition ZERO_NONCE_HEX :: string where [const_defs]: "ZERO_NONCE_HEX = replicate 32 (CHR ''0'')"
definition PAIR_MODE_ZERO_BOND_KEY :: bytes where [const_defs]: "PAIR_MODE_ZERO_BOND_KEY = replicate 32 0"
definition BOND_KEY_FILE_EXT :: string where [const_defs]: "BOND_KEY_FILE_EXT = ''.bin''"

section \<open>Outcomes\<close>

datatype challenge_outcome =
    Co_Ok bytes | Co_Denied | Co_Replay | Co_BadSignature | Co_TimedOut | Co_UnknownPeer | Co_Busy
  | Co_TransportError peripheral_error

fun reason_str :: "challenge_outcome \<Rightarrow> string" where
  "reason_str (Co_Ok _) = OUTCOME_REASON_OK"
| "reason_str Co_Denied = OUTCOME_REASON_DENIED"
| "reason_str Co_Replay = OUTCOME_REASON_REPLAY"
| "reason_str Co_BadSignature = OUTCOME_REASON_BAD_SIGNATURE"
| "reason_str Co_TimedOut = OUTCOME_REASON_RESPONSE_TIMEOUT"
| "reason_str Co_UnknownPeer = OUTCOME_REASON_UNKNOWN_PEER"
| "reason_str Co_Busy = OUTCOME_REASON_BUSY"
| "reason_str (Co_TransportError _) = OUTCOME_REASON_TRANSPORT_ERROR"

fun signature_bytes :: "challenge_outcome \<Rightarrow> bytes option" where
  "signature_bytes (Co_Ok sig) = Some sig"
| "signature_bytes _ = None"

section \<open>Clock arithmetic\<close>

text \<open>\<open>duration_since(UNIX_EPOCH)\<close> in whole seconds; \<open>None\<close> before the epoch.\<close>

definition unix_secs :: "int \<Rightarrow> nat option" where
  "unix_secs t = (if t < 0 then None else Some (nat t div 1000))"

definition align_to_next_minute :: "int \<Rightarrow> nat" where
  "align_to_next_minute now =
     (case unix_secs now of
        None \<Rightarrow> SECONDS_PER_MINUTE
      | Some secs \<Rightarrow> SECONDS_PER_MINUTE - secs mod SECONDS_PER_MINUTE)"

definition minute_index :: "int \<Rightarrow> 64 word" where
  "minute_index now =
     (case unix_secs now of
        None \<Rightarrow> 0
      | Some secs \<Rightarrow> word_of_nat (min (secs div SECONDS_PER_MINUTE) (2 ^ 63 - 1)))"

definition epoch_millis :: "int \<Rightarrow> nat" where
  "epoch_millis t = nat t"

definition ms_since :: "int \<Rightarrow> int option \<Rightarrow> nat option" where
  "ms_since now past =
     (case past of None \<Rightarrow> None
      | Some t \<Rightarrow> if now < t then None else Some (min (nat (now - t)) (2 ^ 64 - 1)))"

text \<open>The loop of \<open>short_hex\<close>, then the truncation.\<close>

fun short_hex_loop :: "string \<Rightarrow> uuid \<Rightarrow> string" where
  "short_hex_loop acc [] = acc"
| "short_hex_loop acc (b # bs) =
     (let acc1 = acc @ hex_byte b in
      if length acc1 \<ge> SHORT_UUID_HEX_LEN then acc1 else short_hex_loop acc1 bs)"

definition short_hex :: "uuid \<Rightarrow> string" where
  "short_hex u = take SHORT_UUID_HEX_LEN (short_hex_loop [] u)"

section \<open>State\<close>

datatype reload_trigger = Rt_Sighup | Rt_Rpc | Rt_Inotify | Rt_Pair | Rt_Test

fun trigger_as_str :: "reload_trigger \<Rightarrow> string" where
  "trigger_as_str Rt_Sighup = RELOAD_TRIGGER_SIGHUP"
| "trigger_as_str Rt_Rpc = RELOAD_TRIGGER_RPC"
| "trigger_as_str Rt_Inotify = RELOAD_TRIGGER_INOTIFY"
| "trigger_as_str Rt_Pair = RELOAD_TRIGGER_PAIR"
| "trigger_as_str Rt_Test = RELOAD_TRIGGER_TEST"

record peer_liveness =
  pl_last_challenge_at :: "int option"
  pl_last_connect_at :: "int option"

text \<open>
  The nonce cache, the semaphore and the liveness marks of a peer are behind
  \<open>Arc\<close>s: a transaction keeps its clones when a reload removes the peer.  They are
  cells of an append-only heap, and an entry holds the address of its cell.
\<close>

record peer_cell =
  pc_nonce_cache :: nonce_cache
  pc_challenge_slot :: nat
  pc_liveness :: peer_liveness

record peer_entry =
  pe_bond_key :: bytes
  pe_phone_pubkey :: "bytes option"
  pe_cell :: nat

definition peer_cell_new :: peer_cell where
  "peer_cell_new =
     \<lparr> pc_nonce_cache = nonce_cache_new, pc_challenge_slot = 1,
       pc_liveness = \<lparr> pl_last_challenge_at = None, pl_last_connect_at = None \<rparr> \<rparr>"

text \<open>The orchestrator, with the disk its audit log and key files are on.\<close>

record 'p orch =
  o_periph :: 'p
  o_peers :: "peer_entry btree"
  o_cells :: "peer_cell list"
  o_bonds_file :: path
  o_keys_dir :: path
  o_rx_taken :: bool
  o_audit :: "audit_log option"
  o_fs :: fs

text \<open>\<open>PeerEntry::new\<close> followed by the insertion into the map, as both callers do it.\<close>

definition insert_peer_entry :: "string \<Rightarrow> bytes \<Rightarrow> bytes option \<Rightarrow> 'p orch \<Rightarrow> 'p orch" where
  "insert_peer_entry i bond_key phone_pubkey os =
     os\<lparr> o_peers := bt_insert i \<lparr> pe_bond_key = bond_key, pe_phone_pubkey = phone_pubkey, pe_cell = length (o_cells os) \<rparr> (o_peers os),
         o_cells := o_cells os @ [peer_cell_new] \<rparr>"

text \<open>The cryptographic libraries the daemon calls.\<close>

record crypto =
  cr_keyed_hash :: keyed_hash
  cr_hkdf :: hkdf
  cr_blake3 :: "bytes \<Rightarrow> bytes"
  cr_key_ok :: "bytes \<Rightarrow> bool"
  cr_sig_ok :: "bytes \<Rightarrow> bool"
  cr_verify :: "bytes \<Rightarrow> bytes \<Rightarrow> bytes \<Rightarrow> bool"

definition with_peers_and_audit ::
    "'p \<Rightarrow> (bond \<times> bytes) list \<Rightarrow> path \<Rightarrow> path \<Rightarrow> audit_log option \<Rightarrow> fs \<Rightarrow> 'p orch" where
  "with_peers_and_audit periph peers bonds_file keys_dir log s =
     foldl (\<lambda>os (b, k). insert_peer_entry (b_peer_id b) k (Some (b_pubkey b)) os)
       \<lparr> o_periph = periph, o_peers = [], o_cells = [], o_bonds_file = bonds_file, o_keys_dir = keys_dir,
         o_rx_taken = False, o_audit = log, o_fs = s \<rparr> peers"

definition with_peers :: "'p \<Rightarrow> (bond \<times> bytes) list \<Rightarrow> path \<Rightarrow> path \<Rightarrow> fs \<Rightarrow> 'p orch" where
  "with_peers periph peers bonds_file keys_dir s = with_peers_and_audit periph peers bonds_file keys_dir None s"

text \<open>\<open>Orchestrator::new\<close>: one phone, and paths that are empty.\<close>

definition orch_new :: "'p \<Rightarrow> bond \<Rightarrow> bytes \<Rightarrow> fs \<Rightarrow> 'p orch" where
  "orch_new periph b bond_key s = with_peers periph [(b, bond_key)] [] [] s"

definition attach_audit_log :: "'p orch \<Rightarrow> audit_log \<Rightarrow> audit_log option \<times> 'p orch" where
  "attach_audit_log os log = (o_audit os, os\<lparr> o_audit := Some log \<rparr>)"

definition upd_cell :: "nat \<Rightarrow> (peer_cell \<Rightarrow> peer_cell) \<Rightarrow> 'p orch \<Rightarrow> 'p orch" where
  "upd_cell c f os = os\<lparr> o_cells := (o_cells os)[c := f (o_cells os ! c)] \<rparr>"

section \<open>Audit\<close>

definition audit_at :: "sys_env \<Rightarrow> string \<Rightarrow> string \<Rightarrow> nat \<Rightarrow> nat \<Rightarrow> string \<Rightarrow> 'p orch \<Rightarrow> 'p orch" where
  "audit_at e peer_id nonce_hex t_start t_end reason os =
     (case o_audit os of
        None \<Rightarrow> os
      | Some log \<Rightarrow>
          (case audit_append e log \<lparr> ar_peer_id = peer_id, ar_nonce_hex = nonce_hex, ar_t_start_ms = t_start,
              ar_t_end_ms = t_end, ar_outcome = reason, ar_reason = reason \<rparr> (o_fs os) of
             (_, log1, s1) \<Rightarrow> os\<lparr> o_audit := Some log1, o_fs := s1 \<rparr>))"

definition audit_outcome :: "sys_env \<Rightarrow> string \<Rightarrow> string \<Rightarrow> nat \<Rightarrow> string \<Rightarrow> 'p orch \<Rightarrow> 'p orch" where
  "audit_outcome e peer_id nonce_hex t_start reason os = audit_at e peer_id nonce_hex t_start t_start reason os"

section \<open>The challenge transaction\<close>

record peer_state =
  st_phone_pubkey :: bytes
  st_bond_key :: bytes
  st_cell :: nat

definition lookup_peer :: "'p orch \<Rightarrow> string \<Rightarrow> peer_state option" where
  "lookup_peer os peer_id =
     (case bt_get (o_peers os) peer_id of
        None \<Rightarrow> None
      | Some pe \<Rightarrow>
          (case pe_phone_pubkey pe of
             None \<Rightarrow> None
           | Some pk \<Rightarrow> Some \<lparr> st_phone_pubkey = pk, st_bond_key = pe_bond_key pe, st_cell = pe_cell pe \<rparr>))"

fun challenge_outcome_for_transport :: "peripheral_error \<Rightarrow> challenge_outcome" where
  "challenge_outcome_for_transport (Pe_UnknownPeer _) = Co_UnknownPeer"
| "challenge_outcome_for_transport (Pe_ResponseTimeout _ _) = Co_TimedOut"
| "challenge_outcome_for_transport other = Co_TransportError (Pe_Backend (peripheral_display other))"

definition parse_signature :: "crypto \<Rightarrow> bytes \<Rightarrow> bytes option" where
  "parse_signature C bs =
     (if length bs \<noteq> SIGNATURE_LEN then None else if cr_sig_ok C bs then Some bs else None)"

text \<open>
  \<open>run_challenge\<close> in its two halves, cut at the wait for the phone: the first
  builds, tags and sends the challenge, the second judges the response.  Each
  early return of the source is an outcome; the caller writes the audit line.
\<close>

definition send_challenge ::
    "'p periph_ops \<Rightarrow> crypto \<Rightarrow> string \<Rightarrow> bytes \<Rightarrow> peer_state \<Rightarrow> 'p orch \<Rightarrow> (challenge_outcome + frame) \<times> 'p orch" where
  "send_challenge ops C peer_id nonce st os =
     (let challenge0 = \<lparr> f_version = SYAUTH_WIRE_VERSION_V1, f_nonce = nonce, f_payload = [], f_tag = replicate TAG_LEN 0 \<rparr> in
      case body_bytes challenge0 of
        Inl err \<Rightarrow> (Err (Co_TransportError (Pe_Backend (''challenge body_bytes: '' @ frame_error_display err))), os)
      | Inr body \<Rightarrow>
      (let challenge = challenge0\<lparr> f_tag := compute_tag (cr_keyed_hash C) (st_bond_key st) body \<rparr> in
       case frame_encode challenge [] of
         (Inl err, _) \<Rightarrow> (Err (Co_TransportError (Pe_Backend (''encode challenge frame: '' @ frame_error_display err))), os)
       | (Inr _, encoded) \<Rightarrow>
         (case op_notify_challenge ops peer_id encoded (o_periph os) of
            (Inl err, p1) \<Rightarrow> (Err (challenge_outcome_for_transport err), os\<lparr> o_periph := p1 \<rparr>)
          | (Inr _, p1) \<Rightarrow> (Ok challenge, os\<lparr> o_periph := p1 \<rparr>))))"

definition judge_response :: "crypto \<Rightarrow> peer_state \<Rightarrow> frame \<Rightarrow> bytes \<Rightarrow> 'p orch \<Rightarrow> challenge_outcome \<times> 'p orch" where
  "judge_response C st challenge response_bytes os =
     (case parse_signature C response_bytes of
        None \<Rightarrow> (Co_BadSignature, os)
      | Some signature \<Rightarrow>
          if \<not> cr_key_ok C (st_phone_pubkey st) then (Co_BadSignature, os)
          else (case verify_frame (cr_verify C) (st_phone_pubkey st) challenge signature of
            Inl _ \<Rightarrow> (Co_BadSignature, os)
          | Inr _ \<Rightarrow>
              if nc_contains (pc_nonce_cache (o_cells os ! st_cell st)) (f_nonce challenge) then (Co_Replay, os)
              else (Co_Ok signature,
                    upd_cell (st_cell st) (\<lambda>c. c\<lparr> pc_nonce_cache := nc_insert (pc_nonce_cache c) (f_nonce challenge) \<rparr>) os)))"

definition receive_response ::
    "'p periph_ops \<Rightarrow> crypto \<Rightarrow> string \<Rightarrow> nat \<Rightarrow> peer_state \<Rightarrow> frame \<Rightarrow> 'p orch \<Rightarrow> challenge_outcome \<times> 'p orch" where
  "receive_response ops C peer_id deadline st challenge os =
     (case op_wait_for_response ops peer_id deadline (o_periph os) of
        (Inl err, p1) \<Rightarrow> (challenge_outcome_for_transport err, os\<lparr> o_periph := p1 \<rparr>)
      | (Inr response_bytes, p1) \<Rightarrow> judge_response C st challenge response_bytes (os\<lparr> o_periph := p1 \<rparr>))"

definition run_challenge ::
    "'p periph_ops \<Rightarrow> crypto \<Rightarrow> sys_env \<Rightarrow> string \<Rightarrow> bytes \<Rightarrow> nat \<Rightarrow> peer_state \<Rightarrow> nat \<Rightarrow> int \<Rightarrow> 'p orch \<Rightarrow>
     challenge_outcome \<times> 'p orch" where
  "run_challenge ops C e peer_id nonce deadline st t_start t_end os =
     (let finish = (\<lambda>(outcome, os').
        (outcome, audit_at e peer_id (hex_lowercase nonce) t_start (epoch_millis t_end) (reason_str outcome) os')) in
      case send_challenge ops C peer_id nonce st os of
        (Inl outcome, os1) \<Rightarrow> finish (outcome, os1)
      | (Inr challenge, os1) \<Rightarrow> finish (receive_response ops C peer_id deadline st challenge os1))"

text \<open>
  What the caller of a transaction sees of time: the instants at which it
  starts, gets the slot and ends, how long a taken slot stays taken, and what
  the random generator returns.
\<close>

record call_env =
  ce_start :: int
  ce_slot :: int
  ce_end :: int
  ce_slot_wait :: "nat option"
  ce_rng :: "string + bytes"

text \<open>A free slot is taken at once; a taken one is waited for at most the queue deadline.\<close>

definition acquire_challenge_slot :: "call_env \<Rightarrow> nat \<Rightarrow> bool" where
  "acquire_challenge_slot ce permits =
     (permits > 0 \<or> (case ce_slot_wait ce of None \<Rightarrow> False | Some t \<Rightarrow> t \<le> BUSY_QUEUE_DEADLINE))"

definition stamp_liveness :: "int \<Rightarrow> peer_liveness \<Rightarrow> peer_liveness" where
  "stamp_liveness now pl = pl\<lparr> pl_last_challenge_at := Some now, pl_last_connect_at := Some now \<rparr>"

text \<open>Taking the permit and stamping; dropping the permit.  A permit waited for was returned before it is taken.\<close>

definition enter_slot :: "nat \<Rightarrow> int \<Rightarrow> 'p orch \<Rightarrow> 'p orch" where
  "enter_slot c now os = upd_cell c (\<lambda>pc. pc\<lparr> pc_challenge_slot := pc_challenge_slot pc - 1, pc_liveness := stamp_liveness now (pc_liveness pc) \<rparr>) os"

definition leave_slot :: "nat \<Rightarrow> 'p orch \<Rightarrow> 'p orch" where
  "leave_slot c os = upd_cell c (\<lambda>pc. pc\<lparr> pc_challenge_slot := pc_challenge_slot pc + 1 \<rparr>) os"

definition issue_challenge_with_nonce ::
    "'p periph_ops \<Rightarrow> crypto \<Rightarrow> sys_env \<Rightarrow> call_env \<Rightarrow> string \<Rightarrow> bytes \<Rightarrow> nat \<Rightarrow> 'p orch \<Rightarrow> challenge_outcome \<times> 'p orch" where
  "issue_challenge_with_nonce ops C e ce peer_id nonce deadline os =
     (let t_start = epoch_millis (ce_start ce) in
      case lookup_peer os peer_id of
        None \<Rightarrow> (Co_UnknownPeer, audit_outcome e peer_id ZERO_NONCE_HEX t_start OUTCOME_REASON_UNKNOWN_PEER os)
      | Some st \<Rightarrow>
          if \<not> acquire_challenge_slot ce (pc_challenge_slot (o_cells os ! st_cell st))
          then (Co_Busy, audit_at e peer_id ZERO_NONCE_HEX t_start (epoch_millis (ce_end ce)) OUTCOME_REASON_BUSY os)
          else (case run_challenge ops C e peer_id nonce deadline st t_start (ce_end ce) (enter_slot (st_cell st) (ce_slot ce) os) of
                  (outcome, os1) \<Rightarrow> (outcome, leave_slot (st_cell st) os1)))"

definition issue_challenge ::
    "'p periph_ops \<Rightarrow> crypto \<Rightarrow> sys_env \<Rightarrow> call_env \<Rightarrow> string \<Rightarrow> nat \<Rightarrow> 'p orch \<Rightarrow> challenge_outcome \<times> 'p orch" where
  "issue_challenge ops C e ce peer_id deadline os =
     (let t_start = epoch_millis (ce_start ce) in
      case lookup_peer os peer_id of
        None \<Rightarrow> (Co_UnknownPeer, audit_outcome e peer_id ZERO_NONCE_HEX t_start OUTCOME_REASON_UNKNOWN_PEER os)
      | Some st \<Rightarrow>
          if \<not> acquire_challenge_slot ce (pc_challenge_slot (o_cells os ! st_cell st))
          then (Co_Busy, audit_at e peer_id ZERO_NONCE_HEX t_start (epoch_millis (ce_end ce)) OUTCOME_REASON_BUSY os)
          else (let os1 = enter_slot (st_cell st) (ce_slot ce) os in
            case ce_rng ce of
              Inl err \<Rightarrow>
                (Co_TransportError (Pe_Backend (''nonce rng: '' @ err)),
                 leave_slot (st_cell st)
                   (audit_at e peer_id ZERO_NONCE_HEX t_start (epoch_millis (ce_end ce)) OUTCOME_REASON_TRANSPORT_ERROR os1))
            | Inr nonce \<Rightarrow>
                (case run_challenge ops C e peer_id nonce deadline st t_start (ce_end ce) os1 of
                   (outcome, os2) \<Rightarrow> (outcome, leave_slot (st_cell st) os2))))"

section \<open>Rotation\<close>

definition snapshot_peers :: "'p orch \<Rightarrow> (string \<times> bytes) list" where
  "snapshot_peers os = map (\<lambda>(i, pe). (i, pe_bond_key pe)) (o_peers os)"

definition build_uuid_union :: "crypto \<Rightarrow> (string \<times> bytes) list \<Rightarrow> 64 word \<Rightarrow> uuid set" where
  "build_uuid_union C snapshot minute =
     insert (session_uuid_for (cr_hkdf C) PAIR_MODE_ZERO_BOND_KEY minute)
       (set (map (\<lambda>(i, key). session_uuid_for (cr_hkdf C) key minute) snapshot))"

definition snapshot_key :: "(string \<times> bytes) list \<Rightarrow> string \<Rightarrow> bytes" where
  "snapshot_key snapshot peer_id =
     (case map_of snapshot peer_id of None \<Rightarrow> replicate BOND_KEY_BYTES 0 | Some key \<Rightarrow> key)"

text \<open>One rotation returns the identifiers of its log lines: peer, minute and short UUID.\<close>

definition rotate_once :: "'p periph_ops \<Rightarrow> crypto \<Rightarrow> int \<Rightarrow> 'p orch \<Rightarrow> (string \<times> 64 word \<times> string) list \<times> 'p orch" where
  "rotate_once ops C now os =
     (let minute = minute_index now; snapshot = snapshot_peers os in
      case op_set_session_uuids ops (build_uuid_union C snapshot minute) (o_periph os) of
        (Inr _, p1) \<Rightarrow>
          (map (\<lambda>(i, _). (i, minute, short_hex (session_uuid_for (cr_hkdf C) (snapshot_key snapshot i) minute))) snapshot,
           os\<lparr> o_periph := p1 \<rparr>)
      | (Inl _, p1) \<Rightarrow> ([], os\<lparr> o_periph := p1 \<rparr>))"

section \<open>Reload\<close>

datatype key_error = Key_Read io_error | Key_Length nat

definition load_bond_key :: "sys_env \<Rightarrow> fs \<Rightarrow> path \<Rightarrow> string \<Rightarrow> key_error + bytes" where
  "load_bond_key e s keys_dir peer_id =
     (case read_file e s (keys_dir @ [peer_id @ BOND_KEY_FILE_EXT]) of
        Inl err \<Rightarrow> Err (Key_Read err)
      | Inr bs \<Rightarrow> if length bs \<noteq> BOND_KEY_BYTES then Err (Key_Length (length bs)) else Ok bs)"

fun new_set_loop :: "sys_env \<Rightarrow> fs \<Rightarrow> path \<Rightarrow> bond list \<Rightarrow> bytes btree \<Rightarrow> bytes btree" where
  "new_set_loop e s keys_dir [] out = out"
| "new_set_loop e s keys_dir (b # bs) out =
     new_set_loop e s keys_dir bs
       (case load_bond_key e s keys_dir (b_peer_id b) of
          Inr key \<Rightarrow> bt_insert (b_peer_id b) key out
        | Inl _ \<Rightarrow> out)"

definition compute_new_set :: "sys_env \<Rightarrow> bond_store \<Rightarrow> 'p orch \<Rightarrow> bytes btree" where
  "compute_new_set e store os =
     new_set_loop e (o_fs os) (o_keys_dir os) (filter (\<lambda>b. \<not> is_revoked b) (bs_list store)) []"

text \<open>The order in which a hash set is walked is unknown: \<open>sh\<close> arranges the differences.\<close>

definition compute_diff :: "(string list \<Rightarrow> string list) \<Rightarrow> bytes btree \<Rightarrow> 'p orch \<Rightarrow> string list \<times> string list" where
  "compute_diff sh new_set os =
     (let current = bt_keys (o_peers os); new_keys = bt_keys new_set in
      (sh (filter (\<lambda>i. i \<notin> set current) new_keys), sh (filter (\<lambda>i. i \<notin> set new_keys) current)))"

definition do_remove_peer :: "'p periph_ops \<Rightarrow> string \<Rightarrow> 'p orch \<Rightarrow> 'p orch" where
  "do_remove_peer ops i os =
     (case op_remove_peer ops i (o_periph os) of
        (Inr _, p1) \<Rightarrow> os\<lparr> o_periph := p1, o_peers := bt_remove i (o_peers os) \<rparr>
      | (Inl _, p1) \<Rightarrow> os\<lparr> o_periph := p1 \<rparr>)"

definition do_add_peer :: "'p periph_ops \<Rightarrow> bond_store \<Rightarrow> string \<Rightarrow> bytes \<Rightarrow> 'p orch \<Rightarrow> 'p orch" where
  "do_add_peer ops store i key os =
     (case find (\<lambda>b. b_peer_id b = i) (bs_list store) of
        None \<Rightarrow> os
      | Some b \<Rightarrow>
          (case op_add_peer ops i key (o_periph os) of
             (Inr _, p1) \<Rightarrow> insert_peer_entry i key (Some (b_pubkey b)) (os\<lparr> o_periph := p1 \<rparr>)
           | (Inl _, p1) \<Rightarrow> os\<lparr> o_periph := p1 \<rparr>))"

definition reload_bonds_with_trigger ::
    "'p periph_ops \<Rightarrow> crypto \<Rightarrow> sys_env \<Rightarrow> (string list \<Rightarrow> string list) \<Rightarrow> int \<Rightarrow> bond_store \<Rightarrow> reload_trigger \<Rightarrow> 'p orch \<Rightarrow> 'p orch" where
  "reload_bonds_with_trigger ops C e sh now store trigger os =
     (let new_set = compute_new_set e store os; (to_add, to_remove) = compute_diff sh new_set os;
          os1 = foldl (\<lambda>os i. do_remove_peer ops i os) os to_remove;
          os2 = foldl (\<lambda>os i. case bt_get new_set i of None \<Rightarrow> os | Some key \<Rightarrow> do_add_peer ops store i key os) os1 to_add in
      snd (rotate_once ops C now os2))"

definition reload_bonds ::
    "'p periph_ops \<Rightarrow> crypto \<Rightarrow> sys_env \<Rightarrow> (string list \<Rightarrow> string list) \<Rightarrow> int \<Rightarrow> bond_store \<Rightarrow> 'p orch \<Rightarrow> 'p orch" where
  "reload_bonds ops C e sh now store os = reload_bonds_with_trigger ops C e sh now store Rt_Test os"

definition run_reload ::
    "'p periph_ops \<Rightarrow> crypto \<Rightarrow> toml_lib \<Rightarrow> sys_env \<Rightarrow> (string list \<Rightarrow> string list) \<Rightarrow> int \<Rightarrow> reload_trigger \<Rightarrow> 'p orch \<Rightarrow> 'p orch" where
  "run_reload ops C L e sh now trigger os =
     (case bs_load L (cr_blake3 C) e (o_fs os) (o_bonds_file os) of
        Inl _ \<Rightarrow> os
      | Inr store \<Rightarrow> reload_bonds_with_trigger ops C e sh now store trigger os)"

section \<open>The loop\<close>

text \<open>A reload that panics takes the task of the loop with it.\<close>

datatype orch_event = Ev_Shutdown | Ev_Tick int | Ev_Reload reload_trigger int

fun run_loop ::
    "'p periph_ops \<Rightarrow> crypto \<Rightarrow> toml_lib \<Rightarrow> sys_env \<Rightarrow> (string list \<Rightarrow> string list) \<Rightarrow> orch_event list \<Rightarrow> 'p orch \<Rightarrow> 'p orch" where
  "run_loop ops C L e sh [] os = os"
| "run_loop ops C L e sh (Ev_Shutdown # evs) os = os"
| "run_loop ops C L e sh (Ev_Tick now # evs) os = run_loop ops C L e sh evs (snd (rotate_once ops C now os))"
| "run_loop ops C L e sh (Ev_Reload t now # evs) os =
     (if bs_load L (cr_blake3 C) e (o_fs os) (o_bonds_file os) = Err Bond_Panicked then os
      else run_loop ops C L e sh evs (run_reload ops C L e sh now t os))"

definition orch_run ::
    "'p periph_ops \<Rightarrow> crypto \<Rightarrow> toml_lib \<Rightarrow> sys_env \<Rightarrow> (string list \<Rightarrow> string list) \<Rightarrow> int \<Rightarrow> orch_event list \<Rightarrow> 'p orch \<Rightarrow> 'p orch" where
  "orch_run ops C L e sh now evs os =
     (if o_rx_taken os then os
      else run_loop ops C L e sh evs (snd (rotate_once ops C now (os\<lparr> o_rx_taken := True \<rparr>))))"

section \<open>Status\<close>

definition challenge_slot_in_flight :: "nat \<Rightarrow> nat" where
  "challenge_slot_in_flight permits = (if permits = 0 then 1 else 0)"

definition peers_snapshot :: "crypto \<Rightarrow> int \<Rightarrow> 'p orch \<Rightarrow> peer_status list" where
  "peers_snapshot C now os =
     map (\<lambda>(i, pe). let pc = o_cells os ! pe_cell pe in
       \<lparr> ps_peer_id = i,
         ps_last_challenge_ms_ago = ms_since now (pl_last_challenge_at (pc_liveness pc)),
         ps_last_connect_ms_ago = ms_since now (pl_last_connect_at (pc_liveness pc)),
         ps_current_session_uuid = session_uuid_for (cr_hkdf C) (pe_bond_key pe) (minute_index now),
         ps_in_flight_challenges = challenge_slot_in_flight (pc_challenge_slot pc) \<rparr>) (o_peers os)"


section \<open>Lemmas of the transaction\<close>

text \<open>The challenge that goes out: version 1, the nonce, no payload, the tag under the bond key.\<close>

definition challenge_of :: "crypto \<Rightarrow> bytes \<Rightarrow> bytes \<Rightarrow> frame" where
  "challenge_of C bond_key nonce =
     \<lparr> f_version = 1, f_nonce = nonce, f_payload = [], f_tag = compute_tag (cr_keyed_hash C) bond_key (1 # nonce) \<rparr>"

lemma send_challenge_eq:
  "send_challenge ops C i nonce st os =
     (case op_notify_challenge ops i (1 # nonce @ f_tag (challenge_of C (st_bond_key st) nonce)) (o_periph os) of
        (Inl err, p1) \<Rightarrow> (Err (challenge_outcome_for_transport err), os\<lparr> o_periph := p1 \<rparr>)
      | (Inr _, p1) \<Rightarrow> (Ok (challenge_of C (st_bond_key st) nonce), os\<lparr> o_periph := p1 \<rparr>))"
  by (simp add: send_challenge_def body_bytes_def frame_encode_def challenge_of_def const_defs Let_def
      split: sum.splits prod.splits)

lemma verify_challenge:
  "verify_frame v pk (challenge_of C key nonce) sig = (if v pk (1 # nonce) sig then Ok () else Err Signature)"
  by (simp add: verify_frame_def body_bytes_def challenge_of_def const_defs)

lemma transport_outcome_not_ok [simp]:
  "challenge_outcome_for_transport err \<noteq> Co_Ok sig" "challenge_outcome_for_transport err \<noteq> Co_Replay"
  by (cases err; simp)+

definition accepts :: "crypto \<Rightarrow> peer_state \<Rightarrow> bytes \<Rightarrow> bytes \<Rightarrow> bool" where
  "accepts C st nonce sig \<longleftrightarrow>
     length sig = SIGNATURE_LEN \<and> cr_sig_ok C sig \<and> cr_key_ok C (st_phone_pubkey st) \<and>
     cr_verify C (st_phone_pubkey st) (1 # nonce) sig"

definition cell_nonces :: "'p orch \<Rightarrow> nat \<Rightarrow> bytes list" where
  "cell_nonces os c = nc_nonces (pc_nonce_cache (o_cells os ! c))"

definition remember :: "nat \<Rightarrow> bytes \<Rightarrow> 'p orch \<Rightarrow> 'p orch" where
  "remember c nonce = upd_cell c (\<lambda>pc. pc\<lparr> pc_nonce_cache := nc_insert (pc_nonce_cache pc) nonce \<rparr>)"

lemma judge_response_eq:
  "judge_response C st (challenge_of C key nonce) bs os =
     (if \<not> accepts C st nonce bs then (Co_BadSignature, os)
      else if nonce \<in> set (cell_nonces os (st_cell st)) then (Co_Replay, os)
      else (Co_Ok bs, remember (st_cell st) nonce os))"
proof -
  have "f_nonce (challenge_of C key nonce) = nonce" by (simp add: challenge_of_def)
  then show ?thesis
    unfolding judge_response_def parse_signature_def verify_challenge accepts_def cell_nonces_def remember_def
    by auto
qed

section \<open>The invariant\<close>

text \<open>
  Every entry points to a cell of its own, every cell has at most one permit
  and a well-formed nonce cache, and the map is sorted.
\<close>

definition cells_ok :: "peer_cell list \<Rightarrow> bool" where
  "cells_ok cs \<longleftrightarrow> (\<forall>c \<in> set cs. pc_challenge_slot c \<le> 1 \<and> nc_invar (pc_nonce_cache c))"

definition entries_ok :: "peer_entry btree \<Rightarrow> nat \<Rightarrow> bool" where
  "entries_ok m n \<longleftrightarrow>
     (\<forall>i pe. bt_get m i = Some pe \<longrightarrow> pe_cell pe < n) \<and>
     (\<forall>i j pe pf. bt_get m i = Some pe \<longrightarrow> bt_get m j = Some pf \<longrightarrow> pe_cell pe = pe_cell pf \<longrightarrow> i = j)"

definition orch_invar :: "'p orch \<Rightarrow> bool" where
  "orch_invar os \<longleftrightarrow> bt_invar (o_peers os) \<and> cells_ok (o_cells os) \<and> entries_ok (o_peers os) (length (o_cells os))"

lemma upd_cell_simps [simp]:
  "o_peers (upd_cell c f os) = o_peers os" "o_periph (upd_cell c f os) = o_periph os"
  "o_audit (upd_cell c f os) = o_audit os" "o_fs (upd_cell c f os) = o_fs os"
  "length (o_cells (upd_cell c f os)) = length (o_cells os)"
  "o_keys_dir (upd_cell c f os) = o_keys_dir os" "o_bonds_file (upd_cell c f os) = o_bonds_file os"
  by (simp_all add: upd_cell_def)

lemma nth_list_update': "xs[c := x] ! d = (if d = c \<and> c < length xs then x else xs ! d)"
  by (cases "c < length xs") (auto simp: nth_list_update list_update_beyond)

lemma upd_cell_nth:
  "d < length (o_cells os) \<Longrightarrow>
     o_cells (upd_cell c f os) ! d = (if d = c then f (o_cells os ! c) else o_cells os ! d)"
  by (simp add: upd_cell_def nth_list_update)

lemma audit_at_simps [simp]:
  "o_peers (audit_at e i n a b r os) = o_peers os" "o_periph (audit_at e i n a b r os) = o_periph os"
  "o_cells (audit_at e i n a b r os) = o_cells os" "o_keys_dir (audit_at e i n a b r os) = o_keys_dir os"
  "o_bonds_file (audit_at e i n a b r os) = o_bonds_file os"
  by (simp_all add: audit_at_def split: option.splits prod.splits)

lemma orch_invar_cong:
  "o_peers os' = o_peers os \<Longrightarrow> o_cells os' = o_cells os \<Longrightarrow> orch_invar os' = orch_invar os"
  by (simp add: orch_invar_def)

lemma orch_invar_upd_cell:
  assumes "orch_invar os" "\<And>pc. pc_challenge_slot pc \<le> 1 \<and> nc_invar (pc_nonce_cache pc) \<Longrightarrow>
     pc \<in> set (o_cells os) \<Longrightarrow> pc = o_cells os ! c \<Longrightarrow> pc_challenge_slot (f pc) \<le> 1 \<and> nc_invar (pc_nonce_cache (f pc))"
  shows "orch_invar (upd_cell c f os)"
proof (cases "c < length (o_cells os)")
  case True
  then have "set (o_cells (upd_cell c f os)) \<subseteq> insert (f (o_cells os ! c)) (set (o_cells os))"
    by (simp add: upd_cell_def set_update_subset_insert)
  with assms True show ?thesis
    by (fastforce simp: orch_invar_def cells_ok_def dest: nth_mem)
next
  case False
  then have "upd_cell c f os = os" by (simp add: upd_cell_def list_update_beyond)
  with assms(1) show ?thesis by simp
qed

lemma orch_invar_enter [simp]: "orch_invar os \<Longrightarrow> orch_invar (enter_slot c now os)"
  unfolding enter_slot_def by (rule orch_invar_upd_cell) auto

lemma orch_invar_leave:
  "orch_invar os \<Longrightarrow> pc_challenge_slot (o_cells os ! c) = 0 \<Longrightarrow> orch_invar (leave_slot c os)"
  unfolding leave_slot_def by (rule orch_invar_upd_cell) auto

lemma orch_invar_remember:
  "orch_invar os \<Longrightarrow> n \<notin> set (cell_nonces os c) \<Longrightarrow> orch_invar (remember c n os)"
  unfolding remember_def by (rule orch_invar_upd_cell) (auto simp: cell_nonces_def intro: nc_invar_insert)

lemma orch_invar_insert_peer:
  assumes "orch_invar os"
  shows "orch_invar (insert_peer_entry i k pk os)"
proof -
  have "pe_cell pe \<noteq> length (o_cells os)" if "bt_get (o_peers os) j = Some pe" for j pe
    using assms that by (fastforce simp: orch_invar_def entries_ok_def)
  then show ?thesis using assms
    by (auto simp: orch_invar_def insert_peer_entry_def bt_invar_insert bt_get_insert entries_ok_def cells_ok_def
        peer_cell_new_def less_Suc_eq split: if_splits) metis+
qed


section \<open>What a transaction does\<close>

lemma audit_at_upd_cell: "audit_at e i n a b r (upd_cell c f os) = upd_cell c f (audit_at e i n a b r os)"
  by (simp add: audit_at_def upd_cell_def split: option.splits prod.splits)

text \<open>A transaction changes the nonces of one cell only, and only when it succeeds.\<close>

definition tx_effect :: "nat \<Rightarrow> (challenge_outcome \<times> bytes) \<Rightarrow> 'p orch \<Rightarrow> 'p orch \<Rightarrow> bool" where
  "tx_effect c on os os' \<longleftrightarrow>
     o_peers os' = o_peers os \<and> o_audit os' = o_audit os \<and> o_fs os' = o_fs os \<and>
     length (o_cells os') = length (o_cells os) \<and>
     (\<forall>d < length (o_cells os). pc_nonce_cache (o_cells os' ! d) =
        (if d = c \<and> signature_bytes (fst on) \<noteq> None then nc_insert (pc_nonce_cache (o_cells os ! d)) (snd on)
         else pc_nonce_cache (o_cells os ! d))) \<and>
     (signature_bytes (fst on) \<noteq> None \<longrightarrow> snd on \<notin> set (cell_nonces os c)) \<and>
     (orch_invar os \<longrightarrow> orch_invar os')"

lemma receive_response_effect:
  assumes "receive_response ops C i d st (challenge_of C key nonce) os = (out, os')"
  shows "tx_effect (st_cell st) (out, nonce) os os'"
proof (cases "op_wait_for_response ops i d (o_periph os)")
  case (Pair r p1)
  let ?os1 = "os\<lparr> o_periph := p1 \<rparr>"
  have inv: "orch_invar ?os1 = orch_invar os" by (rule orch_invar_cong) simp_all
  have none: "signature_bytes (challenge_outcome_for_transport err) = None" for err
    by (cases err) simp_all
  have rem: "orch_invar os \<Longrightarrow> nonce \<notin> set (cell_nonces ?os1 c) \<Longrightarrow> orch_invar (remember c nonce ?os1)" for c
    using orch_invar_remember [of ?os1 nonce c] inv by simp
  have cell: "cell_nonces ?os1 c = cell_nonces os c" for c by (simp add: cell_nonces_def)
  show ?thesis
  proof (cases r)
    case (Inl err)
    with assms Pair have "out = challenge_outcome_for_transport err" "os' = ?os1"
      by (auto simp: receive_response_def)
    with inv none show ?thesis by (simp add: tx_effect_def)
  next
    case (Inr bs)
    then have "judge_response C st (challenge_of C key nonce) bs ?os1 = (out, os')"
      using assms Pair by (simp add: receive_response_def)
    with inv rem show ?thesis
      by (auto simp: judge_response_eq tx_effect_def remember_def upd_cell_nth cell split: if_splits)
  qed
qed

lemma tx_effect_id:
  "signature_bytes out = None \<Longrightarrow> o_peers os' = o_peers os \<Longrightarrow> o_audit os' = o_audit os \<Longrightarrow> o_fs os' = o_fs os \<Longrightarrow>
   o_cells os' = o_cells os \<Longrightarrow> tx_effect c (out, n) os os'"
  using orch_invar_cong [of os' os] by (simp add: tx_effect_def)

lemma tx_effect_slot:
  assumes "tx_effect c on os1 os2" "length (o_cells os1) = length (o_cells os)"
    "o_peers os1 = o_peers os" "o_audit os1 = o_audit os" "o_fs os1 = o_fs os"
    "\<forall>d < length (o_cells os). pc_nonce_cache (o_cells os1 ! d) = pc_nonce_cache (o_cells os ! d)"
    "c < length (o_cells os)" "orch_invar os \<Longrightarrow> orch_invar os1"
  shows "tx_effect c on os os2"
  using assms by (auto simp: tx_effect_def cell_nonces_def)

lemma run_challenge_effect:
  assumes "run_challenge ops C e i nonce d st a b os = (out, os')"
  shows "\<exists>os1. os' = audit_at e i (hex_lowercase nonce) a (epoch_millis b) (reason_str out) os1 \<and>
           tx_effect (st_cell st) (out, nonce) os os1"
proof (cases "op_notify_challenge ops i (1 # nonce @ f_tag (challenge_of C (st_bond_key st) nonce)) (o_periph os)")
  case (Pair r p1)
  let ?os1 = "os\<lparr> o_periph := p1 \<rparr>"
  show ?thesis
  proof (cases r)
    case (Inl err)
    have "signature_bytes (challenge_outcome_for_transport err) = None" by (cases err) simp_all
    with assms Pair Inl show ?thesis
      by (auto simp: run_challenge_def send_challenge_eq intro!: exI [of _ ?os1] tx_effect_id)
  next
    case (Inr u)
    obtain os2 where os2: "receive_response ops C i d st (challenge_of C (st_bond_key st) nonce) ?os1 = (out, os2)"
        "os' = audit_at e i (hex_lowercase nonce) a (epoch_millis b) (reason_str out) os2"
      using assms Pair Inr by (auto simp: run_challenge_def send_challenge_eq split: prod.splits)
    have "tx_effect (st_cell st) (out, nonce) os os2"
      using receive_response_effect [OF os2(1)] orch_invar_cong [of ?os1 os]
      by (auto simp: tx_effect_def cell_nonces_def)
    with os2 show ?thesis by blast
  qed
qed

lemma run_challenge_ok:
  "fst (run_challenge ops C e i nonce d st a b os) = Co_Ok sig \<longleftrightarrow>
     (\<exists>p1 p2. op_notify_challenge ops i (1 # nonce @ f_tag (challenge_of C (st_bond_key st) nonce)) (o_periph os) = (Ok (), p1) \<and>
        op_wait_for_response ops i d p1 = (Ok sig, p2) \<and> accepts C st nonce sig \<and>
        nonce \<notin> set (cell_nonces os (st_cell st)))"
  by (auto simp: run_challenge_def send_challenge_eq receive_response_def judge_response_eq cell_nonces_def
      split: prod.splits sum.splits if_splits)

lemma enter_leave_simps [simp]:
  "o_peers (enter_slot c t os) = o_peers os" "o_audit (enter_slot c t os) = o_audit os" "o_fs (enter_slot c t os) = o_fs os"
  "o_periph (enter_slot c t os) = o_periph os" "length (o_cells (enter_slot c t os)) = length (o_cells os)"
  "pc_nonce_cache (o_cells (enter_slot c t os) ! d) = pc_nonce_cache (o_cells os ! d)"
  "o_peers (leave_slot c os) = o_peers os" "o_audit (leave_slot c os) = o_audit os" "o_fs (leave_slot c os) = o_fs os"
  "o_periph (leave_slot c os) = o_periph os" "length (o_cells (leave_slot c os)) = length (o_cells os)"
  "pc_nonce_cache (o_cells (leave_slot c os) ! d) = pc_nonce_cache (o_cells os ! d)"
  by (auto simp: enter_slot_def leave_slot_def upd_cell_def nth_list_update')

lemma leave_audit: "leave_slot c (audit_at e i n a b r os) = audit_at e i n a b r (leave_slot c os)"
  by (simp add: leave_slot_def audit_at_upd_cell)

lemma send_challenge_state: "\<exists>p. snd (send_challenge ops C i nonce st os) = os\<lparr> o_periph := p \<rparr>"
  by (auto simp: send_challenge_eq split: prod.splits sum.splits)

lemma receive_response_slot:
  "pc_challenge_slot (o_cells (snd (receive_response ops C i d st ch os)) ! c) = pc_challenge_slot (o_cells os ! c)"
  by (auto simp: receive_response_def judge_response_def upd_cell_def nth_list_update' Let_def
      split: prod.splits sum.splits option.splits)

lemma run_challenge_slot:
  "pc_challenge_slot (o_cells (snd (run_challenge ops C e i nonce d st a b os)) ! c) = pc_challenge_slot (o_cells os ! c)"
proof -
  obtain r os1 where r: "send_challenge ops C i nonce st os = (r, os1)" by fastforce
  then have "o_cells os1 = o_cells os" using send_challenge_state [of ops C i nonce st os] by auto
  then show ?thesis
    using r receive_response_slot [of ops C i d st _ os1 c]
    by (cases r) (auto simp: run_challenge_def Let_def split_def)
qed

lemma enter_slot_taken:
  "orch_invar os \<Longrightarrow> c < length (o_cells os) \<Longrightarrow> pc_challenge_slot (o_cells (enter_slot c t os) ! c) = 0"
  by (auto simp: enter_slot_def upd_cell_nth orch_invar_def cells_ok_def)

lemma tx_effect_enter_leave:
  assumes "tx_effect c on (enter_slot c t os) os1" "c < length (o_cells os)" "orch_invar os"
    "pc_challenge_slot (o_cells os1 ! c) = pc_challenge_slot (o_cells (enter_slot c t os) ! c)"
  shows "tx_effect c on os (leave_slot c os1)"
  using assms enter_slot_taken [OF assms(3,2)] orch_invar_leave [of os1 c] by (auto simp: tx_effect_def cell_nonces_def)

lemma lookup_peer_cell:
  "orch_invar os \<Longrightarrow> lookup_peer os i = Some st \<Longrightarrow> st_cell st < length (o_cells os)"
  by (auto simp: lookup_peer_def orch_invar_def entries_ok_def split: option.splits)

lemma issue_challenge_run:
  assumes "lookup_peer os i = Some st" "acquire_challenge_slot ce (pc_challenge_slot (o_cells os ! st_cell st))" "ce_rng ce = Ok n"
  shows "issue_challenge ops C e ce i d os =
           (case run_challenge ops C e i n d st (epoch_millis (ce_start ce)) (ce_end ce) (enter_slot (st_cell st) (ce_slot ce) os) of
              (outcome, os1) \<Rightarrow> (outcome, leave_slot (st_cell st) os1))"
  using assms by (simp add: issue_challenge_def Let_def)

definition tx_done :: "sys_env \<Rightarrow> string \<Rightarrow> nat \<Rightarrow> nat \<Rightarrow> challenge_outcome \<times> bytes \<Rightarrow> 'p orch \<Rightarrow> 'p orch \<Rightarrow> bool" where
  "tx_done e i t0 c on os os' \<longleftrightarrow>
     (\<exists>nh b os1. os' = audit_at e i nh t0 b (reason_str (fst on)) os1 \<and> tx_effect c on os os1)"

lemma tx_doneI:
  "os' = audit_at e i nh t0 b (reason_str out) os1 \<Longrightarrow> tx_effect c (out, n) os os1 \<Longrightarrow> tx_done e i t0 c (out, n) os os'"
  by (auto simp: tx_done_def)

definition tx_cell :: "'p orch \<Rightarrow> string \<Rightarrow> nat" where
  "tx_cell os i = (case lookup_peer os i of None \<Rightarrow> length (o_cells os) | Some st \<Rightarrow> st_cell st)"

definition tx_nonce :: "call_env \<Rightarrow> bytes" where
  "tx_nonce ce = (case ce_rng ce of Inl _ \<Rightarrow> [] | Inr n \<Rightarrow> n)"

lemma issue_challenge_effect:
  assumes "issue_challenge ops C e ce i d os = (out, os')" "orch_invar os"
  shows "tx_done e i (epoch_millis (ce_start ce)) (tx_cell os i) (out, tx_nonce ce) os os'"
proof (cases "lookup_peer os i")
  case None
  with assms(1) have "out = Co_UnknownPeer"
      "os' = audit_at e i ZERO_NONCE_HEX (epoch_millis (ce_start ce)) (epoch_millis (ce_start ce)) (reason_str out) os"
    by (auto simp: issue_challenge_def audit_outcome_def Let_def)
  then show ?thesis by (intro tx_doneI tx_effect_id) auto
next
  case (Some st)
  let ?c = "st_cell st" and ?a = "epoch_millis (ce_start ce)" and ?b = "epoch_millis (ce_end ce)"
  have cell: "tx_cell os i = ?c" by (simp add: tx_cell_def Some)
  note c = lookup_peer_cell [OF assms(2) Some]
  show ?thesis
  proof (cases "acquire_challenge_slot ce (pc_challenge_slot (o_cells os ! ?c))")
    case False
    with assms(1) Some have "out = Co_Busy" "os' = audit_at e i ZERO_NONCE_HEX ?a ?b (reason_str out) os"
      by (auto simp: issue_challenge_def Let_def)
    then show ?thesis by (intro tx_doneI tx_effect_id) auto
  next
    case acq: True
    show ?thesis
    proof (cases "ce_rng ce")
      case (Inl err)
      let ?os = "leave_slot ?c (enter_slot ?c (ce_slot ce) os)"
      from assms(1) Some acq Inl have out: "out = Co_TransportError (Pe_Backend (''nonce rng: '' @ err))"
          and os': "os' = audit_at e i ZERO_NONCE_HEX ?a ?b (reason_str out) ?os"
        by (auto simp: issue_challenge_def Let_def leave_audit)
      show ?thesis unfolding cell
        by (rule tx_doneI [OF os' tx_effect_enter_leave [OF tx_effect_id c assms(2)]]) (simp_all add: out)
    next
      case (Inr n)
      obtain os2 where run: "run_challenge ops C e i n d st ?a (ce_end ce) (enter_slot ?c (ce_slot ce) os) = (out, os2)"
          and os': "os' = leave_slot ?c os2"
        using assms(1) unfolding issue_challenge_run [OF Some acq Inr] by (auto split: prod.splits)
      obtain os1 where os1: "os2 = audit_at e i (hex_lowercase n) ?a ?b (reason_str out) os1"
          "tx_effect ?c (out, n) (enter_slot ?c (ce_slot ce) os) os1"
        using run_challenge_effect [OF run] by blast
      then have "os' = audit_at e i (hex_lowercase n) ?a ?b (reason_str out) (leave_slot ?c os1)"
        by (simp add: os' leave_audit)
      moreover have "pc_challenge_slot (o_cells os1 ! ?c) = pc_challenge_slot (o_cells (enter_slot ?c (ce_slot ce) os) ! ?c)"
        using run_challenge_slot [of ops C e i n d st ?a "ce_end ce" "enter_slot ?c (ce_slot ce) os" ?c] run os1(1) by simp
      ultimately show ?thesis using tx_effect_enter_leave [OF os1(2) c assms(2)]
        by (simp add: tx_doneI tx_nonce_def Inr cell)
    qed
  qed
qed


text \<open>A series of transactions, each with its own clock, random bytes and peer.\<close>

definition run_calls ::
    "'p periph_ops \<Rightarrow> crypto \<Rightarrow> sys_env \<Rightarrow> nat \<Rightarrow> (call_env \<times> string) list \<Rightarrow> 'p orch \<Rightarrow> 'p orch" where
  "run_calls ops C e d calls os = foldl (\<lambda>os (ce, i). snd (issue_challenge ops C e ce i d os)) os calls"

lemma tx_done_keeps:
  assumes "tx_done e i t0 c on os os'" "orch_invar os"
  shows "orch_invar os' \<and> o_peers os' = o_peers os \<and> length (o_cells os') = length (o_cells os)"
proof -
  obtain nh b os1 where os': "os' = audit_at e i nh t0 b (reason_str (fst on)) os1" and eff: "tx_effect c on os os1"
    using assms(1) by (auto simp: tx_done_def)
  then have "orch_invar os1 = orch_invar os'" by (intro orch_invar_cong) simp_all
  with os' eff assms(2) show ?thesis by (auto simp: tx_effect_def)
qed

lemma tx_done_cell:
  assumes "tx_done e i t0 c on os os'" "d < length (o_cells os)"
  shows "\<exists>ns. length ns \<le> 1 \<and>
    pc_nonce_cache (o_cells os' ! d) = foldl nc_insert (pc_nonce_cache (o_cells os ! d)) ns"
proof -
  obtain nh b os1 where "os' = audit_at e i nh t0 b (reason_str (fst on)) os1" "tx_effect c on os os1"
    using assms(1) by (auto simp: tx_done_def)
  with assms(2) show ?thesis
    by (auto simp: tx_effect_def intro: exI [of _ "[]"] exI [of _ "[snd on]"])
qed

lemma run_calls_cell:
  assumes "orch_invar os" "d < length (o_cells os)"
  shows "orch_invar (run_calls ops C e dl calls os) \<and> o_peers (run_calls ops C e dl calls os) = o_peers os \<and>
    length (o_cells (run_calls ops C e dl calls os)) = length (o_cells os) \<and>
    (\<exists>ns. length ns \<le> length calls \<and>
      pc_nonce_cache (o_cells (run_calls ops C e dl calls os) ! d) = foldl nc_insert (pc_nonce_cache (o_cells os ! d)) ns)"
  using assms
proof (induction calls arbitrary: os)
  case Nil
  then show ?case by (auto simp: run_calls_def intro: exI [of _ "[]"])
next
  case (Cons call calls)
  obtain ce i where call: "call = (ce, i)" by (cases call)
  obtain out os1 where iss: "issue_challenge ops C e ce i dl os = (out, os1)" by fastforce
  note td = issue_challenge_effect [OF iss Cons.prems(1)]
  have keep: "orch_invar os1" "o_peers os1 = o_peers os" "length (o_cells os1) = length (o_cells os)"
    using tx_done_keeps [OF td Cons.prems(1)] by auto
  obtain ns where ns: "length ns \<le> 1" "pc_nonce_cache (o_cells os1 ! d) = foldl nc_insert (pc_nonce_cache (o_cells os ! d)) ns"
    using tx_done_cell [OF td Cons.prems(2)] by blast
  have step: "run_calls ops C e dl (call # calls) os = run_calls ops C e dl calls os1"
    by (simp add: run_calls_def call iss)
  obtain ms where ms: "length ms \<le> length calls"
      "pc_nonce_cache (o_cells (run_calls ops C e dl calls os1) ! d) = foldl nc_insert (pc_nonce_cache (o_cells os1 ! d)) ms"
    using Cons.IH [OF keep(1)] keep(3) Cons.prems(2) by auto
  have "\<exists>ks. length ks \<le> length (call # calls) \<and>
      pc_nonce_cache (o_cells (run_calls ops C e dl calls os1) ! d) = foldl nc_insert (pc_nonce_cache (o_cells os ! d)) ks"
    using ns ms by (intro exI [of _ "ns @ ms"]) simp
  then show ?case using Cons.IH [OF keep(1)] keep Cons.prems(2) by (simp add: step)
qed

lemma lookup_peer_cong: "o_peers os' = o_peers os \<Longrightarrow> lookup_peer os' i = lookup_peer os i"
  by (simp add: lookup_peer_def)

lemma issue_challenge_ok:
  "fst (issue_challenge ops C e ce i d os) = Co_Ok sig \<longleftrightarrow>
     (\<exists>st nonce p1 p2. lookup_peer os i = Some st \<and> acquire_challenge_slot ce (pc_challenge_slot (o_cells os ! st_cell st)) \<and>
        ce_rng ce = Ok nonce \<and>
        op_notify_challenge ops i (1 # nonce @ f_tag (challenge_of C (st_bond_key st) nonce)) (o_periph os) = (Ok (), p1) \<and>
        op_wait_for_response ops i d p1 = (Ok sig, p2) \<and> accepts C st nonce sig \<and>
        nonce \<notin> set (cell_nonces os (st_cell st)))"
proof (cases "\<exists>st nonce. lookup_peer os i = Some st \<and>
    acquire_challenge_slot ce (pc_challenge_slot (o_cells os ! st_cell st)) \<and> ce_rng ce = Ok nonce")
  case True
  then obtain st nonce where st: "lookup_peer os i = Some st"
      "acquire_challenge_slot ce (pc_challenge_slot (o_cells os ! st_cell st))" "ce_rng ce = Ok nonce" by blast
  have "fst (issue_challenge ops C e ce i d os) =
      fst (run_challenge ops C e i nonce d st (epoch_millis (ce_start ce)) (ce_end ce) (enter_slot (st_cell st) (ce_slot ce) os))"
    unfolding issue_challenge_run [OF st] by (simp split: prod.splits)
  then show ?thesis using st run_challenge_ok [of ops C e i nonce d st _ _ "enter_slot (st_cell st) (ce_slot ce) os" sig]
    by (auto simp: cell_nonces_def)
next
  case False
  then show ?thesis by (auto simp: issue_challenge_def Let_def split: option.splits sum.splits if_splits)
qed

section \<open>Properties of the transaction\<close>

text \<open>
  C2: the daemon reports a challenge as passed exactly when the named peer is
  live with a phone key, the caller got the peer's slot, the challenge frame
  (version 1, the fresh nonce, its tag under the bond key) was sent, the phone's
  answer arrived within the deadline, is 64 bytes long, parses, verifies
  strictly under the phone's key over the version byte and the nonce, and the
  nonce is not among the remembered ones.
\<close>

theorem challenge_ok_exactly:
  "fst (issue_challenge ops C e ce i d os) = Co_Ok sig \<longleftrightarrow>
     (\<exists>pe pk nonce p1 p2.
        bt_get (o_peers os) i = Some pe \<and> pe_phone_pubkey pe = Some pk \<and>
        acquire_challenge_slot ce (pc_challenge_slot (o_cells os ! pe_cell pe)) \<and> ce_rng ce = Ok nonce \<and>
        op_notify_challenge ops i ([1] @ nonce @ compute_tag (cr_keyed_hash C) (pe_bond_key pe) ([1] @ nonce)) (o_periph os) = (Ok (), p1) \<and>
        op_wait_for_response ops i d p1 = (Ok sig, p2) \<and>
        length sig = 64 \<and> cr_sig_ok C sig \<and> cr_key_ok C pk \<and> cr_verify C pk ([1] @ nonce) sig \<and>
        \<not> nc_contains (pc_nonce_cache (o_cells os ! pe_cell pe)) nonce)"
  unfolding issue_challenge_ok
  by (auto simp: lookup_peer_def challenge_of_def accepts_def cell_nonces_def SIGNATURE_LEN_def split: option.splits)

text \<open>
  C3: a nonce is good for one success.  After a challenge of a peer succeeded
  with some nonce, and after fewer than 64 further transactions of any peers
  with any outcomes, a transaction of the same peer that draws the same nonce
  again does not succeed, whatever the phone answers.
\<close>

theorem challenge_nonce_single_use:
  assumes "orch_invar os"
    and "issue_challenge ops C e ce i d os = (Co_Ok sig, os1)" "ce_rng ce = Ok nonce"
    and "length calls < 64" "os2 = run_calls ops C e d calls os1" "ce_rng ce' = Ok nonce"
  shows "fst (issue_challenge ops C e ce' i d os2) \<noteq> Co_Ok sig'"
proof
  assume ok: "fst (issue_challenge ops C e ce' i d os2) = Co_Ok sig'"
  obtain st where st: "lookup_peer os i = Some st"
    using assms(2) issue_challenge_ok [of ops C e ce i d os sig] by auto
  let ?c = "st_cell st"
  note td = issue_challenge_effect [OF assms(2,1)]
  have keep: "orch_invar os1" "o_peers os1 = o_peers os" "length (o_cells os1) = length (o_cells os)"
    using tx_done_keeps [OF td assms(1)] by auto
  have c: "?c < length (o_cells os)" by (rule lookup_peer_cell [OF assms(1) st])
  have ins: "pc_nonce_cache (o_cells os1 ! ?c) = nc_insert (pc_nonce_cache (o_cells os ! ?c)) nonce"
    using td c st assms(3) by (auto simp: tx_done_def tx_effect_def tx_cell_def tx_nonce_def)
  obtain ns where ns: "length ns \<le> length calls" "o_peers os2 = o_peers os1"
      "pc_nonce_cache (o_cells os2 ! ?c) = foldl nc_insert (pc_nonce_cache (o_cells os1 ! ?c)) ns"
    using run_calls_cell [OF keep(1), of ?c ops C e d calls] c keep(3) assms(5) by auto
  have "length (nc_nonces (pc_nonce_cache (o_cells os ! ?c))) \<le> NONCE_LRU_CAP"
    using assms(1) c by (auto simp: orch_invar_def cells_ok_def nc_invar_def)
  then have "nonce \<in> set (nc_nonces (pc_nonce_cache (o_cells os2 ! ?c)))"
    using daemon_window.window_remembers [of _ ns nonce] ns assms(4) by (simp add: ins NONCE_LRU_CAP_def)
  moreover have "lookup_peer os2 i = Some st"
    using st keep(2) ns(2) lookup_peer_cong [of os2 os i] by simp
  ultimately show False
    using ok assms(6) by (auto simp: issue_challenge_ok cell_nonces_def)
qed

text \<open>
  C19: every transaction, whatever its outcome, appends one line to the attached
  audit log; the line has the peer's identifier, the time at which the
  transaction began, and the outcome's reason as its last two columns.
\<close>

theorem challenge_audited:
  assumes "orch_invar os" "issue_challenge ops C e ce i d os = (out, os')"
    and "o_audit os = Some log" "fs_nodes (o_fs os) (al_path log) = Some (FileNode old m)"
    and "sys_fail e (OpWrite (al_path log)) = None"
  shows "\<exists>r. fs_nodes (o_fs os') (al_path log) = Some (FileNode (old @ str_bytes (format_record r)) m) \<and>
           ar_peer_id r = i \<and> ar_t_start_ms r = epoch_millis (ce_start ce) \<and>
           ar_outcome r = reason_str out \<and> ar_reason r = reason_str out"
proof -
  obtain nh b os1 where os': "os' = audit_at e i nh (epoch_millis (ce_start ce)) b (reason_str out) os1"
      and eff: "o_audit os1 = o_audit os" "o_fs os1 = o_fs os"
    using issue_challenge_effect [OF assms(2,1)] by (auto simp: tx_done_def tx_effect_def)
  let ?r = "\<lparr> ar_peer_id = i, ar_nonce_hex = nh, ar_t_start_ms = epoch_millis (ce_start ce), ar_t_end_ms = b,
    ar_outcome = reason_str out, ar_reason = reason_str out \<rparr>"
  obtain x log1 s1 where app: "audit_append e log ?r (o_fs os) = (x, log1, s1)" by (cases "audit_append e log ?r (o_fs os)")
  then have "o_fs os' = s1" using os' eff assms(3) by (simp add: audit_at_def)
  with audit_append_file(2) [OF app assms(4,5)] show ?thesis by (intro exI [of _ ?r]) simp
qed


subsection \<open>Examples\<close>

text \<open>One live peer on the fake peripheral, with two queued answers, and an audit log.\<close>

definition ex_crypto :: crypto where
  "ex_crypto = \<lparr> cr_keyed_hash = (\<lambda>k m. replicate 32 0), cr_hkdf = (\<lambda>k i n. Some (replicate n 0)), cr_blake3 = (\<lambda>m. m),
     cr_key_ok = (\<lambda>pk. True), cr_sig_ok = (\<lambda>s. True), cr_verify = (\<lambda>pk m s. s = replicate 64 5) \<rparr>"

definition ex_call :: call_env where
  "ex_call = \<lparr> ce_start = 0, ce_slot = 0, ce_end = 0, ce_slot_wait = None, ce_rng = Ok (replicate 16 7) \<rparr>"

definition ex_orch_of :: "string \<Rightarrow> fake_state orch" where
  "ex_orch_of i = \<lparr> o_periph = fake_new\<lparr> fk_peer_keys := [i \<mapsto> replicate 32 9],
        fk_response_queue := (\<lambda>_. [replicate 64 5, replicate 64 5]) \<rparr>,
      o_peers = [(i, \<lparr> pe_bond_key = replicate 32 9, pe_phone_pubkey = Some (replicate 32 3), pe_cell = 0 \<rparr>)],
      o_cells = [peer_cell_new], o_bonds_file = [], o_keys_dir = [], o_rx_taken = False,
      o_audit = Some \<lparr> al_path = [''log''], al_appended_since_fsync = 0 \<rparr>,
      o_fs = \<lparr> fs_nodes = [[''log''] \<mapsto> FileNode [] 384], fs_past = [] \<rparr> \<rparr>"

abbreviation ex_orch :: "fake_state orch" where "ex_orch \<equiv> ex_orch_of ''a''"

lemma ex_orch_invar: "orch_invar (ex_orch_of i)"
  by (simp add: ex_orch_of_def orch_invar_def bt_invar_def cells_ok_def entries_ok_def bt_get_def peer_cell_new_def)

lemma ex_first: "fst (issue_challenge fake_ops ex_crypto ex_env ex_call i d (ex_orch_of i)) = Co_Ok (replicate 64 5)"
  unfolding issue_challenge_ok
  by (simp add: lookup_peer_def ex_orch_of_def bt_get_def ex_call_def acquire_challenge_slot_def peer_cell_new_def fake_defs
      accepts_def ex_crypto_def cell_nonces_def nonce_cache_new_def SIGNATURE_LEN_def fake_new_def)

theorem challenge_nonce_single_use_witness:
  "fst (issue_challenge fake_ops ex_crypto ex_env ex_call ''a'' 10 ex_orch) = Co_Ok (replicate 64 5) \<and>
   fst (issue_challenge fake_ops ex_crypto ex_env ex_call ''a'' 10
      (snd (issue_challenge fake_ops ex_crypto ex_env ex_call ''a'' 10 ex_orch))) \<noteq> Co_Ok (replicate 64 5)"
proof -
  let ?r = "issue_challenge fake_ops ex_crypto ex_env ex_call ''a'' 10 ex_orch"
  have r: "?r = (Co_Ok (replicate 64 5), snd ?r)" using ex_first by (metis prod.collapse)
  have n: "ce_rng ex_call = Ok (replicate 16 7)" by (simp add: ex_call_def)
  have "fst (issue_challenge fake_ops ex_crypto ex_env ex_call ''a'' 10 (snd ?r)) \<noteq> Co_Ok (replicate 64 5)"
    by (rule challenge_nonce_single_use [OF ex_orch_invar r n, of "[]"]) (simp_all add: run_calls_def n)
  with ex_first show ?thesis by blast
qed

theorem challenge_audited_witness:
  "\<exists>r. fs_nodes (o_fs (snd (issue_challenge fake_ops ex_crypto ex_env ex_call ''a'' 10 ex_orch))) [''log''] =
      Some (FileNode (str_bytes (format_record r)) 384) \<and> ar_reason r = ''ok''"
proof -
  let ?r = "issue_challenge fake_ops ex_crypto ex_env ex_call ''a'' 10 ex_orch"
  have r: "?r = (Co_Ok (replicate 64 5), snd ?r)" using ex_first by (metis prod.collapse)
  have log: "o_audit ex_orch = Some \<lparr> al_path = [''log''], al_appended_since_fsync = 0 \<rparr>" by (simp add: ex_orch_of_def)
  show ?thesis
    using challenge_audited [OF ex_orch_invar r log, of "[]" 384]
    by (auto simp: ex_orch_of_def ex_env_def OUTCOME_REASON_OK_def)
qed

end
