(* ===== verification/Reload.thy ===== *)
theory Reload
  imports Orchestrator
begin

text \<open>
  What the reload of the bond store and the rotation of the advertised UUIDs
  achieve.  The lemmas are proved once for every peripheral that keeps the
  laws of the trait, in its locale and in an extension for peripherals whose
  registrations succeed; the properties are about the production peripheral.
\<close>

section \<open>Lemmas of the reload\<close>

text \<open>The peers in the peripheral's table are the ones the orchestrator has entries for.\<close>

definition live_synced :: "('p \<Rightarrow> string set) \<Rightarrow> 'p orch \<Rightarrow> bool" where
  "live_synced reg os \<longleftrightarrow> orch_invar os \<and> reg (o_periph os) = dom (bt_get (o_peers os))"

lemma new_set_loop_get:
  "bt_get (new_set_loop e s dir bs out) i =
     (if i \<in> b_peer_id ` set bs \<and> is_ok (load_bond_key e s dir i)
      then Some (case load_bond_key e s dir i of Inr k \<Rightarrow> k) else bt_get out i)"
proof (induction bs arbitrary: out)
  case (Cons b bs)
  show ?case
    by (cases "load_bond_key e s dir (b_peer_id b)") (auto simp: Cons.IH bt_get_insert)
qed simp

lemma compute_new_set_get:
  "bt_get (compute_new_set e store os) i = Some k \<longleftrightarrow>
     (\<exists>b \<in> set (bs_list store). b_peer_id b = i \<and> \<not> is_revoked b) \<and> load_bond_key e (o_fs os) (o_keys_dir os) i = Ok k"
proof -
  have "bt_get ([] :: bytes btree) i = None" by (simp add: bt_get_def)
  then show ?thesis by (auto simp: compute_new_set_def new_set_loop_get split: if_splits)
qed

lemma compute_diff_sets:
  assumes "\<And>xs. set (sh xs) = set xs" "compute_diff sh new_set os = (to_add, to_remove)"
  shows "set to_add = dom (bt_get new_set) - dom (bt_get (o_peers os))"
    and "set to_remove = dom (bt_get (o_peers os)) - dom (bt_get new_set)"
  using assms by (auto simp: compute_diff_def bt_keys_dom [symmetric] Let_def)

lemma insert_peer_entry_simps [simp]:
  "o_periph (insert_peer_entry i k pk os) = o_periph os" "o_fs (insert_peer_entry i k pk os) = o_fs os"
  "o_keys_dir (insert_peer_entry i k pk os) = o_keys_dir os" "o_audit (insert_peer_entry i k pk os) = o_audit os"
  "bt_get (o_peers (insert_peer_entry i k pk os)) =
     (bt_get (o_peers os))(i \<mapsto> \<lparr> pe_bond_key = k, pe_phone_pubkey = pk, pe_cell = length (o_cells os) \<rparr>)"
  by (simp_all add: insert_peer_entry_def bt_get_insert)

lemma orch_invar_remove:
  "orch_invar os \<Longrightarrow> orch_invar (os\<lparr> o_periph := p, o_peers := bt_remove i (o_peers os) \<rparr>)"
  by (auto simp: orch_invar_def bt_invar_remove entries_ok_def bt_get_remove split: if_splits)

lemma orch_invar_periph [simp]: "orch_invar (os\<lparr> o_periph := p \<rparr>) = orch_invar os"
  by (simp add: orch_invar_def)

lemma rotate_once_state: "\<exists>p r. op_set_session_uuids ops (build_uuid_union C (snapshot_peers os) (minute_index now)) (o_periph os) = (r, p) \<and>
    snd (rotate_once ops C now os) = os\<lparr> o_periph := p \<rparr>"
  by (auto simp: rotate_once_def Let_def split: prod.splits sum.splits)

text \<open>What an entry made by a reload holds: the key on disk and the phone key of the first bond with the identifier.\<close>

definition fresh_entry :: "bond_store \<Rightarrow> bytes btree \<Rightarrow> string \<Rightarrow> peer_entry \<Rightarrow> bool" where
  "fresh_entry store new_set i pe \<longleftrightarrow>
     bt_get new_set i = Some (pe_bond_key pe) \<and>
     (\<exists>b. find (\<lambda>b. b_peer_id b = i) (bs_list store) = Some b \<and> pe_phone_pubkey pe = Some (b_pubkey b))"

context peripheral_laws begin

lemma remove_live:
  assumes "live_synced registered os"
  shows "live_synced registered (do_remove_peer ops i os) \<and>
         bt_get (o_peers (do_remove_peer ops i os)) = (bt_get (o_peers os))(i := None)"
proof -
  obtain r p where r: "op_remove_peer ops i (o_periph os) = (r, p)" by fastforce
  with remove_registered [OF r] assms show ?thesis
    by (cases r) (auto simp: do_remove_peer_def live_synced_def bt_get_remove orch_invar_remove)
qed

lemma remove_all_live:
  "live_synced registered os \<Longrightarrow>
     live_synced registered (foldl (\<lambda>os i. do_remove_peer ops i os) os is) \<and>
     bt_get (o_peers (foldl (\<lambda>os i. do_remove_peer ops i os) os is)) = (bt_get (o_peers os)) |` (- set is)"
proof (induction "is" arbitrary: os)
  case (Cons i "is")
  show ?case using Cons.IH [of "do_remove_peer ops i os"] remove_live [OF Cons.prems, of i]
    by (auto simp: restrict_map_def fun_eq_iff)
qed (simp add: restrict_map_def)

lemma add_live:
  assumes "live_synced registered os" "bt_get new_set i = Some key"
  shows "live_synced registered (do_add_peer ops store i key os) \<and>
         (bt_get (o_peers (do_add_peer ops store i key os)) = bt_get (o_peers os) \<or>
          bt_get (o_peers os) i = None \<and>
          (\<exists>pe. fresh_entry store new_set i pe \<and> bt_get (o_peers (do_add_peer ops store i key os)) = (bt_get (o_peers os))(i \<mapsto> pe)))"
proof (cases "find (\<lambda>b. b_peer_id b = i) (bs_list store)")
  case None
  with assms(1) show ?thesis by (simp add: do_add_peer_def)
next
  case (Some b)
  obtain r p where r: "op_add_peer ops i key (o_periph os) = (r, p)" by fastforce
  show ?thesis
  proof (cases r)
    case (Inl err)
    with r Some add_registered [OF r] assms(1) show ?thesis by (simp add: do_add_peer_def live_synced_def)
  next
    case (Inr u)
    let ?os = "insert_peer_entry i key (Some (b_pubkey b)) (os\<lparr> o_periph := p \<rparr>)"
    have new: "do_add_peer ops store i key os = ?os" using r Some Inr by (simp add: do_add_peer_def)
    have "i \<notin> registered (o_periph os)" using add_known [of i "o_periph os" key] r Inr by auto
    then have "bt_get (o_peers os) i = None" using assms(1) by (auto simp: live_synced_def)
    moreover have "orch_invar ?os" using assms(1) by (intro orch_invar_insert_peer) (simp add: live_synced_def)
    ultimately show ?thesis
      using add_registered [OF r] assms Inr Some unfolding new
      by (auto simp: live_synced_def fresh_entry_def
          intro!: exI [of _ "\<lparr> pe_bond_key = key, pe_phone_pubkey = Some (b_pubkey b), pe_cell = length (o_cells os) \<rparr>"])
  qed
qed

lemma add_all_live:
  fixes new_set :: "bytes btree" and store :: bond_store
  assumes "live_synced registered os"
  defines "add \<equiv> \<lambda>os i. case bt_get new_set i of None \<Rightarrow> os | Some key \<Rightarrow> do_add_peer ops store i key os"
  shows "live_synced registered (foldl add os is) \<and>
         (\<forall>j. bt_get (o_peers (foldl add os is)) j = bt_get (o_peers os) j \<or>
              j \<in> set is \<and> bt_get (o_peers os) j = None \<and>
              (\<exists>pe. fresh_entry store new_set j pe \<and> bt_get (o_peers (foldl add os is)) j = Some pe))"
  using assms(1)
proof (induction "is" arbitrary: os)
  case (Cons i "is")
  have "live_synced registered (add os i) \<and> (\<forall>j. bt_get (o_peers (add os i)) j = bt_get (o_peers os) j \<or>
      j = i \<and> bt_get (o_peers os) j = None \<and> (\<exists>pe. fresh_entry store new_set j pe \<and> bt_get (o_peers (add os i)) j = Some pe))"
  proof (cases "bt_get new_set i")
    case (Some key)
    from add_live [OF Cons.prems Some, of store] show ?thesis by (simp add: add_def Some) (metis fun_upd_apply)
  qed (simp add: add_def Cons.prems)
  then show ?case using Cons.IH [of "add os i"] by (auto simp del: fun_upd_apply) metis+
qed simp

lemma rotate_live: "live_synced registered os \<Longrightarrow> live_synced registered (snd (rotate_once ops C now os)) \<and>
    o_peers (snd (rotate_once ops C now os)) = o_peers os"
  using rotate_once_state [of ops C os now] set_uuids by (fastforce simp: live_synced_def)

lemma reload_live:
  fixes store :: bond_store and e :: sys_env and C :: crypto and now :: int and t :: reload_trigger
    and sh :: "string list \<Rightarrow> string list"
  assumes "live_synced registered os" "\<And>xs. set (sh xs) = set xs"
  defines "new_set \<equiv> compute_new_set e store os" and "os' \<equiv> reload_bonds_with_trigger ops C e sh now store t os"
  shows "live_synced registered os' \<and>
    (\<forall>i. bt_get (o_peers os') i =
           (if i \<in> dom (bt_get new_set) then bt_get (o_peers os) i else None) \<or>
         i \<in> dom (bt_get new_set) \<and> bt_get (o_peers os) i = None \<and>
         (\<exists>pe. fresh_entry store new_set i pe \<and> bt_get (o_peers os') i = Some pe))"
proof -
  obtain to_add to_remove where diff: "compute_diff sh new_set os = (to_add, to_remove)" by fastforce
  let ?os1 = "foldl (\<lambda>os i. do_remove_peer ops i os) os to_remove"
  let ?os2 = "foldl (\<lambda>os i. case bt_get new_set i of None \<Rightarrow> os | Some key \<Rightarrow> do_add_peer ops store i key os) ?os1 to_add"
  have os': "os' = snd (rotate_once ops C now ?os2)"
    by (simp add: os'_def reload_bonds_with_trigger_def new_set_def [symmetric] diff Let_def)
  note sets = compute_diff_sets [OF assms(2) diff]
  have r: "live_synced registered ?os1" "bt_get (o_peers ?os1) = (bt_get (o_peers os)) |` (- set to_remove)"
    using remove_all_live [OF assms(1)] by auto
  have a: "live_synced registered ?os2" "\<forall>j. bt_get (o_peers ?os2) j = bt_get (o_peers ?os1) j \<or>
      j \<in> set to_add \<and> bt_get (o_peers ?os1) j = None \<and>
      (\<exists>pe. fresh_entry store new_set j pe \<and> bt_get (o_peers ?os2) j = Some pe)"
    using add_all_live [OF r(1), of store new_set to_add] by auto
  have b: "bt_get (o_peers ?os1) j = (if j \<in> dom (bt_get new_set) then bt_get (o_peers os) j else None)" for j
    by (auto simp: r(2) restrict_map_def sets)
  have c: "live_synced registered os'" "o_peers os' = o_peers ?os2"
    using rotate_live [OF a(1), of C now] by (simp_all add: os')
  show ?thesis using c(1) a(2) unfolding c(2) b sets by (auto split: if_splits)
qed

lemma reload_drops:
  assumes "live_synced registered os" "\<forall>xs. set (sh xs) = set xs" "i \<notin> dom (bt_get (compute_new_set e store os))"
  shows "bt_get (o_peers (reload_bonds_with_trigger ops C e sh now store t os)) i = None"
  using reload_live [OF assms(1), of sh C e now store t, THEN conjunct2, rule_format, of i] assms(2,3)
  by (simp add: domIff)

lemma reload_keeps:
  assumes "live_synced registered os" "\<forall>xs. set (sh xs) = set xs" "i \<in> dom (bt_get (compute_new_set e store os))"
    and "bt_get (o_peers os) i = Some pe"
  shows "bt_get (o_peers (reload_bonds_with_trigger ops C e sh now store t os)) i = Some pe"
  using reload_live [OF assms(1), of sh C e now store t, THEN conjunct2, rule_format, of i] assms(2-4)
  by (simp add: domIff)

end


text \<open>A peripheral that is in a state in which registrations succeed, and stays in such states.\<close>

locale reliable_peripheral = peripheral_laws ops registered
  for ops :: "'p periph_ops" and registered :: "'p \<Rightarrow> string set" +
  fixes good :: "'p \<Rightarrow> bool"
  assumes add_good: "good p \<Longrightarrow> i \<notin> registered p \<Longrightarrow> \<exists>p'. op_add_peer ops i k p = (Ok (), p') \<and> good p'"
    and remove_good: "good p \<Longrightarrow> op_remove_peer ops i p = (r, p') \<Longrightarrow> good p'"
    and set_uuids_good: "good p \<Longrightarrow> op_set_session_uuids ops us p = (r, p') \<Longrightarrow> good p'"
begin

lemma remove_all_good: "good (o_periph os) \<Longrightarrow> good (o_periph (foldl (\<lambda>os i. do_remove_peer ops i os) os is))"
proof (induction "is" arbitrary: os)
  case (Cons i "is")
  obtain r p where r: "op_remove_peer ops i (o_periph os) = (r, p)" by fastforce
  have "good (o_periph (do_remove_peer ops i os))"
    using remove_good [OF Cons.prems r] r by (cases r) (auto simp: do_remove_peer_def)
  with Cons.IH show ?case by simp
qed simp

lemma add_good_live:
  assumes "live_synced registered os" "good (o_periph os)" "i \<notin> dom (bt_get (o_peers os))"
    "find (\<lambda>b. b_peer_id b = i) (bs_list store) \<noteq> None"
  shows "good (o_periph (do_add_peer ops store i key os)) \<and>
         dom (bt_get (o_peers (do_add_peer ops store i key os))) = insert i (dom (bt_get (o_peers os)))"
proof -
  obtain p' where "op_add_peer ops i key (o_periph os) = (Ok (), p')" "good p'"
    using add_good [OF assms(2), of i key] assms(1,3) by (auto simp: live_synced_def)
  with assms(4) show ?thesis by (auto simp: do_add_peer_def)
qed

lemma add_all_good:
  fixes new_set :: "bytes btree" and store :: bond_store
  assumes "live_synced registered os" "good (o_periph os)" "distinct is" "set is \<inter> dom (bt_get (o_peers os)) = {}"
    "set is \<subseteq> dom (bt_get new_set)" "\<And>i. i \<in> set is \<Longrightarrow> find (\<lambda>b. b_peer_id b = i) (bs_list store) \<noteq> None"
  defines "add \<equiv> \<lambda>os i. case bt_get new_set i of None \<Rightarrow> os | Some key \<Rightarrow> do_add_peer ops store i key os"
  shows "good (o_periph (foldl add os is)) \<and> dom (bt_get (o_peers (foldl add os is))) = dom (bt_get (o_peers os)) \<union> set is"
  using assms(1-6)
proof (induction "is" arbitrary: os)
  case (Cons i "is")
  obtain key where key: "bt_get new_set i = Some key" using Cons.prems(5) by auto
  have a: "add os i = do_add_peer ops store i key os" by (simp add: add_def key)
  have b: "live_synced registered (add os i)"
    using add_live [OF Cons.prems(1) key, of store] by (simp add: a)
  have c: "good (o_periph (add os i))" "dom (bt_get (o_peers (add os i))) = insert i (dom (bt_get (o_peers os)))"
    unfolding a using add_good_live [OF Cons.prems(1,2), of i store key] Cons.prems(4,6) by auto
  show ?case using Cons.IH [OF b c(1)] Cons.prems(3-6) c(2) by auto
qed simp

lemma reload_good:
  fixes store :: bond_store and e :: sys_env and C :: crypto and now :: int and t :: reload_trigger
    and sh :: "string list \<Rightarrow> string list"
  assumes "live_synced registered os" "good (o_periph os)" "\<And>xs. set (sh xs) = set xs \<and> (distinct xs \<longrightarrow> distinct (sh xs))"
  defines "new_set \<equiv> compute_new_set e store os" and "os' \<equiv> reload_bonds_with_trigger ops C e sh now store t os"
  shows "good (o_periph os') \<and> dom (bt_get (o_peers os')) = dom (bt_get new_set)"
proof -
  obtain to_add to_remove where diff: "compute_diff sh new_set os = (to_add, to_remove)" by fastforce
  let ?os1 = "foldl (\<lambda>os i. do_remove_peer ops i os) os to_remove"
  let ?os2 = "foldl (\<lambda>os i. case bt_get new_set i of None \<Rightarrow> os | Some key \<Rightarrow> do_add_peer ops store i key os) ?os1 to_add"
  have os': "os' = snd (rotate_once ops C now ?os2)"
    by (simp add: os'_def reload_bonds_with_trigger_def new_set_def [symmetric] diff Let_def)
  have sets: "set to_add = dom (bt_get new_set) - dom (bt_get (o_peers os))"
      "set to_remove = dom (bt_get (o_peers os)) - dom (bt_get new_set)"
    using compute_diff_sets [OF _ diff] assms(3) by blast+
  have "bt_invar new_set"
  proof -
    have "bt_invar (new_set_loop e s dir bs out)" if "bt_invar out" for s dir bs out
      using that by (induction bs arbitrary: out) (auto simp: bt_invar_insert split: sum.splits)
    then show ?thesis by (simp add: new_set_def compute_new_set_def btree.invar_empty)
  qed
  then have "distinct (filter P (bt_keys new_set))" for P by (simp add: btree.distinct_keys)
  then have dist: "distinct to_add" using diff assms(3) by (auto simp: compute_diff_def Let_def)
  have r: "live_synced registered ?os1" "dom (bt_get (o_peers ?os1)) = dom (bt_get (o_peers os)) \<inter> dom (bt_get new_set)"
    using remove_all_live [OF assms(1), of to_remove] sets(2) by auto
  have f: "find (\<lambda>b. b_peer_id b = i) (bs_list store) \<noteq> None" if i: "i \<in> set to_add" for i
  proof -
    obtain k where "bt_get (compute_new_set e store os) i = Some k" using i sets(1) by (auto simp: new_set_def)
    then show ?thesis using compute_new_set_get [of e store os i k] by (auto simp: find_None_iff)
  qed
  have a: "good (o_periph ?os2)" "dom (bt_get (o_peers ?os2)) = dom (bt_get (o_peers ?os1)) \<union> set to_add"
    using add_all_good [OF r(1) remove_all_good [OF assms(2)] dist _ _ f, of new_set] r(2) sets(1) by auto
  obtain p r' where "op_set_session_uuids ops (build_uuid_union C (snapshot_peers ?os2) (minute_index now)) (o_periph ?os2) = (r', p)"
      "os' = ?os2\<lparr> o_periph := p \<rparr>"
    using rotate_once_state [of ops C ?os2 now] os' by auto
  with a r(2) sets(1) set_uuids_good show ?thesis by auto
qed

end

interpretation persistent_reliable: reliable_peripheral "persistent_ops hk" "\<lambda>p. dom (pp_peers p)"
    "\<lambda>p. rd_serve (pp_radio p) = []" for hk
  by unfold_locales (auto simp: persistent_defs Let_def split_def split: option.splits if_splits)

interpretation fake_reliable: reliable_peripheral fake_ops "\<lambda>s. dom (fk_peer_keys s)" "\<lambda>s. True"
  by unfold_locales (auto simp: fake_defs)


section \<open>Properties of reload and rotation\<close>

lemma run_reload_store:
  "bs_load L (cr_blake3 C) e (o_fs os) (o_bonds_file os) = Ok store \<Longrightarrow>
     run_reload ops C L e sh now t os = reload_bonds_with_trigger ops C e sh now store t os"
  by (simp add: run_reload_def)

text \<open>
  C8: what a reload makes live.  For a daemon over the production peripheral whose
  registrations BlueZ all accepts, after a reload of a bond store that can be read
  the live peers are exactly the non-revoked bonds whose key file can be read and
  has 32 bytes, and the peripheral's own table of peers has exactly these; which
  of their services BlueZ then serves is another matter, and not claimed here.
\<close>

theorem reload_live_set:
  assumes "live_synced (\<lambda>p. dom (pp_peers p)) os" "rd_serve (pp_radio (o_periph os)) = []"
    and "\<forall>xs. set (sh xs) = set xs \<and> (distinct xs \<longrightarrow> distinct (sh xs))"
    and "bs_load L (cr_blake3 C) e (o_fs os) (o_bonds_file os) = Ok store"
    and "os' = run_reload (persistent_ops hk) C L e sh now t os"
  shows "dom (bt_get (o_peers os')) =
           {b_peer_id b | b. b \<in> set (bs_list store) \<and> \<not> is_revoked b \<and>
              is_ok (load_bond_key e (o_fs os) (o_keys_dir os) (b_peer_id b))} \<and>
         dom (pp_peers (o_periph os')) = dom (bt_get (o_peers os'))"
proof -
  have os': "os' = reload_bonds_with_trigger (persistent_ops hk) C e sh now store t os"
    using assms(5) by (simp add: run_reload_store [OF assms(4)])
  have "dom (bt_get (o_peers os')) = dom (bt_get (compute_new_set e store os))"
    using persistent_reliable.reload_good [OF assms(1,2)] assms(3) by (simp add: os')
  moreover have "dom (pp_peers (o_periph os')) = dom (bt_get (o_peers os'))"
    using persistent.reload_live [OF assms(1)] assms(3) by (simp add: os' live_synced_def)
  ultimately show ?thesis by (auto simp: compute_new_set_get dom_def)
qed

lemma reload_refuses:
  assumes "live_synced (\<lambda>p. dom (pp_peers p)) os" "\<forall>xs. set (sh xs) = set xs"
    and "bs_load L (cr_blake3 C) e (o_fs os) (o_bonds_file os) = Ok store"
    and "\<forall>b \<in> set (bs_list store). b_peer_id b = i \<longrightarrow> is_revoked b"
    and "os' = run_reload (persistent_ops hk) C L e sh now t os"
  shows "fst (issue_challenge (persistent_ops hk) C e' ce i d os') = Co_UnknownPeer"
proof -
  have os': "os' = reload_bonds_with_trigger (persistent_ops hk) C e sh now store t os"
    using assms(5) by (simp add: run_reload_store [OF assms(3)])
  have "i \<notin> dom (bt_get (compute_new_set e store os))"
    using assms(4) compute_new_set_get [of e store os i] by auto
  then have "bt_get (o_peers os') i = None"
    using persistent.reload_drops [OF assms(1,2)] unfolding os' by blast
  then show ?thesis by (simp add: issue_challenge_def lookup_peer_def)
qed

text \<open>
  C9: revocation takes effect at the reload.  When the store that is reloaded
  holds no non-revoked bond for an identifier, every later challenge for it is
  refused as an unknown peer, even if BlueZ rejects registrations.
\<close>

theorem revoked_peer_refused:
  assumes "live_synced (\<lambda>p. dom (pp_peers p)) os" "\<forall>xs. set (sh xs) = set xs"
    and "bs_load L (cr_blake3 C) e (o_fs os) (o_bonds_file os) = Ok store"
    and "\<forall>b \<in> set (bs_list store). b_peer_id b = i \<longrightarrow> is_revoked b"
    and "os' = run_reload (persistent_ops hk) C L e sh now t os"
  shows "fst (issue_challenge (persistent_ops hk) C e' ce i d os') = Co_UnknownPeer"
  using assms by (rule reload_refuses)

text \<open>
  A reload does not refresh a peer that is already live.  A live peer that
  is still bonded keeps its entry, with the bond key and the phone key it had
  before, whatever key file and public key the reloaded store has for it.
\<close>

theorem reload_keeps_stale_keys:
  assumes "live_synced (\<lambda>p. dom (pp_peers p)) os" "\<forall>xs. set (sh xs) = set xs"
    and "bs_load L (cr_blake3 C) e (o_fs os) (o_bonds_file os) = Ok store"
    and "bt_get (o_peers os) i = Some pe"
    and "\<exists>b \<in> set (bs_list store). b_peer_id b = i \<and> \<not> is_revoked b"
    and "load_bond_key e (o_fs os) (o_keys_dir os) i = Ok new_key"
  shows "bt_get (o_peers (run_reload (persistent_ops hk) C L e sh now t os)) i = Some pe"
proof -
  have "i \<in> dom (bt_get (compute_new_set e store os))"
    using assms(5,6) compute_new_set_get [of e store os i] by auto
  then show ?thesis
    using persistent.reload_keeps [OF assms(1,2) _ assms(4)] by (simp add: run_reload_store [OF assms(3)])
qed

text \<open>The production peripheral without failures, one live peer and a bond store with one bond.\<close>

definition ex_radio :: radio where
  "ex_radio = \<lparr> rd_serve = [], rd_advertise = [], rd_send = (\<lambda>_. None), rd_arrival = (\<lambda>_. None), rd_devices = Ok [] \<rparr>"

definition ex_persistent :: "string \<Rightarrow> persistent" where
  "ex_persistent i = \<lparr> pp_app = None, pp_adv = None, pp_host_pubkey = [], pp_pair_events = [], pp_watcher = True,
     pp_peers = [i \<mapsto> fresh_char_set], pp_sent = [], pp_radio = ex_radio \<rparr>"

definition ex_porch :: "string \<Rightarrow> persistent orch" where
  "ex_porch i = \<lparr> o_periph = ex_persistent i,
     o_peers = [(i, \<lparr> pe_bond_key = replicate 32 9, pe_phone_pubkey = Some (replicate 32 3), pe_cell = 0 \<rparr>)],
     o_cells = [peer_cell_new], o_bonds_file = [''f''], o_keys_dir = [], o_rx_taken = False, o_audit = None,
     o_fs = \<lparr> fs_nodes = (\<lambda>p. Some (FileNode (if p = [''f''] then [] else replicate 32 1) 384)), fs_past = [] \<rparr> \<rparr>"

lemma ex_porch_synced: "live_synced (\<lambda>p. dom (pp_peers p)) (ex_porch i)"
  by (simp add: live_synced_def ex_porch_def ex_persistent_def orch_invar_def bt_invar_def cells_ok_def entries_ok_def
      bt_get_def [abs_def] peer_cell_new_def)

lemma ex_porch_load:
  "bs_load ex_toml1 (cr_blake3 ex_crypto) ex_env (o_fs (ex_porch i)) (o_bonds_file (ex_porch i)) = Ok \<lparr> bs_bonds = [ex_bond1] \<rparr>"
proof -
  have "cr_blake3 ex_crypto = (\<lambda>b. b)" by (simp add: ex_crypto_def)
  then show ?thesis by (simp only:, intro ex_load1 [where m = 384]) (simp add: ex_porch_def)
qed

lemma ex_porch_key:
  "load_bond_key ex_env (o_fs (ex_porch i)) (o_keys_dir (ex_porch i)) (b_peer_id ex_bond1) = Ok (replicate 32 1)"
proof -
  have "[b_peer_id ex_bond1 @ ''.bin''] \<noteq> [''f'']" by (auto dest: arg_cong [of _ _ length])
  then show ?thesis
    by (simp add: load_bond_key_def read_file_def ex_env_def ex_porch_def BOND_KEY_FILE_EXT_def BOND_KEY_BYTES_def)
qed

theorem reload_live_set_witness:
  "dom (bt_get (o_peers (run_reload (persistent_ops (cr_hkdf ex_crypto)) ex_crypto ex_toml1 ex_env (\<lambda>x. x) 0 Rt_Pair (ex_porch ''zz''))))
     = {b_peer_id ex_bond1}"
proof -
  have r: "rd_serve (pp_radio (o_periph (ex_porch ''zz''))) = []" by (simp add: ex_porch_def ex_persistent_def ex_radio_def)
  have "{b_peer_id b | b. b \<in> set (bs_list \<lparr> bs_bonds = [ex_bond1] \<rparr>) \<and> \<not> is_revoked b \<and>
      is_ok (load_bond_key ex_env (o_fs (ex_porch ''zz'')) (o_keys_dir (ex_porch ''zz'')) (b_peer_id b))} = {b_peer_id ex_bond1}"
    using ex_porch_key by (auto simp: bs_list_def is_revoked_def ex_bond1_def)
  then show ?thesis
    using reload_live_set [OF ex_porch_synced r, of "\<lambda>x. x", OF _ ex_porch_load refl] by simp
qed

theorem revoked_peer_refused_witness:
  "fst (issue_challenge (persistent_ops (cr_hkdf ex_crypto)) ex_crypto ex_env ex_call ''zz'' 10
     (run_reload (persistent_ops (cr_hkdf ex_crypto)) ex_crypto ex_toml1 ex_env (\<lambda>x. x) 0 Rt_Pair (ex_porch ''zz''))) = Co_UnknownPeer"
proof -
  have "length (b_peer_id ex_bond1) = 32"
    by (simp add: ex_bond1_def peer_id_from_pubkey_def const_defs length_slice)
  then have "b_peer_id ex_bond1 \<noteq> ''zz''" by auto
  then show ?thesis
    by (intro revoked_peer_refused [OF ex_porch_synced _ ex_porch_load _ refl]) (simp_all add: bs_list_def)
qed

theorem reload_keeps_stale_keys_witness:
  "load_bond_key ex_env (o_fs (ex_porch (b_peer_id ex_bond1))) (o_keys_dir (ex_porch (b_peer_id ex_bond1))) (b_peer_id ex_bond1)
     = Ok (replicate 32 1) \<and>
   bt_get (o_peers (run_reload (persistent_ops (cr_hkdf ex_crypto)) ex_crypto ex_toml1 ex_env (\<lambda>x. x) 0 Rt_Pair
      (ex_porch (b_peer_id ex_bond1)))) (b_peer_id ex_bond1)
     = Some \<lparr> pe_bond_key = replicate 32 9, pe_phone_pubkey = Some (replicate 32 3), pe_cell = 0 \<rparr>"
proof
  show "bt_get (o_peers (run_reload (persistent_ops (cr_hkdf ex_crypto)) ex_crypto ex_toml1 ex_env (\<lambda>x. x) 0 Rt_Pair
      (ex_porch (b_peer_id ex_bond1)))) (b_peer_id ex_bond1)
     = Some \<lparr> pe_bond_key = replicate 32 9, pe_phone_pubkey = Some (replicate 32 3), pe_cell = 0 \<rparr>"
    by (rule reload_keeps_stale_keys [OF ex_porch_synced _ ex_porch_load _ _ ex_porch_key])
       (simp_all add: ex_porch_def bt_get_def bs_list_def is_revoked_def ex_bond1_def)
qed (rule ex_porch_key)

text \<open>
  A rotation of the production daemon advertises the pair UUID of the minute
  and the session UUID of every live peer for that minute, nothing else; when
  BlueZ refuses, no advertisement is left.
\<close>

theorem rotation_advertises_union:
  "pp_adv (o_periph (snd (rotate_once (persistent_ops hk) C now os))) =
     (case fst (pop_answer (rd_advertise (pp_radio (o_periph os)))) of
        Some err \<Rightarrow> None
      | None \<Rightarrow> Some \<lparr> adv_uuids = {session_uuid_for (cr_hkdf C) (replicate 32 0) (minute_index now)} \<union>
             {session_uuid_for (cr_hkdf C) (pe_bond_key pe) (minute_index now) | i pe. (i, pe) \<in> set (o_peers os)},
           adv_discoverable = True, adv_local_name = ''syauth'' \<rparr>)"
proof -
  have "build_uuid_union C (snapshot_peers os) (minute_index now) =
      {session_uuid_for (cr_hkdf C) (replicate 32 0) (minute_index now)} \<union>
      {session_uuid_for (cr_hkdf C) (pe_bond_key pe) (minute_index now) | i pe. (i, pe) \<in> set (o_peers os)}"
    by (force simp: build_uuid_union_def snapshot_peers_def PAIR_MODE_ZERO_BOND_KEY_def)
  then show ?thesis
    by (simp add: rotate_once_def persistent_ops_def pp_set_session_uuids_def build_advertisement_def
        ADVERTISE_DISCOVERABLE_def ADVERTISE_LOCAL_NAME_def Let_def split_def split: option.splits)
qed

text \<open>
  The first tick of the rotation timer is at the next minute boundary: the
  offset is between 1 and 60 seconds, the instant it leads to is a multiple of
  60 seconds and the minute index there is the next one.
\<close>

theorem align_next_minute:
  assumes "0 \<le> t" "t < 2 ^ 60"
  shows "1 \<le> align_to_next_minute t \<and> align_to_next_minute t \<le> 60 \<and>
         60 dvd (nat t div 1000 + align_to_next_minute t) \<and>
         minute_index (t + 1000 * int (align_to_next_minute t)) = minute_index t + 1"
proof -
  define s where "s = nat t div 1000"
  have al: "align_to_next_minute t = 60 - s mod 60"
    using assms(1) by (simp add: align_to_next_minute_def unix_secs_def SECONDS_PER_MINUTE_def s_def)
  have d: "s + (60 - s mod 60) = 60 * (s div 60 + 1)" by (simp add: algebra_simps minus_mod_eq_mult_div [symmetric])
  have n: "nat (t + 1000 * int (60 - s mod 60)) = nat t + 1000 * (60 - s mod 60)"
    using assms(1) by (simp add: nat_add_distrib nat_mult_distrib)
  have s': "nat (t + 1000 * int (60 - s mod 60)) div 1000 = 60 * (s div 60 + 1)"
    unfolding n using d by (simp add: s_def add.commute)
  have small: "s div 60 + 1 \<le> 2 ^ 63 - 1" using assms by (simp add: s_def nat_less_iff)
  have m0: "minute_index t = word_of_nat (s div 60)"
    using assms(1) small by (simp add: minute_index_def unix_secs_def SECONDS_PER_MINUTE_def s_def [symmetric] min_def)
  have m1: "minute_index (t + 1000 * int (60 - s mod 60)) = word_of_nat (s div 60 + 1)"
    using assms(1) small s' by (simp add: minute_index_def unix_secs_def SECONDS_PER_MINUTE_def min_def)
  have "60 dvd s + (60 - s mod 60)" unfolding d by simp
  then show ?thesis using al m0 m1 by (simp add: s_def [symmetric] Suc_le_eq)
qed


theorem align_next_minute_witness:
  "minute_index (61000 + 1000 * int (align_to_next_minute 61000)) = minute_index 61000 + 1"
  using align_next_minute [of 61000] by simp

end
