(* ===== verification/Interleaving.thy ===== *)
theory Interleaving
  imports Reload
begin

text \<open>
  The daemon's tasks beside each other: challenge transactions of several
  connections, and the one task that rotates and reloads.  Every task is cut
  wherever the source awaits, so that between any two of its steps the other
  tasks may run; a call of the peripheral is one step.  Other programs may
  change files, and phones and BlueZ the state of the radio, at any time.
\<close>

section \<open>Transactions\<close>

text \<open>
  Where a transaction of \<open>issue_challenge\<close> stands: waiting for the permit (with the
  time waited), holding it, with its liveness stamped, with the challenge sent,
  with a response in hand, with the outcome decided but not yet in the audit log
  (with the state if the permit is held, the nonce as text and the end time),
  with the line written, and over.
\<close>

datatype call_phase =
    Ph_Queued peer_state nat
  | Ph_Admitted peer_state
  | Ph_Ready peer_state
  | Ph_Sent peer_state frame
  | Ph_Answered peer_state frame bytes
  | Ph_Judged "peer_state option" string nat challenge_outcome
  | Ph_Audited peer_state challenge_outcome
  | Ph_Done challenge_outcome

record call =
  cl_peer :: string
  cl_start :: nat
  cl_phase :: call_phase

text \<open>
  One poll of the wait for the permit: a free permit is taken, also at the
  deadline; without one the wait ends when its time is over.
\<close>

definition slot_poll :: "nat \<Rightarrow> nat \<Rightarrow> bool option" where
  "slot_poll waited permits =
     (if permits > 0 then Some True else if waited \<ge> BUSY_QUEUE_DEADLINE then Some False else None)"

text \<open>The two steps of \<open>enter_slot\<close>: the permit, then the stamp.\<close>

definition take_slot :: "nat \<Rightarrow> 'p orch \<Rightarrow> 'p orch" where
  "take_slot c os = upd_cell c (\<lambda>pc. pc\<lparr> pc_challenge_slot := pc_challenge_slot pc - 1 \<rparr>) os"

definition stamp_cell :: "nat \<Rightarrow> int \<Rightarrow> 'p orch \<Rightarrow> 'p orch" where
  "stamp_cell c now os = upd_cell c (\<lambda>pc. pc\<lparr> pc_liveness := stamp_liveness now (pc_liveness pc) \<rparr>) os"

lemma enter_slot_steps: "enter_slot c now os = stamp_cell c now (take_slot c os)"
  by (cases "c < length (o_cells os)") (simp_all add: enter_slot_def stamp_cell_def take_slot_def upd_cell_def list_update_beyond)

section \<open>The task of rotations and reloads\<close>

text \<open>
  What the task has still to do, one item per stretch without an await: the
  difference to the live peers, a peer to take off or put on the radio and then
  off or into the map, the snapshot for a rotation and its publication.
\<close>

datatype work =
    W_Diff bond_store "bytes btree"
  | W_Remove string
  | W_Unmap string
  | W_Add bond_store string bytes
  | W_Map string bytes bytes
  | W_Snapshot
  | W_Publish "64 word" "(string \<times> bytes) list"

definition add_work :: "bond_store \<Rightarrow> bytes btree \<Rightarrow> string \<Rightarrow> work list" where
  "add_work store new_set i = (case bt_get new_set i of None \<Rightarrow> [] | Some key \<Rightarrow> [W_Add store i key])"

fun work_step ::
    "'p periph_ops \<Rightarrow> crypto \<Rightarrow> (string list \<Rightarrow> string list) \<Rightarrow> int \<Rightarrow> work \<Rightarrow> 'p orch \<Rightarrow> work list \<times> 'p orch" where
  "work_step ops C sh now (W_Diff store new_set) os =
     (case compute_diff sh new_set os of
        (to_add, to_remove) \<Rightarrow> (map W_Remove to_remove @ concat (map (add_work store new_set) to_add) @ [W_Snapshot], os))"
| "work_step ops C sh now (W_Remove i) os =
     (case op_remove_peer ops i (o_periph os) of
        (Inr _, p1) \<Rightarrow> ([W_Unmap i], os\<lparr> o_periph := p1 \<rparr>)
      | (Inl _, p1) \<Rightarrow> ([], os\<lparr> o_periph := p1 \<rparr>))"
| "work_step ops C sh now (W_Unmap i) os = ([], os\<lparr> o_peers := bt_remove i (o_peers os) \<rparr>)"
| "work_step ops C sh now (W_Add store i key) os =
     (case find (\<lambda>b. b_peer_id b = i) (bs_list store) of
        None \<Rightarrow> ([], os)
      | Some b \<Rightarrow>
          (case op_add_peer ops i key (o_periph os) of
             (Inr _, p1) \<Rightarrow> ([W_Map i key (b_pubkey b)], os\<lparr> o_periph := p1 \<rparr>)
           | (Inl _, p1) \<Rightarrow> ([], os\<lparr> o_periph := p1 \<rparr>)))"
| "work_step ops C sh now (W_Map i key pk) os = ([], insert_peer_entry i key (Some pk) os)"
| "work_step ops C sh now W_Snapshot os = ([W_Publish (minute_index now) (snapshot_peers os)], os)"
| "work_step ops C sh now (W_Publish minute snapshot) os =
     ([], os\<lparr> o_periph := snd (op_set_session_uuids ops (build_uuid_union C snapshot minute) (o_periph os)) \<rparr>)"

text \<open>
  The start of a reload, up to its first await: the store and the key files are
  read.  A store that cannot be read ends the reload, a panic ends the task.
\<close>

definition begin_reload :: "crypto \<Rightarrow> toml_lib \<Rightarrow> sys_env \<Rightarrow> 'p orch \<Rightarrow> work list option" where
  "begin_reload C L e os =
     (case bs_load L (cr_blake3 C) e (o_fs os) (o_bonds_file os) of
        Inl err \<Rightarrow> if err = Bond_Panicked then None else Some []
      | Inr store \<Rightarrow> Some [W_Diff store (compute_new_set e store os)])"

section \<open>The step relation\<close>

text \<open>\<open>sy_worker\<close> is the work left of the reload task; it is \<open>None\<close> once the task is gone.\<close>

record 'p system =
  sy_orch :: "'p orch"
  sy_calls :: "call list"
  sy_worker :: "work list option"

fun holds_slot :: "nat \<Rightarrow> call_phase \<Rightarrow> bool" where
  "holds_slot c (Ph_Admitted st) = (st_cell st = c)"
| "holds_slot c (Ph_Ready st) = (st_cell st = c)"
| "holds_slot c (Ph_Sent st _) = (st_cell st = c)"
| "holds_slot c (Ph_Answered st _ _) = (st_cell st = c)"
| "holds_slot c (Ph_Judged (Some st) _ _ _) = (st_cell st = c)"
| "holds_slot c (Ph_Audited st _) = (st_cell st = c)"
| "holds_slot c _ = False"

definition holders :: "nat \<Rightarrow> call list \<Rightarrow> nat" where
  "holders c cs = length (filter (\<lambda>k. holds_slot c (cl_phase k)) cs)"

definition set_phase :: "nat \<Rightarrow> call_phase \<Rightarrow> call list \<Rightarrow> call list" where
  "set_phase k ph cs = cs[k := (cs ! k)\<lparr> cl_phase := ph \<rparr>]"

text \<open>The step of one transaction: its new phase and the new orchestrator.\<close>

definition goes :: "nat \<Rightarrow> call_phase \<Rightarrow> 'p orch \<Rightarrow> 'p system \<Rightarrow> 'p system" where
  "goes k ph os s = s\<lparr> sy_orch := os, sy_calls := set_phase k ph (sy_calls s) \<rparr>"

definition phase_at :: "'p system \<Rightarrow> nat \<Rightarrow> call_phase \<Rightarrow> bool" where
  "phase_at s k ph \<longleftrightarrow> k < length (sy_calls s) \<and> cl_phase (sy_calls s ! k) = ph"

definition peer_at :: "'p system \<Rightarrow> nat \<Rightarrow> string" where
  "peer_at s k = cl_peer (sy_calls s ! k)"

definition permits_at :: "'p system \<Rightarrow> peer_state \<Rightarrow> nat" where
  "permits_at s st = pc_challenge_slot (o_cells (sy_orch s) ! st_cell st)"

inductive daemon_step ::
    "'p periph_ops \<Rightarrow> crypto \<Rightarrow> toml_lib \<Rightarrow> (string list \<Rightarrow> string list) \<Rightarrow> 'p system \<Rightarrow> 'p system \<Rightarrow> bool"
  for ops C L sh where
  call_unknown:
    "lookup_peer (sy_orch s) i = None \<Longrightarrow> t = epoch_millis now \<Longrightarrow>
     daemon_step ops C L sh s
       (s\<lparr> sy_calls := sy_calls s @ [\<lparr> cl_peer = i, cl_start = t, cl_phase = Ph_Judged None ZERO_NONCE_HEX t Co_UnknownPeer \<rparr>] \<rparr>)"
| call_queued:
    "lookup_peer (sy_orch s) i = Some st \<Longrightarrow> t = epoch_millis now \<Longrightarrow>
     daemon_step ops C L sh s (s\<lparr> sy_calls := sy_calls s @ [\<lparr> cl_peer = i, cl_start = t, cl_phase = Ph_Queued st 0 \<rparr>] \<rparr>)"
| waits:
    "phase_at s k (Ph_Queued st w) \<Longrightarrow> slot_poll w (permits_at s st) = None \<Longrightarrow>
     daemon_step ops C L sh s (goes k (Ph_Queued st (w + d)) (sy_orch s) s)"
| admit:
    "phase_at s k (Ph_Queued st w) \<Longrightarrow> slot_poll w (permits_at s st) = Some True \<Longrightarrow>
     daemon_step ops C L sh s (goes k (Ph_Admitted st) (take_slot (st_cell st) (sy_orch s)) s)"
| busy:
    "phase_at s k (Ph_Queued st w) \<Longrightarrow> slot_poll w (permits_at s st) = Some False \<Longrightarrow>
     daemon_step ops C L sh s (goes k (Ph_Judged None ZERO_NONCE_HEX (epoch_millis now) Co_Busy) (sy_orch s) s)"
| stamp:
    "phase_at s k (Ph_Admitted st) \<Longrightarrow>
     daemon_step ops C L sh s (goes k (Ph_Ready st) (stamp_cell (st_cell st) now (sy_orch s)) s)"
| rng_fails:
    "phase_at s k (Ph_Ready st) \<Longrightarrow> out = Co_TransportError (Pe_Backend (''nonce rng: '' @ err)) \<Longrightarrow>
     daemon_step ops C L sh s (goes k (Ph_Judged (Some st) ZERO_NONCE_HEX (epoch_millis now) out) (sy_orch s) s)"
| send_fails:
    "phase_at s k (Ph_Ready st) \<Longrightarrow> send_challenge ops C (peer_at s k) nonce st (sy_orch s) = (Err out, os1) \<Longrightarrow>
     daemon_step ops C L sh s (goes k (Ph_Judged (Some st) (hex_lowercase nonce) (epoch_millis now) out) os1 s)"
| send:
    "phase_at s k (Ph_Ready st) \<Longrightarrow> send_challenge ops C (peer_at s k) nonce st (sy_orch s) = (Ok ch, os1) \<Longrightarrow>
     daemon_step ops C L sh s (goes k (Ph_Sent st ch) os1 s)"
| response_fails:
    "phase_at s k (Ph_Sent st ch) \<Longrightarrow> op_wait_for_response ops (peer_at s k) d (o_periph (sy_orch s)) = (Err err, p1) \<Longrightarrow>
     daemon_step ops C L sh s
       (goes k (Ph_Judged (Some st) (hex_lowercase (f_nonce ch)) (epoch_millis now) (challenge_outcome_for_transport err))
          ((sy_orch s)\<lparr> o_periph := p1 \<rparr>) s)"
| response:
    "phase_at s k (Ph_Sent st ch) \<Longrightarrow> op_wait_for_response ops (peer_at s k) d (o_periph (sy_orch s)) = (Ok bs, p1) \<Longrightarrow>
     daemon_step ops C L sh s (goes k (Ph_Answered st ch bs) ((sy_orch s)\<lparr> o_periph := p1 \<rparr>) s)"
| judge:
    "phase_at s k (Ph_Answered st ch bs) \<Longrightarrow> judge_response C st ch bs (sy_orch s) = (out, os1) \<Longrightarrow>
     daemon_step ops C L sh s (goes k (Ph_Judged (Some st) (hex_lowercase (f_nonce ch)) (epoch_millis now) out) os1 s)"
| audit:
    "phase_at s k (Ph_Judged held nonce_hex t_end out) \<Longrightarrow>
     daemon_step ops C L sh s
       (goes k (case held of None \<Rightarrow> Ph_Done out | Some st \<Rightarrow> Ph_Audited st out)
          (audit_at e (peer_at s k) nonce_hex (cl_start (sy_calls s ! k)) t_end (reason_str out) (sy_orch s)) s)"
| release:
    "phase_at s k (Ph_Audited st out) \<Longrightarrow>
     daemon_step ops C L sh s (goes k (Ph_Done out) (leave_slot (st_cell st) (sy_orch s)) s)"
| tick: "sy_worker s = Some [] \<Longrightarrow> daemon_step ops C L sh s (s\<lparr> sy_worker := Some [W_Snapshot] \<rparr>)"
| reload: "sy_worker s = Some [] \<Longrightarrow> daemon_step ops C L sh s (s\<lparr> sy_worker := begin_reload C L e (sy_orch s) \<rparr>)"
| work:
    "sy_worker s = Some (w # ws) \<Longrightarrow> work_step ops C sh now w (sy_orch s) = (new, os1) \<Longrightarrow>
     daemon_step ops C L sh s (s\<lparr> sy_orch := os1, sy_worker := Some (new @ ws) \<rparr>)"
| outside: "daemon_step ops C L sh s (s\<lparr> sy_orch := (sy_orch s)\<lparr> o_periph := p, o_fs := f \<rparr> \<rparr>)"

inductive_cases daemon_stepE: "daemon_step ops C L sh s s'"

text \<open>A daemon that has just started: no transaction yet, and the reload task idle.\<close>

definition fresh_system :: "'p orch \<Rightarrow> 'p system" where
  "fresh_system os = \<lparr> sy_orch = os, sy_calls = [], sy_worker = Some [] \<rparr>"

inductive reachable ::
    "'p periph_ops \<Rightarrow> crypto \<Rightarrow> toml_lib \<Rightarrow> (string list \<Rightarrow> string list) \<Rightarrow> 'p orch \<Rightarrow> 'p system \<Rightarrow> bool"
  for ops C L sh os0 where
  start: "reachable ops C L sh os0 (fresh_system os0)"
| step: "reachable ops C L sh os0 s \<Longrightarrow> daemon_step ops C L sh s s' \<Longrightarrow> reachable ops C L sh os0 s'"

section \<open>The invariant\<close>

fun phase_cell :: "call_phase \<Rightarrow> nat option" where
  "phase_cell (Ph_Queued st _) = Some (st_cell st)"
| "phase_cell (Ph_Admitted st) = Some (st_cell st)"
| "phase_cell (Ph_Ready st) = Some (st_cell st)"
| "phase_cell (Ph_Sent st _) = Some (st_cell st)"
| "phase_cell (Ph_Answered st _ _) = Some (st_cell st)"
| "phase_cell (Ph_Judged held _ _ _) = map_option st_cell held"
| "phase_cell (Ph_Audited st _) = Some (st_cell st)"
| "phase_cell (Ph_Done _) = None"

text \<open>Permits and holders of a cell add up to one; every transaction's cell exists.\<close>

definition slots_invar :: "'p system \<Rightarrow> bool" where
  "slots_invar s \<longleftrightarrow>
     (\<forall>c < length (o_cells (sy_orch s)). pc_challenge_slot (o_cells (sy_orch s) ! c) + holders c (sy_calls s) = 1) \<and>
     (\<forall>k \<in> set (sy_calls s). \<forall>c. phase_cell (cl_phase k) = Some c \<longrightarrow> c < length (o_cells (sy_orch s)))"

definition sys_invar :: "'p system \<Rightarrow> bool" where
  "sys_invar s \<longleftrightarrow> orch_invar (sy_orch s) \<and> slots_invar s"

lemma goes_simps [simp]:
  "sy_orch (goes k ph os s) = os" "sy_calls (goes k ph os s) = set_phase k ph (sy_calls s)" "sy_worker (goes k ph os s) = sy_worker s"
  by (simp_all add: goes_def)

lemma holds_phase_cell: "holds_slot c ph \<Longrightarrow> phase_cell ph = Some c"
  by (cases "(c, ph)" rule: holds_slot.cases) auto

lemma holders_append: "holders c (cs @ [k]) = holders c cs + (if holds_slot c (cl_phase k) then 1 else 0)"
  by (simp add: holders_def)

lemma holders_set_phase:
  assumes "k < length cs"
  shows "holders c (set_phase k ph cs) + (if holds_slot c (cl_phase (cs ! k)) then 1 else 0) =
         holders c cs + (if holds_slot c ph then 1 else 0)"
proof -
  have split: "cs = take k cs @ cs ! k # drop (Suc k) cs" using assms by (rule id_take_nth_drop)
  have upd: "set_phase k ph cs = take k cs @ (cs ! k)\<lparr> cl_phase := ph \<rparr> # drop (Suc k) cs"
    using assms by (simp add: set_phase_def upd_conv_take_nth_drop)
  have "holders c cs = holders c (take k cs @ cs ! k # drop (Suc k) cs)" using split by simp
  then show ?thesis unfolding upd by (simp add: holders_def)
qed

lemma phases_set_phase:
  assumes "\<forall>x \<in> set cs. P (cl_phase x)" "P ph"
  shows "\<forall>x \<in> set (set_phase k ph cs). P (cl_phase x)"
  using assms set_update_subset_insert [of cs k "(cs ! k)\<lparr> cl_phase := ph \<rparr>"] by (auto simp: set_phase_def)

section \<open>The reload task leaves the cells alone\<close>

definition cells_grow :: "'p orch \<Rightarrow> 'p orch \<Rightarrow> bool" where
  "cells_grow os os' \<longleftrightarrow> (\<exists>n. o_cells os' = o_cells os @ replicate n peer_cell_new) \<and> (orch_invar os \<longrightarrow> orch_invar os')"

lemma cells_grow_same:
  "o_cells os' = o_cells os \<Longrightarrow> (orch_invar os \<Longrightarrow> orch_invar os') \<Longrightarrow> cells_grow os os'"
  by (auto simp: cells_grow_def intro: exI [of _ 0])

lemma cells_grow_outside: "cells_grow os (os\<lparr> o_periph := p, o_fs := f \<rparr>)" "cells_grow os (os\<lparr> o_periph := p \<rparr>)"
  by (rule cells_grow_same; simp add: orch_invar_def)+

lemma cells_grow_work: "work_step ops C sh now w os = (new, os') \<Longrightarrow> cells_grow os os'"
proof (cases w)
  case (W_Map i key pk)
  assume "work_step ops C sh now w os = (new, os')"
  then have "os' = insert_peer_entry i key (Some pk) os" using W_Map by simp
  moreover have "o_cells (insert_peer_entry i key (Some pk) os) = o_cells os @ replicate 1 peer_cell_new"
    by (simp add: insert_peer_entry_def)
  ultimately show ?thesis using orch_invar_insert_peer [of os i key "Some pk"] unfolding cells_grow_def by blast
next
  case (W_Unmap i)
  assume "work_step ops C sh now w os = (new, os')"
  then have "os' = os\<lparr> o_peers := bt_remove i (o_peers os) \<rparr>" using W_Unmap by simp
  then show ?thesis by (intro cells_grow_same) (auto simp: orch_invar_def bt_invar_remove entries_ok_def bt_get_remove split: if_splits)
qed (auto intro: cells_grow_outside cells_grow_same split: prod.splits sum.splits option.splits)

section \<open>Every step keeps the invariant\<close>

lemma slots_grow:
  assumes "sys_invar s" "cells_grow (sy_orch s) (sy_orch s')" "sy_calls s' = sy_calls s"
  shows "sys_invar s'"
proof -
  let ?os = "sy_orch s"
  obtain n where n: "o_cells (sy_orch s') = o_cells ?os @ replicate n peer_cell_new" using assms(2) by (auto simp: cells_grow_def)
  have inv: "slots_invar s" using assms(1) by (simp add: sys_invar_def)
  have fresh: "holders c (sy_calls s) = 0" if "length (o_cells ?os) \<le> c" for c
  proof -
    have "\<not> holds_slot c (cl_phase k)" if "k \<in> set (sy_calls s)" for k
      using inv that \<open>length (o_cells ?os) \<le> c\<close> holds_phase_cell [of c "cl_phase k"] by (fastforce simp: slots_invar_def)
    then show ?thesis by (simp add: holders_def filter_empty_conv)
  qed
  have "slots_invar s'"
    using inv fresh assms(3) by (auto simp: slots_invar_def n nth_append peer_cell_new_def; fastforce)
  then show ?thesis using assms by (simp add: sys_invar_def cells_grow_def)
qed

text \<open>A step of one transaction on its own cell.\<close>

lemma slots_phase:
  assumes "slots_invar s" "phase_at s k ph0" "phase_cell ph0 = Some c"
    and "length (o_cells os') = length (o_cells (sy_orch s))" "phase_cell ph = Some c \<or> phase_cell ph = None"
    and "\<And>d. d \<noteq> c \<Longrightarrow> pc_challenge_slot (o_cells os' ! d) = pc_challenge_slot (o_cells (sy_orch s) ! d)"
    and "pc_challenge_slot (o_cells os' ! c) + (if holds_slot c ph then 1 else 0) =
         pc_challenge_slot (o_cells (sy_orch s) ! c) + (if holds_slot c ph0 then 1 else 0)"
  shows "slots_invar (goes k ph os' s)"
proof -
  let ?cs = "sy_calls s" and ?os = "sy_orch s"
  have k: "k < length ?cs" "cl_phase (?cs ! k) = ph0" using assms(2) by (simp_all add: phase_at_def)
  have other: "holds_slot d ph = holds_slot d ph0" if "d \<noteq> c" for d
    using assms(3,5) that holds_phase_cell [of d] by fastforce
  have c: "c < length (o_cells ?os)" using assms(1,3) k by (auto simp: slots_invar_def)
  have "pc_challenge_slot (o_cells os' ! d) + holders d (set_phase k ph ?cs) = 1" if "d < length (o_cells ?os)" for d
  proof -
    have "pc_challenge_slot (o_cells ?os ! d) + holders d ?cs = 1" using assms(1) that by (simp add: slots_invar_def)
    then show ?thesis
      using holders_set_phase [OF k(1), of d ph] assms(6) [of d] assms(7) other [of d] k(2) by (cases "d = c") (auto split: if_splits)
  qed
  moreover have "\<forall>x \<in> set (set_phase k ph ?cs). \<forall>d. phase_cell (cl_phase x) = Some d \<longrightarrow> d < length (o_cells ?os)"
    using assms(1,5) c by (intro phases_set_phase) (auto simp: slots_invar_def)
  ultimately show ?thesis using assms(4) by (simp add: slots_invar_def)
qed

lemma slot_taken:
  assumes "slots_invar s" "phase_at s k ph" "holds_slot c ph"
  shows "pc_challenge_slot (o_cells (sy_orch s) ! c) = 0 \<and> c < length (o_cells (sy_orch s))"
proof -
  let ?cs = "sy_calls s"
  have k: "k < length ?cs" "cl_phase (?cs ! k) = ph" using assms(2) by (simp_all add: phase_at_def)
  have c: "c < length (o_cells (sy_orch s))" using assms(1) k holds_phase_cell [OF assms(3)] by (auto simp: slots_invar_def)
  have "?cs ! k \<in> set (filter (\<lambda>k. holds_slot c (cl_phase k)) ?cs)" using k assms(3) by simp
  then have "holders c ?cs \<noteq> 0" unfolding holders_def by (metis empty_iff length_0_conv list.set(1))
  then show ?thesis using assms(1) c by (fastforce simp: slots_invar_def)
qed

lemma phase_step:
  assumes "sys_invar s" "phase_at s k ph0" "phase_cell ph0 = Some c"
    and "orch_invar (sy_orch s) \<Longrightarrow> orch_invar os'" "length (o_cells os') = length (o_cells (sy_orch s))"
    and "phase_cell ph = Some c \<or> phase_cell ph = None"
    and "\<And>d. d \<noteq> c \<Longrightarrow> pc_challenge_slot (o_cells os' ! d) = pc_challenge_slot (o_cells (sy_orch s) ! d)"
    and "c < length (o_cells (sy_orch s)) \<Longrightarrow> pc_challenge_slot (o_cells os' ! c) + (if holds_slot c ph then 1 else 0) =
         pc_challenge_slot (o_cells (sy_orch s) ! c) + (if holds_slot c ph0 then 1 else 0)"
  shows "sys_invar (goes k ph os' s)"
proof -
  have inv: "orch_invar (sy_orch s)" "slots_invar s" using assms(1) by (simp_all add: sys_invar_def)
  then have "c < length (o_cells (sy_orch s))" using assms(2,3) by (auto simp: slots_invar_def phase_at_def)
  then show ?thesis using slots_phase [OF inv(2) assms(2,3,5-7)] assms(4,8) inv(1) by (simp add: sys_invar_def)
qed

text \<open>A step that keeps the permit, or that has none, and leaves the permits of the cells as they are.\<close>

lemma phase_step_keep:
  assumes "sys_invar s" "phase_at s k ph0" "phase_cell ph0 = Some c" "phase_cell ph = Some c \<or> phase_cell ph = None"
    and "holds_slot c ph = holds_slot c ph0" "orch_invar (sy_orch s) \<Longrightarrow> orch_invar os'"
    and "length (o_cells os') = length (o_cells (sy_orch s))"
    and "\<And>d. pc_challenge_slot (o_cells os' ! d) = pc_challenge_slot (o_cells (sy_orch s) ! d)"
  shows "sys_invar (goes k ph os' s)"
  by (rule phase_step [OF assms(1-3,6,7,4)]) (use assms(5,8) in auto)

lemma take_slot_permits:
  "pc_challenge_slot (o_cells (take_slot c os) ! d) =
     (if d = c \<and> c < length (o_cells os) then pc_challenge_slot (o_cells os ! c) - 1 else pc_challenge_slot (o_cells os ! d))"
  and take_slot_length [simp]: "length (o_cells (take_slot c os)) = length (o_cells os)"
  by (simp_all add: take_slot_def upd_cell_def nth_list_update')

lemma leave_slot_permits:
  "pc_challenge_slot (o_cells (leave_slot c os) ! d) =
     (if d = c \<and> c < length (o_cells os) then pc_challenge_slot (o_cells os ! c) + 1 else pc_challenge_slot (o_cells os ! d))"
  and leave_slot_length [simp]: "length (o_cells (leave_slot c os)) = length (o_cells os)"
  by (simp_all add: leave_slot_def upd_cell_def nth_list_update')

lemma orch_invar_take: "orch_invar os \<Longrightarrow> orch_invar (take_slot c os)"
  unfolding take_slot_def by (rule orch_invar_upd_cell) auto

lemma stamp_cell_keeps:
  "orch_invar os \<Longrightarrow> orch_invar (stamp_cell c now os)" "length (o_cells (stamp_cell c now os)) = length (o_cells os)"
  "pc_challenge_slot (o_cells (stamp_cell c now os) ! d) = pc_challenge_slot (o_cells os ! d)"
  unfolding stamp_cell_def by (rule orch_invar_upd_cell, auto simp: upd_cell_def nth_list_update')

lemma judge_keeps:
  assumes "judge_response C st ch bs os = (out, os1)"
  shows "orch_invar os \<Longrightarrow> orch_invar os1" "length (o_cells os1) = length (o_cells os)"
    "pc_challenge_slot (o_cells os1 ! d) = pc_challenge_slot (o_cells os ! d)"
  using assms orch_invar_remember [of os "f_nonce ch" "st_cell st"]
  by (auto simp: judge_response_def remember_def cell_nonces_def upd_cell_def nth_list_update' split: option.splits sum.splits if_splits)

lemma audit_keeps: "orch_invar (audit_at e i nh a b r os) = orch_invar os" "o_cells (audit_at e i nh a b r os) = o_cells os"
  using orch_invar_cong [of "audit_at e i nh a b r os" os] by simp_all

lemma send_keeps: "send_challenge ops C i nonce st os = (r, os1) \<Longrightarrow> \<exists>p. os1 = os\<lparr> o_periph := p \<rparr>"
  using send_challenge_state [of ops C i nonce st os] by auto

lemma judged_done:
  assumes "sys_invar s" "phase_at s k (Ph_Judged None nh t out)"
  shows "sys_invar (goes k (Ph_Done out) (audit_at e i nh a b r (sy_orch s)) s)"
proof -
  have k: "k < length (sy_calls s)" "cl_phase (sy_calls s ! k) = Ph_Judged None nh t out" using assms(2) by (simp_all add: phase_at_def)
  have "holders c (set_phase k (Ph_Done out) (sy_calls s)) = holders c (sy_calls s)" for c
    using holders_set_phase [OF k(1), of c "Ph_Done out"] k(2) by simp
  moreover have "\<forall>x \<in> set (set_phase k (Ph_Done out) (sy_calls s)). \<forall>d. phase_cell (cl_phase x) = Some d \<longrightarrow> d < length (o_cells (sy_orch s))"
    using assms(1) by (intro phases_set_phase) (auto simp: sys_invar_def slots_invar_def)
  ultimately show ?thesis using assms(1) by (simp add: sys_invar_def slots_invar_def audit_keeps)
qed

lemma call_invar:
  assumes "sys_invar s" "\<And>c. phase_cell ph = Some c \<Longrightarrow> c < length (o_cells (sy_orch s))" "\<And>c. \<not> holds_slot c ph"
  shows "sys_invar (s\<lparr> sy_calls := sy_calls s @ [\<lparr> cl_peer = i, cl_start = t, cl_phase = ph \<rparr>] \<rparr>)"
  using assms by (auto simp: sys_invar_def slots_invar_def holders_append)

lemma daemon_step_invar:
  assumes "daemon_step ops C L sh s s'" "sys_invar s"
  shows "sys_invar s'"
  using assms
proof (induction rule: daemon_step.induct)
  case (call_queued s i st t now)
  then show ?case using lookup_peer_cell [of "sy_orch s" i st] by (intro call_invar) (auto simp: sys_invar_def)
next
  case (admit s k st w)
  then show ?case
    by (intro phase_step [OF admit(3,1), of "st_cell st"])
       (auto simp: take_slot_permits orch_invar_take slot_poll_def permits_at_def split: if_splits)
next
  case (stamp s k st now)
  then show ?case by (intro phase_step_keep [OF stamp(2,1), of "st_cell st"]) (simp_all add: stamp_cell_keeps)
next
  case (send_fails s k st nonce out os1 now)
  then show ?case by (intro phase_step_keep [OF send_fails(3,1), of "st_cell st"]) (use send_keeps [OF send_fails(2)] in auto)
next
  case (send s k st nonce ch os1)
  then show ?case by (intro phase_step_keep [OF send(3,1), of "st_cell st"]) (use send_keeps [OF send(2)] in auto)
next
  case (judge s k st ch bs out os1 now)
  then show ?case by (intro phase_step_keep [OF judge(3,1), of "st_cell st"]) (simp_all add: judge_keeps [OF judge(2)])
next
  case (audit s k held nh t out e)
  then show ?case
  proof (cases held)
    case (Some st)
    then show ?thesis using audit by (auto intro!: phase_step_keep [OF audit(2,1), of "st_cell st"] simp: audit_keeps)
  qed (simp add: judged_done)
next
  case (release s k st out)
  have taken: "pc_challenge_slot (o_cells (sy_orch s) ! st_cell st) = 0"
    using slot_taken [OF _ release(1), of "st_cell st"] release(2) by (simp add: sys_invar_def)
  show ?case
    by (rule phase_step [OF release(2,1), of "st_cell st"])
       (use taken in \<open>auto simp: orch_invar_leave leave_slot_permits\<close>)
next
  case (work s w ws now new os1)
  then show ?case using cells_grow_work by (intro slots_grow [OF work(3)]) auto
next
  case (outside s p f)
  then show ?case by (intro slots_grow [OF outside]) (simp_all add: cells_grow_outside)
next
  case (waits s k st w d)
  then show ?case by (intro phase_step_keep [OF waits(3,1), of "st_cell st"]) simp_all
next
  case (busy s k st w now)
  then show ?case by (intro phase_step_keep [OF busy(3,1), of "st_cell st"]) simp_all
next
  case (rng_fails s k st out err now)
  then show ?case by (intro phase_step_keep [OF rng_fails(3,1), of "st_cell st"]) simp_all
next
  case (response_fails s k st ch d err p1 now)
  then show ?case by (intro phase_step_keep [OF response_fails(3,1), of "st_cell st"]) simp_all
next
  case (response s k st ch d bs p1)
  then show ?case by (intro phase_step_keep [OF response(3,1), of "st_cell st"]) simp_all
qed (auto intro: call_invar simp: sys_invar_def slots_invar_def holders_append)

lemma reachable_invar:
  assumes "reachable ops C L sh os0 s" "orch_invar os0" "\<forall>pc \<in> set (o_cells os0). pc_challenge_slot pc = 1"
  shows "sys_invar s"
  using assms(1)
proof induction
  case start
  then show ?case using assms(2,3) by (simp add: sys_invar_def slots_invar_def holders_def fresh_system_def)
qed (rule daemon_step_invar)

section \<open>The tasks by themselves\<close>

text \<open>
  The sequential definitions are what the steps amount to when nothing comes in
  between.  For the wait: the permit is got in time exactly if some poll up to
  the deadline finds it free.
\<close>

lemma acquire_by_polls:
  "acquire_challenge_slot ce permits \<longleftrightarrow>
     (\<exists>w \<le> BUSY_QUEUE_DEADLINE. slot_poll w (if permits > 0 \<or> (\<exists>t \<le> w. ce_slot_wait ce = Some t) then 1 else 0) = Some True)"
  by (auto simp: acquire_challenge_slot_def slot_poll_def split: option.splits if_splits)

abbreviation runs_to ::
    "'p periph_ops \<Rightarrow> crypto \<Rightarrow> toml_lib \<Rightarrow> (string list \<Rightarrow> string list) \<Rightarrow> 'p system \<Rightarrow> 'p system \<Rightarrow> bool" where
  "runs_to ops C L sh \<equiv> (daemon_step ops C L sh)\<^sup>*\<^sup>*"

lemma work_alone:
  assumes "work_step ops C sh now w os = (new, os1)"
    and "runs_to ops C L sh (s\<lparr> sy_orch := os1, sy_worker := Some (new @ ws) \<rparr>) s'"
  shows "runs_to ops C L sh (s\<lparr> sy_orch := os, sy_worker := Some (w # ws) \<rparr>) s'"
  using daemon_step.work [of "s\<lparr> sy_orch := os, sy_worker := Some (w # ws) \<rparr>" w ws ops C sh now new os1 L] assms
  by (auto intro: converse_rtranclp_into_rtranclp)

lemma remove_alone:
  "runs_to ops C L sh (s\<lparr> sy_orch := os, sy_worker := Some (W_Remove i # ws) \<rparr>)
     (s\<lparr> sy_orch := do_remove_peer ops i os, sy_worker := Some ws \<rparr>)"
proof (cases "op_remove_peer ops i (o_periph os)")
  case (Pair r p1)
  show ?thesis
  proof (cases r)
    case (Inl err)
    then show ?thesis using Pair by (intro work_alone [where new = "[]"]) (auto simp: do_remove_peer_def)
  next
    case (Inr u)
    then show ?thesis using Pair
      by (intro work_alone [where new = "[W_Unmap i]" and w = "W_Remove i"] work_alone [where new = "[]" and w = "W_Unmap i"]
          | simp add: do_remove_peer_def)+
  qed
qed

lemma add_alone:
  "runs_to ops C L sh (s\<lparr> sy_orch := os, sy_worker := Some (W_Add store i key # ws) \<rparr>)
     (s\<lparr> sy_orch := do_add_peer ops store i key os, sy_worker := Some ws \<rparr>)"
proof (cases "find (\<lambda>b. b_peer_id b = i) (bs_list store)")
  case None
  then show ?thesis by (intro work_alone [where new = "[]"]) (auto simp: do_add_peer_def)
next
  case (Some b)
  obtain r p1 where p: "op_add_peer ops i key (o_periph os) = (r, p1)" by fastforce
  show ?thesis
  proof (cases r)
    case (Inl err)
    then show ?thesis using Some p by (intro work_alone [where new = "[]"]) (auto simp: do_add_peer_def)
  next
    case (Inr u)
    then show ?thesis using Some p
      by (intro work_alone [where new = "[W_Map i key (b_pubkey b)]" and w = "W_Add store i key"]
            work_alone [where new = "[]" and w = "W_Map i key (b_pubkey b)"]
          | simp add: do_add_peer_def)+
  qed
qed

lemma removes_alone:
  "runs_to ops C L sh (s\<lparr> sy_orch := os, sy_worker := Some (map W_Remove is @ ws) \<rparr>)
     (s\<lparr> sy_orch := foldl (\<lambda>os i. do_remove_peer ops i os) os is, sy_worker := Some ws \<rparr>)"
  by (induction "is" arbitrary: os) (auto intro: rtranclp_trans [OF remove_alone])

lemma adds_alone:
  "runs_to ops C L sh (s\<lparr> sy_orch := os, sy_worker := Some (concat (map (add_work store new_set) is) @ ws) \<rparr>)
     (s\<lparr> sy_orch := foldl (\<lambda>os i. case bt_get new_set i of None \<Rightarrow> os | Some key \<Rightarrow> do_add_peer ops store i key os) os is,
        sy_worker := Some ws \<rparr>)"
proof (induction "is" arbitrary: os)
  case (Cons i "is")
  show ?case
  proof (cases "bt_get new_set i")
    case (Some key)
    then show ?thesis using rtranclp_trans [OF add_alone Cons.IH [of "do_add_peer ops store i key os"]] by (simp add: add_work_def)
  qed (use Cons.IH [of os] in \<open>simp add: add_work_def\<close>)
qed simp

lemma rotate_alone:
  "runs_to ops C L sh (s\<lparr> sy_orch := os, sy_worker := Some (W_Snapshot # ws) \<rparr>)
     (s\<lparr> sy_orch := snd (rotate_once ops C now os), sy_worker := Some ws \<rparr>)"
proof -
  have "snd (rotate_once ops C now os) =
      os\<lparr> o_periph := snd (op_set_session_uuids ops (build_uuid_union C (snapshot_peers os) (minute_index now)) (o_periph os)) \<rparr>"
    by (simp add: rotate_once_def Let_def split: prod.splits sum.splits)
  then have "runs_to ops C L sh (s\<lparr> sy_orch := os, sy_worker := Some (W_Publish (minute_index now) (snapshot_peers os) # ws) \<rparr>)
      (s\<lparr> sy_orch := snd (rotate_once ops C now os), sy_worker := Some ws \<rparr>)"
    by (intro work_alone [where new = "[]"]) auto
  then show ?thesis by (intro work_alone [where w = W_Snapshot and now = now]) auto
qed

lemma reload_alone:
  assumes "sy_worker s = Some []" "bs_load L (cr_blake3 C) e (o_fs (sy_orch s)) (o_bonds_file (sy_orch s)) = Ok store"
  shows "runs_to ops C L sh s (s\<lparr> sy_orch := run_reload ops C L e sh now tr (sy_orch s) \<rparr>)"
proof -
  let ?os = "sy_orch s" and ?new = "compute_new_set e store (sy_orch s)"
  obtain to_add to_remove where diff: "compute_diff sh ?new ?os = (to_add, to_remove)" by fastforce
  have "daemon_step ops C L sh s (s\<lparr> sy_orch := ?os, sy_worker := Some [W_Diff store ?new] \<rparr>)"
    using daemon_step.reload [OF assms(1), of ops C L sh e] assms(2) by (simp add: begin_reload_def)
  moreover have "runs_to ops C L sh (s\<lparr> sy_orch := ?os, sy_worker := Some [W_Diff store ?new] \<rparr>)
      (s\<lparr> sy_orch := reload_bonds_with_trigger ops C e sh now store tr ?os, sy_worker := Some [] \<rparr>)"
    unfolding reload_bonds_with_trigger_def Let_def diff
    by (intro work_alone [where new = "map W_Remove to_remove @ concat (map (add_work store ?new) to_add) @ [W_Snapshot]"])
       (use rtranclp_trans [OF removes_alone rtranclp_trans [OF adds_alone rotate_alone]] in \<open>simp_all add: diff\<close>)
  moreover have "s\<lparr> sy_orch := x, sy_worker := Some [] \<rparr> = s\<lparr> sy_orch := x \<rparr>" for x using assms(1) by (cases s) simp
  ultimately show ?thesis
    using assms(2) by (simp add: run_reload_def converse_rtranclp_into_rtranclp)
qed

text \<open>A system with one more transaction, in its last place.\<close>

definition with_call :: "string \<Rightarrow> nat \<Rightarrow> 'p system \<Rightarrow> 'p orch \<Rightarrow> call_phase \<Rightarrow> 'p system" where
  "with_call i t s os ph = s\<lparr> sy_orch := os, sy_calls := sy_calls s @ [\<lparr> cl_peer = i, cl_start = t, cl_phase = ph \<rparr>] \<rparr>"

lemma with_call_simps [simp]:
  "sy_orch (with_call i t s os ph) = os" "peer_at (with_call i t s os ph) (length (sy_calls s)) = i"
  "cl_start (sy_calls (with_call i t s os ph) ! length (sy_calls s)) = t"
  "phase_at (with_call i t s os ph) (length (sy_calls s)) ph' \<longleftrightarrow> ph' = ph"
  "goes (length (sy_calls s)) ph' os' (with_call i t s os ph) = with_call i t s os' ph'"
  by (auto simp: with_call_def peer_at_def phase_at_def goes_def set_phase_def)

lemma audit_release_alone:
  "runs_to ops C L sh (with_call i t s os (Ph_Judged (Some st) nh te out))
     (with_call i t s (leave_slot (st_cell st) (audit_at e i nh t te (reason_str out) os)) (Ph_Done out))"
proof -
  let ?w = "with_call i t s" and ?k = "length (sy_calls s)" and ?os = "audit_at e i nh t te (reason_str out) os"
  have "daemon_step ops C L sh (?w os (Ph_Judged (Some st) nh te out)) (?w ?os (Ph_Audited st out))"
    using daemon_step.audit [of "?w os (Ph_Judged (Some st) nh te out)" ?k "Some st" nh te out ops C L sh e] by simp
  moreover have "daemon_step ops C L sh (?w ?os (Ph_Audited st out)) (?w (leave_slot (st_cell st) ?os) (Ph_Done out))"
    using daemon_step.release [of "?w ?os (Ph_Audited st out)" ?k st out] by simp
  ultimately show ?thesis by (meson r_into_rtranclp rtranclp.rtrancl_into_rtrancl)
qed

lemma receive_alone:
  assumes "receive_response ops C i d st ch os = (out, os1)"
  shows "runs_to ops C L sh (with_call i t s os (Ph_Sent st ch))
     (with_call i t s os1 (Ph_Judged (Some st) (hex_lowercase (f_nonce ch)) (epoch_millis now) out))"
proof (cases "op_wait_for_response ops i d (o_periph os)")
  case (Pair r p1)
  let ?w = "with_call i t s" and ?k = "length (sy_calls s)"
  show ?thesis
  proof (cases r)
    case (Inl err)
    then show ?thesis
      using Pair assms daemon_step.response_fails [of "?w os (Ph_Sent st ch)" ?k st ch ops d err p1 C L sh now]
      by (simp add: receive_response_def)
  next
    case (Inr bs)
    let ?os = "os\<lparr> o_periph := p1 \<rparr>"
    have "daemon_step ops C L sh (?w os (Ph_Sent st ch)) (?w ?os (Ph_Answered st ch bs))"
      using Pair Inr daemon_step.response [of "?w os (Ph_Sent st ch)" ?k st ch ops d bs p1] by simp
    moreover have "daemon_step ops C L sh (?w ?os (Ph_Answered st ch bs))
        (?w os1 (Ph_Judged (Some st) (hex_lowercase (f_nonce ch)) (epoch_millis now) out))"
      using Pair Inr assms daemon_step.judge [of "?w ?os (Ph_Answered st ch bs)" ?k st ch bs C out os1 ops L sh now]
      by (simp add: receive_response_def)
    ultimately show ?thesis by (meson r_into_rtranclp rtranclp.rtrancl_into_rtrancl)
  qed
qed

lemma run_challenge_alone:
  assumes "run_challenge ops C e i nonce d st t now os = (out, os1)"
  shows "runs_to ops C L sh (with_call i t s os (Ph_Ready st)) (with_call i t s (leave_slot (st_cell st) os1) (Ph_Done out))"
proof (cases "send_challenge ops C i nonce st os")
  case (Pair r os0)
  let ?w = "with_call i t s" and ?k = "length (sy_calls s)" and ?j = "\<lambda>out. Ph_Judged (Some st) (hex_lowercase nonce) (epoch_millis now) out"
  have "\<exists>os2. runs_to ops C L sh (?w os (Ph_Ready st)) (?w os2 (?j out)) \<and>
      os1 = audit_at e i (hex_lowercase nonce) t (epoch_millis now) (reason_str out) os2"
  proof (cases r)
    case (Inl o1)
    then show ?thesis
      using Pair assms daemon_step.send_fails [of "?w os (Ph_Ready st)" ?k st ops C nonce o1 os0 L sh now]
      by (auto simp: run_challenge_def)
  next
    case (Inr ch)
    have n: "f_nonce ch = nonce" using Pair Inr by (auto simp: send_challenge_eq challenge_of_def split: prod.splits sum.splits)
    obtain os2 where os2: "receive_response ops C i d st ch os0 = (out, os2)"
        "os1 = audit_at e i (hex_lowercase nonce) t (epoch_millis now) (reason_str out) os2"
      using Pair Inr assms by (auto simp: run_challenge_def split: prod.splits)
    have "daemon_step ops C L sh (?w os (Ph_Ready st)) (?w os0 (Ph_Sent st ch))"
      using Pair Inr daemon_step.send [of "?w os (Ph_Ready st)" ?k st ops C nonce ch os0] by simp
    then show ?thesis using receive_alone [OF os2(1), of L sh t s now] os2(2) n by (metis converse_rtranclp_into_rtranclp)
  qed
  then show ?thesis using rtranclp_trans [OF _ audit_release_alone] by blast
qed

lemma enter_alone:
  assumes "lookup_peer (sy_orch s) i = Some st" "permits_at s st > 0"
  shows "runs_to ops C L sh s
    (with_call i (epoch_millis start) s (enter_slot (st_cell st) now (sy_orch s)) (Ph_Ready st))"
proof -
  let ?w = "with_call i (epoch_millis start) s" and ?os = "sy_orch s" and ?k = "length (sy_calls s)" and ?c = "st_cell st"
  have "daemon_step ops C L sh s (?w ?os (Ph_Queued st 0))"
    using daemon_step.call_queued [OF assms(1) refl, of ops C L sh start] by (simp add: with_call_def)
  moreover have "daemon_step ops C L sh (?w ?os (Ph_Queued st 0)) (?w (take_slot ?c ?os) (Ph_Admitted st))"
    using assms(2) daemon_step.admit [of "?w ?os (Ph_Queued st 0)" ?k st 0] by (simp add: slot_poll_def permits_at_def)
  moreover have "daemon_step ops C L sh (?w (take_slot ?c ?os) (Ph_Admitted st)) (?w (enter_slot ?c now ?os) (Ph_Ready st))"
    using daemon_step.stamp [of "?w (take_slot ?c ?os) (Ph_Admitted st)" ?k st] by (simp add: enter_slot_steps)
  ultimately show ?thesis by (meson r_into_rtranclp rtranclp.rtrancl_into_rtrancl)
qed

text \<open>A transaction whose permit is free, with nothing in between, is \<open>issue_challenge\<close>.\<close>

lemma issue_challenge_alone:
  assumes "issue_challenge ops C e ce i d (sy_orch s) = (out, os')"
    and "\<And>st. lookup_peer (sy_orch s) i = Some st \<Longrightarrow> permits_at s st > 0"
  shows "runs_to ops C L sh s (with_call i (epoch_millis (ce_start ce)) s os' (Ph_Done out))"
proof -
  let ?t = "epoch_millis (ce_start ce)" and ?os = "sy_orch s" and ?k = "length (sy_calls s)"
  let ?w = "with_call i ?t s"
  show ?thesis
  proof (cases "lookup_peer ?os i")
    case None
    have "daemon_step ops C L sh s (?w ?os (Ph_Judged None ZERO_NONCE_HEX ?t Co_UnknownPeer))"
      using daemon_step.call_unknown [OF None refl, of ops C L sh "ce_start ce"] by (simp add: with_call_def)
    moreover have "daemon_step ops C L sh (?w ?os (Ph_Judged None ZERO_NONCE_HEX ?t Co_UnknownPeer)) (?w os' (Ph_Done out))"
      using assms(1) None daemon_step.audit [of "?w ?os (Ph_Judged None ZERO_NONCE_HEX ?t Co_UnknownPeer)" ?k None _ _ _ ops C L sh e]
      by (auto simp: issue_challenge_def audit_outcome_def Let_def)
    ultimately show ?thesis by (meson r_into_rtranclp rtranclp.rtrancl_into_rtrancl)
  next
    case (Some st)
    let ?c = "st_cell st" and ?os1 = "enter_slot (st_cell st) (ce_slot ce) ?os"
    have acq: "acquire_challenge_slot ce (pc_challenge_slot (o_cells ?os ! ?c))"
      using assms(2) [OF Some] by (simp add: acquire_challenge_slot_def permits_at_def)
    have "runs_to ops C L sh (?w ?os1 (Ph_Ready st)) (?w os' (Ph_Done out))"
    proof (cases "ce_rng ce")
      case (Inl err)
      let ?out = "Co_TransportError (Pe_Backend (''nonce rng: '' @ err))"
      have "daemon_step ops C L sh (?w ?os1 (Ph_Ready st)) (?w ?os1 (Ph_Judged (Some st) ZERO_NONCE_HEX (epoch_millis (ce_end ce)) ?out))"
        using daemon_step.rng_fails [of "?w ?os1 (Ph_Ready st)" ?k st ?out err] by simp
      then show ?thesis
        using assms(1) Some acq Inl audit_release_alone [of ops C L sh i ?t s ?os1 st ZERO_NONCE_HEX "epoch_millis (ce_end ce)" ?out e]
        by (auto simp: issue_challenge_def Let_def intro: converse_rtranclp_into_rtranclp)
    next
      case (Inr nonce)
      then obtain os2 where "run_challenge ops C e i nonce d st ?t (ce_end ce) ?os1 = (out, os2)" "os' = leave_slot ?c os2"
        using assms(1) Some acq by (auto simp: issue_challenge_def Let_def split: prod.splits)
      then show ?thesis using run_challenge_alone by blast
    qed
    then show ?thesis using rtranclp_trans [OF enter_alone [OF Some assms(2) [OF Some]]] by blast
  qed
qed

section \<open>Properties\<close>

text \<open>
  C6: at most one challenge per registration of a phone is in flight.  In every
  interleaving of any number of transactions with the steps of reloads and
  rotations, no two transactions hold the permit of one registration, that is,
  of one entry that the daemon made for a phone, and every row of the status
  answer gives, for the entry the phone has at that moment, the number of
  transactions that hold its permit.
\<close>

theorem one_challenge_in_flight:
  assumes "reachable ops C L sh os0 s" "orch_invar os0" "\<forall>pc \<in> set (o_cells os0). pc_challenge_slot pc = 1"
  shows "(\<forall>c. holders c (sy_calls s) \<le> 1) \<and>
    (\<forall>row \<in> set (peers_snapshot C' now (sy_orch s)).
       \<exists>pe. bt_get (o_peers (sy_orch s)) (ps_peer_id row) = Some pe \<and> ps_in_flight_challenges row = holders (pe_cell pe) (sy_calls s))"
proof -
  have inv: "sys_invar s" by (rule reachable_invar [OF assms(1-3)])
  have sum: "pc_challenge_slot (o_cells (sy_orch s) ! c) + holders c (sy_calls s) = 1" if "c < length (o_cells (sy_orch s))" for c
    using inv that by (simp add: sys_invar_def slots_invar_def)
  have "holders c (sy_calls s) \<le> 1" for c
  proof (cases "c < length (o_cells (sy_orch s))")
    case False
    have "\<not> holds_slot c (cl_phase k)" if "k \<in> set (sy_calls s)" for k
    proof
      assume h: "holds_slot c (cl_phase k)"
      then have "phase_cell (cl_phase k) = Some c" by (cases "(c, cl_phase k)" rule: holds_slot.cases) auto
      with inv that False show False by (auto simp: sys_invar_def slots_invar_def)
    qed
    then show ?thesis by (simp add: holders_def)
  qed (use sum in force)
  moreover have "\<exists>pe. bt_get (o_peers (sy_orch s)) (ps_peer_id row) = Some pe \<and> ps_in_flight_challenges row = holders (pe_cell pe) (sy_calls s)"
    if snap: "row \<in> set (peers_snapshot C' now (sy_orch s))" for row
  proof -
    obtain i pe where row: "(i, pe) \<in> set (o_peers (sy_orch s))" "ps_peer_id row = i"
        "ps_in_flight_challenges row = challenge_slot_in_flight (pc_challenge_slot (o_cells (sy_orch s) ! pe_cell pe))"
      using snap by (auto simp: peers_snapshot_def Let_def)
    have pe: "bt_get (o_peers (sy_orch s)) i = Some pe"
      using row(1) inv by (simp add: sys_invar_def orch_invar_def bt_get_def bt_invar_def strict_sorted_iff)
    then have "pe_cell pe < length (o_cells (sy_orch s))"
      using inv by (auto simp: sys_invar_def orch_invar_def entries_ok_def)
    from sum [OF this] show ?thesis using row(2,3) pe by (auto simp: challenge_slot_in_flight_def)
  qed
  ultimately show ?thesis by blast
qed

text \<open>
  A phone that a reload puts back into the map gets an entry of its own, with a
  permit and an empty nonce cache: transactions and nonces of the entry it had
  before do not count for the new one.
\<close>

theorem reregistration_starts_afresh:
  "\<exists>os'. work_step ops C sh now (W_Map i key pk) os = ([], os') \<and>
     lookup_peer os' i = Some \<lparr> st_phone_pubkey = pk, st_bond_key = key, st_cell = length (o_cells os) \<rparr> \<and>
     o_cells os' ! length (o_cells os) = peer_cell_new"
  by (simp add: insert_peer_entry_def lookup_peer_def bt_get_insert)

text \<open>One transaction on the fake peripheral has been admitted.\<close>

definition ex_state :: peer_state where
  "ex_state = \<lparr> st_phone_pubkey = replicate 32 3, st_bond_key = replicate 32 9, st_cell = 0 \<rparr>"

definition ex_admitted :: "fake_state system" where
  "ex_admitted = with_call ''a'' 0 (fresh_system ex_orch) (enter_slot 0 0 ex_orch) (Ph_Ready ex_state)"

lemma reachable_runs: "runs_to ops C L sh s s' \<Longrightarrow> reachable ops C L sh os0 s \<Longrightarrow> reachable ops C L sh os0 s'"
  by (induction rule: rtranclp_induct) (auto intro: reachable.intros)

lemma ex_admitted_reachable: "reachable fake_ops ex_crypto ex_toml1 (\<lambda>x. x) ex_orch ex_admitted"
proof -
  have "lookup_peer (sy_orch (fresh_system ex_orch)) ''a'' = Some ex_state" "permits_at (fresh_system ex_orch) ex_state > 0"
    by (simp_all add: fresh_system_def permits_at_def lookup_peer_def ex_orch_of_def bt_get_def ex_state_def peer_cell_new_def)
  from reachable_runs [OF enter_alone [OF this, of fake_ops ex_crypto ex_toml1 "\<lambda>x. x" 0 0] reachable.start]
  show ?thesis by (simp add: ex_admitted_def epoch_millis_def ex_state_def fresh_system_def)
qed

theorem one_challenge_in_flight_witness:
  "map ps_in_flight_challenges (peers_snapshot ex_crypto 0 (sy_orch ex_admitted)) = [1] \<and> holders 0 (sy_calls ex_admitted) = 1"
proof -
  have snap: "\<exists>row. peers_snapshot ex_crypto 0 (sy_orch ex_admitted) = [row] \<and> ps_peer_id row = ''a''"
    by (simp add: ex_admitted_def peers_snapshot_def ex_orch_of_def Let_def)
  then obtain row where row: "peers_snapshot ex_crypto 0 (sy_orch ex_admitted) = [row]" "ps_peer_id row = ''a''" by blast
  have "\<forall>pc \<in> set (o_cells ex_orch). pc_challenge_slot pc = 1" by (simp add: ex_orch_of_def peer_cell_new_def)
  from one_challenge_in_flight [OF ex_admitted_reachable ex_orch_invar this, of ex_crypto 0]
  obtain pe where "bt_get (o_peers (sy_orch ex_admitted)) ''a'' = Some pe" "ps_in_flight_challenges row = holders (pe_cell pe) (sy_calls ex_admitted)"
    using row by auto
  moreover have "holders 0 (sy_calls ex_admitted) = 1"
    by (simp add: ex_admitted_def with_call_def fresh_system_def holders_def ex_state_def)
  ultimately show ?thesis using row(1) by (auto simp: ex_admitted_def ex_orch_of_def bt_get_def)
qed

end
