(* ===== verification/Server.thy ===== *)
theory Server
  imports Interleaving
begin

text \<open>
  The Unix-socket server of \<open>syauth-presenced/src/server.rs\<close>: the dispatcher, the
  handler of one connection, and the accept loop with its cap on concurrent
  connections.  A connection is the bytes the peer has sent and the bytes the
  peer will read; the CBOR library is an argument.  A bound socket is an empty
  file of the file system.
\<close>

definition LISTEN_MODE :: mode where [const_defs]: "LISTEN_MODE = 384" \<comment> \<open>0o600\<close>
definition CONCURRENT_ACCEPT_CAP :: nat where [const_defs]: "CONCURRENT_ACCEPT_CAP = 4"
definition STUB_CHALLENGE_REASON :: string where [const_defs]: "STUB_CHALLENGE_REASON = ''not-implemented''"
definition UID_ROOT :: "32 word" where [const_defs]: "UID_ROOT = 0"
definition UID_NOBODY :: "32 word" where [const_defs]: "UID_NOBODY = 65534"

datatype serve_error = Serve_Bind path io_error | Serve_Chmod path io_error

datatype handler_error = He_PeerCredentials nat | He_Frame rpc_error

section \<open>The reload channel\<close>

text \<open>
  A bounded channel of reload commands.  Sending on a closed channel fails, on a
  full one it waits: then there is no answer yet.
\<close>

record reload_chan =
  rq_open :: bool
  rq_queue :: "reload_trigger list"

definition reload_send :: "reload_trigger \<Rightarrow> reload_chan \<Rightarrow> (bool \<times> reload_chan) option" where
  "reload_send t ch =
     (if \<not> rq_open ch then Some (False, ch)
      else if length (rq_queue ch) < RELOAD_CHANNEL_CAPACITY then Some (True, ch\<lparr> rq_queue := rq_queue ch @ [t] \<rparr>)
      else None)"

section \<open>Dispatch\<close>

record 'p daemon =
  d_orch :: "'p orch option"
  d_reload :: "reload_chan option"

record serve_config =
  sc_socket_path :: path
  sc_expected_uid :: "32 word option"
  sc_test_fixed_nonce :: "bytes option"
  sc_started_at :: int

definition dispatch_challenge ::
    "'p periph_ops \<Rightarrow> crypto \<Rightarrow> sys_env \<Rightarrow> call_env \<Rightarrow> bytes option \<Rightarrow> string \<Rightarrow> 'p daemon \<Rightarrow> response \<times> 'p daemon" where
  "dispatch_challenge ops C e ce fixed peer_id D =
     (case d_orch D of
        None \<Rightarrow> (Resp_Challenge False None STUB_CHALLENGE_REASON, D)
      | Some os \<Rightarrow>
          (case (case fixed of
                   Some nonce \<Rightarrow> issue_challenge_with_nonce ops C e ce peer_id nonce DEFAULT_AUTH_TIMEOUT os
                 | None \<Rightarrow> issue_challenge ops C e ce peer_id DEFAULT_AUTH_TIMEOUT os) of
             (outcome, os1) \<Rightarrow>
               (Resp_Challenge (case outcome of Co_Ok _ \<Rightarrow> True | _ \<Rightarrow> False) (signature_bytes outcome) (reason_str outcome),
                D\<lparr> d_orch := Some os1 \<rparr>)))"

fun dispatch ::
    "'p periph_ops \<Rightarrow> crypto \<Rightarrow> sys_env \<Rightarrow> call_env \<Rightarrow> serve_config \<Rightarrow> request \<Rightarrow> 'p daemon \<Rightarrow> (response \<times> 'p daemon) option" where
  "dispatch ops C e ce cfg (Req_Challenge peer_id _) D =
     Some (dispatch_challenge ops C e ce (sc_test_fixed_nonce cfg) peer_id D)"
| "dispatch ops C e ce cfg Req_Reload D =
     (case d_reload D of
        None \<Rightarrow> Some (Resp_Reload False, D)
      | Some ch \<Rightarrow>
          (case reload_send Rt_Rpc ch of
             None \<Rightarrow> None
           | Some (sent, ch1) \<Rightarrow> Some (Resp_Reload sent, D\<lparr> d_reload := Some ch1 \<rparr>)))"
| "dispatch ops C e ce cfg Req_Status D =
     Some (Resp_Status (case d_orch D of None \<Rightarrow> [] | Some os \<Rightarrow> peers_snapshot C (ce_start ce) os) (sc_started_at cfg), D)"

section \<open>One connection\<close>

text \<open>
  \<open>handle_connection\<close>: the credentials of the peer, one request, one response.  The
  user id is only compared for a warning.  The result is \<open>None\<close> while the
  dispatcher waits on a full reload channel.
\<close>

record cbor =
  cb_req_enc :: "request \<Rightarrow> bytes option"
  cb_req_dec :: "bytes \<Rightarrow> request option"
  cb_resp_enc :: "response \<Rightarrow> bytes option"
  cb_resp_dec :: "bytes \<Rightarrow> response option"

text \<open>What the program relies on of the CBOR library: it decodes what it encodes.\<close>

definition cbor_ok :: "cbor \<Rightarrow> bool" where
  "cbor_ok B \<longleftrightarrow> (\<forall>q p. cb_req_enc B q = Some p \<longrightarrow> cb_req_dec B p = Some q) \<and>
     (\<forall>r p. cb_resp_enc B r = Some p \<longrightarrow> cb_resp_dec B p = Some (on_wire r))"

definition unexpected_uid :: "32 word \<Rightarrow> 32 word \<Rightarrow> bool" where
  "unexpected_uid expected uid \<longleftrightarrow> uid \<noteq> expected \<and> uid \<noteq> UID_ROOT \<and> uid \<noteq> UID_NOBODY"

record conn_result =
  cr_result :: "handler_error + unit"
  cr_warned :: bool
  cr_written :: bytes

definition handle_connection ::
    "'p periph_ops \<Rightarrow> crypto \<Rightarrow> cbor \<Rightarrow> sys_env \<Rightarrow> call_env \<Rightarrow> serve_config \<Rightarrow> 32 word \<Rightarrow> (nat + 32 word) \<Rightarrow> bytes \<Rightarrow> 'p daemon \<Rightarrow>
     (conn_result \<times> 'p daemon) option" where
  "handle_connection ops C B e ce cfg expected creds inp D =
     (case creds of
        Inl errno \<Rightarrow> Some (\<lparr> cr_result = Err (He_PeerCredentials errno), cr_warned = False, cr_written = [] \<rparr>, D)
      | Inr uid \<Rightarrow>
          (let warned = unexpected_uid expected uid in
           case read_frame (cb_req_dec B) inp of
             (Inl err, _) \<Rightarrow> Some (\<lparr> cr_result = Err (He_Frame err), cr_warned = warned, cr_written = [] \<rparr>, D)
           | (Inr request, _) \<Rightarrow>
               (case dispatch ops C e ce cfg request D of
                  None \<Rightarrow> None
                | Some (response, D1) \<Rightarrow>
                    (case write_frame (cb_resp_enc B) response [] of
                       (r, out) \<Rightarrow> Some (\<lparr> cr_result = map_err He_Frame r, cr_warned = warned, cr_written = out \<rparr>, D1)))))"

lemma read_request:
  "cbor_ok B \<Longrightarrow> encode_frame (cb_req_enc B) request = Ok bs \<Longrightarrow> read_frame (cb_req_dec B) (bs @ rest) = (Ok request, rest)"
  by (rule read_frame_encode [where f = "\<lambda>w. w"]) (auto simp: cbor_ok_def)

lemma read_response:
  "cbor_ok B \<Longrightarrow> encode_frame (cb_resp_enc B) response = Ok bs \<Longrightarrow> read_frame (cb_resp_dec B) (bs @ rest) = (Ok (on_wire response), rest)"
  by (rule read_frame_encode) (auto simp: cbor_ok_def)

section \<open>The listener\<close>

definition set_socket_mode :: "sys_env \<Rightarrow> path \<Rightarrow> fs \<Rightarrow> (serve_error + unit) \<times> fs" where
  "set_socket_mode e p s =
     (case metadata e s p of
        Inl err \<Rightarrow> (Err (Serve_Chmod p err), s)
      | Inr _ \<Rightarrow> on_err (Serve_Chmod p) (set_permissions e p LISTEN_MODE s))"

text \<open>\<open>UnixListener::bind\<close> refuses a path that exists.\<close>

definition bind_socket :: "sys_env \<Rightarrow> path \<Rightarrow> fs \<Rightarrow> (io_error + unit) \<times> fs" where
  "bind_socket e p s = guarded e (OpOpen p) s
     (if fs_nodes s p \<noteq> None then (Err AlreadyExists, s)
      else case parent p of
        None \<Rightarrow> (Err InvalidInput, s)
      | Some d \<Rightarrow>
          (case fs_nodes s d of
             Some (DirNode _) \<Rightarrow> (Ok (), fs_set p (Some (FileNode [] (sys_umask_file e))) s)
           | Some (FileNode _ _) \<Rightarrow> (Err NotADirectory, s)
           | None \<Rightarrow> (Err NotFound, s)))"

definition drop_socket_guard :: "sys_env \<Rightarrow> path \<Rightarrow> fs \<Rightarrow> fs" where
  "drop_socket_guard e p s = snd (remove_file e p s)"

text \<open>
  The accept loop.  A connection is accepted, then waits for one of four permits,
  then is served by a task of its own; while it waits, neither the listener nor
  the shutdown signal is polled.
\<close>

record accept_state =
  as_active :: "nat list"
  as_waiting :: "nat option"
  as_shutdown :: bool
  as_stopped :: bool

definition accept_init :: accept_state where
  "accept_init = \<lparr> as_active = [], as_waiting = None, as_shutdown = False, as_stopped = False \<rparr>"

datatype accept_event = Ev_Connect nat | Ev_AcceptError | Ev_Finished nat | Ev_ShutdownSignal

text \<open>The biased select looks at the shutdown signal first, at the top of each round.\<close>

definition select_top :: "accept_state \<Rightarrow> accept_state" where
  "select_top a = (if as_shutdown a \<and> as_waiting a = None then a\<lparr> as_stopped := True \<rparr> else a)"

fun accept_step :: "accept_event \<Rightarrow> accept_state \<Rightarrow> accept_state" where
  "accept_step (Ev_Connect c) a =
     (if as_stopped a \<or> as_waiting a \<noteq> None then a
      else if length (as_active a) < CONCURRENT_ACCEPT_CAP then select_top (a\<lparr> as_active := as_active a @ [c] \<rparr>)
      else a\<lparr> as_waiting := Some c \<rparr>)"
| "accept_step Ev_AcceptError a = select_top a"
| "accept_step (Ev_Finished c) a =
     (if c \<notin> set (as_active a) then a
      else let a1 = a\<lparr> as_active := remove1 c (as_active a) \<rparr> in
        case as_waiting a1 of
          None \<Rightarrow> a1
        | Some w \<Rightarrow> select_top (a1\<lparr> as_active := as_active a1 @ [w], as_waiting := None \<rparr>))"
| "accept_step Ev_ShutdownSignal a = select_top (a\<lparr> as_shutdown := True \<rparr>)"

definition accept_loop :: "accept_event list \<Rightarrow> accept_state" where
  "accept_loop evs = foldl (\<lambda>a ev. accept_step ev a) accept_init evs"

text \<open>\<open>serve\<close>: bind, restrict the mode, run the loop, unlink the socket.\<close>

definition serve :: "sys_env \<Rightarrow> serve_config \<Rightarrow> accept_event list \<Rightarrow> fs \<Rightarrow> (serve_error + accept_state) \<times> fs" where
  "serve e cfg evs s =
     (let p = sc_socket_path cfg in
      case bind_socket e p s of
        (Inl err, s1) \<Rightarrow> (Err (Serve_Bind p err), s1)
      | (Inr _, s1) \<Rightarrow>
          (case set_socket_mode e p s1 of
             (Inl err, s2) \<Rightarrow> (Err err, s2)
           | (Inr _, s2) \<Rightarrow>
               (let a = accept_loop evs in
                (Ok a, if as_stopped a then drop_socket_guard e p s2 else s2))))"


section \<open>Lemmas\<close>

lemma reason_ok_iff: "reason_str out = ''ok'' \<longleftrightarrow> signature_bytes out \<noteq> None"
  by (cases out) (simp_all add: const_defs)

lemma outcome_ok_iff: "(case out of Co_Ok _ \<Rightarrow> True | _ \<Rightarrow> False) \<longleftrightarrow> signature_bytes out \<noteq> None"
  by (cases out) simp_all

lemma signature_bytes_Some [simp]: "signature_bytes out = Some sig \<longleftrightarrow> out = Co_Ok sig"
  by (cases out) auto

lemma dispatch_challenge_sound:
  assumes "dispatch ops C e ce cfg (Req_Challenge i n) D = Some (Resp_Challenge ok sig reason, D')"
    and "sc_test_fixed_nonce cfg = None"
  shows "(ok \<longleftrightarrow> reason = ''ok'') \<and> (ok \<longleftrightarrow> sig \<noteq> None) \<and>
         (ok \<longrightarrow> (\<exists>os pe pk nonce s. d_orch D = Some os \<and> bt_get (o_peers os) i = Some pe \<and> pe_phone_pubkey pe = Some pk \<and>
            ce_rng ce = Ok nonce \<and> sig = Some s \<and> length s = 64 \<and> cr_verify C pk ([1] @ nonce) s \<and>
            \<not> nc_contains (pc_nonce_cache (o_cells os ! pe_cell pe)) nonce))"
proof (cases "d_orch D")
  case None
  with assms show ?thesis by (auto simp: dispatch_challenge_def const_defs)
next
  case (Some os)
  obtain out os1 where iss: "issue_challenge ops C e ce i DEFAULT_AUTH_TIMEOUT os = (out, os1)" by fastforce
  with assms Some have r: "ok \<longleftrightarrow> signature_bytes out \<noteq> None" "sig = signature_bytes out" "reason = reason_str out"
    by (auto simp: dispatch_challenge_def outcome_ok_iff)
  have verified: "\<exists>pe pk nonce. bt_get (o_peers os) i = Some pe \<and> pe_phone_pubkey pe = Some pk \<and> ce_rng ce = Ok nonce \<and>
      length s = 64 \<and> cr_verify C pk ([1] @ nonce) s \<and> \<not> nc_contains (pc_nonce_cache (o_cells os ! pe_cell pe)) nonce"
    if ok: "out = Co_Ok s" for s
  proof -
    obtain st nonce where "lookup_peer os i = Some st" "ce_rng ce = Ok nonce" "accepts C st nonce s"
        "nonce \<notin> set (cell_nonces os (st_cell st))"
      using issue_challenge_ok [of ops C e ce i DEFAULT_AUTH_TIMEOUT os s] iss ok by auto
    then show ?thesis
      by (auto simp: lookup_peer_def accepts_def cell_nonces_def SIGNATURE_LEN_def split: option.splits)
  qed
  show ?thesis
  proof (cases "signature_bytes out")
    case None
    with r show ?thesis by (simp add: reason_ok_iff)
  next
    case (Some s)
    with verified [of s] \<open>d_orch D = Some os\<close> r show ?thesis by (auto simp: reason_ok_iff const_defs)
  qed
qed

lemma accept_step_cap:
  assumes "length (as_active a) \<le> CONCURRENT_ACCEPT_CAP"
    "as_waiting a \<noteq> None \<longrightarrow> length (as_active a) = CONCURRENT_ACCEPT_CAP"
  shows "length (as_active (accept_step ev a)) \<le> CONCURRENT_ACCEPT_CAP \<and>
         (as_waiting (accept_step ev a) \<noteq> None \<longrightarrow> length (as_active (accept_step ev a)) = CONCURRENT_ACCEPT_CAP)"
  using assms by (cases ev) (auto simp: select_top_def Let_def length_remove1 CONCURRENT_ACCEPT_CAP_def split: option.splits)

lemma accept_loop_inv:
  "length (as_active (accept_loop evs)) \<le> CONCURRENT_ACCEPT_CAP \<and>
   (as_waiting (accept_loop evs) \<noteq> None \<longrightarrow> length (as_active (accept_loop evs)) = CONCURRENT_ACCEPT_CAP)"
proof (induction evs rule: rev_induct)
  case Nil
  then show ?case by (simp add: accept_loop_def accept_init_def)
next
  case (snoc ev evs)
  then show ?case using accept_step_cap [of "accept_loop evs" ev] by (simp add: accept_loop_def)
qed

section \<open>Properties\<close>

text \<open>
  What a positive answer on the socket means.  A challenge response has
  \<open>ok\<close> set exactly when its reason is \<open>ok\<close> and exactly when it carries a
  signature; in production (no fixed test nonce) that signature has 64 bytes
  and verifies, under the phone key of a live entry of the requested peer, over
  the version byte and a nonce that the daemon drew and had not remembered.
\<close>

theorem challenge_response_sound:
  assumes "dispatch ops C e ce cfg (Req_Challenge i n) D = Some (Resp_Challenge ok sig reason, D')"
    and "sc_test_fixed_nonce cfg = None"
  shows "(ok \<longleftrightarrow> reason = ''ok'') \<and> (ok \<longleftrightarrow> sig \<noteq> None) \<and>
         (ok \<longrightarrow> (\<exists>os pe pk nonce s. d_orch D = Some os \<and> bt_get (o_peers os) i = Some pe \<and> pe_phone_pubkey pe = Some pk \<and>
            ce_rng ce = Ok nonce \<and> sig = Some s \<and> length s = 64 \<and> cr_verify C pk ([1] @ nonce) s \<and>
            \<not> nc_contains (pc_nonce_cache (o_cells os ! pe_cell pe)) nonce))"
  using assms by (rule dispatch_challenge_sound)

text \<open>
  C18: the exchange on the socket.  A client of the daemon's own user that sends an
  encoded request and then reads gets exactly the dispatcher's response to that
  request, with its start time in whole seconds, however the answer is cut into
  pieces on its way as long as no piece is later than the client's read limit;
  for a CBOR library that decodes what it encodes and a response that fits a frame.
\<close>

theorem socket_exchange:
  assumes "cbor_ok B" "encode_frame (cb_req_enc B) request = Ok inp"
    and "dispatch ops C e ce cfg request D = Some (response, D1)"
    and "encode_frame (cb_resp_enc B) response = Ok outp"
  shows "\<exists>res. handle_connection ops C B e ce cfg expected (Ok expected) (inp @ rest) D = Some (res, D1) \<and>
           cr_result res = Ok () \<and> \<not> cr_warned res \<and>
           (\<forall>lim st. prompt_bytes lim st = cr_written res \<longrightarrow> fst (read_frame_blocking lim (cb_resp_dec B) st) = Ok (on_wire response))"
proof -
  have w: "write_frame (cb_resp_enc B) response [] = (Ok (), outp)" using assms(4) by (simp add: write_frame_def)
  have "read_frame (cb_req_dec B) (inp @ rest) = (Ok request, rest)"
    by (rule read_request [OF assms(1,2)])
  moreover have "read_frame (cb_resp_dec B) outp = (Ok (on_wire response), [])"
    using read_response [OF assms(1,4), of "[]"] by simp
  ultimately show ?thesis
    unfolding rpc_blocking_agrees using assms(3) w by (simp add: handle_connection_def unexpected_uid_def Let_def)
qed

text \<open>
  At no point of any sequence of connections, accept errors, task ends and
  the shutdown signal does the server work on more than four connections at a
  time, and a connection only waits for a permit while all four are taken.
\<close>

theorem accept_cap:
  "length (as_active (accept_loop evs)) \<le> 4 \<and>
   (as_waiting (accept_loop evs) = None \<or> length (as_active (accept_loop evs)) = 4)"
  using accept_loop_inv [of evs] by (auto simp: CONCURRENT_ACCEPT_CAP_def)

text \<open>
  The nonce field of a challenge request is not used.  Two requests that
  differ in it only get the same response and leave the daemon in the same
  state; the nonce that is signed is always the daemon's own.
\<close>

theorem request_nonce_unused:
  "dispatch ops C e ce cfg (Req_Challenge i n) D = dispatch ops C e ce cfg (Req_Challenge i m) D"
  by simp

text \<open>
  The user id of the peer does not decide anything: with the same bytes on
  the connection, two peers with any user ids get the same answer and have the
  same effect on the daemon.
\<close>

theorem peer_uid_advisory:
  "map_option (\<lambda>(r, D'). (cr_result r, cr_written r, D')) (handle_connection ops C B e ce cfg expected (Ok uid) inp D) =
   map_option (\<lambda>(r, D'). (cr_result r, cr_written r, D')) (handle_connection ops C B e ce cfg expected (Ok uid') inp D)"
  by (auto simp: handle_connection_def Let_def split: prod.splits sum.splits option.splits)

subsection \<open>Examples\<close>

definition ex_daemon :: "fake_state daemon" where
  "ex_daemon = \<lparr> d_orch = Some ex_orch, d_reload = Some \<lparr> rq_open = True, rq_queue = [] \<rparr> \<rparr>"

definition ex_serve :: serve_config where
  "ex_serve = \<lparr> sc_socket_path = [''s''], sc_expected_uid = None, sc_test_fixed_nonce = None, sc_started_at = 0 \<rparr>"

definition ex_cbor :: cbor where
  "ex_cbor = \<lparr> cb_req_enc = (\<lambda>q. if q = Req_Reload then Some [1] else None),
     cb_req_dec = (\<lambda>p. if p = [1] then Some Req_Reload else None),
     cb_resp_enc = (\<lambda>r. if r = Resp_Reload True then Some [2] else None),
     cb_resp_dec = (\<lambda>p. if p = [2] then Some (Resp_Reload True) else None) \<rparr>"

theorem challenge_response_sound_witness:
  "(\<exists>D'. dispatch fake_ops ex_crypto ex_env ex_call ex_serve (Req_Challenge ''a'' []) ex_daemon =
      Some (Resp_Challenge True (Some (replicate 64 5)) ''ok'', D')) \<and>
   cr_verify ex_crypto (replicate 32 3) ([1] @ replicate 16 7) (replicate 64 5)"
proof -
  obtain os1 where "issue_challenge fake_ops ex_crypto ex_env ex_call ''a'' DEFAULT_AUTH_TIMEOUT ex_orch = (Co_Ok (replicate 64 5), os1)"
    using ex_first [of "''a''" DEFAULT_AUTH_TIMEOUT] by (cases "issue_challenge fake_ops ex_crypto ex_env ex_call ''a'' DEFAULT_AUTH_TIMEOUT ex_orch") simp
  then have d: "dispatch fake_ops ex_crypto ex_env ex_call ex_serve (Req_Challenge ''a'' []) ex_daemon =
      Some (Resp_Challenge True (Some (replicate 64 5)) ''ok'', ex_daemon\<lparr> d_orch := Some os1 \<rparr>)"
    by (simp add: dispatch_challenge_def ex_daemon_def ex_serve_def OUTCOME_REASON_OK_def)
  have f: "sc_test_fixed_nonce ex_serve = None" by (simp add: ex_serve_def)
  show ?thesis
    using d challenge_response_sound [OF d f] by (auto simp: ex_daemon_def ex_orch_of_def bt_get_def ex_call_def)
qed

theorem socket_exchange_witness:
  "\<exists>res D1. handle_connection fake_ops ex_crypto ex_cbor ex_env ex_call ex_serve 1000 (Ok 1000) ([0, 0, 0, 1, 1] @ []) ex_daemon = Some (res, D1) \<and>
     cr_written res = [0, 0, 0, 1, 2] \<and> fst (read_frame_blocking 200 (cb_resp_dec ex_cbor) [(7, [0, 0]), (200, [0, 1]), (150, [2])]) = Ok (Resp_Reload True)"
proof -
  have "\<exists>res. handle_connection fake_ops ex_crypto ex_cbor ex_env ex_call ex_serve 1000 (Ok 1000) ([0, 0, 0, 1, 1] @ []) ex_daemon
        = Some (res, ex_daemon\<lparr> d_reload := Some \<lparr> rq_open = True, rq_queue = [Rt_Rpc] \<rparr> \<rparr>) \<and>
      cr_result res = Ok () \<and> \<not> cr_warned res \<and>
      (\<forall>lim st. prompt_bytes lim st = cr_written res \<longrightarrow> fst (read_frame_blocking lim (cb_resp_dec ex_cbor) st) = Ok (Resp_Reload True))"
    by (rule socket_exchange [where request = Req_Reload and response = "Resp_Reload True" and outp = "[0, 0, 0, 1, 2]", unfolded on_wire.simps])
       (auto simp: cbor_ok_def ex_cbor_def encode_frame_def to_be_bytes_def const_defs ex_daemon_def reload_send_def split: if_splits)
  then obtain res D1 where r: "handle_connection fake_ops ex_crypto ex_cbor ex_env ex_call ex_serve 1000 (Ok 1000) ([0, 0, 0, 1, 1] @ []) ex_daemon = Some (res, D1)"
      "\<And>lim st. prompt_bytes lim st = cr_written res \<Longrightarrow> fst (read_frame_blocking lim (cb_resp_dec ex_cbor) st) = Ok (Resp_Reload True)"
    by blast
  then have "cr_written res = [0, 0, 0, 1, 2]"
    by (auto simp: handle_connection_def read_frame_def read_prefixed_def read_exact_def decode_frame_def ex_cbor_def ex_daemon_def
        reload_send_def write_frame_def encode_frame_def to_be_bytes_def const_defs Let_def on_err_def)
  with r show ?thesis by auto
qed

end
