(* ===== verification/Lock.thy ===== *)
theory Lock
  imports FileSystem Text
begin

text \<open>
  The single-instance lock of \<open>syauth-presenced/src/lock.rs\<close>.  A lock of the kernel
  belongs to an open file, not to a name, so this theory has inodes: the name of
  the pidfile is bound to at most one inode, and an inode keeps its lock after
  the name is gone.  Processes are numbers; each operation is one step, so that
  two processes can be interleaved.
\<close>

unbundle bit_operations_syntax

definition PIDFILE_MODE :: mode where [const_defs]: "PIDFILE_MODE = 384" \<comment> \<open>0o600\<close>
definition PIDFILE_DIR_MODE :: mode where [const_defs]: "PIDFILE_DIR_MODE = 448" \<comment> \<open>0o700\<close>

datatype lock_error =
    Lk_AlreadyRunning | Lk_ParentDir io_error | Lk_Open io_error | Lk_Fcntl nat | Lk_Write io_error

text \<open>
  The file's bytes and mode, the open file that has it locked for writing, and the
  ones that have it locked for reading.
\<close>

record inode =
  in_bytes :: bytes
  in_mode :: mode
  in_lock :: "nat option"
  in_readers :: "nat list"

text \<open>The mode of the parent directory (if it exists), the inode the name is bound to, all inodes made so far.\<close>

record pid_world =
  lw_dir :: "mode option"
  lw_name :: "nat option"
  lw_inodes :: "inode list"

text \<open>
  What the system calls of one acquisition meet: whether the path has a parent
  component, the umask, and the error of each call that fails.  A failing write
  may have written a prefix.
\<close>

record lock_env =
  le_parent :: bool
  le_umask :: mode
  le_mkdir :: "io_error option"
  le_metadata_ok :: bool
  le_chmod_ok :: bool
  le_open :: "io_error option"
  le_fcntl :: "nat option"
  le_truncate :: "io_error option"
  le_write :: "(nat \<times> io_error) option"

definition EAGAIN :: nat where [const_defs]: "EAGAIN = 11"
definition EACCES :: nat where [const_defs]: "EACCES = 13"

definition lk_ensure_parent_dir :: "lock_env \<Rightarrow> pid_world \<Rightarrow> (lock_error + unit) \<times> pid_world" where
  "lk_ensure_parent_dir e w =
     (if \<not> le_parent e then (Ok (), w)
      else case le_mkdir e of
        Some err \<Rightarrow> (Err (Lk_ParentDir err), w)
      | None \<Rightarrow>
          (let mode = (case lw_dir w of Some m \<Rightarrow> m | None \<Rightarrow> 511 AND NOT (le_umask e)) in
           (Ok (), w\<lparr> lw_dir := Some
              (if le_metadata_ok e \<and> mode AND 511 \<noteq> PIDFILE_DIR_MODE \<and> le_chmod_ok e then PIDFILE_DIR_MODE else mode) \<rparr>)))"

text \<open>\<open>open_pidfile\<close> returns the inode it opened; a missing file is created with the restricted mode.\<close>

definition open_pidfile :: "lock_env \<Rightarrow> pid_world \<Rightarrow> (lock_error + nat) \<times> pid_world" where
  "open_pidfile e w =
     (case le_open e of
        Some err \<Rightarrow> (Err (Lk_Open err), w)
      | None \<Rightarrow>
          (case lw_name w of
             Some i \<Rightarrow> (Ok i, w)
           | None \<Rightarrow> (Ok (length (lw_inodes w)),
                     w\<lparr> lw_name := Some (length (lw_inodes w)),
                        lw_inodes := lw_inodes w @ [\<lparr> in_bytes = [], in_mode = PIDFILE_MODE AND NOT (le_umask e), in_lock = None, in_readers = [] \<rparr>] \<rparr>)))"

definition upd_inode :: "nat \<Rightarrow> (inode \<Rightarrow> inode) \<Rightarrow> pid_world \<Rightarrow> pid_world" where
  "upd_inode i f w = w\<lparr> lw_inodes := (lw_inodes w)[i := f (lw_inodes w ! i)] \<rparr>"

text \<open>
  The argument of \<open>fcntl\<close>: the type of the lock and its range, from a start with a
  length, where the length zero reaches to the end of the file.  A conflicting lock
  makes the call fail with \<open>EAGAIN\<close>: any lock for one that is exclusive, an exclusive
  one for one that is shared.  The other failures are given by the environment.  The
  program locks whole files, so an inode keeps one set of locks; a range that is not
  the whole file is not supported here, which is \<open>EINVAL\<close>.
\<close>

datatype lock_type = F_RDLCK | F_WRLCK

record flock =
  l_type :: lock_type
  l_start :: nat
  l_len :: nat

definition EINVAL :: nat where [const_defs]: "EINVAL = 22"

definition exclusive_lock_spec :: flock where
  "exclusive_lock_spec = \<lparr> l_type = F_WRLCK, l_start = 0, l_len = 0 \<rparr>"

definition fcntl_setlk :: "lock_env \<Rightarrow> flock \<Rightarrow> nat \<Rightarrow> nat \<Rightarrow> pid_world \<Rightarrow> (nat + unit) \<times> pid_world" where
  "fcntl_setlk e spec pid i w =
     (case le_fcntl e of
        Some errno \<Rightarrow> (Err errno, w)
      | None \<Rightarrow>
          (if l_start spec \<noteq> 0 \<or> l_len spec \<noteq> 0 then (Err EINVAL, w)
           else case l_type spec of
             F_WRLCK \<Rightarrow>
               (if in_lock (lw_inodes w ! i) \<noteq> None \<or> in_readers (lw_inodes w ! i) \<noteq> [] then (Err EAGAIN, w)
                else (Ok (), upd_inode i (\<lambda>n. n\<lparr> in_lock := Some pid \<rparr>) w))
           | F_RDLCK \<Rightarrow>
               (if in_lock (lw_inodes w ! i) \<noteq> None then (Err EAGAIN, w)
                else (Ok (), upd_inode i (\<lambda>n. n\<lparr> in_readers := pid # in_readers n \<rparr>) w))))"

definition try_lock_exclusive :: "lock_env \<Rightarrow> nat \<Rightarrow> nat \<Rightarrow> pid_world \<Rightarrow> (lock_error + unit) \<times> pid_world" where
  "try_lock_exclusive e pid i w =
     (case fcntl_setlk e exclusive_lock_spec pid i w of
        (Inr _, w1) \<Rightarrow> (Ok (), w1)
      | (Inl errno, w1) \<Rightarrow>
          (if errno = EAGAIN \<or> errno = EACCES then (Err Lk_AlreadyRunning, w1) else (Err (Lk_Fcntl errno), w1)))"

definition pid_line :: "nat \<Rightarrow> bytes" where "pid_line pid = str_bytes (show_nat pid @ [NL])"

definition write_pid :: "lock_env \<Rightarrow> nat \<Rightarrow> nat \<Rightarrow> pid_world \<Rightarrow> (lock_error + unit) \<times> pid_world" where
  "write_pid e pid i w =
     (case le_truncate e of
        Some err \<Rightarrow> (Err (Lk_Write err), w)
      | None \<Rightarrow>
          (case le_write e of
             Some (n, err) \<Rightarrow> (Err (Lk_Write err), upd_inode i (\<lambda>x. x\<lparr> in_bytes := take n (pid_line pid) \<rparr>) w)
           | None \<Rightarrow> (Ok (), upd_inode i (\<lambda>x. x\<lparr> in_bytes := pid_line pid \<rparr>) w)))"

text \<open>Closing the descriptor releases the lock; a failed acquisition closes it on its way out.\<close>

definition close_fd :: "nat \<Rightarrow> nat \<Rightarrow> pid_world \<Rightarrow> pid_world" where
  "close_fd pid i w =
     upd_inode i (\<lambda>n. n\<lparr> in_lock := (if in_lock n = Some pid then None else in_lock n), in_readers := removeAll pid (in_readers n) \<rparr>) w"

definition lock_acquire :: "lock_env \<Rightarrow> nat \<Rightarrow> pid_world \<Rightarrow> (lock_error + nat) \<times> pid_world" where
  "lock_acquire e pid w =
     (case lk_ensure_parent_dir e w of
        (Inl err, w1) \<Rightarrow> (Err err, w1)
      | (Inr _, w1) \<Rightarrow>
     (case open_pidfile e w1 of
        (Inl err, w2) \<Rightarrow> (Err err, w2)
      | (Inr i, w2) \<Rightarrow>
     (case try_lock_exclusive e pid i w2 of
        (Inl err, w3) \<Rightarrow> (Err err, w3)
      | (Inr _, w3) \<Rightarrow>
     (case write_pid e pid i w3 of
        (Inl err, w4) \<Rightarrow> (Err err, close_fd pid i w4)
      | (Inr _, w4) \<Rightarrow> (Ok i, w4)))))"

text \<open>\<open>Drop\<close>: unlink the name, then close the descriptor.\<close>

definition unlink_name :: "bool \<Rightarrow> pid_world \<Rightarrow> pid_world" where
  "unlink_name fails w = (if fails then w else w\<lparr> lw_name := None \<rparr>)"

definition lock_drop :: "bool \<Rightarrow> nat \<Rightarrow> nat \<Rightarrow> pid_world \<Rightarrow> pid_world" where
  "lock_drop fails pid i w = close_fd pid i (unlink_name fails w)"

section \<open>Interleaving of processes\<close>

text \<open>The state of one process: nothing yet, the file opened, the lock held, the name unlinked, gone.
  A process that is killed while it holds the lock closes the descriptor without unlinking.\<close>

datatype lock_phase = Lp_Start | Lp_Opened nat | Lp_Held nat | Lp_Unlinked nat | Lp_Gone

record lock_sys =
  ls_world :: pid_world
  ls_proc :: "nat \<Rightarrow> lock_phase"

inductive lock_step :: "lock_sys \<Rightarrow> lock_sys \<Rightarrow> bool" where
  open_step:
    "ph p = Lp_Start \<Longrightarrow> lk_ensure_parent_dir e w = (Ok (), w1) \<Longrightarrow> open_pidfile e w1 = (Ok i, w2) \<Longrightarrow>
     lock_step \<lparr> ls_world = w, ls_proc = ph \<rparr> \<lparr> ls_world = w2, ls_proc = ph(p := Lp_Opened i) \<rparr>"
| lock_ok_step:
    "ph p = Lp_Opened i \<Longrightarrow> try_lock_exclusive e p i w = (Ok (), w1) \<Longrightarrow> write_pid e p i w1 = (Ok (), w2) \<Longrightarrow>
     lock_step \<lparr> ls_world = w, ls_proc = ph \<rparr> \<lparr> ls_world = w2, ls_proc = ph(p := Lp_Held i) \<rparr>"
| lock_refused_step:
    "ph p = Lp_Opened i \<Longrightarrow> try_lock_exclusive e p i w = (Err err, w1) \<Longrightarrow>
     lock_step \<lparr> ls_world = w, ls_proc = ph \<rparr> \<lparr> ls_world = w1, ls_proc = ph(p := Lp_Gone) \<rparr>"
| write_failed_step:
    "ph p = Lp_Opened i \<Longrightarrow> try_lock_exclusive e p i w = (Ok (), w1) \<Longrightarrow> write_pid e p i w1 = (Err err, w2) \<Longrightarrow>
     lock_step \<lparr> ls_world = w, ls_proc = ph \<rparr> \<lparr> ls_world = close_fd p i w2, ls_proc = ph(p := Lp_Gone) \<rparr>"
| killed_step:
    "ph p = Lp_Held i \<Longrightarrow>
     lock_step \<lparr> ls_world = w, ls_proc = ph \<rparr> \<lparr> ls_world = close_fd p i w, ls_proc = ph(p := Lp_Gone) \<rparr>"
| unlink_step:
    "ph p = Lp_Held i \<Longrightarrow>
     lock_step \<lparr> ls_world = w, ls_proc = ph \<rparr> \<lparr> ls_world = unlink_name fails w, ls_proc = ph(p := Lp_Unlinked i) \<rparr>"
| close_step:
    "ph p = Lp_Unlinked i \<Longrightarrow>
     lock_step \<lparr> ls_world = w, ls_proc = ph \<rparr> \<lparr> ls_world = close_fd p i w, ls_proc = ph(p := Lp_Gone) \<rparr>"

inductive lock_reach :: "lock_sys \<Rightarrow> lock_sys \<Rightarrow> bool" for s0 where
  lock_start: "lock_reach s0 s0"
| lock_next: "lock_reach s0 s \<Longrightarrow> lock_step s s' \<Longrightarrow> lock_reach s0 s'"

definition lock_idle :: lock_sys where
  "lock_idle = \<lparr> ls_world = \<lparr> lw_dir = None, lw_name = None, lw_inodes = [] \<rparr>, ls_proc = (\<lambda>_. Lp_Start) \<rparr>"

section \<open>The invariant\<close>

text \<open>Every process works on an inode that exists, and holds the lock of its inode while it says so.\<close>

fun phase_ok :: "pid_world \<Rightarrow> nat \<Rightarrow> lock_phase \<Rightarrow> bool" where
  "phase_ok w p Lp_Start = True"
| "phase_ok w p Lp_Gone = True"
| "phase_ok w p (Lp_Opened i) = (i < length (lw_inodes w) \<and> in_lock (lw_inodes w ! i) \<noteq> Some p)"
| "phase_ok w p (Lp_Held i) = (i < length (lw_inodes w) \<and> in_lock (lw_inodes w ! i) = Some p)"
| "phase_ok w p (Lp_Unlinked i) = (i < length (lw_inodes w) \<and> in_lock (lw_inodes w ! i) = Some p)"

definition lock_invar :: "lock_sys \<Rightarrow> bool" where
  "lock_invar s \<longleftrightarrow>
     (\<forall>i. lw_name (ls_world s) = Some i \<longrightarrow> i < length (lw_inodes (ls_world s))) \<and>
     (\<forall>p. phase_ok (ls_world s) p (ls_proc s p)) \<and>
     (\<forall>p i. i < length (lw_inodes (ls_world s)) \<longrightarrow> in_lock (lw_inodes (ls_world s) ! i) = Some p \<longrightarrow>
        ls_proc s p = Lp_Held i \<or> ls_proc s p = Lp_Unlinked i)"


lemmas setlk_defs = fcntl_setlk_def exclusive_lock_spec_def

lemma upd_inode_simps [simp]:
  "lw_name (upd_inode i f w) = lw_name w" "lw_dir (upd_inode i f w) = lw_dir w"
  "length (lw_inodes (upd_inode i f w)) = length (lw_inodes w)"
  by (simp_all add: upd_inode_def)

lemma upd_inode_nth:
  "j < length (lw_inodes w) \<Longrightarrow> lw_inodes (upd_inode i f w) ! j = (if j = i then f (lw_inodes w ! i) else lw_inodes w ! j)"
  by (simp add: upd_inode_def nth_list_update)

lemma ensure_parent_inodes:
  "lk_ensure_parent_dir e w = (r, w1) \<Longrightarrow> lw_inodes w1 = lw_inodes w \<and> lw_name w1 = lw_name w"
  by (auto simp: lk_ensure_parent_dir_def Let_def split: option.splits if_splits)

lemma try_lock_cases:
  assumes "try_lock_exclusive e p i w = (r, w1)"
  shows "(r = Ok () \<and> in_lock (lw_inodes w ! i) = None \<and> w1 = upd_inode i (\<lambda>n. n\<lparr> in_lock := Some p \<rparr>) w) \<or>
         ((\<exists>err. r = Err err) \<and> w1 = w)"
  using assms by (auto simp: try_lock_exclusive_def setlk_defs split: option.splits if_splits)

lemma write_pid_locks:
  assumes "write_pid e pid i w = (r, w1)"
  shows "lw_name w1 = lw_name w" "length (lw_inodes w1) = length (lw_inodes w)"
    "j < length (lw_inodes w) \<Longrightarrow> in_lock (lw_inodes w1 ! j) = in_lock (lw_inodes w ! j)"
  using assms by (auto simp: write_pid_def upd_inode_nth split: option.splits)

lemma close_fd_locks:
  "lw_name (close_fd p i w) = lw_name w" "length (lw_inodes (close_fd p i w)) = length (lw_inodes w)"
  "j < length (lw_inodes w) \<Longrightarrow>
     in_lock (lw_inodes (close_fd p i w) ! j) =
       (if j = i \<and> in_lock (lw_inodes w ! j) = Some p then None else in_lock (lw_inodes w ! j))"
  by (auto simp: close_fd_def upd_inode_nth)

lemma open_pidfile_cases:
  assumes "open_pidfile e w = (Ok i, w1)"
  shows "(lw_name w = Some i \<and> w1 = w) \<or>
         (lw_name w = None \<and> i = length (lw_inodes w) \<and> lw_name w1 = Some i \<and>
          lw_inodes w1 = lw_inodes w @ [\<lparr> in_bytes = [], in_mode = PIDFILE_MODE AND NOT (le_umask e), in_lock = None, in_readers = [] \<rparr>])"
  using assms by (auto simp: open_pidfile_def split: option.splits)

text \<open>A step of process \<open>p\<close> that leaves the locks of the other processes alone keeps the invariant.\<close>

lemma lock_invar_update:
  assumes inv: "lock_invar \<lparr> ls_world = w, ls_proc = ph \<rparr>"
    and name: "\<And>i. lw_name w' = Some i \<Longrightarrow> i < length (lw_inodes w')"
    and len: "length (lw_inodes w) \<le> length (lw_inodes w')"
    and frame: "\<And>j q. q \<noteq> p \<Longrightarrow> j < length (lw_inodes w') \<Longrightarrow>
        in_lock (lw_inodes w' ! j) = Some q \<longleftrightarrow> j < length (lw_inodes w) \<and> in_lock (lw_inodes w ! j) = Some q"
    and own: "phase_ok w' p x"
    and mine: "\<And>j. j < length (lw_inodes w') \<Longrightarrow> in_lock (lw_inodes w' ! j) = Some p \<Longrightarrow> x = Lp_Held j \<or> x = Lp_Unlinked j"
  shows "lock_invar \<lparr> ls_world = w', ls_proc = ph(p := x) \<rparr>"
proof -
  have others: "phase_ok w' q (ph q)" if "q \<noteq> p" for q
  proof -
    have "phase_ok w q (ph q)" using inv by (simp add: lock_invar_def)
    then show ?thesis using frame [OF that] len by (cases "ph q") auto
  qed
  have held: "ph q = Lp_Held j \<or> ph q = Lp_Unlinked j"
    if "q \<noteq> p" "j < length (lw_inodes w')" "in_lock (lw_inodes w' ! j) = Some q" for q j
    using frame [OF that(1,2)] that(3) inv by (simp add: lock_invar_def)
  show ?thesis
    using name own mine others held by (auto simp: lock_invar_def)
qed

lemma lock_invarD:
  assumes "lock_invar \<lparr> ls_world = w, ls_proc = ph \<rparr>"
  shows "lw_name w = Some i \<Longrightarrow> i < length (lw_inodes w)" "phase_ok w p (ph p)"
    "j < length (lw_inodes w) \<Longrightarrow> in_lock (lw_inodes w ! j) = Some p \<Longrightarrow> ph p = Lp_Held j \<or> ph p = Lp_Unlinked j"
  using assms by (simp_all add: lock_invar_def)

lemma close_invar:
  assumes inv: "lock_invar \<lparr> ls_world = w, ls_proc = ph \<rparr>" and ph: "ph p = Lp_Held i \<or> ph p = Lp_Unlinked i"
  shows "lock_invar \<lparr> ls_world = close_fd p i w, ls_proc = ph(p := Lp_Gone) \<rparr>"
proof (rule lock_invar_update [OF inv])
  show "Lp_Gone = Lp_Held j \<or> Lp_Gone = Lp_Unlinked j"
    if "j < length (lw_inodes (close_fd p i w))" "in_lock (lw_inodes (close_fd p i w) ! j) = Some p" for j
    using that lock_invarD(3) [OF inv, of j p] ph by (auto simp: close_fd_locks split: if_splits)
qed (use lock_invarD(1) [OF inv] in \<open>auto simp: close_fd_locks split: if_splits\<close>)

text \<open>A process that has not taken a lock owns none.\<close>

lemma lock_not_own:
  assumes "lock_invar \<lparr> ls_world = w, ls_proc = ph \<rparr>" "ph p = Lp_Start \<or> ph p = Lp_Opened i" "j < length (lw_inodes w)"
  shows "in_lock (lw_inodes w ! j) \<noteq> Some p"
  using lock_invarD(3) [OF assms(1,3), of p] assms(2) by auto

lemma open_invar:
  assumes inv: "lock_invar \<lparr> ls_world = w, ls_proc = ph \<rparr>" and ph: "ph p = Lp_Start"
    and w1: "lk_ensure_parent_dir e w = (Ok (), w1)" and w2: "open_pidfile e w1 = (Ok i, w2)"
  shows "lock_invar \<lparr> ls_world = w2, ls_proc = ph(p := Lp_Opened i) \<rparr>"
proof -
  note w1 = ensure_parent_inodes [OF w1] and no_own = lock_not_own [OF inv disjI1 [OF ph]]
  from open_pidfile_cases [OF w2] show ?thesis
  proof
    assume o: "lw_name w1 = Some i \<and> w2 = w1"
    then have "i < length (lw_inodes w)" using lock_invarD(1) [OF inv] w1 by simp
    with o w1 no_own show ?thesis by (intro lock_invar_update [OF inv]) (use lock_invarD(1) [OF inv] in auto)
  next
    assume o: "lw_name w1 = None \<and> i = length (lw_inodes w1) \<and> lw_name w2 = Some i \<and>
      lw_inodes w2 = lw_inodes w1 @ [\<lparr> in_bytes = [], in_mode = PIDFILE_MODE AND NOT (le_umask e), in_lock = None, in_readers = [] \<rparr>]"
    with w1 no_own show ?thesis by (intro lock_invar_update [OF inv]) (auto simp: nth_append split: if_splits)
  qed
qed

text \<open>Taking the lock and writing the process id: the lock of the inode is set, and kept or given up.\<close>

lemma lock_taken:
  assumes inv: "lock_invar \<lparr> ls_world = w, ls_proc = ph \<rparr>" and ph: "ph p = Lp_Opened i"
    and l: "try_lock_exclusive e p i w = (Ok (), w1)" and wr: "write_pid e p i w1 = (r, w2)"
  shows "lock_invar \<lparr> ls_world = w2, ls_proc = ph(p := Lp_Held i) \<rparr>"
    and "lock_invar \<lparr> ls_world = close_fd p i w2, ls_proc = ph(p := Lp_Gone) \<rparr>"
proof -
  have i: "i < length (lw_inodes w)" using lock_invarD(2) [OF inv, of p] ph by simp
  have w1: "in_lock (lw_inodes w ! i) = None" "w1 = upd_inode i (\<lambda>n. n\<lparr> in_lock := Some p \<rparr>) w"
    using try_lock_cases [OF l] by auto
  note w2 = write_pid_locks [OF wr, unfolded w1(2), simplified] and no_own = lock_not_own [OF inv disjI2 [OF ph]]
  show "lock_invar \<lparr> ls_world = w2, ls_proc = ph(p := Lp_Held i) \<rparr>"
    by (rule lock_invar_update [OF inv])
      (use i w1(1) w2 no_own lock_invarD(1) [OF inv] in \<open>auto simp: upd_inode_nth split: if_splits\<close>)
  show "lock_invar \<lparr> ls_world = close_fd p i w2, ls_proc = ph(p := Lp_Gone) \<rparr>"
    by (rule lock_invar_update [OF inv])
      (use w1(1) w2 no_own lock_invarD(1) [OF inv] in \<open>auto simp: close_fd_locks upd_inode_nth split: if_splits\<close>)
qed

lemma lock_step_invar:
  assumes "lock_step s s'" "lock_invar s"
  shows "lock_invar s'"
  using assms
proof (induction rule: lock_step.induct)
  case (open_step ph p e w w1 i w2)
  then show ?case by (intro open_invar)
next
  case (lock_ok_step ph p i e w w1 w2)
  then show ?case by (intro lock_taken)
next
  case (lock_refused_step ph p i e w err w1)
  have w1: "w1 = w" using try_lock_cases [OF lock_refused_step(2)] by auto
  show ?case unfolding w1
    by (rule lock_invar_update [OF lock_refused_step(3)])
      (use lock_invarD(1) [OF lock_refused_step(3)] lock_not_own [OF lock_refused_step(3) disjI2 [OF lock_refused_step(1)]] in auto)
next
  case (write_failed_step ph p i e w w1 err w2)
  then show ?case by (intro lock_taken)
next
  case (killed_step ph p i w)
  then show ?case by (simp add: close_invar)
next
  case (unlink_step ph p i w fails)
  have held: "phase_ok w p (Lp_Held i)" using lock_invarD(2) [OF unlink_step(2), of p] unlink_step(1) by simp
  have own: "j = i" if "j < length (lw_inodes w)" "in_lock (lw_inodes w ! j) = Some p" for j
    using lock_invarD(3) [OF unlink_step(2) that] unlink_step(1) by simp
  show ?case
    by (rule lock_invar_update [OF unlink_step(2)])
      (use held own lock_invarD(1) [OF unlink_step(2)] in \<open>auto simp: unlink_name_def split: if_splits\<close>)
next
  case (close_step ph p i w)
  then show ?case by (simp add: close_invar)
qed

lemma lock_reach_invar: "lock_reach s0 s \<Longrightarrow> lock_invar s0 \<Longrightarrow> lock_invar s"
  by (induction rule: lock_reach.induct) (auto intro: lock_step_invar)

lemma lock_idle_invar: "lock_invar lock_idle"
  by (simp add: lock_invar_def lock_idle_def)

section \<open>Properties\<close>

definition world_ok :: "pid_world \<Rightarrow> bool" where
  "world_ok w \<longleftrightarrow> (case lw_name w of None \<Rightarrow> True | Some i \<Rightarrow> i < length (lw_inodes w))"

lemma lock_acquire_ok:
  assumes "lock_acquire e p w = (Ok i, w1)" "world_ok w"
  shows "lw_name w1 = Some i" "i < length (lw_inodes w1)"
    "in_lock (lw_inodes w1 ! i) = Some p" "in_bytes (lw_inodes w1 ! i) = pid_line p"
proof -
  from assms(1) obtain wa wb wc where
      a: "lk_ensure_parent_dir e w = (Ok (), wa)" and b: "open_pidfile e wa = (Ok i, wb)"
      and c: "try_lock_exclusive e p i wb = (Ok (), wc)" and d: "write_pid e p i wc = (Ok (), w1)"
    by (auto simp: lock_acquire_def split: prod.splits sum.splits)
  note wa = ensure_parent_inodes [OF a]
  have wb: "lw_name wb = Some i" "i < length (lw_inodes wb)"
    using open_pidfile_cases [OF b] assms(2) wa by (auto simp: world_ok_def)
  have wc: "wc = upd_inode i (\<lambda>n. n\<lparr> in_lock := Some p \<rparr>) wb" using try_lock_cases [OF c] by auto
  show "lw_name w1 = Some i" "i < length (lw_inodes w1)" "in_lock (lw_inodes w1 ! i) = Some p"
    using write_pid_locks [OF d] wb by (auto simp: wc upd_inode_nth)
  show "in_bytes (lw_inodes w1 ! i) = pid_line p"
    using d wb by (auto simp: write_pid_def wc upd_inode_nth split: option.splits)
qed

definition calls_succeed :: "lock_env \<Rightarrow> bool" where
  "calls_succeed e \<longleftrightarrow> (le_parent e \<longrightarrow> le_mkdir e = None) \<and> le_open e = None \<and> le_fcntl e = None"

lemma lock_acquire_refused:
  assumes "lw_name w = Some i" "in_lock (lw_inodes w ! i) \<noteq> None"
  obtains err w1 where "lock_acquire e q w = (Err err, w1)" "lw_inodes w1 = lw_inodes w" "lw_name w1 = Some i"
    "calls_succeed e \<Longrightarrow> err = Lk_AlreadyRunning"
proof -
  obtain ra wa where a: "lk_ensure_parent_dir e w = (ra, wa)" by fastforce
  note wa = ensure_parent_inodes [OF a]
  show thesis
  proof (cases ra)
    case (Inl err)
    then have "\<not> calls_succeed e" using a
      by (auto simp: calls_succeed_def lk_ensure_parent_dir_def Let_def split: option.splits if_splits)
    with Inl a wa show thesis by (intro that [of err wa]) (use assms in \<open>auto simp: lock_acquire_def\<close>)
  next
    case (Inr u)
    obtain rb wb where b: "open_pidfile e wa = (rb, wb)" by fastforce
    have wb: "wb = wa" "rb = (case le_open e of Some err \<Rightarrow> Err (Lk_Open err) | None \<Rightarrow> Ok i)"
      using b assms(1) wa by (auto simp: open_pidfile_def split: option.splits)
    obtain rc wc where rc: "try_lock_exclusive e q i wa = (rc, wc)" by fastforce
    with try_lock_cases [OF rc] assms(2) wa obtain err where c: "try_lock_exclusive e q i wa = (Err err, wa)" by auto
    have c2: "err = Lk_AlreadyRunning" if "calls_succeed e"
      using c that assms(2) wa by (auto simp: try_lock_exclusive_def setlk_defs calls_succeed_def split: if_splits)
    show thesis
    proof (cases "le_open e")
      case None
      then show thesis by (intro that [of err wa]) (use a b wb c c2 Inr wa assms(1) in \<open>auto simp: lock_acquire_def\<close>)
    next
      case (Some err)
      then show thesis
        by (intro that [of "Lk_Open err" wa])
          (use a b wb Inr wa assms(1) in \<open>auto simp: lock_acquire_def calls_succeed_def\<close>)
    qed
  qed
qed

text \<open>After a successful \<open>PidFileLock::acquire\<close> the pidfile names the caller and is locked by
  it, and every later attempt fails, with \<open>AlreadyRunning\<close> unless a system call failed for
  another reason, and leaves the pidfile's bytes and lock as they were.\<close>

theorem second_instance_refused:
  assumes "world_ok w" "lock_acquire e p w = (Ok i, w1)"
  shows "lw_name w1 = Some i \<and> in_lock (lw_inodes w1 ! i) = Some p \<and> in_bytes (lw_inodes w1 ! i) = pid_line p \<and>
         (\<exists>err w2. lock_acquire e' q w1 = (Err err, w2) \<and> lw_inodes w2 = lw_inodes w1 \<and> lw_name w2 = Some i \<and>
            (calls_succeed e' \<longrightarrow> err = Lk_AlreadyRunning))"
proof -
  note ok = lock_acquire_ok [OF assms(2,1)]
  show ?thesis using ok by (auto intro: lock_acquire_refused [of w1 i e' q])
qed

definition env_fine :: lock_env where
  "env_fine = \<lparr> le_parent = True, le_umask = 18, le_mkdir = None, le_metadata_ok = True, le_chmod_ok = True,
     le_open = None, le_fcntl = None, le_truncate = None, le_write = None \<rparr>"

definition ex_world :: pid_world where
  "ex_world = \<lparr> lw_dir = Some 448, lw_name = Some 0, lw_inodes = [\<lparr> in_bytes = [55, 10], in_mode = 384, in_lock = None, in_readers = [] \<rparr>] \<rparr>"

definition ex_locked :: pid_world where
  "ex_locked = ex_world\<lparr> lw_inodes := [\<lparr> in_bytes = pid_line 42, in_mode = 384, in_lock = Some 42, in_readers = [] \<rparr>] \<rparr>"

lemma ex_locked: "lock_acquire env_fine 42 ex_world = (Ok 0, ex_locked)"
  by (simp add: lock_acquire_def lk_ensure_parent_dir_def open_pidfile_def try_lock_exclusive_def setlk_defs
      write_pid_def upd_inode_def env_fine_def ex_world_def ex_locked_def PIDFILE_DIR_MODE_def Let_def)

theorem second_instance_refused_witness:
  "world_ok ex_world \<and> lock_acquire env_fine 42 ex_world = (Ok 0, ex_locked) \<and>
   in_lock (lw_inodes ex_locked ! 0) = Some 42 \<and> fst (lock_acquire env_fine 43 ex_locked) = Err Lk_AlreadyRunning"
proof -
  have "world_ok ex_world" by (simp add: world_ok_def ex_world_def)
  from second_instance_refused [OF this ex_locked, of env_fine 43] this ex_locked show ?thesis
    by (auto simp: calls_succeed_def env_fine_def)
qed

text \<open>C24: whatever the interleaving of opens, lock attempts, crashes and clean exits, no two
  processes hold the lock of the same file, and so at most one holds the lock of
  the file the pidfile's name is bound to.\<close>

theorem one_holder_per_file:
  assumes "lock_reach lock_idle s"
    "ls_proc s p = Lp_Held i \<or> ls_proc s p = Lp_Unlinked i" "ls_proc s q = Lp_Held i \<or> ls_proc s q = Lp_Unlinked i"
  shows "p = q"
proof -
  have inv: "lock_invar \<lparr> ls_world = ls_world s, ls_proc = ls_proc s \<rparr>"
    using lock_reach_invar [OF assms(1) lock_idle_invar] by (cases s) simp
  show ?thesis using lock_invarD(2) [OF inv, of p] lock_invarD(2) [OF inv, of q] assms(2,3) by auto
qed

text \<open>The steps of processes whose system calls all succeed, as functions.\<close>

definition do_open :: "nat \<Rightarrow> lock_sys \<Rightarrow> lock_sys" where
  "do_open p s =
     (let w = snd (lk_ensure_parent_dir env_fine (ls_world s)) in
      \<lparr> ls_world = snd (open_pidfile env_fine w),
        ls_proc = (ls_proc s)(p := Lp_Opened (case lw_name w of Some i \<Rightarrow> i | None \<Rightarrow> length (lw_inodes w))) \<rparr>)"

definition do_lock :: "nat \<Rightarrow> nat \<Rightarrow> lock_sys \<Rightarrow> lock_sys" where
  "do_lock p i s =
     \<lparr> ls_world = upd_inode i (\<lambda>n. n\<lparr> in_bytes := pid_line p \<rparr>) (upd_inode i (\<lambda>n. n\<lparr> in_lock := Some p \<rparr>) (ls_world s)),
       ls_proc = (ls_proc s)(p := Lp_Held i) \<rparr>"

definition do_unlink :: "nat \<Rightarrow> nat \<Rightarrow> lock_sys \<Rightarrow> lock_sys" where
  "do_unlink p i s = \<lparr> ls_world = unlink_name False (ls_world s), ls_proc = (ls_proc s)(p := Lp_Unlinked i) \<rparr>"

definition do_close :: "nat \<Rightarrow> nat \<Rightarrow> lock_sys \<Rightarrow> lock_sys" where
  "do_close p i s = \<lparr> ls_world = close_fd p i (ls_world s), ls_proc = (ls_proc s)(p := Lp_Gone) \<rparr>"

lemma sys_eta: "\<lparr> ls_world = ls_world s, ls_proc = ls_proc s \<rparr> = s"
  by (cases s) simp

lemma ensure_fine: "lk_ensure_parent_dir env_fine w = (Ok (), snd (lk_ensure_parent_dir env_fine w))"
  by (simp add: lk_ensure_parent_dir_def env_fine_def Let_def)

lemma open_fine:
  "open_pidfile env_fine w =
     (Ok (case lw_name w of Some i \<Rightarrow> i | None \<Rightarrow> length (lw_inodes w)), snd (open_pidfile env_fine w))"
  by (simp add: open_pidfile_def env_fine_def split: option.splits)

lemma reach_open: "lock_reach s0 s \<Longrightarrow> ls_proc s p = Lp_Start \<Longrightarrow> lock_reach s0 (do_open p s)"
  using open_step [OF _ ensure_fine open_fine, of "ls_proc s" p "ls_world s"]
  by (auto simp: do_open_def Let_def sys_eta intro: lock_next)

lemma reach_lock:
  "lock_reach s0 s \<Longrightarrow> ls_proc s p = Lp_Opened i \<Longrightarrow> in_lock (lw_inodes (ls_world s) ! i) = None \<Longrightarrow>
   in_readers (lw_inodes (ls_world s) ! i) = [] \<Longrightarrow> lock_reach s0 (do_lock p i s)"
  by (erule lock_next, cases s, simp add: do_lock_def, rule lock_ok_step [where e = env_fine])
    (auto simp: try_lock_exclusive_def setlk_defs write_pid_def env_fine_def)

lemma reach_unlink: "lock_reach s0 s \<Longrightarrow> ls_proc s p = Lp_Held i \<Longrightarrow> lock_reach s0 (do_unlink p i s)"
  by (erule lock_next, cases s, simp add: do_unlink_def, rule unlink_step) simp

lemma reach_close: "lock_reach s0 s \<Longrightarrow> ls_proc s p = Lp_Unlinked i \<Longrightarrow> lock_reach s0 (do_close p i s)"
  by (erule lock_next, cases s, simp add: do_close_def, rule close_step) simp

lemmas race_simps =
  do_open_def do_lock_def do_unlink_def do_close_def Let_def unlink_name_def close_fd_def upd_inode_def
  lk_ensure_parent_dir_def open_pidfile_def env_fine_def PIDFILE_DIR_MODE_def PIDFILE_MODE_def

definition race_file :: "bytes \<Rightarrow> nat option \<Rightarrow> inode" where
  "race_file bs l = \<lparr> in_bytes = bs, in_mode = 384, in_lock = l, in_readers = [] \<rparr>"

text \<open>Process 1 runs and process 2 has opened the file; process 1 exits; process 2 and process 3 go on.\<close>

definition race1 :: lock_sys where
  "race1 = \<lparr> ls_world = \<lparr> lw_dir = Some 448, lw_name = Some 0, lw_inodes = [race_file (pid_line 1) (Some 1)] \<rparr>,
             ls_proc = (\<lambda>_. Lp_Start)(1 := Lp_Held 0, 2 := Lp_Opened 0) \<rparr>"

definition race2 :: lock_sys where
  "race2 = \<lparr> ls_world = \<lparr> lw_dir = Some 448, lw_name = None, lw_inodes = [race_file (pid_line 1) None] \<rparr>,
             ls_proc = (\<lambda>_. Lp_Start)(1 := Lp_Gone, 2 := Lp_Opened 0) \<rparr>"

definition lock_race :: lock_sys where
  "lock_race = \<lparr> ls_world = \<lparr> lw_dir = Some 448, lw_name = Some 1,
                   lw_inodes = [race_file (pid_line 2) (Some 2), race_file (pid_line 3) (Some 3)] \<rparr>,
                 ls_proc = (\<lambda>_. Lp_Start)(1 := Lp_Gone, 2 := Lp_Held 0, 3 := Lp_Held 1) \<rparr>"

lemma race1: "do_open 2 (do_lock 1 0 (do_open 1 lock_idle)) = race1"
  by (simp add: race_simps lock_idle_def race1_def race_file_def fun_eq_iff)

lemma race2: "do_close 1 0 (do_unlink 1 0 race1) = race2"
  by (simp add: race_simps race1_def race2_def race_file_def fun_eq_iff)

lemma race3: "do_lock 3 1 (do_open 3 (do_lock 2 0 race2)) = lock_race"
  by (simp add: race_simps race2_def lock_race_def race_file_def fun_eq_iff)

lemma lock_race_reachable: "lock_reach lock_idle lock_race"
proof -
  have "lock_reach lock_idle (do_open 2 (do_lock 1 0 (do_open 1 lock_idle)))"
    by (intro reach_open reach_lock lock_start) (simp_all add: race_simps lock_idle_def)
  then have "lock_reach lock_idle race1" by (simp only: race1)
  then have "lock_reach lock_idle (do_close 1 0 (do_unlink 1 0 race1))"
    by (intro reach_unlink reach_close) (simp_all add: race1_def do_unlink_def)
  then have "lock_reach lock_idle race2" by (simp only: race2)
  then have "lock_reach lock_idle (do_lock 3 1 (do_open 3 (do_lock 2 0 race2)))"
    by (intro reach_open reach_lock) (simp_all add: race2_def race_simps race_file_def)
  then show ?thesis by (simp only: race3)
qed

text \<open>Because \<open>Drop\<close> unlinks the pidfile before the descriptor is closed, a process that
  opened the file earlier can take the lock of the nameless file while another
  creates the pidfile anew: two daemons hold their lock at the same time.\<close>

theorem unlink_race_two_daemons:
  "\<exists>s. lock_reach lock_idle s \<and> ls_proc s 2 = Lp_Held 0 \<and> ls_proc s 3 = Lp_Held 1 \<and>
     in_lock (lw_inodes (ls_world s) ! 0) = Some 2 \<and> in_lock (lw_inodes (ls_world s) ! 1) = Some 3"
  by (intro exI [of _ lock_race] conjI lock_race_reachable) (simp_all add: lock_race_def race_file_def)

theorem one_holder_per_file_witness:
  "lock_reach lock_idle lock_race \<and> ls_proc lock_race 2 = Lp_Held 0 \<and> ls_proc lock_race 3 \<noteq> Lp_Held 0"
proof -
  have p: "ls_proc lock_race 2 = Lp_Held 0" by (simp add: lock_race_def)
  then have "ls_proc lock_race 3 \<noteq> Lp_Held 0"
    using one_holder_per_file [OF lock_race_reachable, of 2 0 3] by auto
  with p lock_race_reachable show ?thesis by simp
qed

end
