(* ===== verification/Runtime.thy ===== *)
theory Runtime
  imports Server Lock
begin

text \<open>
  The life of the daemon process, \<open>syauth-presenced/src/runtime.rs\<close>: its
  configuration, the start of the orchestrator from the bond store, the signals,
  the watcher that turns changes of the bonds file into reload commands, the
  consumer of pair events that writes key file and bond record, and the frame
  around them that takes and releases the pidfile lock.
\<close>

section \<open>Constants and configuration\<close>

definition PRESENCED_SOCKET_BASENAME :: string where [const_defs]: "PRESENCED_SOCKET_BASENAME = ''auth.sock''"
definition DEFAULT_BONDS_FILE :: path where [const_defs]: "DEFAULT_BONDS_FILE = [''var'', ''lib'', ''syauth'', ''bonds.toml'']"
definition DEFAULT_KEYS_DIR :: path where [const_defs]: "DEFAULT_KEYS_DIR = [''var'', ''lib'', ''syauth'', ''keys'']"
definition DEFAULT_AUDIT_LOG_PATH :: path where
  [const_defs]: "DEFAULT_AUDIT_LOG_PATH = [''var'', ''lib'', ''syauth'', ''last.log'']"
definition PIDFILE_BASENAME :: string where [const_defs]: "PIDFILE_BASENAME = ''presenced.pid''"
definition PRESENCED_RUNTIME_SUBDIR :: string where [const_defs]: "PRESENCED_RUNTIME_SUBDIR = ''syauth''"
definition PAIR_DEFAULT_BOND_NAME :: string where [const_defs]: "PAIR_DEFAULT_BOND_NAME = ''phone (paired via daemon)''"
definition KEYS_DIR_MODE :: mode where [const_defs]: "KEYS_DIR_MODE = 448" \<comment> \<open>0o700\<close>
definition KEY_FILE_MODE :: mode where [const_defs]: "KEY_FILE_MODE = 384" \<comment> \<open>0o600\<close>
definition INOTIFY_CHANNEL_CAP :: nat where [const_defs]: "INOTIFY_CHANNEL_CAP = 32"

datatype run_error = Run_Lock lock_error | Run_Signal string io_error | Run_Serve serve_error

datatype shutdown_reason = Sigterm | Sigint

datatype peripheral_mode = Pm_Real | Pm_Fake

record daemon_config =
  dc_socket :: path
  dc_bonds_file :: path
  dc_keys_dir :: path
  dc_audit_log_path :: path
  dc_pidfile :: path
  dc_expected_uid :: "32 word option"
  dc_peripheral_mode :: peripheral_mode
  dc_inject_responses :: "(string \<times> bytes) list"
  dc_test_fixed_nonce :: "bytes option"

definition with_runtime_dir :: "path \<Rightarrow> daemon_config" where
  "with_runtime_dir runtime_dir =
     (let subdir = runtime_dir @ [PRESENCED_RUNTIME_SUBDIR] in
      \<lparr> dc_socket = subdir @ [PRESENCED_SOCKET_BASENAME], dc_bonds_file = DEFAULT_BONDS_FILE, dc_keys_dir = DEFAULT_KEYS_DIR,
        dc_audit_log_path = DEFAULT_AUDIT_LOG_PATH, dc_pidfile = subdir @ [PIDFILE_BASENAME], dc_expected_uid = None,
        dc_peripheral_mode = Pm_Real, dc_inject_responses = [], dc_test_fixed_nonce = None \<rparr>)"

section \<open>Starting the orchestrator\<close>

definition seed_fake_peripheral :: "daemon_config \<Rightarrow> fake_state" where
  "seed_fake_peripheral cfg = foldl (\<lambda>f (i, bs). inject_response i bs f) fake_new (dc_inject_responses cfg)"

text \<open>
  The key of the phone at start: the daemon reads the file itself, and logs the
  text of what went wrong.
\<close>

definition runtime_load_bond_key :: "sys_env \<Rightarrow> fs \<Rightarrow> path \<Rightarrow> string \<Rightarrow> key_error + bytes" where
  "runtime_load_bond_key e s keys_dir peer_id =
     (let p = keys_dir @ [peer_id @ BOND_KEY_FILE_EXT] in
      res_bind (map_err Key_Read (read_file e s p)) (\<lambda>bs.
        if length bs \<noteq> BOND_KEY_BYTES then Err (Key_Length (length bs)) else Ok bs))"

lemma runtime_load_bond_key [simp]: "runtime_load_bond_key e s keys_dir i = load_bond_key e s keys_dir i"
  by (simp add: runtime_load_bond_key_def load_bond_key_def Let_def split: sum.splits)

text \<open>
  The part of \<open>maybe_spawn_orchestrator\<close> after the peripheral is there: the first
  bonded peer is the seed; a failing registration gives up, a missing key or
  audit log does not.
\<close>

definition spawn_over ::
    "'p periph_ops \<Rightarrow> sys_env \<Rightarrow> daemon_config \<Rightarrow> bond_store \<Rightarrow> 'p \<Rightarrow> fs \<Rightarrow> 'p orch option \<times> fs" where
  "spawn_over ops e cfg store periph s =
     (let finish = (\<lambda>periph seed.
            case audit_open e (dc_audit_log_path cfg) s of
              (r, s1) \<Rightarrow>
                (Some (with_peers_and_audit periph seed (dc_bonds_file cfg) (dc_keys_dir cfg)
                   (case r of Inr l \<Rightarrow> Some l | Inl _ \<Rightarrow> None) s1), s1)) in
      case find (\<lambda>b. b_status b = Bonded) (bs_list store) of
        None \<Rightarrow> finish periph []
      | Some b \<Rightarrow>
          (case runtime_load_bond_key e s (dc_keys_dir cfg) (b_peer_id b) of
             Inl _ \<Rightarrow> finish periph []
           | Inr k \<Rightarrow>
               (case op_add_peer ops (b_peer_id b) k periph of
                  (Inl _, _) \<Rightarrow> (None, s)
                | (Inr _, periph1) \<Rightarrow> finish periph1 [(b, k)])))"

datatype daemon_orch = Orch_Real "persistent orch" | Orch_Fake "fake_state orch"

text \<open>A store whose text makes the deserializer panic takes the whole start down: \<open>None\<close>.\<close>

definition maybe_spawn_orchestrator ::
    "crypto \<Rightarrow> toml_lib \<Rightarrow> open_env \<Rightarrow> radio \<Rightarrow> sys_env \<Rightarrow> daemon_config \<Rightarrow> fs \<Rightarrow> (daemon_orch option \<times> fs) option" where
  "maybe_spawn_orchestrator C L oe rd e cfg s =
     (case bs_load L (cr_blake3 C) e s (dc_bonds_file cfg) of
        Inl err \<Rightarrow> if err = Bond_Panicked then None else Some (None, s)
      | Inr store \<Rightarrow>
          (case dc_peripheral_mode cfg of
             Pm_Real \<Rightarrow>
               (case pp_new DEFAULT_ADAPTER_NAME oe rd of
                  Inl _ \<Rightarrow> Some (None, s)
                | Inr p \<Rightarrow> Some (map_prod (map_option Orch_Real) id (spawn_over (persistent_ops (cr_hkdf C)) e cfg store p s)))
           | Pm_Fake \<Rightarrow>
               Some (map_prod (map_option Orch_Fake) id (spawn_over fake_ops e cfg store (seed_fake_peripheral cfg) s))))"

section \<open>Signals\<close>

text \<open>
  \<open>wait_for_reason\<close> as a state machine: the pending signals, whether the loop is
  inside the send of a reload command (it looks at no signal then), the channel,
  and the reason once the loop has returned.
\<close>

record sig_state =
  sg_term :: bool
  sg_int :: bool
  sg_hup :: bool
  sg_sending :: bool
  sg_chan :: "reload_chan option"
  sg_reason :: "shutdown_reason option"

datatype sig_event = Sg_Term | Sg_Int | Sg_Hup | Sg_Taken

definition sig_select :: "sig_state \<Rightarrow> sig_state" where
  "sig_select g =
     (if sg_term g then g\<lparr> sg_reason := Some Sigterm \<rparr>
      else if sg_int g then g\<lparr> sg_reason := Some Sigint \<rparr>
      else if sg_hup g then
        (case sg_chan g of
           None \<Rightarrow> g\<lparr> sg_hup := False \<rparr>
         | Some ch \<Rightarrow>
             (case reload_send Rt_Sighup ch of
                None \<Rightarrow> g\<lparr> sg_hup := False, sg_sending := True \<rparr>
              | Some (_, ch1) \<Rightarrow> g\<lparr> sg_hup := False, sg_chan := Some ch1 \<rparr>))
      else g)"

definition sig_poll :: "sig_state \<Rightarrow> sig_state" where
  "sig_poll g =
     (if sg_reason g \<noteq> None then g
      else if sg_sending g then
        (case sg_chan g of
           None \<Rightarrow> g
         | Some ch \<Rightarrow>
             (case reload_send Rt_Sighup ch of
                None \<Rightarrow> g
              | Some (_, ch1) \<Rightarrow> sig_select (g\<lparr> sg_sending := False, sg_chan := Some ch1 \<rparr>)))
      else sig_select g)"

definition sig_event :: "sig_event \<Rightarrow> sig_state \<Rightarrow> sig_state" where
  "sig_event ev g =
     (case ev of
        Sg_Term \<Rightarrow> g\<lparr> sg_term := True \<rparr>
      | Sg_Int \<Rightarrow> g\<lparr> sg_int := True \<rparr>
      | Sg_Hup \<Rightarrow> g\<lparr> sg_hup := True \<rparr>
      | Sg_Taken \<Rightarrow> g\<lparr> sg_chan := map_option (\<lambda>ch. ch\<lparr> rq_queue := tl (rq_queue ch) \<rparr>) (sg_chan g) \<rparr>)"

definition sig_init :: "reload_chan option \<Rightarrow> sig_state" where
  "sig_init ch = \<lparr> sg_term = False, sg_int = False, sg_hup = False, sg_sending = False, sg_chan = ch, sg_reason = None \<rparr>"

definition wait_for_reason :: "sig_event list \<Rightarrow> reload_chan option \<Rightarrow> sig_state" where
  "wait_for_reason evs ch = foldl (\<lambda>g ev. sig_poll (sig_event ev g)) (sig_init ch) evs"

section \<open>The watcher of the bonds file\<close>

datatype notify_kind = Nk_Any | Nk_Access | Nk_Create | Nk_Modify | Nk_Remove | Nk_Other

record notify_event =
  ne_kind :: notify_kind
  ne_paths :: "path list"
  ne_at :: nat

definition relevant_event :: "path \<Rightarrow> notify_event \<Rightarrow> bool" where
  "relevant_event bonds_file ev \<longleftrightarrow> ne_kind ev \<in> {Nk_Create, Nk_Modify, Nk_Remove} \<and> bonds_file \<in> set (ne_paths ev)"

text \<open>
  The debounce loop, over the instants (in milliseconds) at which relevant events
  are sent.  An event that is taken while the loop waits starts a sleep; at its
  end the queued events are drained and one command is sent.  The queue has 32
  places; how many of the events whose sender was blocked on it slip into the
  drain is decided by \<open>race\<close>.  The result lists the instants of the commands; sending
  one is taken to cost no time, which is so while the reload channel has room.
\<close>

definition inotify_wake :: "nat \<Rightarrow> nat \<Rightarrow> nat" where
  "inotify_wake now t = max now t + RELOAD_DEBOUNCE"

definition inotify_drained :: "(nat \<Rightarrow> nat) \<Rightarrow> nat \<Rightarrow> nat list \<Rightarrow> nat" where
  "inotify_drained race wake ts = min (INOTIFY_CHANNEL_CAP + race wake) (length (takeWhile (\<lambda>u. u \<le> wake) ts))"

function inotify_loop :: "(nat \<Rightarrow> nat) \<Rightarrow> nat \<Rightarrow> nat list \<Rightarrow> nat list" where
  "inotify_loop race now [] = []"
| "inotify_loop race now (t # ts) =
     inotify_wake now t # inotify_loop race (inotify_wake now t) (drop (inotify_drained race (inotify_wake now t) ts) ts)"
  by pat_completeness auto
termination
  by (relation "measure (\<lambda>(_, _, ts). length ts)") auto

text \<open>
  The watcher task: without a parent directory or without the kernel's watch it
  ends at once.  The events are those the kernel reports while the reload channel
  is open.
\<close>

definition inotify_watcher :: "bool \<Rightarrow> (nat \<Rightarrow> nat) \<Rightarrow> path \<Rightarrow> notify_event list \<Rightarrow> nat list" where
  "inotify_watcher watching race bonds_file evs =
     (if parent bonds_file = None \<or> \<not> watching then []
      else inotify_loop race 0 (map ne_at (filter (relevant_event bonds_file) evs)))"

section \<open>Pair events\<close>

definition persist_pair_bond_key :: "sys_env \<Rightarrow> path \<Rightarrow> string \<Rightarrow> bytes \<Rightarrow> fs \<Rightarrow> (io_error + unit) \<times> fs" where
  "persist_pair_bond_key e keys_dir peer_id bond_key s =
     (case create_dir_all e keys_dir s of
        (Inl err, s1) \<Rightarrow> (Err err, s1)
      | (Inr _, s1) \<Rightarrow>
          (let s2 = snd (set_permissions e keys_dir KEYS_DIR_MODE s1);
               p = keys_dir @ [peer_id @ BOND_KEY_FILE_EXT] in
           case write_file e p bond_key s2 of
             (Inl err, s3) \<Rightarrow> (Err err, s3)
           | (Inr _, s3) \<Rightarrow> (Ok (), snd (set_permissions e p KEY_FILE_MODE s3))))"

definition persist_pair_bond_record ::
    "toml_lib \<Rightarrow> (bytes \<Rightarrow> bytes) \<Rightarrow> sys_env \<Rightarrow> path \<Rightarrow> bond \<Rightarrow> fs \<Rightarrow> (bond_error + unit) \<times> fs" where
  "persist_pair_bond_record L blake3 e bonds_path b s =
     (case bs_load L blake3 e s bonds_path of
        Inl err \<Rightarrow> (Err err, s)
      | Inr store \<Rightarrow>
          (case (if \<exists>x \<in> set (bs_list store). b_peer_id x = b_peer_id b then bs_remove store (b_peer_id b) else (Ok (), store)) of
             (Inl err, _) \<Rightarrow> (Err err, s)
           | (Inr _, store1) \<Rightarrow>
               (case bs_add store1 b of
                  (Inl err, _) \<Rightarrow> (Err err, s)
                | (Inr _, store2) \<Rightarrow> bs_save L e store2 bonds_path s)))"

datatype pair_result =
    Pair_KeyFailed io_error | Pair_RecordFailed bond_error | Pair_SignalFailed | Pair_Signalled
  | Pair_Waiting | Pair_Panicked

definition pair_event_step ::
    "toml_lib \<Rightarrow> crypto \<Rightarrow> sys_env \<Rightarrow> path \<Rightarrow> path \<Rightarrow> int \<Rightarrow> bytes \<times> bytes \<Rightarrow> fs \<times> reload_chan \<Rightarrow> pair_result \<times> fs \<times> reload_chan" where
  "pair_event_step L C e bonds_path keys_dir now ev st =
     (let (host_pubkey, phone_pubkey) = ev; (s, ch) = st;
          peer_id = peer_id_from_pubkey (cr_blake3 C) phone_pubkey;
          bond_key = bond_key_from_pubkeys (cr_hkdf C) host_pubkey phone_pubkey in
      case persist_pair_bond_key e keys_dir peer_id bond_key s of
        (Inl err, s1) \<Rightarrow> (Pair_KeyFailed err, s1, ch)
      | (Inr _, s1) \<Rightarrow>
          (let b = \<lparr> b_peer_id = peer_id, b_pubkey = phone_pubkey, b_name = PAIR_DEFAULT_BOND_NAME,
                     b_created_at = now, b_status = Bonded \<rparr> in
           case persist_pair_bond_record L (cr_blake3 C) e bonds_path b s1 of
             (Inl err, s2) \<Rightarrow> (if err = Bond_Panicked then Pair_Panicked else Pair_RecordFailed err, s2, ch)
           | (Inr _, s2) \<Rightarrow>
               (case reload_send Rt_Pair ch of
                  None \<Rightarrow> (Pair_Waiting, s2, ch)
                | Some (sent, ch1) \<Rightarrow> (if sent then Pair_Signalled else Pair_SignalFailed, s2, ch1))))"

text \<open>The consumer goes on after every failure; a panic ends its task, a full channel holds it.\<close>

fun pair_event_consumer ::
    "toml_lib \<Rightarrow> crypto \<Rightarrow> sys_env \<Rightarrow> path \<Rightarrow> path \<Rightarrow> (int \<times> bytes \<times> bytes) list \<Rightarrow> fs \<times> reload_chan \<Rightarrow>
     pair_result list \<times> fs \<times> reload_chan" where
  "pair_event_consumer L C e bonds_path keys_dir [] st = ([], st)"
| "pair_event_consumer L C e bonds_path keys_dir ((now, ev) # evs) st =
     (case pair_event_step L C e bonds_path keys_dir now ev st of
        (r, st1) \<Rightarrow>
          if r = Pair_Panicked \<or> r = Pair_Waiting then ([r], st1)
          else case pair_event_consumer L C e bonds_path keys_dir evs st1 of (rs, st2) \<Rightarrow> (r # rs, st2))"

section \<open>The process\<close>

text \<open>
  What one run of the process meets: failures to install a signal handler, the
  environment of each part, the connections before and after the shutdown
  signal, the signals, and whether the server task panicked or the final unlink
  failed.
\<close>

record run_env =
  re_sigterm :: "io_error option"
  re_sigint :: "io_error option"
  re_sighup :: "io_error option"
  re_lock :: lock_env
  re_open :: open_env
  re_radio :: radio
  re_sys :: sys_env
  re_started_at :: int
  re_accept :: "accept_event list"
  re_drain :: "accept_event list"
  re_signals :: "sig_event list"
  re_join_failed :: bool
  re_unlink_fails :: bool

datatype run_result = Run_Done "run_error + shutdown_reason" | Run_Panicked | Run_Serving

definition install_signals :: "run_env \<Rightarrow> run_error + unit" where
  "install_signals re =
     (case re_sigterm re of Some err \<Rightarrow> Err (Run_Signal ''SIGTERM'' err) | None \<Rightarrow>
      (case re_sigint re of Some err \<Rightarrow> Err (Run_Signal ''SIGINT'' err) | None \<Rightarrow>
       (case re_sighup re of Some err \<Rightarrow> Err (Run_Signal ''SIGHUP'' err) | None \<Rightarrow> Ok ())))"

definition daemon_serve_config :: "run_env \<Rightarrow> daemon_config \<Rightarrow> serve_config" where
  "daemon_serve_config re cfg =
     \<lparr> sc_socket_path = dc_socket cfg, sc_expected_uid = dc_expected_uid cfg,
       sc_test_fixed_nonce = dc_test_fixed_nonce cfg, sc_started_at = re_started_at re \<rparr>"

text \<open>
  The lock is taken before the orchestrator and the socket, and dropped when the
  server task has been joined; the server's error is looked at only after the
  signal.
\<close>

definition daemon_run ::
    "crypto \<Rightarrow> toml_lib \<Rightarrow> run_env \<Rightarrow> nat \<Rightarrow> daemon_config \<Rightarrow> pid_world \<times> fs \<Rightarrow> run_result \<times> pid_world \<times> fs" where
  "daemon_run C L re pid cfg ws =
     (let (w, s) = ws in
      case install_signals re of
        Inl err \<Rightarrow> (Run_Done (Err err), w, s)
      | Inr _ \<Rightarrow>
     (case lock_acquire (re_lock re) pid w of
        (Inl err, w1) \<Rightarrow> (Run_Done (Err (Run_Lock err)), w1, s)
      | (Inr i, w1) \<Rightarrow>
     (case maybe_spawn_orchestrator C L (re_open re) (re_radio re) (re_sys re) cfg s of
        None \<Rightarrow> (Run_Panicked, lock_drop (re_unlink_fails re) pid i w1, s)
      | Some (orch, s1) \<Rightarrow>
          (let reload_tx = map_option (\<lambda>_. \<lparr> rq_open = True, rq_queue = [] \<rparr>) orch;
               scfg = daemon_serve_config re cfg in
           case sg_reason (wait_for_reason (re_signals re) reload_tx) of
             None \<Rightarrow> (Run_Serving, w1, snd (serve (re_sys re) scfg (re_accept re) s1))
           | Some reason \<Rightarrow>
               (case serve (re_sys re) scfg (re_accept re @ Ev_ShutdownSignal # re_drain re) s1 of
                  (sr, s2) \<Rightarrow>
                    (let w2 = lock_drop (re_unlink_fails re) pid i w1 in
                     if re_join_failed re then (Run_Done (Ok reason), w2, s2)
                     else case sr of
                       Inl err \<Rightarrow> (Run_Done (Err (Run_Serve err)), w2, s2)
                     | Inr a \<Rightarrow> if as_stopped a then (Run_Done (Ok reason), w2, s2) else (Run_Serving, w1, s2)))))))"

section \<open>Lemmas\<close>

lemma write_file_content:
  assumes "write_file e p bs s = (Ok (), s')"
  shows "\<exists>m. fs_nodes s' p = Some (FileNode bs m)"
  using assms by (auto simp: write_file_def guarded_def write_all_def split: option.splits node.splits)

lemma set_permissions_keeps:
  "fs_nodes s p = Some (FileNode bs m) \<Longrightarrow> \<exists>m1. fs_nodes (snd (set_permissions e p md s)) p = Some (FileNode bs m1)"
  by (auto simp: set_permissions_def guarded_def split: option.splits)

lemma persist_key_content:
  assumes "persist_pair_bond_key e dir i k s = (Ok (), s')"
  shows "\<exists>m. fs_nodes s' (dir @ [i @ BOND_KEY_FILE_EXT]) = Some (FileNode k m)"
proof -
  let ?p = "dir @ [i @ BOND_KEY_FILE_EXT]"
  from assms obtain s2 s3 where w: "write_file e ?p k s2 = (Ok (), s3)"
      and s': "s' = snd (set_permissions e ?p KEY_FILE_MODE s3)"
    by (auto simp: persist_pair_bond_key_def Let_def split: prod.splits sum.splits)
  from write_file_content [OF w] obtain m where "fs_nodes s3 ?p = Some (FileNode k m)" by blast
  from set_permissions_keeps [OF this] s' show ?thesis by simp
qed

text \<open>
  The key file is created with the mode of the umask and restricted only after
  the key has been written: there is an instant at which the complete key is on
  disk under that mode.
\<close>

lemma key_file_briefly_open:
  assumes "persist_pair_bond_key e dir i k s = (Ok (), s')" "fs_nodes s (dir @ [i @ BOND_KEY_FILE_EXT]) = None"
  shows "\<exists>m \<in> set (fs_all s'). m (dir @ [i @ BOND_KEY_FILE_EXT]) = Some (FileNode k (sys_umask_file e))"
proof -
  let ?p = "dir @ [i @ BOND_KEY_FILE_EXT]"
  from assms(1) obtain r1 s1 r2 s2 s3 where c: "create_dir_all e dir s = (r1, s1)"
      and d: "set_permissions e dir KEYS_DIR_MODE s1 = (r2, s2)" and w: "write_file e ?p k s2 = (Ok (), s3)"
      and s': "s' = snd (set_permissions e ?p KEY_FILE_MODE s3)"
    by (cases "create_dir_all e dir s"; cases "set_permissions e dir KEYS_DIR_MODE (snd (create_dir_all e dir s))")
       (auto simp: persist_pair_bond_key_def Let_def split: prod.splits sum.splits)
  obtain r4 where p: "set_permissions e ?p KEY_FILE_MODE s3 = (r4, s')" using s' by (metis prod.collapse)
  have "?p \<notin> set (ancestors dir)" using ancestors_shorter [of ?p dir] by auto
  then have "fs_nodes s2 ?p = None"
    using only_touches_nodes [OF create_dir_all_touches [OF c], of ?p] only_touches_nodes [OF set_permissions_touches [OF d], of ?p]
      assms(2) by simp
  then have "fs_nodes s3 ?p = Some (FileNode k (sys_umask_file e))"
    using w by (auto simp: write_file_def guarded_def write_all_def split: option.splits node.splits)
  moreover have "fs_nodes s3 \<in> set (fs_all s')"
  proof -
    obtain new where "fs_all s' = new @ fs_all s3" using set_permissions_touches [OF p] by (auto simp: only_touches_def)
    then show ?thesis by (simp add: fs_all_def)
  qed
  ultimately show ?thesis by blast
qed

lemma bs_remove_others:
  assumes "bs_remove st i = (Ok (), st1)"
  shows "set (bs_bonds st1) \<subseteq> set (bs_bonds st)"
  using assms by (auto simp: bs_remove_def remove_at_def split: option.splits dest: in_set_takeD in_set_dropD)

text \<open>After a successful write of the record the file holds the new bond, once, and no other bond for its peer.\<close>

lemma persist_record_store:
  assumes "toml_lib_ok L" "bond_wf blake3 b" "f \<noteq> sys_temp e" "sys_fail e' (OpRead (d @ [f])) = None"
    and "persist_pair_bond_record L blake3 e (d @ [f]) b s = (Ok (), s')"
  obtains store where "bs_load L blake3 e' s' (d @ [f]) = Ok store" "b \<in> set (bs_list store)"
    "\<And>x. x \<in> set (bs_list store) \<Longrightarrow> b_peer_id x = b_peer_id b \<Longrightarrow> x = b"
proof -
  from assms(5) obtain st st1 st2 where ld: "bs_load L blake3 e s (d @ [f]) = Ok st"
    and rm: "(if \<exists>x \<in> set (bs_list st). b_peer_id x = b_peer_id b then bs_remove st (b_peer_id b) else (Ok (), st)) = (Ok (), st1)"
    and ad: "bs_add st1 b = (Ok (), st2)" and sv: "bs_save L e st2 (d @ [f]) s = (Ok (), s')"
    by (auto simp: persist_pair_bond_record_def split: sum.splits prod.splits)
  have st2: "bs_bonds st2 = bs_bonds st1 @ [b]" "\<forall>x \<in> set (bs_bonds st1). b_peer_id x \<noteq> b_peer_id b"
    using ad position_None [of "\<lambda>x. b_peer_id x = b_peer_id b" "bs_bonds st1"]
    by (auto simp: bs_add_def find_index_def split: if_splits)
  have "set (bs_bonds st1) \<subseteq> set (bs_bonds st)"
    using rm bs_remove_others [of st "b_peer_id b" st1] by (auto split: if_splits)
  then have "\<forall>x \<in> set (bs_bonds st2). bond_wf blake3 x" using st2(1) assms(2) bs_load_wf [OF ld] by auto
  from bs_save_then_load [OF assms(1) this sv _ assms(4)] assms(3) have "bs_load L blake3 e' s' (d @ [f]) = Ok st2"
    by (simp add: temp_path_def)
  then show thesis by (rule that) (use st2 in \<open>auto simp: bs_list_def\<close>)
qed

lemma persist_record_frame:
  assumes "f \<noteq> sys_temp e" "persist_pair_bond_record L blake3 e (d @ [f]) b s = (r, s')" "length q > Suc (length d)"
  shows "fs_nodes s' q = fs_nodes s q"
  using assms bs_save_frame [OF _ assms(1,3)]
  by (auto simp: persist_pair_bond_record_def split: sum.splits prod.splits)

lemma bond_key_length:
  assumes "\<And>ikm info n out. hk ikm info n = Some out \<Longrightarrow> length out = n"
  shows "length (bond_key_from_pubkeys hk h p) = BOND_KEY_BYTES"
  using assms by (auto simp: bond_key_from_pubkeys_def const_defs split: option.splits)

lemma pair_event_done:
  assumes "pair_event_step L C e bonds keys now (host, phone) (s, ch) = (Pair_Signalled, s', ch')"
  obtains s1 where "persist_pair_bond_key e keys (peer_id_from_pubkey (cr_blake3 C) phone)
        (bond_key_from_pubkeys (cr_hkdf C) host phone) s = (Ok (), s1)"
    "persist_pair_bond_record L (cr_blake3 C) e bonds
       \<lparr> b_peer_id = peer_id_from_pubkey (cr_blake3 C) phone, b_pubkey = phone, b_name = PAIR_DEFAULT_BOND_NAME,
         b_created_at = now, b_status = Bonded \<rparr> s1 = (Ok (), s')"
    "reload_send Rt_Pair ch = Some (True, ch')"
  using assms by (auto simp: pair_event_step_def Let_def split: prod.splits sum.splits option.splits if_splits)

text \<open>
  A reload makes a peer live that was not, when the store has one bond for it,
  not revoked, and its key file is good.
\<close>

lemma fresh_bond_live:
  assumes "live_synced (\<lambda>p. dom (pp_peers p)) os" "rd_serve (pp_radio (o_periph os)) = []"
    and "\<forall>xs. set (sh xs) = set xs \<and> (distinct xs \<longrightarrow> distinct (sh xs))"
    and "bs_load L (cr_blake3 C) e (o_fs os) (o_bonds_file os) = Ok store" "b \<in> set (bs_list store)" "b_status b = Bonded"
    and "\<And>x. x \<in> set (bs_list store) \<Longrightarrow> b_peer_id x = b_peer_id b \<Longrightarrow> x = b"
    and "load_bond_key e (o_fs os) (o_keys_dir os) (b_peer_id b) = Ok key" "bt_get (o_peers os) (b_peer_id b) = None"
  shows "\<exists>pe. bt_get (o_peers (run_reload (persistent_ops hk) C L e sh now t os)) (b_peer_id b) = Some pe \<and>
           pe_bond_key pe = key \<and> pe_phone_pubkey pe = Some (b_pubkey b)"
proof -
  let ?i = "b_peer_id b" and ?os2 = "reload_bonds_with_trigger (persistent_ops hk) C e sh now store t os"
  have new: "bt_get (compute_new_set e store os) ?i = Some key"
    using assms(5,6,8) by (auto simp: compute_new_set_get is_revoked_def intro!: bexI [of _ b])
  have "bt_get (o_peers ?os2) ?i \<noteq> None"
    using persistent_reliable.reload_good [OF assms(1), of sh hk C e now store t] assms(2,3) new by auto
  moreover have "bt_get (o_peers ?os2) ?i = None \<or>
      (\<exists>pe. fresh_entry store (compute_new_set e store os) ?i pe \<and> bt_get (o_peers ?os2) ?i = Some pe)"
    using persistent.reload_live [OF assms(1), of sh hk C e now store t, THEN conjunct2, rule_format, of ?i] assms(3)
    unfolding assms(9) by (auto split: if_splits)
  ultimately obtain pe where pe: "fresh_entry store (compute_new_set e store os) ?i pe" "bt_get (o_peers ?os2) ?i = Some pe"
    by auto
  have "pe_phone_pubkey pe = Some (b_pubkey b)"
  proof -
    obtain x where x: "find (\<lambda>b. b_peer_id b = ?i) (bs_list store) = Some x" "pe_phone_pubkey pe = Some (b_pubkey x)"
      using pe(1) by (auto simp: fresh_entry_def)
    then have "x = b" using assms(7) by (auto simp: find_Some_iff)
    then show ?thesis using x(2) by simp
  qed
  moreover have "run_reload (persistent_ops hk) C L e sh now t os = ?os2" by (rule run_reload_store [OF assms(4)])
  ultimately show ?thesis using pe new by (auto simp: fresh_entry_def)
qed

section \<open>Properties\<close>

text \<open>
  C13: pairing makes a new phone known.  When the consumer has signalled a pair
  event of a phone that the daemon does not have live, and BlueZ accepts the
  registrations, the reload that follows makes the phone's peer live: its entry
  has the bond key derived from both public keys and the phone's public key, read
  back from the files the consumer wrote.  (A phone that pairs again while it is
  live keeps its old entry.)
\<close>

theorem pairing_makes_peer_live:
  assumes "live_synced (\<lambda>p. dom (pp_peers p)) os" "rd_serve (pp_radio (o_periph os)) = []"
    and "\<forall>xs. set (sh xs) = set xs \<and> (distinct xs \<longrightarrow> distinct (sh xs))"
    and "toml_lib_ok L" "\<forall>ikm info n out. cr_hkdf C ikm info n = Some out \<longrightarrow> length out = n"
    and "o_bonds_file os = d @ [f]" "o_keys_dir os = d @ [k]" "f \<noteq> sys_temp e" "\<forall>p. sys_fail e' (OpRead p) = None"
    and "length phone = 32" "i = peer_id_from_pubkey (cr_blake3 C) phone" "bt_get (o_peers os) i = None"
    and "pair_event_step L C e (d @ [f]) (d @ [k]) now (host, phone) (o_fs os, ch) = (Pair_Signalled, s', ch')"
  shows "Rt_Pair \<in> set (rq_queue ch') \<and>
         (\<exists>pe. bt_get (o_peers (run_reload (persistent_ops hk) C L e' sh now' Rt_Pair (os\<lparr> o_fs := s' \<rparr>))) i = Some pe \<and>
            pe_bond_key pe = bond_key_from_pubkeys (cr_hkdf C) host phone \<and> pe_phone_pubkey pe = Some phone)"
proof -
  let ?key = "bond_key_from_pubkeys (cr_hkdf C) host phone" and ?p = "d @ [k, i @ BOND_KEY_FILE_EXT]"
  define b where "b = \<lparr> b_peer_id = i, b_pubkey = phone, b_name = PAIR_DEFAULT_BOND_NAME, b_created_at = now, b_status = Bonded \<rparr>"
  define os1 where "os1 = os\<lparr> o_fs := s' \<rparr>"
  from assms(13,11) obtain s1 where key: "persist_pair_bond_key e (d @ [k]) i ?key (o_fs os) = (Ok (), s1)"
    and rec: "persist_pair_bond_record L (cr_blake3 C) e (d @ [f]) b s1 = (Ok (), s')"
    and sent: "reload_send Rt_Pair ch = Some (True, ch')"
    using pair_event_done [of L C e "d @ [f]" "d @ [k]" now host phone "o_fs os" ch s' ch'] b_def by metis
  have wf: "bond_wf (cr_blake3 C) b" using assms(10,11) by (simp add: b_def bond_wf_def PUBKEY_LEN_def)
  obtain store where ld: "bs_load L (cr_blake3 C) e' s' (d @ [f]) = Ok store" "b \<in> set (bs_list store)"
      "\<And>x. x \<in> set (bs_list store) \<Longrightarrow> b_peer_id x = b_peer_id b \<Longrightarrow> x = b"
    using persist_record_store [OF assms(4) wf assms(8) _ rec] assms(9) by blast
  obtain m where "fs_nodes s1 ?p = Some (FileNode ?key m)" using persist_key_content [OF key] by auto
  then have "fs_nodes s' ?p = Some (FileNode ?key m)" using persist_record_frame [OF assms(8) rec, of ?p] by simp
  then have lk: "load_bond_key e' (o_fs os1) (o_keys_dir os1) i = Ok ?key"
    using assms(5,7,9) bond_key_length [of "cr_hkdf C" host phone]
    by (simp add: load_bond_key_def read_file_def os1_def)
  have os1: "live_synced (\<lambda>p. dom (pp_peers p)) os1" "rd_serve (pp_radio (o_periph os1)) = []"
      "bs_load L (cr_blake3 C) e' (o_fs os1) (o_bonds_file os1) = Ok store" "bt_get (o_peers os1) (b_peer_id b) = None"
    using assms(1,2,6,12) ld(1) by (simp_all add: os1_def live_synced_def orch_invar_def b_def)
  have b: "b_status b = Bonded" "b_peer_id b = i" "b_pubkey b = phone" by (simp_all add: b_def)
  have "Rt_Pair \<in> set (rq_queue ch')" using sent by (auto simp: reload_send_def split: if_splits)
  then show ?thesis
    using fresh_bond_live [OF os1(1,2) assms(3) os1(3) ld(2) b(1) ld(3) _ os1(4), of ?key hk now' Rt_Pair] lk
    unfolding b os1_def [symmetric] by simp
qed

text \<open>An empty daemon over a working radio, an empty bond directory, and a phone that pairs.\<close>

definition ex_phone :: bytes where "ex_phone = replicate 32 7"

definition ex_phone_id :: string where "ex_phone_id = peer_id_from_pubkey (cr_blake3 ex_crypto) ex_phone"

definition ex_pair_file :: raw_file where
  "ex_pair_file = \<lparr> rf_schema_version = 1, rf_bonds = Some
     [\<lparr> rb_peer_id = ex_phone_id, rb_pubkey = hex_lowercase ex_phone, rb_name = PAIR_DEFAULT_BOND_NAME, rb_created_at = ''t'',
        rb_kind = ''Bonded'', rb_reason = None \<rparr>] \<rparr>"

definition ex_toml2 :: toml_lib where
  "ex_toml2 = \<lparr> toml_from = (\<lambda>t. if t = ''v'' then Some ex_pair_file else None),
     toml_to = (\<lambda>rf. if rf = ex_pair_file then Some ''v'' else None),
     rfc_format = (\<lambda>i. if i = 0 then Some ''t'' else None), rfc_parse = (\<lambda>t. if t = ''t'' then Some 0 else None) \<rparr>"

definition ex_cold :: "persistent orch" where
  "ex_cold = with_peers_and_audit ((ex_persistent ''x'')\<lparr> pp_peers := Map.empty \<rparr>) [] [''d'', ''f''] [''d'', ''k''] None ex_fs"

lemma ex_toml2_ok: "toml_lib_ok ex_toml2"
  by (auto simp: toml_lib_ok_def ex_toml2_def utf8_valid_ascii str_bytes_def byte_of_char_def split: if_splits)

lemma ex_pair_key:
  "persist_pair_bond_key ex_env [''d'', ''k''] i key ex_fs =
     (Ok (), snd (persist_pair_bond_key ex_env [''d'', ''k''] i key ex_fs))"
  by (simp add: persist_pair_bond_key_def create_dir_all_def guarded_def ancestors_def set_permissions_def write_file_def
      write_all_def parent_def ex_env_def ex_fs_def Let_def upt_rec numeral_2_eq_2)

lemma ex_pair_key_dir:
  assumes "s1 = snd (persist_pair_bond_key ex_env [''d'', ''k''] i key ex_fs)"
  shows "fs_nodes s1 [''d''] = Some (DirNode 448)" "fs_nodes s1 [''d'', ''f''] = None" "fs_nodes s1 [''d'', ''tmp''] = None"
  by (simp_all add: assms persist_pair_bond_key_def create_dir_all_def guarded_def ancestors_def set_permissions_def write_file_def
      write_all_def parent_def ex_env_def ex_fs_def Let_def upt_rec numeral_2_eq_2)

lemma ex_pair_record:
  assumes "fs_nodes s1 [''d''] = Some (DirNode 448)" "fs_nodes s1 [''d'', ''f''] = None" "fs_nodes s1 [''d'', ''tmp''] = None"
  shows "fst (persist_pair_bond_record ex_toml2 (cr_blake3 ex_crypto) ex_env [''d'', ''f'']
     \<lparr> b_peer_id = ex_phone_id, b_pubkey = ex_phone, b_name = PAIR_DEFAULT_BOND_NAME, b_created_at = 0, b_status = Bonded \<rparr> s1)
       = Ok ()"
proof -
  have "bs_load ex_toml2 (cr_blake3 ex_crypto) ex_env s1 [''d'', ''f''] = Ok \<lparr> bs_bonds = [] \<rparr>"
    using assms(2) by (simp add: bs_load_def read_to_string_def read_file_def ex_env_def)
  then show ?thesis
    using assms
    by (simp add: persist_pair_bond_record_def bs_list_def bs_add_def find_index_def bs_save_def parent_dir_of_def parent_def
        ensure_parent_dir_def metadata_def ex_env_def serialize_to_toml_def toml_to_string_def raw_of_bond_def ex_toml2_def
        ex_pair_file_def Let_def const_defs replace_via_temp_def new_temp_def guarded_def temp_path_def set_temp_file_mode_def
        on_err_def set_permissions_def write_all_def sync_all_def rename_def)
qed

lemma ex_pair_done:
  "\<exists>s' ch'. pair_event_step ex_toml2 ex_crypto ex_env [''d'', ''f''] [''d'', ''k''] 0 (replicate 32 1, ex_phone)
     (ex_fs, \<lparr> rq_open = True, rq_queue = [] \<rparr>) = (Pair_Signalled, s', ch')"
proof -
  let ?key = "bond_key_from_pubkeys (cr_hkdf ex_crypto) (replicate 32 1) ex_phone"
  define s1 where "s1 = snd (persist_pair_bond_key ex_env [''d'', ''k''] ex_phone_id ?key ex_fs)"
  obtain r s2 where r: "persist_pair_bond_record ex_toml2 (cr_blake3 ex_crypto) ex_env [''d'', ''f'']
     \<lparr> b_peer_id = ex_phone_id, b_pubkey = ex_phone, b_name = PAIR_DEFAULT_BOND_NAME, b_created_at = 0, b_status = Bonded \<rparr> s1 = (r, s2)"
    by fastforce
  then have "r = Ok ()" using ex_pair_record [OF ex_pair_key_dir [OF s1_def]] by simp
  moreover have "persist_pair_bond_key ex_env [''d'', ''k''] ex_phone_id ?key ex_fs = (Ok (), s1)"
    unfolding s1_def by (rule ex_pair_key)
  ultimately show ?thesis
    using r by (simp add: pair_event_step_def Let_def ex_phone_id_def [symmetric] reload_send_def const_defs)
qed

theorem pairing_makes_peer_live_witness:
  "\<exists>s' pe. bt_get (o_peers (run_reload (persistent_ops (cr_hkdf ex_crypto)) ex_crypto ex_toml2 ex_env (\<lambda>x. x) 5 Rt_Pair
       (ex_cold\<lparr> o_fs := s' \<rparr>))) ex_phone_id = Some pe \<and> pe_phone_pubkey pe = Some ex_phone"
proof -
  obtain s' ch' where p: "pair_event_step ex_toml2 ex_crypto ex_env ([''d''] @ [''f'']) ([''d''] @ [''k'']) 0 (replicate 32 1, ex_phone)
      (o_fs ex_cold, \<lparr> rq_open = True, rq_queue = [] \<rparr>) = (Pair_Signalled, s', ch')"
    using ex_pair_done by (auto simp: ex_cold_def with_peers_and_audit_def)
  have "live_synced (\<lambda>p. dom (pp_peers p)) ex_cold"
    by (simp add: live_synced_def ex_cold_def with_peers_and_audit_def orch_invar_def bt_invar_def cells_ok_def entries_ok_def
        bt_get_def [abs_def])
  from pairing_makes_peer_live [OF this _ _ ex_toml2_ok _ _ _ _ _ _ _ _ p, of "\<lambda>x. x" ex_env ex_phone_id
      "cr_hkdf ex_crypto" 5]
  show ?thesis
    by (auto simp: ex_cold_def with_peers_and_audit_def ex_persistent_def ex_radio_def ex_crypto_def ex_env_def ex_phone_def
        ex_phone_id_def bt_get_def)
qed

text \<open>Every event is at or before some command, and the commands are spaced by the debounce time.\<close>

lemma inotify_loop_bounds: "f \<in> set (inotify_loop race now ts) \<Longrightarrow> now + RELOAD_DEBOUNCE \<le> f"
  by (induction race now ts rule: inotify_loop.induct) (auto simp: inotify_wake_def)

lemma takeWhile_head_drop:
  assumes "n \<le> length (takeWhile P ts)" "t \<in> set ts"
  shows "P t \<or> t \<in> set (drop n ts)"
proof -
  have "take n ts = take n (takeWhile P ts @ dropWhile P ts)" by simp
  also have "\<dots> = take n (takeWhile P ts)" using assms(1) by (simp del: takeWhile_dropWhile_id)
  finally have "\<forall>x \<in> set (take n ts). P x" by (metis in_set_takeD set_takeWhileD)
  moreover have "t \<in> set (take n ts) \<union> set (drop n ts)" using assms(2) by (metis append_take_drop_id set_append)
  ultimately show ?thesis by blast
qed

lemma inotify_loop_covers: "t \<in> set ts \<Longrightarrow> \<exists>f \<in> set (inotify_loop race now ts). t \<le> f"
proof (induction race now ts rule: inotify_loop.induct)
  case (2 race now u ts)
  let ?w = "inotify_wake now u"
  consider "t = u" | "t \<le> ?w" | "t \<in> set (drop (inotify_drained race ?w ts) ts)"
    using 2(2) takeWhile_head_drop [of "inotify_drained race ?w ts" "\<lambda>u. u \<le> ?w" ts t] by (auto simp: inotify_drained_def)
  then show ?case
  proof cases
    case 1
    then have "t \<le> ?w" by (simp add: inotify_wake_def)
    then show ?thesis by simp
  next
    case 3
    from 2(1) [OF this] show ?thesis by auto
  qed simp
qed simp

lemma inotify_loop_spaced: "sorted_wrt (\<lambda>a b. a + RELOAD_DEBOUNCE \<le> b) (inotify_loop race now ts)"
  by (induction race now ts rule: inotify_loop.induct) (auto dest: inotify_loop_bounds)

lemma inotify_loop_length: "length (inotify_loop race now ts) \<le> length ts"
proof (induction race now ts rule: inotify_loop.induct)
  case (2 race now t ts)
  then show ?case by (simp add: le_trans [OF 2])
qed simp

text \<open>
  C21: once the watch is installed, no change of the bonds file is lost and a burst costs few reloads.  Every
  event that names the bonds file and creates, modifies or removes it is
  followed by a reload command; there are at most as many commands as such
  events, and any two of them are at least 200 ms apart, whatever the race for
  the places of the event queue.
\<close>

theorem inotify_no_lost_change:
  assumes "ev \<in> set evs" "ne_kind ev \<in> {Nk_Create, Nk_Modify, Nk_Remove}" "dir @ [f] \<in> set (ne_paths ev)"
  shows "(\<exists>c \<in> set (inotify_watcher True race (dir @ [f]) evs). ne_at ev \<le> c) \<and>
         length (inotify_watcher True race (dir @ [f]) evs) \<le> length (filter (relevant_event (dir @ [f])) evs) \<and>
         sorted_wrt (\<lambda>a b. a + 200 \<le> b) (inotify_watcher True race (dir @ [f]) evs)"
proof -
  let ?ts = "map ne_at (filter (relevant_event (dir @ [f])) evs)"
  have "inotify_watcher True race (dir @ [f]) evs = inotify_loop race 0 ?ts"
    by (simp add: inotify_watcher_def parent_def)
  moreover have "ne_at ev \<in> set ?ts" using assms by (auto simp: relevant_event_def)
  ultimately show ?thesis
    using inotify_loop_covers [of "ne_at ev" ?ts race 0] inotify_loop_length [of race 0 ?ts]
      inotify_loop_spaced [of race 0 ?ts] by (simp add: RELOAD_DEBOUNCE_def)
qed

theorem inotify_no_lost_change_witness:
  "\<exists>c \<in> set (inotify_watcher True (\<lambda>_. 0) ([''d''] @ [''f''])
     [\<lparr> ne_kind = Nk_Access, ne_paths = [[''d'', ''f'']], ne_at = 1 \<rparr>, \<lparr> ne_kind = Nk_Modify, ne_paths = [[''d'', ''f'']], ne_at = 7 \<rparr>]). 7 \<le> c"
  using inotify_no_lost_change [of "\<lparr> ne_kind = Nk_Modify, ne_paths = [[''d'', ''f'']], ne_at = 7 \<rparr>"
      "[\<lparr> ne_kind = Nk_Access, ne_paths = [[''d'', ''f'']], ne_at = 1 \<rparr>, \<lparr> ne_kind = Nk_Modify, ne_paths = [[''d'', ''f'']], ne_at = 7 \<rparr>]"
      "[''d'']" "''f''" "\<lambda>_. 0"]
  by simp

subsection \<open>Cold start\<close>

lemma pp_new_empty: "pp_new a oe rd = Ok p \<Longrightarrow> pp_peers p = Map.empty"
  by (auto simp: pp_new_def rebuild_application_def serve_app_def Let_def
      split: sum.splits prod.splits option.splits)

lemma with_no_peers: "reg p = {} \<Longrightarrow> live_synced reg (with_peers_and_audit p [] bf kd al s)"
  by (simp add: with_peers_and_audit_def live_synced_def orch_invar_def bt_invar_def cells_ok_def entries_ok_def
      bt_get_def [abs_def])

lemma with_one_peer:
  fixes p :: 'p and os :: "'p orch"
  assumes "reg p = {b_peer_id b}" "os = with_peers_and_audit p [(b, k)] bf kd al s"
  shows "live_synced reg os \<and>
         bt_get (o_peers os) = [b_peer_id b \<mapsto> \<lparr> pe_bond_key = k, pe_phone_pubkey = Some (b_pubkey b), pe_cell = 0 \<rparr>]"
proof -
  define os0 where "os0 = with_peers_and_audit p [] bf kd al s"
  have os: "os = insert_peer_entry (b_peer_id b) k (Some (b_pubkey b)) os0"
    by (simp add: assms(2) os0_def with_peers_and_audit_def)
  have "orch_invar os0" "o_peers os0 = []" "o_cells os0 = []" "o_periph os0 = p"
    using with_no_peers [of "\<lambda>_. {}" p bf kd al s] by (simp_all add: os0_def live_synced_def with_peers_and_audit_def)
  moreover from this(2) have "bt_get (o_peers os0) = Map.empty" by (simp add: bt_get_def [abs_def])
  ultimately show ?thesis using assms(1) orch_invar_insert_peer [of os0] by (simp add: os live_synced_def)
qed

text \<open>The entries that a start over a fresh peripheral makes.\<close>

definition seed_entries :: "sys_env \<Rightarrow> fs \<Rightarrow> daemon_config \<Rightarrow> bond_store \<Rightarrow> string \<rightharpoonup> peer_entry" where
  "seed_entries e s cfg store =
     (case find (\<lambda>b. b_status b = Bonded) (bs_list store) of
        None \<Rightarrow> Map.empty
      | Some b \<Rightarrow>
          (case load_bond_key e s (dc_keys_dir cfg) (b_peer_id b) of
             Inl _ \<Rightarrow> Map.empty
           | Inr k \<Rightarrow> [b_peer_id b \<mapsto> \<lparr> pe_bond_key = k, pe_phone_pubkey = Some (b_pubkey b), pe_cell = 0 \<rparr>]))"

context peripheral_laws begin

lemma spawn_live:
  assumes "registered p = {}" "spawn_over ops e cfg store p s = (Some os, s1)"
  shows "live_synced registered os \<and> bt_get (o_peers os) = seed_entries e s cfg store"
proof -
  obtain r s2 where al: "audit_open e (dc_audit_log_path cfg) s = (r, s2)" by fastforce
  have none: "live_synced registered os \<and> bt_get (o_peers os) = Map.empty"
    if "os = with_peers_and_audit p [] (dc_bonds_file cfg) (dc_keys_dir cfg) l s2" for l
    using with_no_peers [of registered p "dc_bonds_file cfg" "dc_keys_dir cfg" l s2] assms(1) that
    by (auto simp: live_synced_def with_peers_and_audit_def bt_get_def [abs_def])
  show ?thesis
  proof (cases "find (\<lambda>b. b_status b = Bonded) (bs_list store)")
    case None
    with assms(2) al none show ?thesis by (auto simp: spawn_over_def seed_entries_def Let_def)
  next
    case (Some b)
    show ?thesis
    proof (cases "load_bond_key e s (dc_keys_dir cfg) (b_peer_id b)")
      case (Inl err)
      with Some assms(2) al none show ?thesis by (auto simp: spawn_over_def seed_entries_def Let_def)
    next
      case (Inr k)
      obtain x p1 where add: "op_add_peer ops (b_peer_id b) k p = (x, p1)" by fastforce
      with Some Inr assms(2) al have x: "x = Ok ()" and os: "\<exists>l. os = with_peers_and_audit p1 [(b, k)] (dc_bonds_file cfg) (dc_keys_dir cfg) l s2"
        by (auto simp: spawn_over_def Let_def split: sum.splits)
      have "registered p1 = {b_peer_id b}" using add_registered [OF add] x assms(1) by simp
      then show ?thesis using os with_one_peer [of registered p1 b os k] Some Inr by (auto simp: seed_entries_def)
    qed
  qed
qed

end

text \<open>A start over the production peripheral, and the ticks and reloads that follow it.\<close>

lemma real_start:
  assumes "bs_load L (cr_blake3 C) e s (dc_bonds_file cfg) = Ok store"
    and "maybe_spawn_orchestrator C L oe rd e cfg s = Some (Some (Orch_Real os), s1)"
  shows "live_synced (\<lambda>p. dom (pp_peers p)) os" "bt_get (o_peers os) = seed_entries e s cfg store"
proof -
  obtain p where p: "pp_new DEFAULT_ADAPTER_NAME oe rd = Ok p" "spawn_over (persistent_ops (cr_hkdf C)) e cfg store p s = (Some os, s1)"
    using assms by (auto simp: maybe_spawn_orchestrator_def map_prod_def split: peripheral_mode.splits sum.splits prod.splits)
  show "live_synced (\<lambda>p. dom (pp_peers p)) os" "bt_get (o_peers os) = seed_entries e s cfg store"
    using persistent.spawn_live [OF _ p(2)] pp_new_empty [OF p(1)] by simp_all
qed

lemma run_loop_synced:
  assumes "live_synced (\<lambda>p. dom (pp_peers p)) os" "\<forall>xs. set (sh xs) = set xs"
  shows "live_synced (\<lambda>p. dom (pp_peers p)) (run_loop (persistent_ops hk) C L e sh evs os)"
  using assms(1)
proof (induction evs arbitrary: os)
  case (Cons ev evs)
  have "live_synced (\<lambda>p. dom (pp_peers p)) (run_reload (persistent_ops hk) C L e sh now t os)" for now t
    using persistent.reload_live [OF Cons.prems, of sh] assms(2) Cons.prems
    by (auto simp: run_reload_def split: sum.splits)
  then show ?case using Cons persistent.rotate_live [OF Cons.prems] by (cases ev) auto
qed simp

text \<open>
  C14: a cold start brings up the first bonded phone.  When the bond store can be
  read, it has a bond that is not revoked and the key file of the first of these is
  good, the daemon that comes up over the production peripheral has exactly that
  phone live, with this key and the public key of the bond; the peripheral's table
  of peers has the same peers as the orchestrator then, and after any sequence of
  ticks and reloads that follows.
\<close>

theorem cold_start_synced:
  assumes "bs_load L (cr_blake3 C) e s (dc_bonds_file cfg) = Ok store"
    and "find (\<lambda>b. b_status b = Bonded) (bs_list store) = Some b"
    and "load_bond_key e s (dc_keys_dir cfg) (b_peer_id b) = Ok key"
    and "maybe_spawn_orchestrator C L oe rd e cfg s = Some (Some (Orch_Real os), s1)"
    and "\<forall>xs. set (sh xs) = set xs"
    and "os' = run_loop (persistent_ops (cr_hkdf C)) C L e' sh evs os"
  shows "bt_get (o_peers os) = [b_peer_id b \<mapsto> \<lparr> pe_bond_key = key, pe_phone_pubkey = Some (b_pubkey b), pe_cell = 0 \<rparr>] \<and>
         dom (pp_peers (o_periph os)) = {b_peer_id b} \<and>
         dom (pp_peers (o_periph os')) = dom (bt_get (o_peers os'))"
  using real_start [OF assms(1,4)] run_loop_synced [OF real_start(1) [OF assms(1,4)] assms(5)] assms(2,3,6)
  by (simp add: seed_entries_def live_synced_def)

text \<open>
  Without a bond that is not revoked, and with a first one whose key file is not
  good, the daemon starts its orchestrator all the same, with no peer, so that a
  phone can be paired.
\<close>

theorem orchestrator_without_peer:
  assumes "bs_load L (cr_blake3 C) e s (dc_bonds_file cfg) = Ok store"
    and "\<forall>b. find (\<lambda>b. b_status b = Bonded) (bs_list store) = Some b \<longrightarrow> \<not> is_ok (load_bond_key e s (dc_keys_dir cfg) (b_peer_id b))"
    and "dc_peripheral_mode cfg = Pm_Real" "pp_new DEFAULT_ADAPTER_NAME oe rd = Ok p"
  shows "\<exists>os s1. maybe_spawn_orchestrator C L oe rd e cfg s = Some (Some (Orch_Real os), s1) \<and> o_peers os = []"
proof -
  obtain r s1 where al: "audit_open e (dc_audit_log_path cfg) s = (r, s1)" by fastforce
  have "\<exists>os. spawn_over (persistent_ops (cr_hkdf C)) e cfg store p s = (Some os, s1) \<and> o_peers os = []"
    using assms(2) al by (auto simp: spawn_over_def Let_def with_peers_and_audit_def split: option.splits sum.splits)
  with assms show ?thesis by (auto simp: maybe_spawn_orchestrator_def)
qed

definition ex_open :: open_env where
  "ex_open = \<lparr> oe_session = None, oe_adapter = None, oe_powered = None, oe_discoverable = None, oe_pairable = None,
     oe_agent = None, oe_host_pubkey = Ok (replicate 32 1) \<rparr>"

definition ex_cfg1 :: daemon_config where
  "ex_cfg1 = (with_runtime_dir [])\<lparr> dc_bonds_file := [''f''], dc_keys_dir := [], dc_audit_log_path := [''f''] \<rparr>"

lemma ex_cold_start:
  "\<exists>os s1. maybe_spawn_orchestrator ex_crypto ex_toml1 ex_open ex_radio ex_env ex_cfg1 (o_fs (ex_porch i)) = Some (Some (Orch_Real os), s1)"
proof -
  have ld: "bs_load ex_toml1 (cr_blake3 ex_crypto) ex_env (o_fs (ex_porch i)) (dc_bonds_file ex_cfg1) = Ok \<lparr> bs_bonds = [ex_bond1] \<rparr>"
    using ex_porch_load [of i] by (simp add: ex_cfg1_def ex_porch_def)
  have key: "load_bond_key ex_env (o_fs (ex_porch i)) [] (b_peer_id ex_bond1) = Ok (replicate 32 1)"
    using ex_porch_key [of i] by (simp add: ex_porch_def)
  have st: "b_status ex_bond1 = Bonded" by (simp add: ex_bond1_def)
  show ?thesis
    unfolding maybe_spawn_orchestrator_def ld
    by (simp add: spawn_over_def bs_list_def st key ex_cfg1_def with_runtime_dir_def Let_def pp_new_def ex_open_def
        open_err_def backend_err_def rebuild_application_def serve_app_def ex_radio_def persistent_ops_def pp_add_peer_def
        build_and_register_peer_def split: prod.splits)
qed

theorem cold_start_synced_witness:
  "\<exists>os s1. maybe_spawn_orchestrator ex_crypto ex_toml1 ex_open ex_radio ex_env ex_cfg1 (o_fs (ex_porch ''x'')) = Some (Some (Orch_Real os), s1) \<and>
     dom (pp_peers (o_periph os)) = {b_peer_id ex_bond1} \<and>
     (\<exists>os'. os' = run_loop (persistent_ops (cr_hkdf ex_crypto)) ex_crypto ex_toml1 ex_env (\<lambda>x. x) [Ev_Tick 0, Ev_Reload Rt_Pair 1] os \<and>
        dom (pp_peers (o_periph os')) = dom (bt_get (o_peers os')))"
proof -
  obtain os s1 where os: "maybe_spawn_orchestrator ex_crypto ex_toml1 ex_open ex_radio ex_env ex_cfg1 (o_fs (ex_porch ''x'')) = Some (Some (Orch_Real os), s1)"
    using ex_cold_start by blast
  have ld: "bs_load ex_toml1 (cr_blake3 ex_crypto) ex_env (o_fs (ex_porch ''x'')) (dc_bonds_file ex_cfg1) = Ok \<lparr> bs_bonds = [ex_bond1] \<rparr>"
    using ex_porch_load [of "''x''"] by (simp add: ex_cfg1_def ex_porch_def)
  have first: "find (\<lambda>b. b_status b = Bonded) (bs_list \<lparr> bs_bonds = [ex_bond1] \<rparr>) = Some ex_bond1" by (simp add: ex_bond1_def bs_list_def)
  have key: "load_bond_key ex_env (o_fs (ex_porch ''x'')) (dc_keys_dir ex_cfg1) (b_peer_id ex_bond1) = Ok (replicate 32 1)"
    using ex_porch_key [of "''x''"] by (simp add: ex_cfg1_def ex_porch_def)
  show ?thesis using cold_start_synced [OF ld first key os, of "\<lambda>x. x" _ ex_env "[Ev_Tick 0, Ev_Reload Rt_Pair 1]", OF _ refl] os by simp
qed

subsection \<open>The process\<close>

text \<open>
  C25: a second daemon does no harm.  Started while another process holds the lock
  of the pidfile, \<open>run\<close> returns an error without having touched the bond store,
  the socket or any other file, and leaves the pidfile with its content and its
  lock; the error is \<open>AlreadyRunning\<close> when the handlers were installed and no
  system call failed for another reason.
\<close>

theorem second_daemon_harmless:
  assumes "lw_name w = Some i" "in_lock (lw_inodes w ! i) \<noteq> None"
  shows "\<exists>err w'. daemon_run C L re pid cfg (w, s) = (Run_Done (Err err), w', s) \<and>
           lw_inodes w' = lw_inodes w \<and> lw_name w' = Some i \<and>
           (install_signals re = Ok () \<and> calls_succeed (re_lock re) \<longrightarrow> err = Run_Lock Lk_AlreadyRunning)"
proof (cases "install_signals re")
  case (Inl err)
  with assms(1) show ?thesis by (simp add: daemon_run_def)
next
  case (Inr u)
  obtain err w1 where "lock_acquire (re_lock re) pid w = (Err err, w1)" "lw_inodes w1 = lw_inodes w" "lw_name w1 = Some i"
      "calls_succeed (re_lock re) \<Longrightarrow> err = Lk_AlreadyRunning"
    using lock_acquire_refused [OF assms, of "re_lock re" pid] by metis
  with Inr show ?thesis by (simp add: daemon_run_def)
qed

definition ex_run_env :: run_env where
  "ex_run_env = \<lparr> re_sigterm = None, re_sigint = None, re_sighup = None, re_lock = env_fine,
     re_open = ex_open,
     re_radio = ex_radio, re_sys = ex_env, re_started_at = 0, re_accept = [], re_drain = [], re_signals = [Sg_Term],
     re_join_failed = False, re_unlink_fails = False \<rparr>"

theorem second_daemon_harmless_witness:
  "\<exists>w'. daemon_run ex_crypto ex_toml2 ex_run_env 43 (with_runtime_dir []) (ex_locked, ex_fs) =
     (Run_Done (Err (Run_Lock Lk_AlreadyRunning)), w', ex_fs)"
proof -
  have "lw_name ex_locked = Some 0" "in_lock (lw_inodes ex_locked ! 0) \<noteq> None"
    by (simp_all add: ex_locked_def ex_world_def)
  from second_daemon_harmless [OF this, of ex_crypto ex_toml2 ex_run_env 43 "with_runtime_dir []" ex_fs] show ?thesis
    by (auto simp: install_signals_def ex_run_env_def calls_succeed_def env_fine_def)
qed

text \<open>What a process that ran holds afterwards.\<close>

lemma lock_drop_locks:
  assumes "i < length (lw_inodes w)" "in_lock (lw_inodes w ! i) = Some p"
  shows "in_lock (lw_inodes (lock_drop fails p i w) ! i) = None"
    "length (lw_inodes (lock_drop fails p i w)) = length (lw_inodes w)"
    "fails \<or> lw_name (lock_drop fails p i w) = None"
  using assms by (auto simp: lock_drop_def unlink_name_def close_fd_locks)

text \<open>
  When \<open>run\<close> returns after it had the lock, with a shutdown reason or with the
  error of the server, the file it had locked is unlocked and, unless the unlink
  failed, the pidfile's name is gone; with a failing \<open>bind\<close> the process keeps the
  lock until a signal ends it.
\<close>

theorem run_releases_lock:
  assumes "world_ok w" "install_signals re = Ok ()" "lock_acquire (re_lock re) pid w = (Ok i, w1)"
    and "daemon_run C L re pid cfg (w, s) = (res, w', s')"
  shows "(case res of
            Run_Serving \<Rightarrow> w' = w1 \<and> in_lock (lw_inodes w' ! i) = Some pid
          | _ \<Rightarrow> in_lock (lw_inodes w' ! i) = None \<and> (re_unlink_fails re \<or> lw_name w' = None)) \<and>
         (res = Run_Done (Err err) \<longrightarrow> (\<exists>se. err = Run_Serve se))"
proof -
  note ok = lock_acquire_ok [OF assms(3,1)]
  note dropped = lock_drop_locks [OF ok(2,3), of "re_unlink_fails re"]
  have "res = Run_Serving \<and> w' = w1 \<or> res \<noteq> Run_Serving \<and> w' = lock_drop (re_unlink_fails re) pid i w1"
    using assms(2-4)
    by (auto simp: daemon_run_def Let_def split: option.splits prod.splits sum.splits if_splits)
  moreover have "res = Run_Done (Err err) \<Longrightarrow> \<exists>se. err = Run_Serve se"
    using assms(2-4)
    by (auto simp: daemon_run_def Let_def split: option.splits prod.splits sum.splits if_splits)
  ultimately show ?thesis using ok dropped by (auto split: run_result.splits)
qed

definition ex_config :: daemon_config where
  "ex_config = (with_runtime_dir [])\<lparr> dc_socket := [''d'', ''s''] \<rparr>"

lemma ex_run_done: "fst (daemon_run ex_crypto ex_toml2 ex_run_env 42 ex_config (ex_world, ex_fs)) = Run_Done (Ok Sigterm)"
proof -
  have ld: "bs_load ex_toml2 (cr_blake3 ex_crypto) ex_env ex_fs (dc_bonds_file ex_config) = Ok \<lparr> bs_bonds = [] \<rparr>"
    by (simp add: bs_load_def read_to_string_def read_file_def ex_env_def ex_fs_def ex_config_def with_runtime_dir_def Let_def
        DEFAULT_BONDS_FILE_def)
  have sp: "\<exists>os. maybe_spawn_orchestrator ex_crypto ex_toml2 (re_open ex_run_env) ex_radio ex_env ex_config ex_fs = Some (Some os, ex_fs)"
    unfolding maybe_spawn_orchestrator_def ld
    by (simp add: ex_run_env_def spawn_over_def bs_list_def audit_open_def open_append_def
        guarded_def ex_env_def ex_fs_def ex_config_def with_runtime_dir_def Let_def DEFAULT_AUDIT_LOG_PATH_def parent_def
        pp_new_def open_err_def backend_err_def ex_open_def rebuild_application_def serve_app_def ex_radio_def)
  have sv: "\<exists>s2. serve ex_env (daemon_serve_config ex_run_env ex_config) [Ev_ShutdownSignal] ex_fs =
      (Ok (accept_loop [Ev_ShutdownSignal]), s2)"
    by (simp add: serve_def bind_socket_def set_socket_mode_def metadata_def guarded_def on_err_def set_permissions_def daemon_serve_config_def
        ex_config_def ex_fs_def ex_env_def parent_def remove_file_def Let_def accept_loop_def accept_init_def select_top_def)
  show ?thesis
    using sp sv ex_locked
    by (auto simp: daemon_run_def install_signals_def ex_run_env_def Let_def wait_for_reason_def sig_init_def sig_poll_def
        sig_event_def sig_select_def accept_loop_def accept_init_def select_top_def)
qed

theorem run_releases_lock_witness:
  "\<exists>w' s'. daemon_run ex_crypto ex_toml2 ex_run_env 42 ex_config (ex_world, ex_fs) = (Run_Done (Ok Sigterm), w', s') \<and>
     in_lock (lw_inodes w' ! 0) = None \<and> lw_name w' = None"
proof -
  obtain w' s' where r: "daemon_run ex_crypto ex_toml2 ex_run_env 42 ex_config (ex_world, ex_fs) = (Run_Done (Ok Sigterm), w', s')"
    using ex_run_done by (metis prod.collapse)
  have w: "world_ok ex_world" "install_signals ex_run_env = Ok ()" "re_unlink_fails ex_run_env = False"
    by (simp_all add: world_ok_def ex_world_def install_signals_def ex_run_env_def)
  have l: "lock_acquire (re_lock ex_run_env) 42 ex_world = (Ok 0, ex_locked)" using ex_locked by (simp add: ex_run_env_def)
  from run_releases_lock [OF w(1,2) l r] w(3) r show ?thesis by simp
qed

lemma audit_open_touches: "audit_open e p s = (r, s') \<Longrightarrow> only_touches {p} s s'"
  by (auto simp: audit_open_def open_append_def guarded_def split: prod.splits sum.splits option.splits node.splits)

lemma spawn_over_touches: "spawn_over ops e cfg store p s = (r, s1) \<Longrightarrow> only_touches {dc_audit_log_path cfg} s s1"
  using audit_open_touches [of e "dc_audit_log_path cfg" s]
  by (auto simp: spawn_over_def Let_def split: option.splits sum.splits prod.splits)

lemma spawn_touches:
  assumes "maybe_spawn_orchestrator C L oe rd e cfg s = Some (r, s1)"
  shows "only_touches {dc_audit_log_path cfg} s s1"
  using assms
  by (auto simp: maybe_spawn_orchestrator_def map_prod_def dest: spawn_over_touches
      split: sum.splits if_splits peripheral_mode.splits prod.splits)

lemma bind_existing:
  assumes "fs_nodes s p \<noteq> None" "sys_fail e (OpOpen p) = None" "sc_socket_path scfg = p"
  shows "serve e scfg evs s = (Err (Serve_Bind p AlreadyExists), s)"
  using assms by (auto simp: serve_def bind_socket_def guarded_def Let_def)

text \<open>
  A socket file that an earlier process left behind makes the daemon deaf.
  With a file at the socket path \<open>bind\<close> fails whatever the accept events are;
  \<open>run\<close> then keeps the lock and goes on without a listener, and reports the
  failure only when a signal has ended it.
\<close>

theorem stale_socket_unserved:
  assumes "install_signals re = Ok ()" "lock_acquire (re_lock re) pid w = (Ok i, w1)"
    and "fs_nodes s (dc_socket cfg) \<noteq> None" "dc_socket cfg \<noteq> dc_audit_log_path cfg"
    and "sys_fail (re_sys re) (OpOpen (dc_socket cfg)) = None" "re_join_failed re = False"
    and "daemon_run C L re pid cfg (w, s) = (res, w', s')" "res \<noteq> Run_Panicked"
  shows "(res = Run_Serving \<and> w' = w1 \<or> res = Run_Done (Err (Run_Serve (Serve_Bind (dc_socket cfg) AlreadyExists)))) \<and>
         (re_signals re = [] \<longrightarrow> res = Run_Serving) \<and> fs_nodes s' (dc_socket cfg) = fs_nodes s (dc_socket cfg)"
proof -
  obtain orch s1 where sp: "maybe_spawn_orchestrator C L (re_open re) (re_radio re) (re_sys re) cfg s = Some (orch, s1)"
    using assms(1,2,7,8) by (auto simp: daemon_run_def split: option.splits)
  have s1: "fs_nodes s1 (dc_socket cfg) = fs_nodes s (dc_socket cfg)"
    using only_touches_nodes [OF spawn_touches [OF sp]] assms(4) by simp
  have sv: "serve (re_sys re) (daemon_serve_config re cfg) evs s1 = (Err (Serve_Bind (dc_socket cfg) AlreadyExists), s1)" for evs
    using bind_existing [of s1 "dc_socket cfg" "re_sys re"] s1 assms(3,5) by (simp add: daemon_serve_config_def)
  show ?thesis
    using assms(1,2,6,7) s1
    by (auto simp: daemon_run_def sp sv Let_def wait_for_reason_def sig_init_def split: option.splits)
qed

theorem stale_socket_unserved_witness:
  "fst (daemon_run ex_crypto ex_toml2 (ex_run_env\<lparr> re_signals := [] \<rparr>) 42
     (ex_config\<lparr> dc_bonds_file := [''d'', ''b''] \<rparr>) (ex_world, fs_set [''d'', ''s''] (Some (FileNode [] 384)) ex_fs)) = Run_Serving"
proof -
  let ?re = "ex_run_env\<lparr> re_signals := [] \<rparr>" and ?cfg = "ex_config\<lparr> dc_bonds_file := [''d'', ''b''] \<rparr>"
    and ?s = "fs_set [''d'', ''s''] (Some (FileNode [] 384)) ex_fs"
  obtain res w' s' where r: "daemon_run ex_crypto ex_toml2 ?re 42 ?cfg (ex_world, ?s) = (res, w', s')" by (metis prod_cases3)
  have l: "lock_acquire (re_lock ?re) 42 ex_world = (Ok 0, ex_locked)" using ex_locked by (simp add: ex_run_env_def)
  have "bs_load ex_toml2 (cr_blake3 ex_crypto) (re_sys ?re) ?s (dc_bonds_file ?cfg) = Ok \<lparr> bs_bonds = [] \<rparr>"
    by (simp add: bs_load_def read_to_string_def read_file_def ex_env_def ex_fs_def ex_run_env_def)
  then have "maybe_spawn_orchestrator ex_crypto ex_toml2 (re_open ?re) (re_radio ?re) (re_sys ?re) ?cfg ?s \<noteq> None"
    by (auto simp: maybe_spawn_orchestrator_def split: peripheral_mode.splits sum.splits)
  then have "res \<noteq> Run_Panicked"
    using r l by (auto simp: daemon_run_def Let_def split: option.splits prod.splits sum.splits if_splits)
  from stale_socket_unserved [OF _ l _ _ _ _ r this] have "res = Run_Serving"
    by (auto simp: ex_run_env_def install_signals_def ex_config_def with_runtime_dir_def ex_env_def Let_def DEFAULT_AUDIT_LOG_PATH_def)
  with r show ?thesis by simp
qed

end
