(* ===== verification/Oob.thy ===== *)
theory Oob
  imports Transport
begin

text \<open>
  The out-of-band code of \<open>syauth-cli/src/oob.rs\<close>: four bytes expanded from the bond
  key choose four words of a table with 256 entries.  The phone crate has its
  own copy of the table (\<open>syauth-mobile/src/implementation.rs\<close>); both are here as
  the sources have them, an emoji as its code points and a noun.
\<close>

definition HKDF_INFO_OOB_V1 :: bytes where [const_defs]: "HKDF_INFO_OOB_V1 = str_bytes ''syauth-oob-v1''"
definition OOB_WORD_COUNT :: nat where [const_defs]: "OOB_WORD_COUNT = 4"
definition OOB_BOND_KEY_BYTES :: nat where [const_defs]: "OOB_BOND_KEY_BYTES = 32"
definition HKDF_OOB_OUTPUT_LEN :: nat where [const_defs]: "HKDF_OOB_OUTPUT_LEN = OOB_WORD_COUNT"

text \<open>The UTF-8 encoding of one code point.\<close>

definition utf8_encode :: "int \<Rightarrow> string" where
  "utf8_encode c =
     (if c < 0x80 then [char_of c]
      else if c < 0x800 then [char_of (0xC0 + c div 64), char_of (0x80 + c mod 64)]
      else if c < 0x10000 then [char_of (0xE0 + c div 4096), char_of (0x80 + c div 64 mod 64), char_of (0x80 + c mod 64)]
      else [char_of (0xF0 + c div 262144), char_of (0x80 + c div 4096 mod 64), char_of (0x80 + c div 64 mod 64),
            char_of (0x80 + c mod 64)])"

definition oob_word :: "int list \<times> string \<Rightarrow> string" where
  "oob_word w = concat (map utf8_encode (fst w)) @ '' '' @ snd w"

definition OOB_ENTRIES_FIRST :: "(int list \<times> string) list" where
  "OOB_ENTRIES_FIRST =
     [([0x1F34E], ''apple''), ([0x1F41D], ''bee''), ([0x1F3AF], ''dart''), ([0x1F30D], ''earth''),
      ([0x1F525], ''fire''), ([0x1F347], ''grape''), ([0x1F3E0], ''home''), ([0x1F9CA], ''ice''),
      ([0x1FA80], ''jojo''), ([0x1FA81], ''kite''), ([0x1F981], ''lion''), ([0x1F319], ''moon''),
      ([0x1F330], ''nut''), ([0x1F419], ''octo''), ([0x1F95E], ''pancake''), ([0x1FAA8], ''quartz''),
      ([0x1F339], ''rose''), ([0x2B50], ''star''), ([0x1F333], ''tree''), ([0x2602, 0xFE0F], ''umbrella''),
      ([0x1F3BB], ''violin''), ([0x1F30A], ''wave''), ([0x1F993], ''zebra''), ([0x1F34C], ''banana''),
      ([0x1F335], ''cactus''), ([0x1F42C], ''dolphin''), ([0x1F33D], ''ear''), ([0x1F342], ''fern''),
      ([0x1F381], ''gift''), ([0x1FA96], ''helmet''), ([0x1F994], ''iguana''), ([0x1F48E], ''jewel''),
      ([0x1F511], ''key''), ([0x1F34B], ''lemon''), ([0x1F96D], ''mango''), ([0x1F32E], ''taco''),
      ([0x1F989], ''owl''), ([0x1F967], ''pie''), ([0x1F451], ''crown''), ([0x1F407], ''rabbit''),
      ([0x1F9C2], ''salt''), ([0x1F345], ''tomato''), ([0x1F984], ''unicorn''), ([0x1F690], ''van''),
      ([0x1F337], ''wattle''), ([0x1F3B7], ''sax''), ([0x1F36A], ''cookie''), ([0x1F3A8], ''art''),
      ([0x1F98B], ''butterfly''), ([0x1F408], ''cat''), ([0x1F436], ''dog''), ([0x1F418], ''elephant''),
      ([0x1F98A], ''fox''), ([0x1F410], ''goat''), ([0x1F439], ''hamster''), ([0x1F994], ''ivy''),
      ([0x1FABC], ''jelly''), ([0x1F428], ''koala''), ([0x1F999], ''llama''), ([0x1F42D], ''mouse''),
      ([0x1F9A2], ''swan''), ([0x1F402], ''ox''), ([0x1F427], ''penguin''), ([0x1F424], ''chick''),
      ([0x1F426], ''robin''), ([0x1F40D], ''snake''), ([0x1F422], ''turtle''), ([0x1F9A6], ''otter''),
      ([0x1F405], ''tiger''), ([0x1F985], ''eagle''), ([0x1F40B], ''whale''), ([0x1F988], ''shark''),
      ([0x1F992], ''giraffe''), ([0x1F40A], ''croc''), ([0x1F421], ''puffer''), ([0x1F99C], ''parrot''),
      ([0x1F413], ''hen''), ([0x1F99B], ''hippo''), ([0x1F40E], ''horse''), ([0x1F403], ''buffalo''),
      ([0x1F33B], ''sunflower''), ([0x1F344], ''mushroom''), ([0x1F336, 0xFE0F], ''chili''),
      ([0x1F951], ''avocado''), ([0x1F966], ''broccoli''), ([0x1F952], ''cucumber''), ([0x1F33D], ''corn''),
      ([0x1F954], ''potato''), ([0x1F346], ''eggplant''), ([0x1F955], ''carrot''), ([0x1F330], ''acorn''),
      ([0x1F965], ''coconut''), ([0x1F352], ''cherry''), ([0x1F353], ''strawberry''), ([0x1F351], ''peach''),
      ([0x1F350], ''pear''), ([0x1F34A], ''orange''), ([0x1F349], ''melon''), ([0x1F95D], ''kiwi''),
      ([0x1F34D], ''pineapple''), ([0x1F96D], ''papaya''), ([0x1FAD0], ''berry''), ([0x1F955], ''root''),
      ([0x1F96F], ''bagel''), ([0x1F956], ''baguette''), ([0x1F968], ''pretzel''), ([0x1F950], ''croissant''),
      ([0x1F35E], ''bread''), ([0x1F9C0], ''cheese''), ([0x1F95A], ''egg''), ([0x1F357], ''drumstick''),
      ([0x1F969], ''steak''), ([0x1F32D], ''hotdog''), ([0x1F354], ''burger''), ([0x1F35F], ''fries''),
      ([0x1F355], ''pizza''), ([0x1F96A], ''sub''), ([0x1F32F], ''wrap''), ([0x1F959], ''falafel''),
      ([0x1F363], ''sushi''), ([0x1F366], ''sundae''), ([0x1F367], ''sorbet''), ([0x1F368], ''gelato''),
      ([0x1F36B], ''choco''), ([0x1F36C], ''candy''), ([0x1F36E], ''flan''), ([0x1F361], ''dango''),
      ([0x1F9C1], ''cupcake'')]"

definition OOB_ENTRIES_REST :: "(int list \<times> string) list" where
  "OOB_ENTRIES_REST =
     [([0x2615], ''coffee''), ([0x1F375], ''tea''), ([0x1F376], ''sake''), ([0x1F37E], ''bubbly''),
      ([0x1F377], ''wine''), ([0x1F378], ''martini''), ([0x1F379], ''mojito''), ([0x1F37A], ''beer''),
      ([0x1FA90], ''saturn''), ([0x1F31F], ''nova''), ([0x1FAA8], ''boulder''), ([0x1F3D4, 0xFE0F], ''peak''),
      ([0x1F3D5, 0xFE0F], ''camp''), ([0x1F3D6, 0xFE0F], ''beach''), ([0x1F3DC, 0xFE0F], ''dune''),
      ([0x1F3DD, 0xFE0F], ''atoll''), ([0x26F0, 0xFE0F], ''mount''), ([0x1F30B], ''volcano''),
      ([0x1F6E4, 0xFE0F], ''rail''), ([0x1F6E3, 0xFE0F], ''road''), ([0x1F309], ''bridge''),
      ([0x1F3DE, 0xFE0F], ''park''), ([0x1F3DF, 0xFE0F], ''stadium''), ([0x1F3DB, 0xFE0F], ''forum''),
      ([0x1F3D7, 0xFE0F], ''crane''), ([0x1F9F1], ''brick''), ([0x1F3D8, 0xFE0F], ''homes''),
      ([0x1F3DA, 0xFE0F], ''shack''), ([0x1F3E4], ''post''), ([0x1F3E5], ''clinic''), ([0x1F3E6], ''bank''),
      ([0x1F3E8], ''hotel''), ([0x1F3E9], ''inn''), ([0x1F3EA], ''store''), ([0x1F3EB], ''school''),
      ([0x1F3EC], ''mall''), ([0x1F3ED], ''plant''), ([0x1F3EF], ''keep''), ([0x1F3F0], ''castle''),
      ([0x1F5FC], ''tower''), ([0x1F5FD], ''statue''), ([0x26E9, 0xFE0F], ''shrine''), ([0x1F54C], ''dome''),
      ([0x1F54D], ''hall''), ([0x26EA], ''chapel''), ([0x1F6D5], ''temple''), ([0x1F54B], ''cube''),
      ([0x26F2], ''fountain''), ([0x26FA], ''tent''), ([0x1F301], ''mist''), ([0x1F303], ''night''),
      ([0x1F304], ''dawn''), ([0x1F305], ''sunrise''), ([0x1F306], ''dusk''), ([0x1F307], ''sunset''),
      ([0x1F30C], ''galaxy''), ([0x1F3A0], ''carousel''), ([0x1F3A1], ''wheel''), ([0x1F3A2], ''coaster''),
      ([0x1F488], ''barber''), ([0x1F3AA], ''circus''), ([0x1F9F3], ''trunk''), ([0x1F680], ''rocket''),
      ([0x1F6F8], ''saucer''), ([0x2708, 0xFE0F], ''jet''), ([0x1F681], ''chopper''), ([0x1F6F6], ''canoe''),
      ([0x26F5], ''yacht''), ([0x1F6A4], ''boat''), ([0x1F6F3, 0xFE0F], ''liner''),
      ([0x26F4, 0xFE0F], ''ferry''), ([0x1F6E5, 0xFE0F], ''cruiser''), ([0x1F682], ''train''),
      ([0x1F683], ''car''), ([0x1F684], ''bullet''), ([0x1F685], ''tgv''), ([0x1F686], ''metro''),
      ([0x1F687], ''subway''), ([0x1F688], ''light''), ([0x1F689], ''station''), ([0x1F68A], ''tram''),
      ([0x1F69D], ''mono''), ([0x1F69E], ''mountain''), ([0x1F68B], ''cable''), ([0x1F68C], ''bus''),
      ([0x1F68D], ''coach''), ([0x1F68E], ''trolley''), ([0x1F68F], ''stop''), ([0x1F690], ''mini''),
      ([0x1F691], ''amb''), ([0x1F692], ''fire''), ([0x1F693], ''cop''), ([0x1F694], ''cruiser''),
      ([0x1F695], ''taxi''), ([0x1F696], ''cab''), ([0x1F697], ''sedan''), ([0x1F698], ''motor''),
      ([0x1F699], ''suv''), ([0x1F69A], ''truck''), ([0x1F69B], ''rig''), ([0x1F69C], ''tractor''),
      ([0x1F3CD, 0xFE0F], ''bike''), ([0x1F6F5], ''scoot''), ([0x1F6B2], ''cycle''), ([0x1F6F4], ''kick''),
      ([0x1F6F9], ''board''), ([0x1F6FC], ''skate''), ([0x1F9BD], ''wheel''), ([0x1F9BC], ''chair''),
      ([0x1F6A8], ''siren''), ([0x1F6A7], ''cone''), ([0x1F6A5], ''light''), ([0x1FA9C], ''ladder''),
      ([0x1FA9E], ''mirror''), ([0x1FA9F], ''window''), ([0x1FAA0], ''plunger''), ([0x1FAA3], ''bucket''),
      ([0x1FAA4], ''trap''), ([0x1FAA5], ''brush''), ([0x1FAA6], ''stone''), ([0x1F9F4], ''lotion''),
      ([0x1F9F5], ''thread''), ([0x1F9F6], ''yarn''), ([0x1F9F7], ''pin''), ([0x1F9F8], ''teddy''),
      ([0x1F9F9], ''broom''), ([0x1F9FA], ''basket''), ([0x1F9FC], ''soap'')]"

definition OOB_ENTRIES :: "(int list \<times> string) list" where
  "OOB_ENTRIES = OOB_ENTRIES_FIRST @ OOB_ENTRIES_REST"

definition OOB_WORDS :: "string list" where
  "OOB_WORDS = map oob_word OOB_ENTRIES"

definition MOBILE_OOB_ENTRIES_FIRST :: "(int list \<times> string) list" where
  "MOBILE_OOB_ENTRIES_FIRST =
     [([0x1F34E], ''apple''), ([0x1F41D], ''bee''), ([0x1F3AF], ''dart''), ([0x1F30D], ''earth''),
      ([0x1F525], ''fire''), ([0x1F347], ''grape''), ([0x1F3E0], ''home''), ([0x1F9CA], ''ice''),
      ([0x1FA80], ''jojo''), ([0x1FA81], ''kite''), ([0x1F981], ''lion''), ([0x1F319], ''moon''),
      ([0x1F330], ''nut''), ([0x1F419], ''octo''), ([0x1F95E], ''pancake''), ([0x1FAA8], ''quartz''),
      ([0x1F339], ''rose''), ([0x2B50], ''star''), ([0x1F333], ''tree''), ([0x2602, 0xFE0F], ''umbrella''),
      ([0x1F3BB], ''violin''), ([0x1F30A], ''wave''), ([0x1F993], ''zebra''), ([0x1F34C], ''banana''),
      ([0x1F335], ''cactus''), ([0x1F42C], ''dolphin''), ([0x1F33D], ''ear''), ([0x1F342], ''fern''),
      ([0x1F381], ''gift''), ([0x1FA96], ''helmet''), ([0x1F994], ''iguana''), ([0x1F48E], ''jewel''),
      ([0x1F511], ''key''), ([0x1F34B], ''lemon''), ([0x1F96D], ''mango''), ([0x1F32E], ''taco''),
      ([0x1F989], ''owl''), ([0x1F967], ''pie''), ([0x1F451], ''crown''), ([0x1F407], ''rabbit''),
      ([0x1F9C2], ''salt''), ([0x1F345], ''tomato''), ([0x1F984], ''unicorn''), ([0x1F690], ''van''),
      ([0x1F337], ''wattle''), ([0x1F3B7], ''sax''), ([0x1F36A], ''cookie''), ([0x1F3A8], ''art''),
      ([0x1F98B], ''butterfly''), ([0x1F408], ''cat''), ([0x1F436], ''dog''), ([0x1F418], ''elephant''),
      ([0x1F98A], ''fox''), ([0x1F410], ''goat''), ([0x1F439], ''hamster''), ([0x1F994], ''ivy''),
      ([0x1FABC], ''jelly''), ([0x1F428], ''koala''), ([0x1F999], ''llama''), ([0x1F42D], ''mouse''),
      ([0x1F9A2], ''swan''), ([0x1F402], ''ox''), ([0x1F427], ''penguin''), ([0x1F424], ''chick''),
      ([0x1F426], ''robin''), ([0x1F40D], ''snake''), ([0x1F422], ''turtle''), ([0x1F9A6], ''otter''),
      ([0x1F405], ''tiger''), ([0x1F985], ''eagle''), ([0x1F40B], ''whale''), ([0x1F988], ''shark''),
      ([0x1F992], ''giraffe''), ([0x1F40A], ''croc''), ([0x1F421], ''puffer''), ([0x1F99C], ''parrot''),
      ([0x1F413], ''hen''), ([0x1F99B], ''hippo''), ([0x1F40E], ''horse''), ([0x1F403], ''buffalo''),
      ([0x1F33B], ''sunflower''), ([0x1F344], ''mushroom''), ([0x1F336, 0xFE0F], ''chili''),
      ([0x1F951], ''avocado''), ([0x1F966], ''broccoli''), ([0x1F952], ''cucumber''), ([0x1F33D], ''corn''),
      ([0x1F954], ''potato''), ([0x1F346], ''eggplant''), ([0x1F955], ''carrot''), ([0x1F330], ''acorn''),
      ([0x1F965], ''coconut''), ([0x1F352], ''cherry''), ([0x1F353], ''strawberry''), ([0x1F351], ''peach''),
      ([0x1F350], ''pear''), ([0x1F34A], ''orange''), ([0x1F349], ''melon''), ([0x1F95D], ''kiwi''),
      ([0x1F34D], ''pineapple''), ([0x1F96D], ''papaya''), ([0x1FAD0], ''berry''), ([0x1F955], ''root''),
      ([0x1F96F], ''bagel''), ([0x1F956], ''baguette''), ([0x1F968], ''pretzel''), ([0x1F950], ''croissant''),
      ([0x1F35E], ''bread''), ([0x1F9C0], ''cheese''), ([0x1F95A], ''egg''), ([0x1F357], ''drumstick''),
      ([0x1F969], ''steak''), ([0x1F32D], ''hotdog''), ([0x1F354], ''burger''), ([0x1F35F], ''fries''),
      ([0x1F355], ''pizza''), ([0x1F96A], ''sub''), ([0x1F32F], ''wrap''), ([0x1F959], ''falafel''),
      ([0x1F363], ''sushi''), ([0x1F366], ''sundae''), ([0x1F367], ''sorbet''), ([0x1F368], ''gelato''),
      ([0x1F36B], ''choco''), ([0x1F36C], ''candy''), ([0x1F36E], ''flan''), ([0x1F361], ''dango''),
      ([0x1F9C1], ''cupcake'')]"

definition MOBILE_OOB_ENTRIES_REST :: "(int list \<times> string) list" where
  "MOBILE_OOB_ENTRIES_REST =
     [([0x2615], ''coffee''), ([0x1F375], ''tea''), ([0x1F376], ''sake''), ([0x1F37E], ''bubbly''),
      ([0x1F377], ''wine''), ([0x1F378], ''martini''), ([0x1F379], ''mojito''), ([0x1F37A], ''beer''),
      ([0x1FA90], ''saturn''), ([0x1F31F], ''nova''), ([0x1FAA8], ''boulder''), ([0x1F3D4, 0xFE0F], ''peak''),
      ([0x1F3D5, 0xFE0F], ''camp''), ([0x1F3D6, 0xFE0F], ''beach''), ([0x1F3DC, 0xFE0F], ''dune''),
      ([0x1F3DD, 0xFE0F], ''atoll''), ([0x26F0, 0xFE0F], ''mount''), ([0x1F30B], ''volcano''),
      ([0x1F6E4, 0xFE0F], ''rail''), ([0x1F6E3, 0xFE0F], ''road''), ([0x1F309], ''bridge''),
      ([0x1F3DE, 0xFE0F], ''park''), ([0x1F3DF, 0xFE0F], ''stadium''), ([0x1F3DB, 0xFE0F], ''forum''),
      ([0x1F3D7, 0xFE0F], ''crane''), ([0x1F9F1], ''brick''), ([0x1F3D8, 0xFE0F], ''homes''),
      ([0x1F3DA, 0xFE0F], ''shack''), ([0x1F3E4], ''post''), ([0x1F3E5], ''clinic''), ([0x1F3E6], ''bank''),
      ([0x1F3E8], ''hotel''), ([0x1F3E9], ''inn''), ([0x1F3EA], ''store''), ([0x1F3EB], ''school''),
      ([0x1F3EC], ''mall''), ([0x1F3ED], ''plant''), ([0x1F3EF], ''keep''), ([0x1F3F0], ''castle''),
      ([0x1F5FC], ''tower''), ([0x1F5FD], ''statue''), ([0x26E9, 0xFE0F], ''shrine''), ([0x1F54C], ''dome''),
      ([0x1F54D], ''hall''), ([0x26EA], ''chapel''), ([0x1F6D5], ''temple''), ([0x1F54B], ''cube''),
      ([0x26F2], ''fountain''), ([0x26FA], ''tent''), ([0x1F301], ''mist''), ([0x1F303], ''night''),
      ([0x1F304], ''dawn''), ([0x1F305], ''sunrise''), ([0x1F306], ''dusk''), ([0x1F307], ''sunset''),
      ([0x1F30C], ''galaxy''), ([0x1F3A0], ''carousel''), ([0x1F3A1], ''wheel''), ([0x1F3A2], ''coaster''),
      ([0x1F488], ''barber''), ([0x1F3AA], ''circus''), ([0x1F9F3], ''trunk''), ([0x1F680], ''rocket''),
      ([0x1F6F8], ''saucer''), ([0x2708, 0xFE0F], ''jet''), ([0x1F681], ''chopper''), ([0x1F6F6], ''canoe''),
      ([0x26F5], ''yacht''), ([0x1F6A4], ''boat''), ([0x1F6F3, 0xFE0F], ''liner''),
      ([0x26F4, 0xFE0F], ''ferry''), ([0x1F6E5, 0xFE0F], ''cruiser''), ([0x1F682], ''train''),
      ([0x1F683], ''car''), ([0x1F684], ''bullet''), ([0x1F685], ''tgv''), ([0x1F686], ''metro''),
      ([0x1F687], ''subway''), ([0x1F688], ''light''), ([0x1F689], ''station''), ([0x1F68A], ''tram''),
      ([0x1F69D], ''mono''), ([0x1F69E], ''mountain''), ([0x1F68B], ''cable''), ([0x1F68C], ''bus''),
      ([0x1F68D], ''coach''), ([0x1F68E], ''trolley''), ([0x1F68F], ''stop''), ([0x1F690], ''mini''),
      ([0x1F691], ''amb''), ([0x1F692], ''fire''), ([0x1F693], ''cop''), ([0x1F694], ''cruiser''),
      ([0x1F695], ''taxi''), ([0x1F696], ''cab''), ([0x1F697], ''sedan''), ([0x1F698], ''motor''),
      ([0x1F699], ''suv''), ([0x1F69A], ''truck''), ([0x1F69B], ''rig''), ([0x1F69C], ''tractor''),
      ([0x1F3CD, 0xFE0F], ''bike''), ([0x1F6F5], ''scoot''), ([0x1F6B2], ''cycle''), ([0x1F6F4], ''kick''),
      ([0x1F6F9], ''board''), ([0x1F6FC], ''skate''), ([0x1F9BD], ''wheel''), ([0x1F9BC], ''chair''),
      ([0x1F6A8], ''siren''), ([0x1F6A7], ''cone''), ([0x1F6A5], ''light''), ([0x1FA9C], ''ladder''),
      ([0x1FA9E], ''mirror''), ([0x1FA9F], ''window''), ([0x1FAA0], ''plunger''), ([0x1FAA3], ''bucket''),
      ([0x1FAA4], ''trap''), ([0x1FAA5], ''brush''), ([0x1FAA6], ''stone''), ([0x1F9F4], ''lotion''),
      ([0x1F9F5], ''thread''), ([0x1F9F6], ''yarn''), ([0x1F9F7], ''pin''), ([0x1F9F8], ''teddy''),
      ([0x1F9F9], ''broom''), ([0x1F9FA], ''basket''), ([0x1F9FC], ''soap'')]"

definition MOBILE_OOB_ENTRIES :: "(int list \<times> string) list" where
  "MOBILE_OOB_ENTRIES = MOBILE_OOB_ENTRIES_FIRST @ MOBILE_OOB_ENTRIES_REST"

definition MOBILE_OOB_WORDS :: "string list" where
  "MOBILE_OOB_WORDS = map oob_word MOBILE_OOB_ENTRIES"

definition oob_code_for_bond :: "hkdf \<Rightarrow> bytes \<Rightarrow> string list" where
  "oob_code_for_bond hk bond_key =
     (let out = (case hk bond_key HKDF_INFO_OOB_V1 HKDF_OOB_OUTPUT_LEN of
                   Some out \<Rightarrow> out | None \<Rightarrow> replicate HKDF_OOB_OUTPUT_LEN 0) in
      [OOB_WORDS ! unat (out ! 0), OOB_WORDS ! unat (out ! 1), OOB_WORDS ! unat (out ! 2), OOB_WORDS ! unat (out ! 3)])"

section \<open>Lemmas\<close>

lemma length_OOB_WORDS: "length OOB_WORDS = 256"
  by (simp add: OOB_WORDS_def OOB_ENTRIES_def OOB_ENTRIES_FIRST_def OOB_ENTRIES_REST_def)

lemma mobile_words_same: "MOBILE_OOB_WORDS = OOB_WORDS"
  by (simp add: MOBILE_OOB_WORDS_def OOB_WORDS_def MOBILE_OOB_ENTRIES_def OOB_ENTRIES_def MOBILE_OOB_ENTRIES_FIRST_def
      MOBILE_OOB_ENTRIES_REST_def OOB_ENTRIES_FIRST_def OOB_ENTRIES_REST_def)

end
