(* ===== verification/Console.thy ===== *)
theory Console
  imports FileSystem Text
begin

text \<open>
  The terminal the commands write to, the text forms of paths and numbers they
  print, and the parts of the process environment they read.
\<close>

section \<open>Writing\<close>

text \<open>
  A writer keeps the text it has accepted.  The \<open>n\<close>-th write may fail with an error
  after a prefix of its text.
\<close>

record console =
  con_text :: string
  con_count :: nat
  con_fail :: "nat \<Rightarrow> (io_error \<times> nat) option"

definition write_str :: "string \<Rightarrow> console \<Rightarrow> (io_error + unit) \<times> console" where
  "write_str t c =
     (case con_fail c (con_count c) of
        None \<Rightarrow> (Ok (), c\<lparr> con_text := con_text c @ t, con_count := Suc (con_count c) \<rparr>)
      | Some (err, k) \<Rightarrow> (Err err, c\<lparr> con_text := con_text c @ take k t, con_count := Suc (con_count c) \<rparr>))"

definition write_line :: "string \<Rightarrow> console \<Rightarrow> (io_error + unit) \<times> console" where
  "write_line t c = write_str (t @ [NL]) c"

fun write_lines :: "string list \<Rightarrow> console \<Rightarrow> (io_error + unit) \<times> console" where
  "write_lines [] c = (Ok (), c)"
| "write_lines (t # ts) c =
     (case write_line t c of (Inl err, c1) \<Rightarrow> (Err err, c1) | (Inr _, c1) \<Rightarrow> write_lines ts c1)"

text \<open>A writer that never fails; how a text ends up on it.\<close>

definition con_ok :: "console \<Rightarrow> bool" where
  "con_ok c \<longleftrightarrow> (\<forall>n. con_fail c n = None)"

lemma write_str_ok:
  assumes "con_ok c"
  obtains c' where "write_str t c = (Ok (), c')" "con_text c' = con_text c @ t" "con_ok c'"
  using assms that [of "c\<lparr> con_text := con_text c @ t, con_count := Suc (con_count c) \<rparr>"]
  by (auto simp: write_str_def con_ok_def)

lemma write_line_ok:
  assumes "con_ok c"
  obtains c' where "write_line t c = (Ok (), c')" "con_text c' = con_text c @ t @ [NL]" "con_ok c'"
  using write_str_ok [OF assms, of "t @ [NL]"] by (auto simp: write_line_def)

lemma write_lines_ok:
  assumes "con_ok c"
  obtains c' where "write_lines ts c = (Ok (), c')" "con_text c' = con_text c @ concat (map (\<lambda>t. t @ [NL]) ts)" "con_ok c'"
  using assms
proof (induction ts arbitrary: c thesis)
  case Nil
  then show ?case by simp
next
  case (Cons t ts)
  obtain c1 where c1: "write_line t c = (Ok (), c1)" "con_text c1 = con_text c @ t @ [NL]" "con_ok c1"
    using write_line_ok [OF Cons.prems(2)] by blast
  obtain c2 where "write_lines ts c1 = (Ok (), c2)" "con_text c2 = con_text c1 @ concat (map (\<lambda>t. t @ [NL]) ts)" "con_ok c2"
    using Cons.IH [OF _ c1(3)] by blast
  with c1 show ?case using Cons.prems(1) [of c2] by simp
qed

section \<open>Paths and numbers as text\<close>

definition display_path :: "path \<Rightarrow> string" where
  "display_path p = (if p = [] then ''/'' else concat (map (\<lambda>c. CHR ''/'' # c) p))"

text \<open>Decimal with leading zeros up to a width.\<close>

definition show_padded :: "nat \<Rightarrow> nat \<Rightarrow> string" where
  "show_padded w n = replicate (w - length (show_nat n)) (CHR ''0'') @ show_nat n"

section \<open>The process\<close>

text \<open>
  Environment variables (those that are set and valid Unicode), the process's own
  executable, and what \<open>systemctl\<close> answers to a list of arguments.
\<close>

record cmd_output =
  co_success :: bool
  co_code :: "int option"
  co_stdout :: bytes
  co_stderr :: bytes

record proc_env =
  pr_var :: "string \<Rightarrow> string option"
  pr_exe :: "io_error + path"
  pr_systemctl :: "string list \<Rightarrow> io_error + cmd_output"

section \<open>Sequencing\<close>

text \<open>One fallible step after another on a state, as Rust's \<open>?\<close> does.\<close>

definition and_then :: "('w \<Rightarrow> ('e + 'a) \<times> 'w) \<Rightarrow> ('a \<Rightarrow> 'w \<Rightarrow> ('e + 'b) \<times> 'w) \<Rightarrow> 'w \<Rightarrow> ('e + 'b) \<times> 'w" where
  "and_then f g w = (case f w of (Inl err, w1) \<Rightarrow> (Err err, w1) | (Inr a, w1) \<Rightarrow> g a w1)"

lemma and_then_Pair:
  "and_then f g w = (r, w') \<longleftrightarrow>
     (\<exists>err. f w = (Err err, w') \<and> r = Err err) \<or> (\<exists>a w1. f w = (Ok a, w1) \<and> g a w1 = (r, w'))"
  by (auto simp: and_then_def split: prod.splits sum.splits)

lemma and_then_Ok: "and_then f g w = (Ok x, w') \<longleftrightarrow> (\<exists>a w1. f w = (Ok a, w1) \<and> g a w1 = (Ok x, w'))"
  by (auto simp: and_then_Pair)

lemma map_err_Ok_iff2 [simp]: "Ok y = map_err g r \<longleftrightarrow> r = Ok y"
  by (cases r) auto

end
