(* ===== verification/Pair.thy ===== *)
theory Pair
  imports Runtime Oob Console
begin

text \<open>
  The pairing command of \<open>syauth-cli/src/pair.rs\<close>: options, the queue of operator
  keystrokes, the decision on pairing variants, choice of a peer, the prompt for
  the confirmation words, and the flow up to the files the daemon reads.  The
  radio is the record \<open>pair_backend\<close>, the program's own trait of that name.
\<close>

section \<open>Constants and options\<close>

definition CLI_ADAPTER_NAME :: string where [const_defs]: "CLI_ADAPTER_NAME = ''hci0''"
definition DEFAULT_BOND_DIR :: path where [const_defs]: "DEFAULT_BOND_DIR = [''var'', ''lib'', ''syauth'']"
definition BONDS_FILE_NAME :: string where [const_defs]: "BONDS_FILE_NAME = ''bonds.toml''"
definition DEFAULT_TIMEOUT_SECS :: nat where [const_defs]: "DEFAULT_TIMEOUT_SECS = 60"
definition LESC_UNSUPPORTED_HINT :: string where
  [const_defs]: "LESC_UNSUPPORTED_HINT = ''adapter does not advertise LE Secure Connections (kernel < 5.4 or older controller)''"
definition SCRIPTED_OOB_WARNING :: string where
  [const_defs]: "SCRIPTED_OOB_WARNING = ''scripted-oob in effect; interactive OOB confirmation bypassed (S-019 e2e harness)''"
definition LIST_FIELD_SEP :: char where [const_defs]: "LIST_FIELD_SEP = CHR 0x09"
definition LIST_EMPTY_HINT :: string where [const_defs]: "LIST_EMPTY_HINT = ''(no bonds; run `syauth pair` to add one)''"
definition PAM_BOND_KEY_DIR_NAME :: string where [const_defs]: "PAM_BOND_KEY_DIR_NAME = ''keys''"
definition PAM_BOND_KEY_FILE_EXT :: string where [const_defs]: "PAM_BOND_KEY_FILE_EXT = ''.bin''"
definition NUMERIC_CODE_NOT_OBSERVED :: "32 word" where [const_defs]: "NUMERIC_CODE_NOT_OBSERVED = 0"
definition OS_CONFIRM_DECISION_TIMEOUT :: nat where [const_defs]: "OS_CONFIRM_DECISION_TIMEOUT = 25000" \<comment> \<open>ms\<close>
definition PAM_BOND_KEY_FILE_MODE :: mode where [const_defs]: "PAM_BOND_KEY_FILE_MODE = 384" \<comment> \<open>0o600\<close>

record pair_opts =
  po_adapter :: string
  po_peer :: "string option"
  po_timeout_secs :: nat
  po_bond_dir :: path
  po_yes :: bool
  po_waybar :: bool
  po_force :: bool
  po_scripted_oob :: "string option"

record pair_candidate =
  pcd_name :: string
  pcd_address :: string

record lesc_outcome =
  lo_peer_pubkey :: bytes
  lo_bond_key :: bytes
  lo_numeric_code :: "32 word"

record adapter_info =
  ai_name :: string
  ai_supports_lesc :: bool

datatype confirm_source = Cs_Stdio | Cs_AutoAccept | Cs_Waybar

definition confirm_source_from_opts :: "pair_opts \<Rightarrow> confirm_source" where
  "confirm_source_from_opts opts =
     (if po_yes opts \<or> po_scripted_oob opts \<noteq> None then Cs_AutoAccept
      else if po_waybar opts then Cs_Waybar
      else Cs_Stdio)"

section \<open>The operator's keystrokes\<close>

text \<open>
  The queue with the time now and, for every line still to be taken, the time it
  arrives.  The queue holds its own sender, so that it is never closed: a wait
  without a limit for a line that never comes does not return, here \<open>None\<close>.
\<close>

record operator_lines =
  ol_now :: nat
  ol_queue :: "(nat \<times> string) list"

definition ol_push :: "nat \<Rightarrow> string \<Rightarrow> operator_lines \<Rightarrow> operator_lines" where
  "ol_push t line q = q\<lparr> ol_queue := ol_queue q @ [(t, line)] \<rparr>"

definition take_line :: "nat option \<Rightarrow> operator_lines \<Rightarrow> (string option \<times> operator_lines) option" where
  "take_line timeout q =
     (case (timeout, ol_queue q) of
        (Some wait, []) \<Rightarrow> Some (None, q\<lparr> ol_now := ol_now q + wait \<rparr>)
      | (Some wait, (t, line) # rest) \<Rightarrow>
          if t \<le> ol_now q + wait then Some (Some line, q\<lparr> ol_now := max (ol_now q) t, ol_queue := rest \<rparr>)
          else Some (None, q\<lparr> ol_now := ol_now q + wait \<rparr>)
      | (None, []) \<Rightarrow> None
      | (None, (t, line) # rest) \<Rightarrow> Some (Some line, q\<lparr> ol_now := max (ol_now q) t, ol_queue := rest \<rparr>))"

text \<open>
  The thread that owns standard input: what each \<open>read_line\<close> returns and when;
  it stops at the end of the input or at an error.
\<close>

definition trim_newline :: "string \<Rightarrow> string" where
  "trim_newline s = rev (dropWhile (\<lambda>c. c = CR \<or> c = NL) (rev s))"

fun spawn_stdin_reader :: "(nat \<times> (io_error + string)) list \<Rightarrow> operator_lines \<Rightarrow> operator_lines" where
  "spawn_stdin_reader [] q = q"
| "spawn_stdin_reader ((t, r) # rs) q =
     (case r of
        Inl _ \<Rightarrow> q
      | Inr line \<Rightarrow> if line = [] then q else spawn_stdin_reader rs (ol_push t (trim_newline line) q))"

text \<open>\<open>OperatorLineReader\<close>, and the buffer of the \<open>BufReader\<close> around it.\<close>

record line_reader =
  lr_lines :: operator_lines
  lr_pending :: bytes
  lr_buf :: bytes

definition BUF_READER_CAP :: nat where [const_defs]: "BUF_READER_CAP = 8192"
definition NL_BYTE :: byte where [const_defs]: "NL_BYTE = 10"

definition olr_read :: "nat \<Rightarrow> line_reader \<Rightarrow> (bytes \<times> line_reader) option" where
  "olr_read n r =
     (let drain = (\<lambda>r. Some (take n (lr_pending r), r\<lparr> lr_pending := drop n (lr_pending r) \<rparr>)) in
      if lr_pending r = []
      then case take_line None (lr_lines r) of
             None \<Rightarrow> None
           | Some (Some line, q) \<Rightarrow> drain (r\<lparr> lr_lines := q, lr_pending := str_bytes line @ [NL_BYTE] \<rparr>)
           | Some (None, q) \<Rightarrow> Some ([], r\<lparr> lr_lines := q \<rparr>)
      else drain r)"

definition fill_buf :: "line_reader \<Rightarrow> line_reader option" where
  "fill_buf r =
     (if lr_buf r \<noteq> [] then Some r
      else case olr_read BUF_READER_CAP r of None \<Rightarrow> None | Some (chunk, r1) \<Rightarrow> Some (r1\<lparr> lr_buf := chunk \<rparr>))"

partial_function (option) read_until_nl :: "line_reader \<Rightarrow> bytes \<Rightarrow> (bytes \<times> line_reader) option" where
  "read_until_nl r acc =
     (case fill_buf r of
        None \<Rightarrow> None
      | Some r1 \<Rightarrow>
          (let b = lr_buf r1; pre = takeWhile (\<lambda>x. x \<noteq> NL_BYTE) b in
           if b = [] then Some (acc, r1)
           else if length pre < length b
             then Some (acc @ pre @ [NL_BYTE], r1\<lparr> lr_buf := drop (Suc (length pre)) b \<rparr>)
             else read_until_nl (r1\<lparr> lr_buf := [] \<rparr>) (acc @ b)))"

definition lr_read_line :: "line_reader \<Rightarrow> ((io_error + string) \<times> line_reader) option" where
  "lr_read_line r =
     (case read_until_nl r [] of
        None \<Rightarrow> None
      | Some (bs, r1) \<Rightarrow> Some (case from_utf8 bs of None \<Rightarrow> Err InvalidData | Some t \<Rightarrow> Ok t, r1))"

section \<open>Pairing variants, phases and errors\<close>

datatype revoke_reason = Rr_Timeout | Rr_OperatorReject

datatype pairing_phase =
    Ph_Scanning | Ph_AwaitingLesc | Ph_AwaitingOobConfirmation "string list" | Ph_ProvisionalBonded string
  | Ph_Bonded | Ph_Revoked revoke_reason

datatype pairing_variant = PasskeyConfirmation | JustWorks | LegacyPin | PasskeyEntry | OobOnly

datatype pair_error =
    AdapterMissing string | LescUnsupported string string | NoPeers | AmbiguousPeer "string list" | PeerNotFound
  | PairRevoked revoke_reason | PairBond bond_error | PeerAlreadyBonded string | PairBackendError string
  | DowngradeBlocked pairing_variant | UnsupportedPairingVariant pairing_variant | PairIo io_error

fun pairing_variant_display :: "pairing_variant \<Rightarrow> string" where
  "pairing_variant_display PasskeyConfirmation = ''passkey-confirmation''"
| "pairing_variant_display JustWorks = ''just-works''"
| "pairing_variant_display LegacyPin = ''legacy-pin''"
| "pairing_variant_display PasskeyEntry = ''passkey-entry''"
| "pairing_variant_display OobOnly = ''oob-only''"

fun decide_pairing :: "pairing_variant \<Rightarrow> pair_error + unit" where
  "decide_pairing PasskeyConfirmation = Ok ()"
| "decide_pairing JustWorks = Err (DowngradeBlocked JustWorks)"
| "decide_pairing variant = Err (UnsupportedPairingVariant variant)"

section \<open>The radio seam\<close>

text \<open>
  One implementation of the trait over a state \<open>'b\<close>; the negotiation also reports
  how many milliseconds it takes.
\<close>

record 'b pair_backend =
  pb_adapter_info :: "string \<Rightarrow> 'b \<Rightarrow> (pair_error + adapter_info) \<times> 'b"
  pb_scan_peers :: "'b \<Rightarrow> (pair_error + pair_candidate list) \<times> 'b"
  pb_initiate_lesc :: "pair_candidate \<Rightarrow> 'b \<Rightarrow> nat \<times> (pair_error + lesc_outcome) \<times> 'b"
  pb_install_os_confirm :: "confirm_source \<Rightarrow> 'b \<Rightarrow> 'b"

definition adapter_supports_lesc :: "'b pair_backend \<Rightarrow> string \<Rightarrow> 'b \<Rightarrow> (pair_error + bool) \<times> 'b" where
  "adapter_supports_lesc B adapter b =
     (case pb_adapter_info B adapter b of (r, b1) \<Rightarrow> (res_bind r (\<lambda>i. Ok (ai_supports_lesc i)), b1))"

section \<open>Pieces of the flow\<close>

datatype oob_confirmation = OobAccept | OobReject

definition parse_yes_no :: "string \<Rightarrow> oob_confirmation" where
  "parse_yes_no line =
     (let trimmed = map ascii_lower (trim line) in
      if trimmed = ''y'' \<or> trimmed = ''yes'' then OobAccept else OobReject)"

definition filter_candidates :: "pair_candidate list \<Rightarrow> string option \<Rightarrow> pair_candidate list" where
  "filter_candidates candidates peer_filter =
     (case peer_filter of
        None \<Rightarrow> candidates
      | Some needle \<Rightarrow> filter (\<lambda>c. contains_str (pcd_name c) needle) candidates)"

definition pick_unambiguous :: "pair_candidate list \<Rightarrow> bool \<Rightarrow> pair_error + pair_candidate" where
  "pick_unambiguous filtered auto_pick =
     (case filtered of
        [] \<Rightarrow> Err PeerNotFound
      | [p] \<Rightarrow> Ok p
      | _ \<Rightarrow>
          if auto_pick then Err (AmbiguousPeer (map pcd_name filtered))
          else Err (PairBackendError ''ambiguous peer without --yes; interactive picker is selected in run_pair_with_io''))"

definition build_bond_with_time :: "(bytes \<Rightarrow> bytes) \<Rightarrow> lesc_outcome \<Rightarrow> pair_candidate \<Rightarrow> int \<Rightarrow> bond" where
  "build_bond_with_time blake3 outcome peer now =
     \<lparr> b_peer_id = peer_id_from_pubkey blake3 (lo_peer_pubkey outcome), b_pubkey = lo_peer_pubkey outcome,
       b_name = pcd_name peer, b_created_at = now, b_status = Bonded \<rparr>"

definition bonds_path :: "path \<Rightarrow> path" where
  "bonds_path bond_dir = bond_dir @ [BONDS_FILE_NAME]"

definition pam_bond_key_path :: "path \<Rightarrow> string \<Rightarrow> path" where
  "pam_bond_key_path bond_dir peer_id = bond_dir @ [PAM_BOND_KEY_DIR_NAME, peer_id @ PAM_BOND_KEY_FILE_EXT]"

definition write_pam_bond_key :: "sys_env \<Rightarrow> path \<Rightarrow> string \<Rightarrow> bytes \<Rightarrow> fs \<Rightarrow> (pair_error + unit) \<times> fs" where
  "write_pam_bond_key e bond_dir peer_id bond_key s =
     (let keys_dir = bond_dir @ [PAM_BOND_KEY_DIR_NAME]; p = pam_bond_key_path bond_dir peer_id in
      case create_dir_all e keys_dir s of
        (Inl err, s1) \<Rightarrow> (Err (PairIo err), s1)
      | (Inr _, s1) \<Rightarrow>
          (let s2 = snd (set_permissions e keys_dir 448 s1) in
           case write_file e p bond_key s2 of
             (Inl err, s3) \<Rightarrow> (Err (PairIo err), s3)
           | (Inr _, s3) \<Rightarrow> on_err PairIo (set_permissions e p PAM_BOND_KEY_FILE_MODE s3)))"

section \<open>The flow\<close>

text \<open>The state of a run: the backend with the operator's input, the files and the terminal.\<close>

record 'b pair_world =
  pw_backend :: 'b
  pw_fs :: fs
  pw_out :: console

definition pw_print :: "string \<Rightarrow> 'b pair_world \<Rightarrow> (pair_error + unit) \<times> 'b pair_world" where
  "pw_print line w = (case write_line line (pw_out w) of (r, c) \<Rightarrow> (map_err PairIo r, w\<lparr> pw_out := c \<rparr>))"

definition pw_call :: "('b \<Rightarrow> (pair_error + 'a) \<times> 'b) \<Rightarrow> 'b pair_world \<Rightarrow> (pair_error + 'a) \<times> 'b pair_world" where
  "pw_call f w = (case f (pw_backend w) of (r, b) \<Rightarrow> (r, w\<lparr> pw_backend := b \<rparr>))"

definition pw_files :: "(fs \<Rightarrow> (pair_error + 'a) \<times> fs) \<Rightarrow> 'b pair_world \<Rightarrow> (pair_error + 'a) \<times> 'b pair_world" where
  "pw_files f w = (case f (pw_fs w) of (r, s) \<Rightarrow> (r, w\<lparr> pw_fs := s \<rparr>))"

text \<open>\<open>tokio::time::timeout\<close> around the negotiation.\<close>

definition lesc_within :: "nat \<Rightarrow> nat \<times> (pair_error + lesc_outcome) \<times> 'b \<Rightarrow> (pair_error + lesc_outcome) \<times> 'b" where
  "lesc_within deadline_ms r =
     (case r of (elapsed, x, b) \<Rightarrow> (if elapsed \<le> deadline_ms then x else Err (PairRevoked Rr_Timeout), b))"

definition pair_lesc ::
    "'b pair_backend \<Rightarrow> pair_opts \<Rightarrow> pair_candidate \<Rightarrow> 'b pair_world \<Rightarrow> (pair_error + pair_candidate \<times> lesc_outcome) \<times> 'b pair_world" where
  "pair_lesc B opts chosen =
     and_then (pw_print (''selected '' @ pcd_name chosen @ '' ('' @ pcd_address chosen @ '')'')) (\<lambda>_.
     and_then (pw_print ''initiating LE Secure Connections...'') (\<lambda>_.
     and_then (pw_call (\<lambda>b. lesc_within (po_timeout_secs opts * 1000) (pb_initiate_lesc B chosen b))) (\<lambda>outcome.
     and_then (pw_print (if lo_numeric_code outcome = NUMERIC_CODE_NOT_OBSERVED
                 then ''BT numeric comparison confirmed (code not reported by the agent)''
                 else ''BT numeric code: '' @ show_padded 6 (unat (lo_numeric_code outcome)) @ ''   confirm on both devices'')) (\<lambda>_.
       Pair (Ok (chosen, outcome))))))"

definition pair_choose ::
    "'b pair_backend \<Rightarrow> pair_opts \<Rightarrow> pair_candidate list \<Rightarrow> 'b pair_world \<Rightarrow>
     (pair_error + pair_candidate \<times> lesc_outcome) \<times> 'b pair_world" where
  "pair_choose B opts candidates w =
     (if candidates = [] then (Err NoPeers, w)
      else case pick_unambiguous (filter_candidates candidates (po_peer opts)) (po_yes opts) of
        Inl err \<Rightarrow> (Err err, w)
      | Inr chosen \<Rightarrow> pair_lesc B opts chosen w)"

definition pair_negotiate ::
    "'b pair_backend \<Rightarrow> pair_opts \<Rightarrow> 'b pair_world \<Rightarrow> (pair_error + pair_candidate \<times> lesc_outcome) \<times> 'b pair_world" where
  "pair_negotiate B opts =
     and_then (pw_call (pb_adapter_info B (po_adapter opts))) (\<lambda>info.
     and_then (pw_print (''adapter '' @ ai_name info @ '' ready (LE Secure Connections: '' @
                 (if ai_supports_lesc info then ''yes'' else ''no'') @ '')'')) (\<lambda>_.
     if \<not> ai_supports_lesc info then Pair (Err (LescUnsupported (ai_name info) LESC_UNSUPPORTED_HINT))
     else
     and_then (\<lambda>w. (Ok (), w\<lparr> pw_backend := pb_install_os_confirm B (confirm_source_from_opts opts) (pw_backend w) \<rparr>)) (\<lambda>_.
     and_then (pw_call (pb_scan_peers B)) (\<lambda>candidates.
       pair_choose B opts candidates))))"

text \<open>The prompt; \<open>rl\<close> reads a line of the operator's input.\<close>

type_synonym 'b read_line = "'b \<Rightarrow> ((io_error + string) \<times> 'b) option"

fun pw_print_all :: "string list \<Rightarrow> 'b pair_world \<Rightarrow> (pair_error + unit) \<times> 'b pair_world" where
  "pw_print_all [] w = (Ok (), w)"
| "pw_print_all (l # ls) w = and_then (pw_print l) (\<lambda>_. pw_print_all ls) w"

definition pw_write :: "string \<Rightarrow> 'b pair_world \<Rightarrow> (pair_error + unit) \<times> 'b pair_world" where
  "pw_write t w = (case write_str t (pw_out w) of (r, c) \<Rightarrow> (map_err PairIo r, w\<lparr> pw_out := c \<rparr>))"

definition read_oob_confirmation ::
    "'b read_line \<Rightarrow> string list \<Rightarrow> bool \<Rightarrow> 'b pair_world \<Rightarrow> ((pair_error + oob_confirmation) \<times> 'b pair_world) option" where
  "read_oob_confirmation rl code auto_accept w =
     (case and_then (pw_print ''app-level OOB code (must match the phone):'') (\<lambda>_.
           and_then (pw_print_all (map (\<lambda>word. ''  '' @ word) code)) (\<lambda>_.
           and_then (pw_write ''OOB matches your phone? [y/N]: '') (\<lambda>_. pw_write []))) w of
        (Inl err, w1) \<Rightarrow> Some (Err err, w1)
      | (Inr _, w1) \<Rightarrow>
          if auto_accept then Some (and_then (pw_print ''y (--yes)'') (\<lambda>_. Pair (Ok OobAccept)) w1)
          else case rl (pw_backend w1) of
            None \<Rightarrow> None
          | Some (Inl err, b) \<Rightarrow> Some (Err (PairIo err), w1\<lparr> pw_backend := b \<rparr>)
          | Some (Inr buf, b) \<Rightarrow> Some (Ok (parse_yes_no buf), w1\<lparr> pw_backend := b \<rparr>))"

text \<open>The store with the new bond, and whether an old one was replaced.\<close>

definition store_with_bond :: "bool \<Rightarrow> bond \<Rightarrow> bond_store \<Rightarrow> pair_error + (string option \<times> bond_store)" where
  "store_with_bond force b store =
     (case bs_add store b of
        (Inr _, store1) \<Rightarrow> Ok (None, store1)
      | (Inl (Bond_AlreadyBonded existing), _) \<Rightarrow>
          if force then
            (case bs_remove store existing of
               (Inl err, _) \<Rightarrow> Err (PairBond err)
             | (Inr _, store1) \<Rightarrow>
                 (case bs_add store1 b of
                    (Inl err, _) \<Rightarrow> Err (PairBond err)
                  | (Inr _, store2) \<Rightarrow> Ok (Some existing, store2)))
          else Err (PeerAlreadyBonded existing)
      | (Inl other, _) \<Rightarrow> Err (PairBond other))"

definition pair_commit ::
    "toml_lib \<Rightarrow> (bytes \<Rightarrow> bytes) \<Rightarrow> sys_env \<Rightarrow> int \<Rightarrow> pair_opts \<Rightarrow> pair_candidate \<Rightarrow> lesc_outcome \<Rightarrow>
     'b pair_world \<Rightarrow> (pair_error + pairing_phase) \<times> 'b pair_world" where
  "pair_commit L blake3 e now opts chosen outcome w =
     (let b = build_bond_with_time blake3 outcome chosen now; p = bonds_path (po_bond_dir opts) in
      case bs_load L blake3 e (pw_fs w) p of
        Inl err \<Rightarrow> (Err (PairBond err), w)
      | Inr store \<Rightarrow>
          (case store_with_bond (po_force opts) b store of
             Inl err \<Rightarrow> (Err err, w)
           | Inr (replaced, store1) \<Rightarrow>
               and_then (case replaced of
                   Some existing \<Rightarrow> pw_print (''replaced existing bond peer_id='' @ existing)
                 | None \<Rightarrow> Pair (Ok ())) (\<lambda>_.
               and_then (pw_files (\<lambda>s. on_err PairBond (bs_save L e store1 p s))) (\<lambda>_.
               and_then (pw_files (write_pam_bond_key e (po_bond_dir opts) (b_peer_id b) (lo_bond_key outcome))) (\<lambda>_.
               and_then (pw_print (''bonded '' @ pcd_name chosen @ '' id='' @ b_peer_id b @ ''; run `syauth list` to verify'')) (\<lambda>_.
                 Pair (Ok Ph_Bonded))))) w))"

definition run_pair_with_io ::
    "toml_lib \<Rightarrow> (bytes \<Rightarrow> bytes) \<Rightarrow> hkdf \<Rightarrow> sys_env \<Rightarrow> int \<Rightarrow> pair_opts \<Rightarrow> 'b pair_backend \<Rightarrow> 'b read_line \<Rightarrow>
     'b pair_world \<Rightarrow> ((pair_error + pairing_phase) \<times> 'b pair_world) option" where
  "run_pair_with_io L blake3 hk e now opts B rl w =
     (case pair_negotiate B opts w of
        (Inl err, w1) \<Rightarrow> Some (Err err, w1)
      | (Inr (chosen, outcome), w1) \<Rightarrow>
          (let code = oob_code_for_bond hk (lo_bond_key outcome); scripted = (po_scripted_oob opts \<noteq> None) in
           case (if scripted then pw_print (''warning: '' @ SCRIPTED_OOB_WARNING) w1 else (Ok (), w1)) of
             (Inl err, w2) \<Rightarrow> Some (Err err, w2)
           | (Inr _, w2) \<Rightarrow>
               (case read_oob_confirmation rl code (po_yes opts \<or> scripted) w2 of
                  None \<Rightarrow> None
                | Some (Inl err, w3) \<Rightarrow> Some (Err err, w3)
                | Some (Inr OobReject, w3) \<Rightarrow> Some (Err (PairRevoked Rr_OperatorReject), w3)
                | Some (Inr OobAccept, w3) \<Rightarrow> Some (pair_commit L blake3 e now opts chosen outcome w3))))"

section \<open>Lemmas: reading lines\<close>

lemma takeWhile_line: "NL_BYTE \<notin> set l \<Longrightarrow> takeWhile (\<lambda>x. x \<noteq> NL_BYTE) (l @ NL_BYTE # t) = l"
  by (induction l) auto

lemma read_until_found:
  assumes "fill_buf r = Some r1" "lr_buf r1 = pre @ NL_BYTE # post" "NL_BYTE \<notin> set pre"
  shows "read_until_nl r acc = Some (acc @ pre @ [NL_BYTE], r1\<lparr> lr_buf := post \<rparr>)"
  using assms takeWhile_line [OF assms(3), of post] by (subst read_until_nl.simps) (simp add: Let_def)

lemma read_until_more:
  assumes "fill_buf r = Some r1" "lr_buf r1 = b" "b \<noteq> []" "NL_BYTE \<notin> set b"
  shows "read_until_nl r acc = read_until_nl (r1\<lparr> lr_buf := [] \<rparr>) (acc @ b)"
proof -
  have "takeWhile (\<lambda>x. x \<noteq> NL_BYTE) b = b" using assms(4) by (auto simp: takeWhile_eq_all_conv)
  then show ?thesis using assms by (subst read_until_nl.simps) (simp add: Let_def del: takeWhile_eq_all_conv)
qed

text \<open>Draining a pending line chunk by chunk gives the whole line.\<close>

lemma read_until_nl_drain:
  assumes "NL_BYTE \<notin> set l"
  shows "lr_pending r = l @ [NL_BYTE] \<Longrightarrow> lr_buf r = [] \<Longrightarrow> read_until_nl r acc = Some (acc @ l @ [NL_BYTE], r\<lparr> lr_pending := [] \<rparr>)"
  using assms
proof (induction "length l" arbitrary: l r acc rule: less_induct)
  case less
  let ?p = "l @ [NL_BYTE]"
  let ?r1 = "r\<lparr> lr_pending := drop BUF_READER_CAP ?p, lr_buf := take BUF_READER_CAP ?p \<rparr>"
  have fill: "fill_buf r = Some ?r1" using less.prems(1,2) by (simp add: fill_buf_def olr_read_def)
  have id: "r\<lparr> lr_pending := [], lr_buf := [] \<rparr> = r\<lparr> lr_pending := [] \<rparr>" "r\<lparr> lr_buf := [], lr_pending := [] \<rparr> = r\<lparr> lr_pending := [] \<rparr>"
    using less.prems(2) by simp_all
  show ?case
  proof (cases "length l < BUF_READER_CAP")
    case True
    then have "?r1 = r\<lparr> lr_pending := [], lr_buf := l @ [NL_BYTE] \<rparr>" by simp
    then show ?thesis using read_until_found [OF fill, of l "[]" acc] less.prems(3) id by simp
  next
    case False
    let ?a = "take BUF_READER_CAP l" and ?b = "drop BUF_READER_CAP l"
    have r1: "?r1 = r\<lparr> lr_pending := ?b @ [NL_BYTE], lr_buf := ?a \<rparr>" using False by simp
    have "?a \<noteq> []" "NL_BYTE \<notin> set ?a" "NL_BYTE \<notin> set ?b" "length ?b < length l"
      using False less.prems(3) by (auto simp: BUF_READER_CAP_def dest: in_set_takeD in_set_dropD)
    then have "read_until_nl r acc = read_until_nl (r\<lparr> lr_pending := ?b @ [NL_BYTE], lr_buf := [] \<rparr>) (acc @ ?a)"
      using read_until_more [OF fill, of ?a acc] unfolding r1 by simp
    also have "\<dots> = Some ((acc @ ?a) @ ?b @ [NL_BYTE], (r\<lparr> lr_pending := ?b @ [NL_BYTE], lr_buf := [] \<rparr>)\<lparr> lr_pending := [] \<rparr>)"
      using \<open>length ?b < length l\<close> \<open>NL_BYTE \<notin> set ?b\<close> by (intro less.hyps) simp_all
    finally show ?thesis using id by simp
  qed
qed

lemma str_bytes_line: "NL \<notin> set l \<Longrightarrow> NL_BYTE \<notin> set (str_bytes l)"
proof
  assume n: "NL \<notin> set l" and "NL_BYTE \<in> set (str_bytes l)"
  then obtain c where c: "c \<in> set l" "byte_of_char c = NL_BYTE" by (auto simp: str_bytes_def)
  have "c = char_of_byte (byte_of_char c)" by simp
  also have "\<dots> = NL" unfolding c(2) by (simp add: char_of_byte_def NL_BYTE_def)
  finally show False using c(1) n by simp
qed

lemma read_line_next:
  assumes "lr_pending r = []" "lr_buf r = []" "ol_queue (lr_lines r) = (t, l) # rest" "NL \<notin> set l" "utf8_valid (str_bytes l)"
  shows "lr_read_line r =
    Some (Ok (l @ [NL]), r\<lparr> lr_lines := (lr_lines r)\<lparr> ol_now := max (ol_now (lr_lines r)) t, ol_queue := rest \<rparr> \<rparr>)"
proof -
  let ?q = "(lr_lines r)\<lparr> ol_now := max (ol_now (lr_lines r)) t, ol_queue := rest \<rparr>"
  let ?r = "r\<lparr> lr_lines := ?q, lr_pending := str_bytes l @ [NL_BYTE] \<rparr>"
  have tl: "take_line None (lr_lines r) = Some (Some l, ?q)" using assms(3) by (simp add: take_line_def)
  have "fill_buf r = fill_buf ?r" using assms(1,2) by (simp add: fill_buf_def olr_read_def tl)
  then have "read_until_nl r [] = read_until_nl ?r []"
    by (simp add: read_until_nl.simps [of r] read_until_nl.simps [of ?r])
  also have "\<dots> = Some ([] @ str_bytes l @ [NL_BYTE], ?r\<lparr> lr_pending := [] \<rparr>)"
    by (rule read_until_nl_drain [OF str_bytes_line [OF assms(4)]]) (simp_all add: assms(2))
  finally have u: "read_until_nl r [] = Some (str_bytes l @ [NL_BYTE], r\<lparr> lr_lines := ?q \<rparr>)" using assms(1) by simp
  have b: "str_bytes l @ [NL_BYTE] = str_bytes (l @ [NL])"
    by (simp add: str_bytes_def NL_BYTE_def byte_of_char_def)
  have "utf8_valid (str_bytes l @ [NL_BYTE])" using assms(5) by (simp add: utf8_valid_append NL_BYTE_def)
  then show ?thesis using u unfolding lr_read_line_def b by (simp add: from_utf8_def)
qed

text \<open>With no line to come the prompt never returns: the end of the input does not close the queue.\<close>

lemma read_line_never:
  "lr_pending r = [] \<Longrightarrow> lr_buf r = [] \<Longrightarrow> ol_queue (lr_lines r) = [] \<Longrightarrow> lr_read_line r = None"
  by (simp add: lr_read_line_def read_until_nl.simps [of r] fill_buf_def olr_read_def take_line_def)

section \<open>Lemmas: the flow\<close>

lemma pw_print_frame: "pw_print l w = (r, w') \<Longrightarrow> pw_fs w' = pw_fs w \<and> pw_backend w' = pw_backend w"
  by (auto simp: pw_print_def split: prod.splits)

lemma pw_write_frame: "pw_write l w = (r, w') \<Longrightarrow> pw_fs w' = pw_fs w \<and> pw_backend w' = pw_backend w"
  by (auto simp: pw_write_def split: prod.splits)

lemma pw_print_all_frame: "pw_print_all ls w = (r, w') \<Longrightarrow> pw_fs w' = pw_fs w \<and> pw_backend w' = pw_backend w"
  by (induction ls w rule: pw_print_all.induct) (auto simp: and_then_Pair dest!: pw_print_frame)

lemma pw_call_Pair: "pw_call f w = (r, w') \<longleftrightarrow> (\<exists>b. f (pw_backend w) = (r, b) \<and> w' = w\<lparr> pw_backend := b \<rparr>)"
  by (auto simp: pw_call_def split: prod.splits)

lemma pw_files_Pair: "pw_files f w = (r, w') \<longleftrightarrow> (\<exists>s. f (pw_fs w) = (r, s) \<and> w' = w\<lparr> pw_fs := s \<rparr>)"
  by (auto simp: pw_files_def split: prod.splits)

text \<open>
  What a pairing has to go through: an adapter with secure connections, a scan
  that leaves one candidate, a negotiation in time.
\<close>

definition negotiated :: "'b pair_backend \<Rightarrow> pair_opts \<Rightarrow> 'b \<Rightarrow> pair_candidate \<Rightarrow> lesc_outcome \<Rightarrow> 'b \<Rightarrow> bool" where
  "negotiated B opts b chosen outcome b4 \<longleftrightarrow>
     (\<exists>info b1 candidates b3 t.
        pb_adapter_info B (po_adapter opts) b = (Ok info, b1) \<and> ai_supports_lesc info \<and>
        pb_scan_peers B (pb_install_os_confirm B (confirm_source_from_opts opts) b1) = (Ok candidates, b3) \<and>
        pick_unambiguous (filter_candidates candidates (po_peer opts)) (po_yes opts) = Ok chosen \<and>
        pb_initiate_lesc B chosen b3 = (t, Ok outcome, b4) \<and> t \<le> po_timeout_secs opts * 1000)"

lemma lesc_within_Ok: "lesc_within d x = (Ok outcome, b) \<longleftrightarrow> (\<exists>t. x = (t, Ok outcome, b) \<and> t \<le> d)"
  by (auto simp: lesc_within_def split: prod.splits if_splits)

lemma pair_lesc_fs: "pair_lesc B opts chosen w = (r, w') \<Longrightarrow> pw_fs w' = pw_fs w"
  unfolding pair_lesc_def by (auto simp: and_then_Pair pw_call_Pair dest!: pw_print_frame)

lemma pair_lesc_Ok:
  assumes "pair_lesc B opts chosen w = (Ok x, w')"
  obtains outcome t where "x = (chosen, outcome)" "pb_initiate_lesc B chosen (pw_backend w) = (t, Ok outcome, pw_backend w')"
    "t \<le> po_timeout_secs opts * 1000"
proof -
  from assms obtain l1 u1 w1 l2 u2 w2 outcome b l3 u3 where p: "pw_print l1 w = (Ok u1, w1)" "pw_print l2 w1 = (Ok u2, w2)"
      "lesc_within (po_timeout_secs opts * 1000) (pb_initiate_lesc B chosen (pw_backend w2)) = (Ok outcome, b)"
      "pw_print l3 (w2\<lparr> pw_backend := b \<rparr>) = (Ok u3, w')" "x = (chosen, outcome)"
    unfolding pair_lesc_def and_then_Ok pw_call_Pair prod.inject sum.inject by blast
  then show thesis
    using pw_print_frame [OF p(1)] pw_print_frame [OF p(2)] pw_print_frame [OF p(4)] that by (auto simp: lesc_within_Ok)
qed

lemma pair_choose_fs: "pair_choose B opts cs w = (r, w') \<Longrightarrow> pw_fs w' = pw_fs w"
  by (auto simp: pair_choose_def split: sum.splits if_splits dest: pair_lesc_fs)

lemma pair_negotiate_fs:
  assumes "pair_negotiate B opts w = (r, w')"
  shows "pw_fs w' = pw_fs w"
  using assms unfolding pair_negotiate_def
  by (auto simp: and_then_Pair pw_call_Pair split: if_splits dest!: pw_print_frame pair_choose_fs)

lemma pair_negotiate_Ok:
  assumes "pair_negotiate B opts w = (Ok x, w')"
  obtains chosen outcome where "x = (chosen, outcome)" "negotiated B opts (pw_backend w) chosen outcome (pw_backend w')"
proof -
  from assms obtain info b1 l w2 candidates b3 where p: "pb_adapter_info B (po_adapter opts) (pw_backend w) = (Ok info, b1)"
      "pw_print l (w\<lparr> pw_backend := b1 \<rparr>) = (Ok (), w2)" "ai_supports_lesc info"
      "pb_scan_peers B (pb_install_os_confirm B (confirm_source_from_opts opts) (pw_backend w2)) = (Ok candidates, b3)"
      "pair_choose B opts candidates (w2\<lparr> pw_backend := b3 \<rparr>) = (Ok x, w')"
    unfolding pair_negotiate_def and_then_Ok pw_call_Pair by (auto simp: and_then_Ok pw_call_Pair split: if_splits)
  from p(5) obtain chosen where c: "pick_unambiguous (filter_candidates candidates (po_peer opts)) (po_yes opts) = Ok chosen"
      "pair_lesc B opts chosen (w2\<lparr> pw_backend := b3 \<rparr>) = (Ok x, w')"
    by (auto simp: pair_choose_def split: if_splits sum.splits)
  from pair_lesc_Ok [OF c(2)] obtain outcome t where o: "x = (chosen, outcome)"
      "pb_initiate_lesc B chosen b3 = (t, Ok outcome, pw_backend w')" "t \<le> po_timeout_secs opts * 1000" by auto
  have "pw_backend w2 = b1" using pw_print_frame [OF p(2)] by simp
  then have "negotiated B opts (pw_backend w) chosen outcome (pw_backend w')"
    unfolding negotiated_def using p(1,3,4) c(1) o(2,3) by blast
  with o(1) show thesis by (rule that)
qed

text \<open>The operator's answer to the words: a flag, or a line that says yes.\<close>

definition confirmed :: "'b read_line \<Rightarrow> pair_opts \<Rightarrow> 'b \<Rightarrow> bool" where
  "confirmed rl opts b \<longleftrightarrow> po_yes opts \<or> po_scripted_oob opts \<noteq> None \<or>
     (\<exists>buf b1. rl b = Some (Ok buf, b1) \<and> parse_yes_no buf = OobAccept)"

lemma read_oob_effect:
  assumes "read_oob_confirmation rl code auto w = Some (r, w')"
  shows "pw_fs w' = pw_fs w"
    "r = Ok OobAccept \<Longrightarrow> auto \<or> (\<exists>buf b1. rl (pw_backend w) = Some (Ok buf, b1) \<and> parse_yes_no buf = OobAccept)"
  using assms unfolding read_oob_confirmation_def
  by (auto simp: and_then_Pair split: sum.splits if_splits prod.splits option.splits
      dest!: pw_print_frame pw_write_frame pw_print_all_frame)

text \<open>The new bond is in the store once, and every bond of another peer is kept.\<close>

lemma bs_add_effect:
  "bs_add st b = (Ok (), st1) \<Longrightarrow>
     bs_bonds st1 = bs_bonds st @ [b] \<and> (\<forall>x \<in> set (bs_bonds st). b_peer_id x \<noteq> b_peer_id b)"
  by (auto simp: bs_add_def find_index_def position_None split: if_splits)

lemma bs_remove_keeps:
  assumes "bs_remove st i = (Ok (), st1)" "x \<in> set (bs_bonds st)" "b_peer_id x \<noteq> i"
  shows "x \<in> set (bs_bonds st1)"
proof -
  obtain k where k: "find_index st i = Some k" "bs_bonds st1 = remove_at k (bs_bonds st)"
    using assms(1) by (auto simp: bs_remove_def split: option.splits)
  obtain j where j: "j < length (bs_bonds st)" "bs_bonds st ! j = x" using assms(2) by (auto simp: in_set_conv_nth)
  have "j \<noteq> k" using position_Some [of "\<lambda>b. b_peer_id b = i" "bs_bonds st" k] k(1) j(2) assms(3) by (auto simp: find_index_def)
  then have "x \<in> set (take k (bs_bonds st)) \<or> x \<in> set (drop (Suc k) (bs_bonds st))"
  proof (cases "j < k")
    case True
    then show ?thesis using j by (auto simp: in_set_conv_nth intro!: exI [of _ j])
  next
    case False
    then show ?thesis using j \<open>j \<noteq> k\<close> by (auto simp: in_set_conv_nth intro!: exI [of _ "j - Suc k"])
  qed
  then show ?thesis using k(2) by (auto simp: remove_at_def)
qed

lemma store_with_bond_effect:
  assumes "store_with_bond force b st = Ok (rep, st1)"
  obtains rest where "bs_bonds st1 = rest @ [b]" "\<forall>x \<in> set rest. x \<in> set (bs_bonds st) \<and> b_peer_id x \<noteq> b_peer_id b"
    "\<forall>x \<in> set (bs_bonds st). b_peer_id x \<noteq> b_peer_id b \<longrightarrow> x \<in> set rest"
    "\<forall>x \<in> set (bs_bonds st). b_peer_id x = b_peer_id b \<longrightarrow> force"
proof (cases "fst (bs_add st b)")
  case (Inr u)
  then have "bs_add st b = (Ok (), st1)" using assms by (auto simp: store_with_bond_def split: prod.splits)
  with that [of "bs_bonds st"] bs_add_effect [OF this] show thesis by auto
next
  case (Inl err)
  then have "bs_add st b = (Err (Bond_AlreadyBonded (b_peer_id b)), st)" by (auto simp: bs_add_def split: if_splits)
  with assms obtain st0 where s: "bs_remove st (b_peer_id b) = (Ok (), st0)" "bs_add st0 b = (Ok (), st1)" "force"
    by (auto simp: store_with_bond_def split: prod.splits sum.splits if_splits)
  show thesis
  proof (rule that [of "bs_bonds st0"])
    show "\<forall>x \<in> set (bs_bonds st). b_peer_id x \<noteq> b_peer_id b \<longrightarrow> x \<in> set (bs_bonds st0)" using bs_remove_keeps [OF s(1)] by blast
  qed (use bs_add_effect [OF s(2)] bs_remove_others [OF s(1)] s(3) in auto)
qed

lemma write_pam_bond_key_Ok:
  assumes "write_pam_bond_key e dir i k s = (Ok (), s')"
  shows "fs_nodes s' (pam_bond_key_path dir i) = Some (FileNode k PAM_BOND_KEY_FILE_MODE)"
    "only_touches (set (ancestors (dir @ [PAM_BOND_KEY_DIR_NAME])) \<union> {pam_bond_key_path dir i}) s s'"
proof -
  let ?d = "dir @ [PAM_BOND_KEY_DIR_NAME]" and ?p = "pam_bond_key_path dir i"
  from assms obtain s1 r2 s2 s3 where c: "create_dir_all e ?d s = (Ok (), s1)" and m: "set_permissions e ?d 448 s1 = (r2, s2)"
      and w: "write_file e ?p k s2 = (Ok (), s3)" and p: "set_permissions e ?p PAM_BOND_KEY_FILE_MODE s3 = (Ok (), s')"
    by (cases "set_permissions e ?d 448 (snd (create_dir_all e ?d s))")
       (auto simp: write_pam_bond_key_def Let_def on_err_Pair split: prod.splits sum.splits)
  show "fs_nodes s' ?p = Some (FileNode k PAM_BOND_KEY_FILE_MODE)"
    using write_file_content [OF w] set_permissions_ok [OF p] by blast
  let ?P = "set (ancestors ?d) \<union> {?p}"
  have "?d \<in> set (ancestors ?d)" by (auto simp: ancestors_def image_iff intro!: bexI [of _ "length ?d"])
  then show "only_touches ?P s s'"
    using only_touches_mono [OF create_dir_all_touches [OF c], of ?P] only_touches_mono [OF set_permissions_touches [OF m], of ?P]
      only_touches_mono [OF write_file_touches [OF w], of ?P] only_touches_mono [OF set_permissions_touches [OF p], of ?P]
    by (auto intro: only_touches_trans)
qed

lemma pair_commit_Ok:
  assumes "pair_commit L blake3 e now opts chosen outcome w = (Ok ph, w')"
  obtains store rep store1 s1 where "ph = Ph_Bonded" "bs_load L blake3 e (pw_fs w) (bonds_path (po_bond_dir opts)) = Ok store"
    "store_with_bond (po_force opts) (build_bond_with_time blake3 outcome chosen now) store = Ok (rep, store1)"
    "bs_save L e store1 (bonds_path (po_bond_dir opts)) (pw_fs w) = (Ok (), s1)"
    "write_pam_bond_key e (po_bond_dir opts) (peer_id_from_pubkey blake3 (lo_peer_pubkey outcome)) (lo_bond_key outcome) s1 = (Ok (), pw_fs w')"
proof -
  let ?b = "build_bond_with_time blake3 outcome chosen now" and ?p = "bonds_path (po_bond_dir opts)"
  from assms obtain store rep store1 where st: "bs_load L blake3 e (pw_fs w) ?p = Ok store"
      "store_with_bond (po_force opts) ?b store = Ok (rep, store1)"
    by (auto simp: pair_commit_def Let_def split: sum.splits)
  with assms obtain u0 w1 u1 w2 u2 w3 l u3 where c: "(case rep of Some existing \<Rightarrow> pw_print (''replaced existing bond peer_id='' @ existing) |
        None \<Rightarrow> Pair (Ok ())) w = (Ok u0, w1)"
      "pw_files (\<lambda>s. on_err PairBond (bs_save L e store1 ?p s)) w1 = (Ok u1, w2)"
      "pw_files (write_pam_bond_key e (po_bond_dir opts) (b_peer_id ?b) (lo_bond_key outcome)) w2 = (Ok u2, w3)"
      "pw_print l w3 = (Ok u3, w')" "ph = Ph_Bonded"
    unfolding pair_commit_def Let_def by (simp add: and_then_Ok) blast
  have "pw_fs w1 = pw_fs w" using c(1) by (auto split: option.splits dest: pw_print_frame)
  moreover have "pw_fs w' = pw_fs w3" using pw_print_frame [OF c(4)] by simp
  moreover have "bs_save L e store1 ?p (pw_fs w1) = (Ok (), pw_fs w2)" using c(2) by (auto simp: pw_files_Pair on_err_Pair)
  moreover have "write_pam_bond_key e (po_bond_dir opts) (b_peer_id ?b) (lo_bond_key outcome) (pw_fs w2) = (Ok (), pw_fs w3)"
    using c(3) by (auto simp: pw_files_Pair)
  ultimately show thesis using that [OF c(5) st, of "pw_fs w2"] by (simp add: build_bond_with_time_def)
qed

lemma pw_print_Err: "pw_print l w = (Err err, w') \<Longrightarrow> \<exists>x. err = PairIo x"
  by (auto simp: pw_print_def split: prod.splits)

lemma write_pam_bond_key_Err: "write_pam_bond_key e dir i k s = (Err err, s') \<Longrightarrow> \<exists>x. err = PairIo x"
  by (auto simp: write_pam_bond_key_def Let_def on_err_Pair split: prod.splits sum.splits)
     (metis map_err_Err_iff)

lemma store_with_bond_Err: "store_with_bond force b st = Err err \<Longrightarrow> err \<noteq> PairRevoked why"
  by (auto simp: store_with_bond_def split: sum.splits prod.splits bond_error.splits if_splits)

lemma pair_commit_not_revoked:
  assumes "pair_commit L blake3 e now opts chosen outcome w = (Err (PairRevoked why), w')"
  shows False
proof -
  let ?b = "build_bond_with_time blake3 outcome chosen now" and ?p = "bonds_path (po_bond_dir opts)"
  from assms obtain rep store1 where "and_then (case rep of
        Some existing \<Rightarrow> pw_print (''replaced existing bond peer_id='' @ existing) | None \<Rightarrow> Pair (Ok ())) (\<lambda>_.
      and_then (pw_files (\<lambda>s. on_err PairBond (bs_save L e store1 ?p s))) (\<lambda>_.
      and_then (pw_files (write_pam_bond_key e (po_bond_dir opts) (b_peer_id ?b) (lo_bond_key outcome))) (\<lambda>_.
      and_then (pw_print (''bonded '' @ pcd_name chosen @ '' id='' @ b_peer_id ?b @ ''; run `syauth list` to verify'')) (\<lambda>_.
        Pair (Ok Ph_Bonded))))) w = (Err (PairRevoked why), w')"
    by (auto simp: pair_commit_def Let_def split: sum.splits dest: store_with_bond_Err)
  then show False
    unfolding and_then_Pair pw_files_Pair
    by (auto simp: on_err_Pair split: option.splits dest!: pw_print_Err write_pam_bond_key_Err) (metis map_err_Err_iff pair_error.distinct)+
qed

section \<open>Properties\<close>

text \<open>
  C29: Without confirmation nothing is written.  However a run of the pairing flow
  ends, the files are as they were, unless the adapter has secure connections,
  the scan left exactly one candidate, the negotiation with it succeeded in time
  and the operator confirmed the words, by a flag or by the next line of input;
  a run that ends as revoked has written nothing.
\<close>

theorem pair_needs_confirmation:
  assumes "run_pair_with_io L blake3 hk e now opts B rl w = Some (r, w')"
  shows "(pw_fs w' = pw_fs w \<or>
          (\<exists>chosen outcome b. negotiated B opts (pw_backend w) chosen outcome b \<and> confirmed rl opts b)) \<and>
         (\<forall>why. r = Err (PairRevoked why) \<longrightarrow> pw_fs w' = pw_fs w)"
proof -
  obtain x w1 where n: "pair_negotiate B opts w = (x, w1)" by fastforce
  show ?thesis
  proof (cases x)
    case (Inl err)
    then show ?thesis using assms n pair_negotiate_fs [OF n] by (auto simp: run_pair_with_io_def)
  next
    case (Inr y)
    from pair_negotiate_Ok [OF n [unfolded Inr]] obtain chosen outcome
      where y: "y = (chosen, outcome)" "negotiated B opts (pw_backend w) chosen outcome (pw_backend w1)" by blast
    obtain u w2 where s: "(if po_scripted_oob opts \<noteq> None then pw_print (''warning: '' @ SCRIPTED_OOB_WARNING) w1 else (Ok (), w1)) = (u, w2)"
      by fastforce
    then have f2: "pw_fs w2 = pw_fs w" "pw_backend w2 = pw_backend w1"
      using pair_negotiate_fs [OF n] by (auto split: if_splits dest: pw_print_frame)
    let ?o = "read_oob_confirmation rl (oob_code_for_bond hk (lo_bond_key outcome)) (po_yes opts \<or> po_scripted_oob opts \<noteq> None) w2"
    have run: "Some (r, w') = (case u of Inl err \<Rightarrow> Some (Err err, w2) | Inr _ \<Rightarrow>
        (case ?o of None \<Rightarrow> None | Some (Inl err, w3) \<Rightarrow> Some (Err err, w3)
         | Some (Inr OobReject, w3) \<Rightarrow> Some (Err (PairRevoked Rr_OperatorReject), w3)
         | Some (Inr OobAccept, w3) \<Rightarrow> Some (pair_commit L blake3 e now opts chosen outcome w3)))"
      using assms n Inr y(1) s
      by (simp add: run_pair_with_io_def Let_def eq_commute [of "Some (r, w')"] del: not_None_eq)
    show ?thesis
    proof (cases "is_ok u \<and> (\<exists>w3. ?o = Some (Ok OobAccept, w3))")
      case False
      then have "pw_fs w' = pw_fs w"
        using run f2 read_oob_effect(1) [of rl _ _ w2]
        by (auto split: sum.splits option.splits oob_confirmation.splits)
      then show ?thesis by simp
    next
      case True
      then obtain w3 where w3: "?o = Some (Ok OobAccept, w3)" by blast
      have "confirmed rl opts (pw_backend w1)"
        using read_oob_effect(2) [OF w3] f2(2) by (auto simp: confirmed_def)
      moreover have "r \<noteq> Err (PairRevoked why)" for why
        using run True w3 pair_commit_not_revoked [of L blake3 e now opts chosen outcome w3 why w'] by auto
      ultimately show ?thesis using y(2) by blast
    qed
  qed
qed

lemma bs_load_cong: "fs_nodes s p = fs_nodes s' p \<Longrightarrow> bs_load L blake3 e s p = bs_load L blake3 e s' p"
proof -
  assume "fs_nodes s p = fs_nodes s' p"
  then have "read_file e s p = read_file e s' p" by (simp add: read_file_def split: option.split)
  then show ?thesis unfolding bs_load_def read_to_string_def by simp
qed

lemma run_pair_Ok:
  assumes "run_pair_with_io L blake3 hk e now opts B rl w = Some (Ok ph, w')"
  obtains chosen outcome b w3 where "negotiated B opts (pw_backend w) chosen outcome b" "confirmed rl opts b" "pw_fs w3 = pw_fs w"
    "pair_commit L blake3 e now opts chosen outcome w3 = (Ok ph, w')"
proof -
  from assms obtain y w1 where n: "pair_negotiate B opts w = (Ok y, w1)"
    by (cases "pair_negotiate B opts w"; cases "fst (pair_negotiate B opts w)") (auto simp: run_pair_with_io_def)
  from pair_negotiate_Ok [OF n] obtain chosen outcome
    where y: "y = (chosen, outcome)" "negotiated B opts (pw_backend w) chosen outcome (pw_backend w1)" by blast
  obtain u w2 where s: "(if po_scripted_oob opts \<noteq> None then pw_print (''warning: '' @ SCRIPTED_OOB_WARNING) w1 else (Ok (), w1)) = (u, w2)"
    by fastforce
  let ?code = "oob_code_for_bond hk (lo_bond_key outcome)" and ?auto = "po_yes opts \<or> po_scripted_oob opts \<noteq> None"
  obtain w3 where o: "read_oob_confirmation rl ?code ?auto w2 = Some (Ok OobAccept, w3)"
      "pair_commit L blake3 e now opts chosen outcome w3 = (Ok ph, w')"
    using assms n y(1) s
    by (auto simp: run_pair_with_io_def Let_def simp del: not_None_eq split: sum.splits option.splits prod.splits oob_confirmation.splits)
  have "pw_fs w2 = pw_fs w" "pw_backend w2 = pw_backend w1"
    using s pair_negotiate_fs [OF n] by (auto split: if_splits dest: pw_print_frame)
  then show thesis
    using that [OF y(2) _ _ o(2)] read_oob_effect [OF o(1)] by (auto simp: confirmed_def)
qed

lemma pair_persists:
  assumes "run_pair_with_io L blake3 hk e now opts B rl w = Some (Ok ph, w')"
    and "toml_lib_ok L" "BONDS_FILE_NAME \<noteq> sys_temp e" "sys_fail e' (OpRead (bonds_path (po_bond_dir opts))) = None"
    and "\<And>chosen outcome b. negotiated B opts (pw_backend w) chosen outcome b \<Longrightarrow> length (lo_peer_pubkey outcome) = 32"
  obtains chosen outcome b store old where "ph = Ph_Bonded" "negotiated B opts (pw_backend w) chosen outcome b" "confirmed rl opts b"
    "bs_load L blake3 e (pw_fs w) (bonds_path (po_bond_dir opts)) = Ok old"
    "bs_load L blake3 e' (pw_fs w') (bonds_path (po_bond_dir opts)) = Ok store"
    "\<forall>x. x \<in> set (bs_list store) \<longleftrightarrow>
       x = build_bond_with_time blake3 outcome chosen now \<or>
       x \<in> set (bs_list old) \<and> b_peer_id x \<noteq> peer_id_from_pubkey blake3 (lo_peer_pubkey outcome)"
    "\<forall>x \<in> set (bs_list old). b_peer_id x = peer_id_from_pubkey blake3 (lo_peer_pubkey outcome) \<longrightarrow> po_force opts"
    "fs_nodes (pw_fs w') (pam_bond_key_path (po_bond_dir opts) (peer_id_from_pubkey blake3 (lo_peer_pubkey outcome))) =
       Some (FileNode (lo_bond_key outcome) PAM_BOND_KEY_FILE_MODE)"
proof -
  from run_pair_Ok [OF assms(1)] obtain chosen outcome b w3 where n: "negotiated B opts (pw_backend w) chosen outcome b"
      "confirmed rl opts b" "pw_fs w3 = pw_fs w" "pair_commit L blake3 e now opts chosen outcome w3 = (Ok ph, w')" by blast
  let ?i = "peer_id_from_pubkey blake3 (lo_peer_pubkey outcome)" and ?p = "bonds_path (po_bond_dir opts)"
  let ?b = "build_bond_with_time blake3 outcome chosen now"
  from pair_commit_Ok [OF n(4)] obtain old rep store s1 where c: "ph = Ph_Bonded" "bs_load L blake3 e (pw_fs w) ?p = Ok old"
      "store_with_bond (po_force opts) ?b old = Ok (rep, store)" "bs_save L e store ?p (pw_fs w) = (Ok (), s1)"
      "write_pam_bond_key e (po_bond_dir opts) ?i (lo_bond_key outcome) s1 = (Ok (), pw_fs w')"
    unfolding n(3) by blast
  obtain rest where r: "bs_bonds store = rest @ [?b]" "\<forall>x \<in> set rest. x \<in> set (bs_bonds old) \<and> b_peer_id x \<noteq> b_peer_id ?b"
      "\<forall>x \<in> set (bs_bonds old). b_peer_id x \<noteq> b_peer_id ?b \<longrightarrow> x \<in> set rest"
      "\<forall>x \<in> set (bs_bonds old). b_peer_id x = b_peer_id ?b \<longrightarrow> po_force opts"
    using store_with_bond_effect [OF c(3)] by blast
  have id: "b_peer_id ?b = ?i" by (simp add: build_bond_with_time_def)
  have "bond_wf blake3 ?b" using assms(5) [OF n(1)] by (simp add: bond_wf_def build_bond_with_time_def PUBKEY_LEN_def)
  then have "\<forall>x \<in> set (bs_bonds store). bond_wf blake3 x" using r(1,2) bs_load_wf [OF c(2)] by auto
  then have l1: "bs_load L blake3 e' s1 ?p = Ok store"
    using bs_save_then_load [OF assms(2) _ c(4) _ assms(4)] assms(3) by (simp add: bonds_path_def temp_path_def)
  note k = write_pam_bond_key_Ok [OF c(5)]
  have "?p \<notin> set (ancestors (po_bond_dir opts @ [PAM_BOND_KEY_DIR_NAME])) \<union> {pam_bond_key_path (po_bond_dir opts) ?i}"
  proof -
    have "?p \<noteq> take n (po_bond_dir opts @ [PAM_BOND_KEY_DIR_NAME])" for n
      by (cases "n \<le> length (po_bond_dir opts)") (auto simp: bonds_path_def const_defs dest: arg_cong [of _ _ length])
    then have "?p \<notin> set (ancestors (po_bond_dir opts @ [PAM_BOND_KEY_DIR_NAME]))" unfolding ancestors_def set_map by blast
    then show ?thesis by (simp add: pam_bond_key_path_def bonds_path_def)
  qed
  then have "bs_load L blake3 e' (pw_fs w') ?p = Ok store"
    using bs_load_cong [OF only_touches_nodes [OF k(2)]] l1 by simp
  then show thesis
    using that [OF c(1) n(1,2) c(2)] r k(1) id by (auto simp: bs_list_def)
qed

text \<open>
  A successful pairing is complete.  When the flow reports success, the phase
  is \<open>Bonded\<close>, negotiation and confirmation took place, the bonds file loads to
  the old store with the negotiated peer's one bond added, in place of an older
  one for it only under \<open>--force\<close>, and the peer's key file holds the negotiated
  key with mode 0600.
\<close>

theorem pair_success_persists:
  assumes "run_pair_with_io L blake3 hk e now opts B rl w = Some (Ok ph, w')"
    and "toml_lib_ok L" "BONDS_FILE_NAME \<noteq> sys_temp e" "sys_fail e' (OpRead (bonds_path (po_bond_dir opts))) = None"
    and "\<forall>chosen outcome b. negotiated B opts (pw_backend w) chosen outcome b \<longrightarrow> length (lo_peer_pubkey outcome) = 32"
  shows "ph = Ph_Bonded \<and>
    (\<exists>chosen outcome b store old. negotiated B opts (pw_backend w) chosen outcome b \<and> confirmed rl opts b \<and>
       bs_load L blake3 e (pw_fs w) (bonds_path (po_bond_dir opts)) = Ok old \<and>
       bs_load L blake3 e' (pw_fs w') (bonds_path (po_bond_dir opts)) = Ok store \<and>
       (\<forall>x. x \<in> set (bs_list store) \<longleftrightarrow>
          x = build_bond_with_time blake3 outcome chosen now \<or>
          x \<in> set (bs_list old) \<and> b_peer_id x \<noteq> peer_id_from_pubkey blake3 (lo_peer_pubkey outcome)) \<and>
       (\<forall>x \<in> set (bs_list old). b_peer_id x = peer_id_from_pubkey blake3 (lo_peer_pubkey outcome) \<longrightarrow> po_force opts) \<and>
       fs_nodes (pw_fs w') (pam_bond_key_path (po_bond_dir opts) (peer_id_from_pubkey blake3 (lo_peer_pubkey outcome))) =
         Some (FileNode (lo_bond_key outcome) PAM_BOND_KEY_FILE_MODE))"
  by (rule pair_persists [OF assms(1-4)]) (use assms(5) in blast)+

text \<open>
  C31: A phone paired by the command is known to the daemon after its next reload.
  When the daemon, with whatever other phones it has live, reads the same directory
  and does not have this phone live, and BlueZ accepts the registrations, the reload
  makes it live with the negotiated bond key and the phone's public key.
\<close>

theorem pair_then_reload_live:
  assumes "run_pair_with_io L (cr_blake3 C) hk e now opts B rl w = Some (Ok ph, w')"
    and "toml_lib_ok L" "BONDS_FILE_NAME \<noteq> sys_temp e" "\<forall>p. sys_fail e' (OpRead p) = None"
    and "\<forall>chosen outcome b. negotiated B opts (pw_backend w) chosen outcome b \<longrightarrow>
           length (lo_peer_pubkey outcome) = 32 \<and> length (lo_bond_key outcome) = 32"
    and "live_synced (\<lambda>p. dom (pp_peers p)) os" "rd_serve (pp_radio (o_periph os)) = []"
    and "\<forall>xs. set (sh xs) = set xs \<and> (distinct xs \<longrightarrow> distinct (sh xs))"
    and "o_fs os = pw_fs w'" "o_bonds_file os = bonds_path (po_bond_dir opts)" "o_keys_dir os = po_bond_dir opts @ [PAM_BOND_KEY_DIR_NAME]"
    and "\<forall>chosen outcome b. negotiated B opts (pw_backend w) chosen outcome b \<longrightarrow>
           bt_get (o_peers os) (peer_id_from_pubkey (cr_blake3 C) (lo_peer_pubkey outcome)) = None"
  shows "\<exists>chosen outcome b pe. negotiated B opts (pw_backend w) chosen outcome b \<and> confirmed rl opts b \<and>
           bt_get (o_peers (run_reload (persistent_ops hk') C L e' sh now' t os))
             (peer_id_from_pubkey (cr_blake3 C) (lo_peer_pubkey outcome)) = Some pe \<and>
           pe_bond_key pe = lo_bond_key outcome \<and> pe_phone_pubkey pe = Some (lo_peer_pubkey outcome)"
proof -
  have f: "sys_fail e' (OpRead (bonds_path (po_bond_dir opts))) = None" using assms(4) by simp
  have l: "\<And>chosen outcome b. negotiated B opts (pw_backend w) chosen outcome b \<Longrightarrow> length (lo_peer_pubkey outcome) = 32"
    using assms(5) by blast
  obtain chosen outcome b store old where p: "negotiated B opts (pw_backend w) chosen outcome b" "confirmed rl opts b"
      "bs_load L (cr_blake3 C) e' (pw_fs w') (bonds_path (po_bond_dir opts)) = Ok store"
      "\<forall>x. x \<in> set (bs_list store) \<longleftrightarrow>
         x = build_bond_with_time (cr_blake3 C) outcome chosen now \<or>
         x \<in> set (bs_list old) \<and> b_peer_id x \<noteq> peer_id_from_pubkey (cr_blake3 C) (lo_peer_pubkey outcome)"
      "fs_nodes (pw_fs w') (pam_bond_key_path (po_bond_dir opts) (peer_id_from_pubkey (cr_blake3 C) (lo_peer_pubkey outcome))) =
         Some (FileNode (lo_bond_key outcome) PAM_BOND_KEY_FILE_MODE)"
    by (rule pair_persists [OF assms(1-3) f], erule l) blast
  let ?b = "build_bond_with_time (cr_blake3 C) outcome chosen now"
  have b: "b_status ?b = Bonded" "b_peer_id ?b = peer_id_from_pubkey (cr_blake3 C) (lo_peer_pubkey outcome)"
      "b_pubkey ?b = lo_peer_pubkey outcome"
    by (simp_all add: build_bond_with_time_def)
  have one: "x \<in> set (bs_list store) \<Longrightarrow> b_peer_id x = b_peer_id ?b \<Longrightarrow> x = ?b" for x using p(4) b(2) by auto
  have key: "load_bond_key e' (o_fs os) (o_keys_dir os) (b_peer_id ?b) = Ok (lo_bond_key outcome)"
    using p(5) assms(4,9,11) assms(5) [rule_format, OF p(1)] unfolding b(2)
    by (simp add: load_bond_key_def read_file_def pam_bond_key_path_def const_defs)
  have ld: "bs_load L (cr_blake3 C) e' (o_fs os) (o_bonds_file os) = Ok store" using p(3) assms(9,10) by simp
  have "\<exists>pe. bt_get (o_peers (run_reload (persistent_ops hk') C L e' sh now' t os)) (b_peer_id ?b) = Some pe \<and>
           pe_bond_key pe = lo_bond_key outcome \<and> pe_phone_pubkey pe = Some (b_pubkey ?b)"
    by (rule fresh_bond_live [OF assms(6-8) ld _ b(1) one key]) (use p(4) assms(12) [rule_format, OF p(1)] in \<open>simp_all add: b(2)\<close>)
  then show ?thesis unfolding b using p(1,2) by blast
qed

subsection \<open>A pairing that succeeds\<close>

definition quiet :: "'b pair_world \<Rightarrow> 'b pair_world \<Rightarrow> bool" where
  "quiet w w1 \<longleftrightarrow> pw_fs w1 = pw_fs w \<and> pw_backend w1 = pw_backend w \<and> con_ok (pw_out w1)"

lemma pw_write_runs: "con_ok (pw_out w) \<Longrightarrow> \<exists>w1. pw_write l w = (Ok (), w1) \<and> quiet w w1"
  by (erule write_str_ok [of _ l]) (simp add: pw_write_def quiet_def)

lemma pw_print_runs: "con_ok (pw_out w) \<Longrightarrow> \<exists>w1. pw_print l w = (Ok (), w1) \<and> quiet w w1"
  by (erule write_line_ok [of _ l]) (simp add: pw_print_def quiet_def)

lemma pw_print_all_runs: "con_ok (pw_out w) \<Longrightarrow> \<exists>w1. pw_print_all ls w = (Ok (), w1) \<and> quiet w w1"
proof (induction ls arbitrary: w)
  case (Cons l ls)
  obtain w1 where "pw_print l w = (Ok (), w1)" "quiet w w1" using pw_print_runs [OF Cons.prems] by blast
  moreover from this(2) obtain w2 where "pw_print_all ls w1 = (Ok (), w2)" "quiet w1 w2"
    using Cons.IH [of w1] by (auto simp: quiet_def)
  ultimately show ?case by (auto simp: and_then_def quiet_def)
qed (simp add: quiet_def)

lemma pair_negotiate_runs:
  assumes "negotiated B opts (pw_backend w) chosen outcome b4" "con_ok (pw_out w)"
  shows "\<exists>w'. pair_negotiate B opts w = (Ok (chosen, outcome), w') \<and> quiet (w\<lparr> pw_backend := b4 \<rparr>) w'"
proof -
  from assms(1) obtain info b1 candidates b3 t where n: "pb_adapter_info B (po_adapter opts) (pw_backend w) = (Ok info, b1)"
      "ai_supports_lesc info" "pb_scan_peers B (pb_install_os_confirm B (confirm_source_from_opts opts) b1) = (Ok candidates, b3)"
      "pick_unambiguous (filter_candidates candidates (po_peer opts)) (po_yes opts) = Ok chosen"
      "pb_initiate_lesc B chosen b3 = (t, Ok outcome, b4)" "t \<le> po_timeout_secs opts * 1000"
    unfolding negotiated_def by blast
  have c: "candidates \<noteq> []" using n(4) by (auto simp: filter_candidates_def pick_unambiguous_def split: option.splits)
  have pr: "\<exists>w1. pw_print l w0 = (Ok (), w1) \<and> pw_fs w1 = pw_fs w0 \<and> pw_backend w1 = pw_backend w0 \<and> con_ok (pw_out w1)"
    if "con_ok (pw_out w0)" for l and w0 :: "'a pair_world"
    using pw_print_runs [OF that, of l] by (auto simp: quiet_def)
  obtain w1 where w1: "pw_print (''adapter '' @ ai_name info @ '' ready (LE Secure Connections: '' @
      (if ai_supports_lesc info then ''yes'' else ''no'') @ '')'') (w\<lparr> pw_backend := b1 \<rparr>) = (Ok (), w1)"
      "pw_fs w1 = pw_fs w" "pw_backend w1 = b1" "con_ok (pw_out w1)"
    using pr [of "w\<lparr> pw_backend := b1 \<rparr>"] assms(2) by fastforce
  obtain w2 where w2: "pw_print (''selected '' @ pcd_name chosen @ '' ('' @ pcd_address chosen @ '')'') (w1\<lparr> pw_backend := b3 \<rparr>) = (Ok (), w2)"
      "pw_fs w2 = pw_fs w" "pw_backend w2 = b3" "con_ok (pw_out w2)"
    using pr [of "w1\<lparr> pw_backend := b3 \<rparr>"] w1 by fastforce
  obtain w3 where w3: "pw_print ''initiating LE Secure Connections...'' w2 = (Ok (), w3)"
      "pw_fs w3 = pw_fs w" "pw_backend w3 = b3" "con_ok (pw_out w3)"
    using pr [OF w2(4)] w2 by metis
  let ?l = "if lo_numeric_code outcome = NUMERIC_CODE_NOT_OBSERVED
      then ''BT numeric comparison confirmed (code not reported by the agent)''
      else ''BT numeric code: '' @ show_padded 6 (unat (lo_numeric_code outcome)) @ ''   confirm on both devices''"
  obtain w4 where w4: "pw_print ?l (w3\<lparr> pw_backend := b4 \<rparr>) = (Ok (), w4)"
      "pw_fs w4 = pw_fs w" "pw_backend w4 = b4" "con_ok (pw_out w4)"
    using pr [of "w3\<lparr> pw_backend := b4 \<rparr>" ?l] w3 by auto
  have lesc: "pair_lesc B opts chosen (w1\<lparr> pw_backend := b3 \<rparr>) = (Ok (chosen, outcome), w4)"
    unfolding pair_lesc_def and_then_def
    by (simp only: w2(1) w3(1,3) w4(1) pw_call_def n(5) lesc_within_def n(6) prod.case sum.case if_True)
  have "pair_negotiate B opts w = (Ok (chosen, outcome), w4)"
    unfolding pair_negotiate_def and_then_def pair_choose_def
    using n c w1 lesc by (simp add: pw_call_def del: append.simps append_assoc)
  then show ?thesis using w4 by (auto simp: quiet_def)
qed

lemma read_oob_prompted:
  assumes "con_ok (pw_out w)"
  shows "\<exists>w4 w5. quiet w w4 \<and> quiet w w5 \<and> read_oob_confirmation rl code auto w =
     (if auto then Some (Ok OobAccept, w5)
      else case rl (pw_backend w) of
            None \<Rightarrow> None
          | Some (Inl err, b) \<Rightarrow> Some (Err (PairIo err), w4\<lparr> pw_backend := b \<rparr>)
          | Some (Inr buf, b) \<Rightarrow> Some (Ok (parse_yes_no buf), w4\<lparr> pw_backend := b \<rparr>))"
proof -
  obtain w1 where w1: "pw_print ''app-level OOB code (must match the phone):'' w = (Ok (), w1)" "quiet w w1"
    using pw_print_runs [OF assms(1)] by blast
  obtain w2 where w2: "pw_print_all (map (\<lambda>word. ''  '' @ word) code) w1 = (Ok (), w2)" "quiet w1 w2"
    using pw_print_all_runs w1(2) unfolding quiet_def by blast
  obtain w3 where w3: "pw_write ''OOB matches your phone? [y/N]: '' w2 = (Ok (), w3)" "quiet w2 w3"
    using pw_write_runs w2(2) unfolding quiet_def by blast
  obtain w4 where w4: "pw_write [] w3 = (Ok (), w4)" "quiet w3 w4" using pw_write_runs w3(2) unfolding quiet_def by blast
  obtain w5 where w5: "pw_print ''y (--yes)'' w4 = (Ok (), w5)" "quiet w4 w5" using pw_print_runs w4(2) unfolding quiet_def by blast
  have "read_oob_confirmation rl code auto w =
     (if auto then Some (Ok OobAccept, w5)
      else case rl (pw_backend w) of
            None \<Rightarrow> None
          | Some (Inl err, b) \<Rightarrow> Some (Err (PairIo err), w4\<lparr> pw_backend := b \<rparr>)
          | Some (Inr buf, b) \<Rightarrow> Some (Ok (parse_yes_no buf), w4\<lparr> pw_backend := b \<rparr>))"
    using w1 w2 w3 w4 w5 unfolding read_oob_confirmation_def and_then_def quiet_def
    by (simp only: prod.case sum.case)
  moreover have "quiet w w4" "quiet w w5" using w1(2) w2(2) w3(2) w4(2) w5(2) by (auto simp: quiet_def)
  ultimately show ?thesis by blast
qed

lemma read_oob_runs:
  assumes "con_ok (pw_out w)" "auto \<or> (\<exists>buf b1. rl (pw_backend w) = Some (Ok buf, b1) \<and> parse_yes_no buf = OobAccept)"
  shows "\<exists>w1. read_oob_confirmation rl code auto w = Some (Ok OobAccept, w1) \<and> pw_fs w1 = pw_fs w \<and> con_ok (pw_out w1)"
  using read_oob_prompted [OF assms(1), of rl code auto] assms(2) by (auto simp: quiet_def)

lemma read_oob_answers:
  assumes "con_ok (pw_out w)" "rl (pw_backend w) = Some (Ok buf, b1)"
  shows "\<exists>w1. read_oob_confirmation rl code False w = Some (Ok (parse_yes_no buf), w1)"
  using read_oob_prompted [OF assms(1), of rl code False] assms(2) by auto

lemma pair_commit_runs:
  assumes "con_ok (pw_out w)" "bs_load L blake3 e (pw_fs w) (bonds_path (po_bond_dir opts)) = Ok store"
    "store_with_bond (po_force opts) (build_bond_with_time blake3 outcome chosen now) store = Ok (rep, store1)"
    "bs_save L e store1 (bonds_path (po_bond_dir opts)) (pw_fs w) = (Ok (), s1)"
    "write_pam_bond_key e (po_bond_dir opts) (peer_id_from_pubkey blake3 (lo_peer_pubkey outcome)) (lo_bond_key outcome) s1 = (Ok (), s2)"
  shows "\<exists>w'. pair_commit L blake3 e now opts chosen outcome w = (Ok Ph_Bonded, w') \<and> pw_fs w' = s2"
proof -
  let ?i = "peer_id_from_pubkey blake3 (lo_peer_pubkey outcome)"
  obtain w1 where w1: "(case rep of Some existing \<Rightarrow> pw_print (''replaced existing bond peer_id='' @ existing) | None \<Rightarrow> Pair (Ok ())) w = (Ok (), w1)"
      "quiet w w1"
  proof (cases rep)
    case None
    then show ?thesis using that [of w] assms(1) by (simp add: quiet_def)
  next
    case (Some x)
    then show ?thesis using that pw_print_runs [OF assms(1)] by auto
  qed
  obtain w2 where w2: "pw_print (''bonded '' @ pcd_name chosen @ '' id='' @ ?i @ ''; run `syauth list` to verify'') (w1\<lparr> pw_fs := s1, pw_fs := s2 \<rparr>) = (Ok (), w2)"
      "pw_fs w2 = s2"
    using pw_print_runs [of "w1\<lparr> pw_fs := s1, pw_fs := s2 \<rparr>"] w1(2) unfolding quiet_def by fastforce
  have i: "b_peer_id (build_bond_with_time blake3 outcome chosen now) = ?i" by (simp add: build_bond_with_time_def)
  have "pw_fs w1 = pw_fs w" using w1(2) by (simp add: quiet_def)
  then have "pair_commit L blake3 e now opts chosen outcome w = (Ok Ph_Bonded, w2)"
    unfolding pair_commit_def Let_def assms(2,3) sum.case prod.case and_then_def w1(1) i pw_files_def on_err_def
    using assms(4,5) w2(1) by simp
  then show ?thesis using w2(2) by blast
qed

lemma pair_completes:
  assumes "negotiated B opts (pw_backend w) chosen outcome b" "confirmed rl opts b" "con_ok (pw_out w)"
    "bs_load L blake3 e (pw_fs w) (bonds_path (po_bond_dir opts)) = Ok store"
    "store_with_bond (po_force opts) (build_bond_with_time blake3 outcome chosen now) store = Ok (rep, store1)"
    "bs_save L e store1 (bonds_path (po_bond_dir opts)) (pw_fs w) = (Ok (), s1)"
    "write_pam_bond_key e (po_bond_dir opts) (peer_id_from_pubkey blake3 (lo_peer_pubkey outcome)) (lo_bond_key outcome) s1 = (Ok (), s2)"
  shows "\<exists>w'. run_pair_with_io L blake3 hk e now opts B rl w = Some (Ok Ph_Bonded, w') \<and> pw_fs w' = s2"
proof -
  obtain w1 where w1: "pair_negotiate B opts w = (Ok (chosen, outcome), w1)" "pw_fs w1 = pw_fs w" "pw_backend w1 = b" "con_ok (pw_out w1)"
    using pair_negotiate_runs [OF assms(1,3)] by (auto simp: quiet_def)
  obtain w2 where w2: "(if po_scripted_oob opts \<noteq> None then pw_print (''warning: '' @ SCRIPTED_OOB_WARNING) w1 else (Ok (), w1)) = (Ok (), w2)"
      "pw_fs w2 = pw_fs w" "pw_backend w2 = b" "con_ok (pw_out w2)"
    by (cases "po_scripted_oob opts = None")
       (use pw_print_runs [OF w1(4), of "''warning: '' @ SCRIPTED_OOB_WARNING"] w1(2-4) in \<open>auto simp: quiet_def\<close>)
  obtain w3 where w3: "read_oob_confirmation rl (oob_code_for_bond hk (lo_bond_key outcome)) (po_yes opts \<or> po_scripted_oob opts \<noteq> None) w2 = Some (Ok OobAccept, w3)"
      "pw_fs w3 = pw_fs w" "con_ok (pw_out w3)"
    using read_oob_runs [OF w2(4), of "po_yes opts \<or> po_scripted_oob opts \<noteq> None" rl] assms(2) w2(2,3) by (auto simp: confirmed_def)
  have "\<exists>w'. pair_commit L blake3 e now opts chosen outcome w3 = (Ok Ph_Bonded, w') \<and> pw_fs w' = s2"
    by (rule pair_commit_runs [OF w3(3)]) (use assms(4-7) w3(2) in simp_all)
  then show ?thesis
    unfolding run_pair_with_io_def Let_def w1(1) prod.case sum.case w2(1) w3(1) option.case oob_confirmation.case by auto
qed

definition ex_pair_opts :: pair_opts where
  "ex_pair_opts = \<lparr> po_adapter = ''hci0'', po_peer = None, po_timeout_secs = 60, po_bond_dir = [''d''], po_yes = False,
     po_waybar = False, po_force = False, po_scripted_oob = None \<rparr>"

definition ex_outcome :: lesc_outcome where
  "ex_outcome = \<lparr> lo_peer_pubkey = ex_phone, lo_bond_key = replicate 32 1, lo_numeric_code = 123456 \<rparr>"

definition ex_candidate :: pair_candidate where
  "ex_candidate = \<lparr> pcd_name = PAIR_DEFAULT_BOND_NAME, pcd_address = ''a'' \<rparr>"

definition ex_pair_backend :: "string list pair_backend" where
  "ex_pair_backend = \<lparr> pb_adapter_info = (\<lambda>a b. (Ok \<lparr> ai_name = a, ai_supports_lesc = True \<rparr>, b)),
     pb_scan_peers = (\<lambda>b. (Ok [ex_candidate], b)), pb_initiate_lesc = (\<lambda>p b. (5, Ok ex_outcome, b)),
     pb_install_os_confirm = (\<lambda>src b. b) \<rparr>"

definition ex_read_line :: "string list read_line" where
  "ex_read_line b = (case b of [] \<Rightarrow> None | l # ls \<Rightarrow> Some (Ok l, ls))"

definition ex_pair_world :: "string list \<Rightarrow> string list pair_world" where
  "ex_pair_world input = \<lparr> pw_backend = input, pw_fs = ex_fs, pw_out = \<lparr> con_text = [], con_count = 0, con_fail = (\<lambda>_. None) \<rparr> \<rparr>"

lemma ex_negotiated: "negotiated ex_pair_backend ex_pair_opts b chosen outcome b4 \<longleftrightarrow> chosen = ex_candidate \<and> outcome = ex_outcome \<and> b4 = b"
  by (auto simp: negotiated_def ex_pair_backend_def ex_pair_opts_def filter_candidates_def pick_unambiguous_def)

abbreviation ex_pair_run :: "string list \<Rightarrow> ((pair_error + pairing_phase) \<times> string list pair_world) option" where
  "ex_pair_run input \<equiv> run_pair_with_io ex_toml2 (cr_blake3 ex_crypto) (cr_hkdf ex_crypto) ex_env 0 ex_pair_opts ex_pair_backend ex_read_line
     (ex_pair_world input)"

lemma ex_pair_commits:
  assumes "fs_nodes s [''d''] = Some (DirNode 448)" "fs_nodes s [''d'', ''bonds.toml''] = None" "fs_nodes s [''d'', ''tmp''] = None"
  shows "\<exists>s1. bs_save ex_toml2 ex_env \<lparr> bs_bonds = [build_bond_with_time (cr_blake3 ex_crypto) ex_outcome ex_candidate 0] \<rparr> [''d'', ''bonds.toml''] s = (Ok (), s1) \<and>
     fs_nodes s1 [''d''] = Some (DirNode 448) \<and> fs_nodes s1 [''d'', ''keys''] = fs_nodes s [''d'', ''keys'']"
  using assms
  by (simp add: bs_save_def parent_dir_of_def parent_def ensure_parent_dir_def metadata_def ex_env_def const_defs
      serialize_to_toml_def toml_to_string_def raw_of_bond_def build_bond_with_time_def ex_outcome_def ex_candidate_def
      ex_phone_id_def [symmetric] ex_toml2_def ex_pair_file_def replace_via_temp_def new_temp_def guarded_def temp_path_def
      set_temp_file_mode_def on_err_def set_permissions_def write_all_def sync_all_def rename_def)

lemma ex_key_written:
  assumes "fs_nodes s [''d''] = Some (DirNode 448)" "fs_nodes s [''d'', ''keys''] = None" "fs_nodes s [''d'', ''keys'', i @ ''.bin''] = None"
  shows "\<exists>s2. write_pam_bond_key ex_env [''d''] i k s = (Ok (), s2)"
proof -
  have a: "ancestors [''d'', ''keys''] = [[''d''], [''d'', ''keys'']]" by code_simp
  show ?thesis using assms
    by (simp add: write_pam_bond_key_def create_dir_all_def guarded_def a set_permissions_def write_file_def write_all_def
        parent_def ex_env_def Let_def pam_bond_key_path_def const_defs on_err_def)
qed

lemma ex_pair_runs: "\<exists>w'. ex_pair_run [''y'' @ [NL]] = Some (Ok Ph_Bonded, w')"
proof -
  let ?b = "build_bond_with_time (cr_blake3 ex_crypto) ex_outcome ex_candidate 0"
  have d: "po_bond_dir ex_pair_opts = [''d'']" "po_force ex_pair_opts = False" by (simp_all add: ex_pair_opts_def)
  have p: "bonds_path [''d''] = [''d''] @ [''bonds.toml'']" by (simp add: bonds_path_def const_defs)
  obtain s1 where s1: "bs_save ex_toml2 ex_env \<lparr> bs_bonds = [?b] \<rparr> ([''d''] @ [''bonds.toml'']) ex_fs = (Ok (), s1)"
      and n2: "fs_nodes s1 [''d''] = Some (DirNode 448)" "fs_nodes s1 [''d'', ''keys''] = None"
    using ex_pair_commits [of ex_fs] by (auto simp: ex_fs_def)
  have n1: "fs_nodes s1 [''d'', ''keys'', i @ ''.bin''] = None" for i
    using bs_save_frame [OF s1, of "[''d'', ''keys'', i @ ''.bin'']"] by (simp add: ex_env_def ex_fs_def)
  obtain s2 where s2: "write_pam_bond_key ex_env [''d''] (peer_id_from_pubkey (cr_blake3 ex_crypto) (lo_peer_pubkey ex_outcome))
      (lo_bond_key ex_outcome) s1 = (Ok (), s2)"
    using ex_key_written [OF n2 n1] by blast
  have yes: "parse_yes_no (''y'' @ [NL]) = OobAccept" by code_simp
  have "\<exists>w'. ex_pair_run [''y'' @ [NL]] = Some (Ok Ph_Bonded, w') \<and> pw_fs w' = s2"
  proof (rule pair_completes)
    show "negotiated ex_pair_backend ex_pair_opts (pw_backend (ex_pair_world [''y'' @ [NL]])) ex_candidate ex_outcome [''y'' @ [NL]]"
      by (simp add: ex_negotiated ex_pair_world_def)
    show "confirmed ex_read_line ex_pair_opts [''y'' @ [NL]]" using yes by (simp add: confirmed_def ex_read_line_def)
    show "con_ok (pw_out (ex_pair_world [''y'' @ [NL]]))" by (simp add: con_ok_def ex_pair_world_def)
    show "bs_load ex_toml2 (cr_blake3 ex_crypto) ex_env (pw_fs (ex_pair_world [''y'' @ [NL]])) (bonds_path (po_bond_dir ex_pair_opts)) = Ok \<lparr> bs_bonds = [] \<rparr>"
      unfolding d p by (simp add: bs_load_def read_to_string_def read_file_def ex_env_def ex_pair_world_def ex_fs_def)
    show "store_with_bond (po_force ex_pair_opts) ?b \<lparr> bs_bonds = [] \<rparr> = Ok (None, \<lparr> bs_bonds = [?b] \<rparr>)"
      by (simp add: store_with_bond_def bs_add_def find_index_def)
    show "bs_save ex_toml2 ex_env \<lparr> bs_bonds = [?b] \<rparr> (bonds_path (po_bond_dir ex_pair_opts)) (pw_fs (ex_pair_world [''y'' @ [NL]])) = (Ok (), s1)"
      unfolding d p using s1 by (simp add: ex_pair_world_def)
    show "write_pam_bond_key ex_env (po_bond_dir ex_pair_opts) (peer_id_from_pubkey (cr_blake3 ex_crypto) (lo_peer_pubkey ex_outcome))
      (lo_bond_key ex_outcome) s1 = (Ok (), s2)" unfolding d by (rule s2)
  qed
  then show ?thesis by blast
qed

theorem pair_needs_confirmation_witness:
  "\<exists>w'. ex_pair_run [''n'' @ [NL]] = Some (Err (PairRevoked Rr_OperatorReject), w') \<and> pw_fs w' = ex_fs"
proof -
  let ?w = "ex_pair_world [''n'' @ [NL]]"
  obtain w1 where w1: "pair_negotiate ex_pair_backend ex_pair_opts ?w = (Ok (ex_candidate, ex_outcome), w1)" "pw_backend w1 = [''n'' @ [NL]]" "con_ok (pw_out w1)"
    using pair_negotiate_runs [of ex_pair_backend ex_pair_opts ?w ex_candidate ex_outcome "[''n'' @ [NL]]"]
    by (auto simp: ex_negotiated quiet_def con_ok_def ex_pair_world_def)
  have no: "parse_yes_no (''n'' @ [NL]) = OobReject" by code_simp
  obtain w3 where "ex_pair_run [''n'' @ [NL]] = Some (Err (PairRevoked Rr_OperatorReject), w3)"
    using read_oob_answers [OF w1(3), of ex_read_line "''n'' @ [NL]" "[]" "oob_code_for_bond (cr_hkdf ex_crypto) (lo_bond_key ex_outcome)"] w1(1,2) no
    by (auto simp: run_pair_with_io_def ex_pair_opts_def ex_read_line_def)
  then show ?thesis using pair_needs_confirmation by (fastforce simp: ex_pair_world_def)
qed

lemma ex_pair_facts:
  "\<forall>chosen outcome b4. negotiated ex_pair_backend ex_pair_opts b chosen outcome b4 \<longrightarrow> length (lo_peer_pubkey outcome) = 32"
  "\<forall>chosen outcome b4. negotiated ex_pair_backend ex_pair_opts b chosen outcome b4 \<longrightarrow>
     length (lo_peer_pubkey outcome) = 32 \<and> length (lo_bond_key outcome) = 32"
  by (simp_all add: ex_negotiated ex_outcome_def ex_phone_def)

theorem pair_success_persists_witness:
  "\<exists>w' store. ex_pair_run [''y'' @ [NL]] = Some (Ok Ph_Bonded, w') \<and>
     bs_load ex_toml2 (cr_blake3 ex_crypto) ex_env (pw_fs w') [''d'', ''bonds.toml''] = Ok store \<and>
     build_bond_with_time (cr_blake3 ex_crypto) ex_outcome ex_candidate 0 \<in> set (bs_list store)"
proof -
  obtain w' where r: "ex_pair_run [''y'' @ [NL]] = Some (Ok Ph_Bonded, w')" using ex_pair_runs by blast
  have p: "bonds_path (po_bond_dir ex_pair_opts) = [''d'', ''bonds.toml'']" by (simp add: bonds_path_def ex_pair_opts_def const_defs)
  have t: "BONDS_FILE_NAME \<noteq> sys_temp ex_env" by (simp add: const_defs ex_env_def)
  have f: "sys_fail ex_env (OpRead (bonds_path (po_bond_dir ex_pair_opts))) = None" by (simp add: ex_env_def)
  from pair_success_persists [OF r ex_toml2_ok t f ex_pair_facts(1)]
  show ?thesis using r unfolding p ex_negotiated by (elim conjE exE) (intro exI [of _ w'], auto)
qed

definition ex_paired :: fs where
  "ex_paired = pw_fs (snd (the (ex_pair_run [''y'' @ [NL]])))"

theorem pair_then_reload_live_witness:
  "\<exists>pe. bt_get (o_peers (run_reload (persistent_ops (cr_hkdf ex_crypto)) ex_crypto ex_toml2 ex_env (\<lambda>x. x) 5 Rt_Inotify
       ((ex_porch ''zz'')\<lparr> o_fs := ex_paired, o_bonds_file := [''d'', ''bonds.toml''], o_keys_dir := [''d'', ''keys''] \<rparr>))) ex_phone_id = Some pe \<and>
     pe_bond_key pe = replicate 32 1 \<and> pe_phone_pubkey pe = Some ex_phone"
proof -
  let ?os = "(ex_porch ''zz'')\<lparr> o_fs := ex_paired, o_bonds_file := [''d'', ''bonds.toml''], o_keys_dir := [''d'', ''keys''] \<rparr>"
  obtain w' where r: "ex_pair_run [''y'' @ [NL]] = Some (Ok Ph_Bonded, w')" using ex_pair_runs by blast
  have t: "BONDS_FILE_NAME \<noteq> sys_temp ex_env" by (simp add: const_defs ex_env_def)
  have f: "\<forall>p. sys_fail ex_env (OpRead p) = None" by (simp add: ex_env_def)
  have os: "live_synced (\<lambda>p. dom (pp_peers p)) ?os" "rd_serve (pp_radio (o_periph ?os)) = []"
    using ex_porch_synced [of "''zz''"]
    by (simp_all add: live_synced_def orch_invar_def) (simp add: ex_porch_def ex_persistent_def ex_radio_def)
  have sh: "\<forall>xs. set ((\<lambda>x. x) xs) = set xs \<and> (distinct xs \<longrightarrow> distinct ((\<lambda>x. x) xs))" by simp
  have "ex_paired = pw_fs w'" using r unfolding ex_paired_def by simp
  then have eq: "o_fs ?os = pw_fs w'" "o_bonds_file ?os = bonds_path (po_bond_dir ex_pair_opts)"
      "o_keys_dir ?os = po_bond_dir ex_pair_opts @ [PAM_BOND_KEY_DIR_NAME]"
    by (simp_all add: bonds_path_def ex_pair_opts_def const_defs)
  have "length (peer_id_from_pubkey (cr_blake3 ex_crypto) ex_phone) = 32"
    by (simp add: peer_id_from_pubkey_def const_defs length_slice ex_crypto_def ex_phone_def)
  then have new: "\<forall>chosen outcome b. negotiated ex_pair_backend ex_pair_opts b0 chosen outcome b \<longrightarrow>
      bt_get (o_peers ?os) (peer_id_from_pubkey (cr_blake3 ex_crypto) (lo_peer_pubkey outcome)) = None" for b0
    by (auto simp: ex_negotiated ex_outcome_def ex_porch_def bt_get_def)
  from pair_then_reload_live [OF r ex_toml2_ok t f ex_pair_facts(2) os sh eq new, of "cr_hkdf ex_crypto" 5 Rt_Inotify]
  show ?thesis unfolding ex_negotiated by (auto simp: ex_outcome_def ex_phone_id_def)
qed

text \<open>
  At the end of standard input the prompt for the words blocks for ever: the
  queue is never closed, so the run does not return.
\<close>

theorem pair_hangs_at_end_of_input:
  assumes "negotiated B opts (pw_backend w) chosen outcome b" "\<not> po_yes opts" "po_scripted_oob opts = None" "con_ok (pw_out w)"
    and "rl b = None"
  shows "run_pair_with_io L blake3 hk e now opts B rl w = None"
proof -
  obtain w1 where w1: "pair_negotiate B opts w = (Ok (chosen, outcome), w1)" "pw_backend w1 = b" "con_ok (pw_out w1)"
    using pair_negotiate_runs [OF assms(1,4)] by (auto simp: quiet_def)
  show ?thesis
    using read_oob_prompted [OF w1(3), of rl "oob_code_for_bond hk (lo_bond_key outcome)" False] w1(1,2) assms(2,3,5)
    by (auto simp: run_pair_with_io_def)
qed

section \<open>What the flow needs of a radio\<close>

text \<open>
  The fixed array lengths of \<open>LescOutcome\<close> as a contract: a property of the backend's
  state that its calls keep and under which a negotiation gives keys of 32 bytes.
\<close>

locale pair_radio =
  fixes B :: "'b pair_backend" and typed :: "'b \<Rightarrow> bool"
  assumes info_typed: "typed b \<Longrightarrow> pb_adapter_info B a b = (r, b1) \<Longrightarrow> typed b1"
    and install_typed: "typed b \<Longrightarrow> typed (pb_install_os_confirm B src b)"
    and scan_typed: "typed b \<Longrightarrow> pb_scan_peers B b = (r2, b1) \<Longrightarrow> typed b1"
    and lesc_typed: "typed b \<Longrightarrow> pb_initiate_lesc B c b = (t, Ok out, b1) \<Longrightarrow>
           length (lo_peer_pubkey out) = 32 \<and> length (lo_bond_key out) = 32"
begin

lemma negotiated_typed:
  assumes "typed b" "negotiated B opts b chosen outcome b4"
  shows "length (lo_peer_pubkey outcome) = 32 \<and> length (lo_bond_key outcome) = 32"
proof -
  from assms(2) obtain info b1 candidates b3 t where n: "pb_adapter_info B (po_adapter opts) b = (Ok info, b1)"
      "pb_scan_peers B (pb_install_os_confirm B (confirm_source_from_opts opts) b1) = (Ok candidates, b3)"
      "pb_initiate_lesc B chosen b3 = (t, Ok outcome, b4)"
    unfolding negotiated_def by blast
  show ?thesis by (rule lesc_typed [OF scan_typed [OF install_typed [OF info_typed [OF assms(1) n(1)]] n(2)] n(3)])
qed

lemma typed_persists:
  assumes "run_pair_with_io L blake3 hk e now opts B rl w = Some (Ok ph, w')" "typed (pw_backend w)"
    and "toml_lib_ok L" "BONDS_FILE_NAME \<noteq> sys_temp e" "sys_fail e' (OpRead (bonds_path (po_bond_dir opts))) = None"
  obtains chosen outcome b store where "negotiated B opts (pw_backend w) chosen outcome b" "confirmed rl opts b"
    "bs_load L blake3 e' (pw_fs w') (bonds_path (po_bond_dir opts)) = Ok store"
    "build_bond_with_time blake3 outcome chosen now \<in> set (bs_list store)"
    "fs_nodes (pw_fs w') (pam_bond_key_path (po_bond_dir opts) (peer_id_from_pubkey blake3 (lo_peer_pubkey outcome))) =
       Some (FileNode (lo_bond_key outcome) PAM_BOND_KEY_FILE_MODE)"
proof -
  have l: "\<And>chosen outcome b. negotiated B opts (pw_backend w) chosen outcome b \<Longrightarrow> length (lo_peer_pubkey outcome) = 32"
    using negotiated_typed [OF assms(2)] by blast
  show thesis
    by (rule pair_persists [OF assms(1,3-5)], erule l) (rule that, blast+)
qed

end

end
