(* ===== verification/StoreCommands.thy ===== *)
theory StoreCommands
  imports Pair
begin

text \<open>
  The commands that read and change the bonds file: \<open>syauth-cli/src/list.rs\<close> and
  \<open>revoke.rs\<close>.
\<close>

section \<open>Listing\<close>

definition render_status :: "bond_status \<Rightarrow> string" where
  "render_status stat = (case stat of Bonded \<Rightarrow> ''bonded'' | Revoked reason \<Rightarrow> ''revoked:'' @ reason)"

definition render_row :: "toml_lib \<Rightarrow> bond \<Rightarrow> string" where
  "render_row L b =
     (let at = (case rfc_format L (b_created_at b) of Some t \<Rightarrow> t | None \<Rightarrow> ''?''); sep = [LIST_FIELD_SEP] in
      b_peer_id b @ sep @ b_name b @ sep @ render_status (b_status b) @ sep @ at)"

definition render_list_to :: "toml_lib \<Rightarrow> bond_store \<Rightarrow> console \<Rightarrow> (pair_error + unit) \<times> console" where
  "render_list_to L store c =
     (let bonds = bs_list store in
      on_err PairIo (if bonds = [] then write_line LIST_EMPTY_HINT c else write_lines (map (render_row L) bonds) c))"

definition run_list :: "toml_lib \<Rightarrow> (bytes \<Rightarrow> bytes) \<Rightarrow> sys_env \<Rightarrow> path \<Rightarrow> fs \<Rightarrow> console \<Rightarrow> (pair_error + unit) \<times> console" where
  "run_list L blake3 e bond_dir s c =
     (case bs_load L blake3 e s (bonds_path bond_dir) of
        Inl err \<Rightarrow> (Err (PairBond err), c)
      | Inr store \<Rightarrow> render_list_to L store c)"

section \<open>Revoking\<close>

definition DEFAULT_REVOKE_REASON :: string where [const_defs]: "DEFAULT_REVOKE_REASON = ''manual: syauth revoke''"

record revoke_opts =
  ro_id :: string
  ro_bond_dir :: path
  ro_reason :: string

datatype revoke_error = Rv_UnknownId string | Rv_Bond bond_error | Rv_Io io_error

datatype revoke_outcome = Rv_Revoked string string | Rv_AlreadyRevoked string string

fun lookup_loop :: "string \<Rightarrow> bond list \<Rightarrow> revoke_error + bond_status" where
  "lookup_loop i [] = Err (Rv_UnknownId i)"
| "lookup_loop i (b # bs) = (if b_peer_id b = i then Ok (b_status b) else lookup_loop i bs)"

definition lookup_status :: "bond_store \<Rightarrow> string \<Rightarrow> revoke_error + bond_status" where
  "lookup_status store i = lookup_loop i (bs_list store)"

definition apply_revoke :: "bond_store \<Rightarrow> string \<Rightarrow> string \<Rightarrow> (revoke_error + revoke_outcome) \<times> bond_store" where
  "apply_revoke store i reason =
     (case lookup_status store i of
        Inl err \<Rightarrow> (Err err, store)
      | Inr (Revoked existing) \<Rightarrow> (Ok (Rv_AlreadyRevoked i existing), store)
      | Inr Bonded \<Rightarrow>
          (case mark_revoked store i reason of
             (Inl err, store1) \<Rightarrow> (Err (Rv_Bond err), store1)
           | (Inr _, store1) \<Rightarrow> (Ok (Rv_Revoked i reason), store1)))"

definition render_outcome_to :: "revoke_outcome \<Rightarrow> console \<Rightarrow> (revoke_error + unit) \<times> console" where
  "render_outcome_to outcome c =
     on_err Rv_Io (case outcome of
        Rv_Revoked i reason \<Rightarrow> write_line (''revoked bond '' @ i @ '': '' @ reason) c
      | Rv_AlreadyRevoked i existing \<Rightarrow> write_line (''bond '' @ i @ '' already revoked: '' @ existing) c)"

definition run_revoke ::
    "toml_lib \<Rightarrow> (bytes \<Rightarrow> bytes) \<Rightarrow> sys_env \<Rightarrow> revoke_opts \<Rightarrow> fs \<times> console \<Rightarrow> (revoke_error + unit) \<times> fs \<times> console" where
  "run_revoke L blake3 e opts w =
     (case w of (s, c) \<Rightarrow>
      let p = bonds_path (ro_bond_dir opts) in
      case bs_load L blake3 e s p of
        Inl err \<Rightarrow> (Err (Rv_Bond err), s, c)
      | Inr store \<Rightarrow>
          (case apply_revoke store (ro_id opts) (ro_reason opts) of
             (Inl err, _) \<Rightarrow> (Err err, s, c)
           | (Inr outcome, store1) \<Rightarrow>
               (case (case outcome of Rv_Revoked _ _ \<Rightarrow> on_err Rv_Bond (bs_save L e store1 p s) | Rv_AlreadyRevoked _ _ \<Rightarrow> (Ok (), s)) of
                  (Inl err, s1) \<Rightarrow> (Err err, s1, c)
                | (Inr _, s1) \<Rightarrow> (case render_outcome_to outcome c of (r, c1) \<Rightarrow> (r, s1, c1)))))"

section \<open>Lemmas\<close>

lemma lookup_loop_find: "lookup_loop i bs = (case find (\<lambda>b. b_peer_id b = i) bs of None \<Rightarrow> Err (Rv_UnknownId i) | Some b \<Rightarrow> Ok (b_status b))"
  by (induction bs) auto

lemma find_bs_map: "find (\<lambda>b. b_peer_id b = i) bs = map_of (map (\<lambda>b. (b_peer_id b, b)) bs) i"
  by (induction bs) auto

text \<open>Over the store read as a map: the status looked up is the one of the map.\<close>

lemma lookup_status_map:
  "lookup_status st i = (case bs_map st i of None \<Rightarrow> Err (Rv_UnknownId i) | Some b \<Rightarrow> Ok (b_status b))"
  by (simp add: lookup_status_def bs_list_def lookup_loop_find find_bs_map bs_map_def)

lemma mark_revoked_wf:
  assumes "mark_revoked st i reason = (r, st')" "\<forall>b \<in> set (bs_bonds st). bond_wf blake3 b"
  shows "\<forall>b \<in> set (bs_bonds st'). bond_wf blake3 b"
  using assms
  by (auto simp: mark_revoked_def Let_def find_index_def bond_wf_def split: option.splits if_splits
      dest!: position_Some set_update_subset_insert [THEN subsetD])

lemma bs_load_env: "sys_fail e (OpRead p) = sys_fail e' (OpRead p) \<Longrightarrow> bs_load L blake3 e s p = bs_load L blake3 e' s p"
proof -
  assume "sys_fail e (OpRead p) = sys_fail e' (OpRead p)"
  then have "read_file e s p = read_file e' s p" by (simp add: read_file_def)
  then show ?thesis unfolding bs_load_def read_to_string_def by simp
qed

lemma run_revoke_Ok:
  assumes "run_revoke L blake3 e opts (s, c) = (Ok (), s', c')" "bs_load L blake3 e s (bonds_path (ro_bond_dir opts)) = Ok old"
    and "distinct (map b_peer_id (bs_list old))" "toml_lib_ok L" "BONDS_FILE_NAME \<noteq> sys_temp e"
    and "sys_fail e (OpRead (bonds_path (ro_bond_dir opts))) = None" "sys_fail e' (OpRead (bonds_path (ro_bond_dir opts))) = None"
  obtains b st where "bs_map old (ro_id opts) = Some b" "bs_load L blake3 e' s' (bonds_path (ro_bond_dir opts)) = Ok st"
    "distinct (map b_peer_id (bs_list st))" "is_revoked b \<Longrightarrow> s' = s"
    "bs_map st = (if is_revoked b then bs_map old else (bs_map old)(ro_id opts \<mapsto> b\<lparr> b_status := Revoked (ro_reason opts) \<rparr>))"
proof -
  let ?p = "bonds_path (ro_bond_dir opts)" and ?i = "ro_id opts"
  obtain b where b: "bs_map old ?i = Some b"
    using assms(1,2) by (cases "bs_map old ?i") (auto simp: run_revoke_def Let_def apply_revoke_def lookup_status_map)
  show thesis
  proof (cases "b_status b")
    case (Revoked reason)
    then have "is_revoked b" by (simp add: is_revoked_def)
    moreover have "s' = s" using assms(1,2) b Revoked
      by (auto simp: run_revoke_def Let_def apply_revoke_def lookup_status_map split: prod.splits)
    moreover have "bs_load L blake3 e' s ?p = Ok old" using bs_load_env [of e ?p e' L blake3 s] assms(2,6,7) by simp
    ultimately show thesis using that [OF b] assms(3) by simp
  next
    case Bonded
    obtain r st where m: "mark_revoked old ?i (ro_reason opts) = (r, st)" by fastforce
    have d: "distinct (map b_peer_id (bs_bonds old))" using assms(3) by (simp add: bs_list_def)
    note mm = mark_revoked_map(1) [OF d m b]
    have sv: "bs_save L e st ?p s = (Ok (), s')"
      using assms(1,2) b Bonded m mm
      by (auto simp: run_revoke_def Let_def apply_revoke_def lookup_status_map on_err_Pair split: prod.splits sum.splits)
    have "bs_load L blake3 e' s' ?p = Ok st"
      using bs_save_then_load [OF assms(4) mark_revoked_wf [OF m] sv _ assms(7)] bs_load_wf [OF assms(2)] assms(5)
      by (simp add: bonds_path_def temp_path_def)
    moreover have "distinct (map b_peer_id (bs_list st))" using mark_revoked_ids [OF m] d by (simp add: bs_list_def)
    moreover have "\<not> is_revoked b" using Bonded by (simp add: is_revoked_def)
    ultimately show thesis using that [OF b, of st] mm by simp
  qed
qed

section \<open>Properties\<close>

text \<open>
  C32: A revoked phone is locked out.  After the revoke command has succeeded and
  the daemon has reloaded the same bonds file, every challenge for the revoked
  identifier is refused as an unknown peer, whether the bond was revoked now or
  before.
\<close>

theorem revoke_locks_out:
  assumes "run_revoke L (cr_blake3 C) e opts (s, c) = (Ok (), s', c')"
    and "bs_load L (cr_blake3 C) e s (bonds_path (ro_bond_dir opts)) = Ok old" "distinct (map b_peer_id (bs_list old))"
    and "toml_lib_ok L" "BONDS_FILE_NAME \<noteq> sys_temp e"
    and "\<forall>p. sys_fail e (OpRead p) = None" "\<forall>p. sys_fail e' (OpRead p) = None"
    and "live_synced (\<lambda>p. dom (pp_peers p)) os" "\<forall>xs. set (sh xs) = set xs"
    and "o_fs os = s'" "o_bonds_file os = bonds_path (ro_bond_dir opts)"
  shows "fst (issue_challenge (persistent_ops hk) C e'' ce (ro_id opts) d
           (run_reload (persistent_ops hk) C L e' sh now t os)) = Co_UnknownPeer"
proof -
  obtain b st where r: "bs_map old (ro_id opts) = Some b" "bs_load L (cr_blake3 C) e' s' (bonds_path (ro_bond_dir opts)) = Ok st"
      "distinct (map b_peer_id (bs_list st))"
      "bs_map st = (if is_revoked b then bs_map old else (bs_map old)(ro_id opts \<mapsto> b\<lparr> b_status := Revoked (ro_reason opts) \<rparr>))"
    by (rule run_revoke_Ok [OF assms(1-5) assms(6,7) [rule_format]])
  have "is_revoked x" if "x \<in> set (bs_list st)" "b_peer_id x = ro_id opts" for x
  proof -
    have "bs_map st (ro_id opts) = Some x"
      using that r(3) unfolding bs_map_def bs_list_def by (intro map_of_is_SomeI) (auto simp: comp_def image_iff)
    then show ?thesis using r(1,4) by (auto simp: is_revoked_def split: if_splits)
  qed
  then show ?thesis
    by (intro reload_refuses [OF assms(8,9) _ _ refl]) (use r(2) assms(10,11) in auto)
qed

text \<open>
  Revoking twice is the same as revoking once.  A second revocation of the
  same peer, whatever reason it names, leaves every file as it is and reports
  the reason recorded first.
\<close>

theorem revoke_idempotent:
  assumes "run_revoke L blake3 e opts (s, c) = (Ok (), s', c')"
    and "bs_load L blake3 e s (bonds_path (ro_bond_dir opts)) = Ok old" "distinct (map b_peer_id (bs_list old))"
    and "toml_lib_ok L" "BONDS_FILE_NAME \<noteq> sys_temp e"
    and "\<forall>p. sys_fail e (OpRead p) = None" "con_ok c2"
  shows "\<exists>reason c3. run_revoke L blake3 e (opts\<lparr> ro_reason := reason2 \<rparr>) (s', c2) = (Ok (), s', c3) \<and>
           con_text c3 = con_text c2 @ ''bond '' @ ro_id opts @ '' already revoked: '' @ reason @ [NL] \<and>
           (\<exists>b. bs_map old (ro_id opts) = Some b \<and> (b_status b = Revoked reason \<or> b_status b = Bonded \<and> reason = ro_reason opts))"
proof -
  obtain b st where r: "bs_map old (ro_id opts) = Some b" "bs_load L blake3 e s' (bonds_path (ro_bond_dir opts)) = Ok st"
      "bs_map st = (if is_revoked b then bs_map old else (bs_map old)(ro_id opts \<mapsto> b\<lparr> b_status := Revoked (ro_reason opts) \<rparr>))"
    by (rule run_revoke_Ok [OF assms(1-5) assms(6) [rule_format] assms(6) [rule_format]])
  obtain reason where re: "b_status b = Revoked reason \<or> b_status b = Bonded \<and> reason = ro_reason opts"
    by (cases "b_status b") auto
  then have look: "lookup_status st (ro_id opts) = Ok (Revoked reason)"
    using r(1,3) by (auto simp: lookup_status_map is_revoked_def)
  obtain c3 where c3: "write_line (''bond '' @ ro_id opts @ '' already revoked: '' @ reason) c2 = (Ok (), c3)"
      "con_text c3 = con_text c2 @ (''bond '' @ ro_id opts @ '' already revoked: '' @ reason) @ [NL]"
    using write_line_ok [OF assms(7)] by blast
  have "run_revoke L blake3 e (opts\<lparr> ro_reason := reason2 \<rparr>) (s', c2) = (Ok (), s', c3)"
    using r(2) look c3(1) by (simp add: run_revoke_def Let_def apply_revoke_def render_outcome_to_def on_err_def)
  then show ?thesis using c3(2) r(1) re by auto
qed

text \<open>
  The listing shows the store.  A listing of a loadable bonds file prints one
  line per bond, in the order of the file, with identifier, name, status and time
  of creation, or the hint when there is none.
\<close>

theorem list_shows_store:
  assumes "bs_load L blake3 e s (bonds_path bond_dir) = Ok store" "con_ok c"
  shows "\<exists>c'. run_list L blake3 e bond_dir s c = (Ok (), c') \<and>
           con_text c' = con_text c @
             (if bs_list store = [] then LIST_EMPTY_HINT @ [NL]
              else concat (map (\<lambda>b. render_row L b @ [NL]) (bs_list store)))"
proof (cases "bs_list store = []")
  case True
  obtain c' where "write_line LIST_EMPTY_HINT c = (Ok (), c')" "con_text c' = con_text c @ LIST_EMPTY_HINT @ [NL]"
    by (rule write_line_ok [OF assms(2)])
  then show ?thesis using assms(1) True by (simp add: run_list_def render_list_to_def Let_def on_err_def)
next
  case False
  obtain c' where "write_lines (map (render_row L) (bs_list store)) c = (Ok (), c')"
      "con_text c' = con_text c @ concat (map (\<lambda>t. t @ [NL]) (map (render_row L) (bs_list store)))"
    by (rule write_lines_ok [OF assms(2)])
  then show ?thesis using assms(1) False by (simp add: run_list_def render_list_to_def Let_def on_err_def comp_def)
qed

subsection \<open>Examples\<close>

definition ex_revoked_file :: raw_file where
  "ex_revoked_file = \<lparr> rf_schema_version = 1, rf_bonds = Some
     [\<lparr> rb_peer_id = ex_phone_id, rb_pubkey = hex_lowercase ex_phone, rb_name = PAIR_DEFAULT_BOND_NAME, rb_created_at = ''t'',
        rb_kind = ''Revoked'', rb_reason = Some ''lost'' \<rparr>] \<rparr>"

definition ex_toml3 :: toml_lib where
  "ex_toml3 = \<lparr> toml_from = (\<lambda>t. if t = ''v'' then Some ex_pair_file else if t = ''r'' then Some ex_revoked_file else None),
     toml_to = (\<lambda>rf. if rf = ex_pair_file then Some ''v'' else if rf = ex_revoked_file then Some ''r'' else None),
     rfc_format = (\<lambda>i. if i = 0 then Some ''t'' else None), rfc_parse = (\<lambda>t. if t = ''t'' then Some 0 else None) \<rparr>"

definition ex_bonds_fs :: fs where
  "ex_bonds_fs = \<lparr> fs_nodes = [[''d''] \<mapsto> DirNode 448, [''d'', ''bonds.toml''] \<mapsto> FileNode (str_bytes ''v'') 384], fs_past = [] \<rparr>"

definition ex_phone_bond :: bond where
  "ex_phone_bond = \<lparr> b_peer_id = ex_phone_id, b_pubkey = ex_phone, b_name = PAIR_DEFAULT_BOND_NAME, b_created_at = 0, b_status = Bonded \<rparr>"

definition ex_revoke_opts :: revoke_opts where
  "ex_revoke_opts = \<lparr> ro_id = ex_phone_id, ro_bond_dir = [''d''], ro_reason = ''lost'' \<rparr>"

definition ex_console :: console where
  "ex_console = \<lparr> con_text = [], con_count = 0, con_fail = (\<lambda>_. None) \<rparr>"

lemma ex_toml3_ok: "toml_lib_ok ex_toml3"
  by (auto simp: toml_lib_ok_def ex_toml3_def ex_pair_file_def ex_revoked_file_def utf8_valid_ascii str_bytes_def byte_of_char_def
      split: if_splits)

lemma ex_bonds_load: "bs_load ex_toml3 (cr_blake3 ex_crypto) ex_env ex_bonds_fs [''d'', ''bonds.toml''] = Ok \<lparr> bs_bonds = [ex_phone_bond] \<rparr>"
proof -
  have "from_utf8 (str_bytes ''v'') = Some ''v''" by code_simp
  moreover have "length ex_phone = PUBKEY_LEN" by (simp add: ex_phone_def PUBKEY_LEN_def)
  ultimately show ?thesis
    by (simp add: bs_load_def read_to_string_def read_file_def ex_env_def ex_bonds_fs_def ex_toml3_def toml_from_str_def
        ex_pair_file_def bond_of_raw_def hex_pubkey_roundtrip status_of_raw_def const_defs ex_phone_bond_def ex_phone_id_def)
qed

lemma ex_revoke_runs:
  "\<exists>s' c'. run_revoke ex_toml3 (cr_blake3 ex_crypto) ex_env ex_revoke_opts (ex_bonds_fs, ex_console) = (Ok (), s', c')"
proof -
  let ?st = "\<lparr> bs_bonds = [ex_phone_bond\<lparr> b_status := Revoked ''lost'' \<rparr>] \<rparr>"
  have m: "apply_revoke \<lparr> bs_bonds = [ex_phone_bond] \<rparr> ex_phone_id ''lost'' = (Ok (Rv_Revoked ex_phone_id ''lost''), ?st)"
    by (simp add: apply_revoke_def lookup_status_def bs_list_def mark_revoked_def find_index_def ex_phone_bond_def is_revoked_def)
  have "\<exists>s1. bs_save ex_toml3 ex_env ?st [''d'', ''bonds.toml''] ex_bonds_fs = (Ok (), s1)"
    by (simp add: bs_save_def parent_dir_of_def parent_def ensure_parent_dir_def metadata_def ex_env_def ex_bonds_fs_def const_defs
        serialize_to_toml_def toml_to_string_def raw_of_bond_def ex_phone_bond_def ex_toml3_def ex_pair_file_def ex_revoked_file_def
        replace_via_temp_def new_temp_def guarded_def temp_path_def set_temp_file_mode_def on_err_def set_permissions_def
        write_all_def sync_all_def rename_def)
  moreover have "bonds_path [''d''] = [''d'', ''bonds.toml'']" by (simp add: bonds_path_def const_defs)
  ultimately show ?thesis
    using ex_bonds_load m
    by (auto simp: run_revoke_def ex_revoke_opts_def Let_def on_err_def render_outcome_to_def write_line_def write_str_def ex_console_def)
qed

lemma ex_revoke_env: "BONDS_FILE_NAME \<noteq> sys_temp ex_env" "\<forall>p. sys_fail ex_env (OpRead p) = None"
  "bonds_path (ro_bond_dir ex_revoke_opts) = [''d'', ''bonds.toml'']" "ro_id ex_revoke_opts = ex_phone_id"
  "distinct (map b_peer_id (bs_list \<lparr> bs_bonds = [ex_phone_bond] \<rparr>))"
  by (simp_all add: const_defs ex_env_def bonds_path_def ex_revoke_opts_def bs_list_def)

theorem revoke_locks_out_witness:
  "\<exists>s' c'. run_revoke ex_toml3 (cr_blake3 ex_crypto) ex_env ex_revoke_opts (ex_bonds_fs, ex_console) = (Ok (), s', c') \<and>
     fst (issue_challenge (persistent_ops (cr_hkdf ex_crypto)) ex_crypto ex_env ex_call ex_phone_id 10
       (run_reload (persistent_ops (cr_hkdf ex_crypto)) ex_crypto ex_toml3 ex_env (\<lambda>x. x) 0 Rt_Inotify
          (ex_cold\<lparr> o_fs := s', o_bonds_file := [''d'', ''bonds.toml''] \<rparr>))) = Co_UnknownPeer"
proof -
  obtain s' c' where r: "run_revoke ex_toml3 (cr_blake3 ex_crypto) ex_env ex_revoke_opts (ex_bonds_fs, ex_console) = (Ok (), s', c')"
    using ex_revoke_runs by blast
  let ?os = "ex_cold\<lparr> o_fs := s', o_bonds_file := [''d'', ''bonds.toml''] \<rparr>"
  have "live_synced (\<lambda>p. dom (pp_peers p)) ?os"
    by (simp add: live_synced_def ex_cold_def with_peers_and_audit_def orch_invar_def bt_invar_def cells_ok_def entries_ok_def
        bt_get_def [abs_def])
  from revoke_locks_out [OF r _ ex_revoke_env(5) ex_toml3_ok ex_revoke_env(1,2,2) this, of "\<lambda>x. x" "cr_hkdf ex_crypto" ex_env ex_call 10 0 Rt_Inotify]
  show ?thesis using r ex_bonds_load by (auto simp: ex_revoke_env(3,4))
qed

theorem revoke_idempotent_witness:
  "\<exists>s' c' c3. run_revoke ex_toml3 (cr_blake3 ex_crypto) ex_env ex_revoke_opts (ex_bonds_fs, ex_console) = (Ok (), s', c') \<and>
     run_revoke ex_toml3 (cr_blake3 ex_crypto) ex_env (ex_revoke_opts\<lparr> ro_reason := ''stolen'' \<rparr>) (s', ex_console) = (Ok (), s', c3) \<and>
     con_text c3 = ''bond '' @ ex_phone_id @ '' already revoked: lost'' @ [NL]"
proof -
  obtain s' c' where r: "run_revoke ex_toml3 (cr_blake3 ex_crypto) ex_env ex_revoke_opts (ex_bonds_fs, ex_console) = (Ok (), s', c')"
    using ex_revoke_runs by blast
  have c: "con_ok ex_console" "con_text ex_console = []" by (simp_all add: con_ok_def ex_console_def)
  have b: "bs_map \<lparr> bs_bonds = [ex_phone_bond] \<rparr> ex_phone_id = Some ex_phone_bond" "b_status ex_phone_bond = Bonded" "ro_reason ex_revoke_opts = ''lost''"
    by (simp_all add: bs_map_def ex_phone_bond_def ex_revoke_opts_def)
  from revoke_idempotent [OF r _ ex_revoke_env(5) ex_toml3_ok ex_revoke_env(1,2) c(1), of "''stolen''"] ex_bonds_load
  obtain reason c3 where i: "run_revoke ex_toml3 (cr_blake3 ex_crypto) ex_env (ex_revoke_opts\<lparr> ro_reason := ''stolen'' \<rparr>) (s', ex_console) = (Ok (), s', c3)"
      "con_text c3 = con_text ex_console @ ''bond '' @ ex_phone_id @ '' already revoked: '' @ reason @ [NL]"
      "reason = ''lost''"
    unfolding ex_revoke_env(3,4) using b by auto
  then show ?thesis using r c(2) by auto
qed

theorem list_shows_store_witness:
  "\<exists>c'. run_list ex_toml3 (cr_blake3 ex_crypto) ex_env [''d''] ex_bonds_fs ex_console = (Ok (), c') \<and>
     con_text c' = render_row ex_toml3 ex_phone_bond @ [NL]"
proof -
  have p: "bonds_path [''d''] = [''d'', ''bonds.toml'']" by (simp add: bonds_path_def const_defs)
  have c: "con_ok ex_console" "con_text ex_console = []" by (simp_all add: con_ok_def ex_console_def)
  from list_shows_store [of ex_toml3 _ ex_env ex_bonds_fs "[''d'']", OF _ c(1)] show ?thesis
    using ex_bonds_load unfolding p c(2) by (fastforce simp: bs_list_def)
qed

end
