(* ===== verification/BluerPair.thy ===== *)
theory BluerPair
  imports Pair
begin

text \<open>
  The production radio of the pairing command, \<open>syauth-cli/src/pair_backend.rs\<close>:
  the desktop advertises the pair service, the phone connects and writes its
  public key, and an agent answers the numeric comparison of the operating
  system from the terminal, by itself or through files shared with an applet.
\<close>

section \<open>Constants and state\<close>

definition PAIR_ADVERTISE_ACCEPT_WINDOW :: nat where [const_defs]: "PAIR_ADVERTISE_ACCEPT_WINDOW = 300000" \<comment> \<open>ms\<close>
definition PAIR_SECONDS_PER_MINUTE :: nat where [const_defs]: "PAIR_SECONDS_PER_MINUTE = 60"
definition PAIR_CONNECTED_PEER_NAME :: string where [const_defs]: "PAIR_CONNECTED_PEER_NAME = ''phone (LESC peer)''"
definition PAIR_CONNECTED_PEER_ADDRESS :: string where [const_defs]: "PAIR_CONNECTED_PEER_ADDRESS = ''(advertised)''"
definition PAIR_IPC_DIR_SUBPATH :: string where [const_defs]: "PAIR_IPC_DIR_SUBPATH = ''syauth''"
definition PAIR_IPC_REQUEST_FILE :: string where [const_defs]: "PAIR_IPC_REQUEST_FILE = ''pair-request.json''"
definition PAIR_IPC_RESPONSE_FILE :: string where [const_defs]: "PAIR_IPC_RESPONSE_FILE = ''pair-response.json''"
definition PAIR_IPC_DECISION_TIMEOUT :: nat where [const_defs]: "PAIR_IPC_DECISION_TIMEOUT = 25000" \<comment> \<open>ms\<close>
definition PAIR_IPC_POLL_INTERVAL :: nat where [const_defs]: "PAIR_IPC_POLL_INTERVAL = 100" \<comment> \<open>ms\<close>

text \<open>
  The fields of \<open>BluerPairBackend\<close>; an installed handler is named by its source.
  Beside them: the read side of the prompt that shares the operator's lines, the
  files of the per-user runtime directory, whether the flow holds the lock of
  standard output, and the agent's answers so far, \<open>None\<close> for a request that gets
  none.
\<close>

record bluer_pair =
  bk_adapter_id :: string
  bk_host_pubkey :: bytes
  bk_confirm :: "confirm_source option"
  bk_mailbox :: "bytes option"
  bk_app :: "gatt_service list option"
  bk_adv :: "advertisement option"
  bk_passkey_seen :: "32 word option"
  bk_lines :: operator_lines
  bk_pending :: bytes
  bk_buf :: bytes
  bk_run_fs :: fs
  bk_stdout_held :: bool
  bk_answers :: "(32 word \<times> bool option) list"

definition bk_new :: "string \<Rightarrow> bytes \<Rightarrow> fs \<Rightarrow> bluer_pair" where
  "bk_new adapter_id host_pubkey run_fs =
     \<lparr> bk_adapter_id = adapter_id, bk_host_pubkey = host_pubkey, bk_confirm = None, bk_mailbox = None, bk_app = None,
       bk_adv = None, bk_passkey_seen = None, bk_lines = \<lparr> ol_now = 0, ol_queue = [] \<rparr>, bk_pending = [], bk_buf = [],
       bk_run_fs = run_fs, bk_stdout_held = False, bk_answers = [] \<rparr>"

definition install_confirm_handler :: "confirm_source \<Rightarrow> bluer_pair \<Rightarrow> bluer_pair" where
  "install_confirm_handler handler b = b\<lparr> bk_confirm := Some handler \<rparr>"

section \<open>The decision file of the applet\<close>

text \<open>The text after the first occurrence of a pattern.\<close>

fun after_str :: "string \<Rightarrow> string \<Rightarrow> string option" where
  "after_str pat [] = (if pat = [] then Some [] else None)"
| "after_str pat (c # cs) = (case strip_prefix (c # cs) pat of Some rest \<Rightarrow> Some rest | None \<Rightarrow> after_str pat cs)"

definition json_quote :: "string \<Rightarrow> string" where
  "json_quote s = [CHR 0x22] @ s @ [CHR 0x22]"

definition json_string_field :: "string \<Rightarrow> string \<Rightarrow> string option" where
  "json_string_field text key =
     (case after_str (json_quote key) text of
        None \<Rightarrow> None
      | Some after_key \<Rightarrow>
          (case after_str '':'' after_key of
             None \<Rightarrow> None
           | Some after_colon \<Rightarrow>
               (case after_str [CHR 0x22] after_colon of
                  None \<Rightarrow> None
                | Some rest \<Rightarrow>
                    (let v = takeWhile (\<lambda>c. c \<noteq> CHR 0x22) rest in if length v < length rest then Some v else None))))"

definition parse_decision :: "bytes \<Rightarrow> string \<Rightarrow> bool option" where
  "parse_decision bs expected_id =
     (case from_utf8 bs of
        None \<Rightarrow> None
      | Some text \<Rightarrow>
          (case json_string_field text ''request_id'' of
             None \<Rightarrow> None
           | Some i \<Rightarrow>
               if i \<noteq> expected_id then None
               else case json_string_field text ''decision'' of
                 None \<Rightarrow> None
               | Some decision \<Rightarrow>
                   if decision = ''accept'' then Some True else if decision = ''reject'' then Some False else None))"

text \<open>
  The loop over the response file: \<open>reads k\<close> is what the \<open>k\<close>-th read sees and
  \<open>lag k\<close> how much longer than the interval that round takes.
\<close>

definition poll_decision :: "(nat \<Rightarrow> io_error + bytes) \<Rightarrow> string \<Rightarrow> nat \<Rightarrow> bool option" where
  "poll_decision reads request_id k = (case reads k of Inl _ \<Rightarrow> None | Inr bs \<Rightarrow> parse_decision bs request_id)"

function decision_loop :: "(nat \<Rightarrow> io_error + bytes) \<Rightarrow> (nat \<Rightarrow> nat) \<Rightarrow> string \<Rightarrow> nat \<Rightarrow> nat \<Rightarrow> nat \<Rightarrow> bool" where
  "decision_loop reads lag request_id deadline k now =
     (if now < deadline
      then case poll_decision reads request_id k of
             Some decision \<Rightarrow> decision
           | None \<Rightarrow> decision_loop reads lag request_id deadline (Suc k) (now + PAIR_IPC_POLL_INTERVAL + lag k)
      else False)"
  by pat_completeness auto
termination
  by (relation "measure (\<lambda>(reads, lag, i, deadline, k, now). deadline - now)") (auto simp: PAIR_IPC_POLL_INTERVAL_def)

declare decision_loop.simps [simp del]

definition wait_for_decision :: "(nat \<Rightarrow> io_error + bytes) \<Rightarrow> (nat \<Rightarrow> nat) \<Rightarrow> string \<Rightarrow> nat \<Rightarrow> bool" where
  "wait_for_decision reads lag request_id now = decision_loop reads lag request_id (now + PAIR_IPC_DECISION_TIMEOUT) 0 now"

definition pair_ipc_dir :: "proc_env \<Rightarrow> path option" where
  "pair_ipc_dir pr =
     (case (case pr_var pr ''SUDO_UID'' of None \<Rightarrow> None | Some t \<Rightarrow> parse_nat (2 ^ 32 - 1) t) of
        Some sudo_uid \<Rightarrow> Some [''run'', ''user'', show_nat sudo_uid, PAIR_IPC_DIR_SUBPATH]
      | None \<Rightarrow>
          (case pr_var pr ''XDG_RUNTIME_DIR'' of
             None \<Rightarrow> None
           | Some xdg \<Rightarrow> if xdg = [] then None else Some (path_components xdg @ [PAIR_IPC_DIR_SUBPATH])))"

text \<open>What a call of the applet handler finds: process, clocks, and the response file over time.\<close>

record waybar_env =
  wb_sys :: sys_env
  wb_proc :: proc_env
  wb_pid :: nat
  wb_nanos :: nat
  wb_secs :: nat
  wb_now :: nat
  wb_reads :: "nat \<Rightarrow> io_error + bytes"
  wb_lag :: "nat \<Rightarrow> nat"

definition request_id :: "waybar_env \<Rightarrow> string" where
  "request_id v = show_nat (wb_pid v) @ ''-'' @ show_nat (wb_nanos v)"

definition request_json :: "waybar_env \<Rightarrow> 32 word \<Rightarrow> string" where
  "request_json v passkey =
     ''{'' @ json_quote ''schema_version'' @ '':1,'' @ json_quote ''kind'' @ '':'' @ json_quote ''pair_confirm'' @ '','' @
     json_quote ''request_id'' @ '':'' @ json_quote (request_id v) @ '','' @
     json_quote ''passkey'' @ '':'' @ json_quote (show_padded 6 (unat passkey)) @ '','' @
     json_quote ''created_at_secs'' @ '':'' @ show_nat (wb_secs v) @ ''}''"

definition waybar_confirm :: "waybar_env \<Rightarrow> 32 word \<Rightarrow> fs \<Rightarrow> bool \<times> fs" where
  "waybar_confirm v passkey s =
     (case pair_ipc_dir (wb_proc v) of
        None \<Rightarrow> (False, s)
      | Some dir \<Rightarrow>
          (let e = wb_sys v; req = dir @ [PAIR_IPC_REQUEST_FILE]; resp = dir @ [PAIR_IPC_RESPONSE_FILE] in
           case create_dir_all e dir s of
             (Inl _, s1) \<Rightarrow> (False, s1)
           | (Inr _, s1) \<Rightarrow>
               (let s2 = snd (remove_file e resp s1) in
                case write_file e req (str_bytes (request_json v passkey)) s2 of
                  (Inl _, s3) \<Rightarrow> (False, s3)
                | (Inr _, s3) \<Rightarrow>
                    (let s4 = snd (set_permissions e req 420 s3);
                         decision = wait_for_decision (wb_reads v) (wb_lag v) (request_id v) (wb_now v);
                         s5 = snd (remove_file e req s4) in
                     (decision, snd (remove_file e resp s5))))))"

section \<open>The agent\<close>

text \<open>
  The handlers for the terminal print the code first, and for that take the lock
  of standard output; while another thread holds it they do not get on.
\<close>

definition stdio_confirm :: "bluer_pair \<Rightarrow> bool option \<times> bluer_pair" where
  "stdio_confirm b =
     (if bk_stdout_held b then (None, b)
      else case take_line (Some OS_CONFIRM_DECISION_TIMEOUT) (bk_lines b) of
             Some (Some answer, q) \<Rightarrow> (Some (map ascii_lower (trim answer) \<in> {''y'', ''yes''}), b\<lparr> bk_lines := q \<rparr>)
           | Some (None, q) \<Rightarrow> (Some False, b\<lparr> bk_lines := q \<rparr>)
           | None \<Rightarrow> (None, b))"

definition auto_accept_confirm :: "bluer_pair \<Rightarrow> bool option \<times> bluer_pair" where
  "auto_accept_confirm b = (if bk_stdout_held b then (None, b) else (Some True, b))"

definition os_confirm_decision :: "waybar_env \<Rightarrow> 32 word \<Rightarrow> bluer_pair \<Rightarrow> bool option \<times> bluer_pair" where
  "os_confirm_decision v passkey b =
     (case bk_confirm b of
        None \<Rightarrow> (Some False, b)
      | Some Cs_Stdio \<Rightarrow> stdio_confirm b
      | Some Cs_AutoAccept \<Rightarrow> auto_accept_confirm b
      | Some Cs_Waybar \<Rightarrow>
          (case waybar_confirm v passkey (bk_run_fs b) of (d, s) \<Rightarrow> (Some d, b\<lparr> bk_run_fs := s \<rparr>)))"

definition request_confirmation :: "waybar_env \<Rightarrow> 32 word \<Rightarrow> bluer_pair \<Rightarrow> bluer_pair" where
  "request_confirmation v passkey b =
     (case os_confirm_decision v passkey (b\<lparr> bk_passkey_seen := Some passkey \<rparr>) of
        (a, b1) \<Rightarrow> b1\<lparr> bk_answers := bk_answers b1 @ [(passkey, a)] \<rparr>)"

text \<open>The operator's queue at a later time.\<close>

definition at_time :: "nat \<Rightarrow> bluer_pair \<Rightarrow> bluer_pair" where
  "at_time t b = b\<lparr> bk_lines := (bk_lines b)\<lparr> ol_now := max (ol_now (bk_lines b)) t \<rparr> \<rparr>"

definition take_recorded_passkey :: "bluer_pair \<Rightarrow> 32 word \<times> bluer_pair" where
  "take_recorded_passkey b =
     (case bk_passkey_seen b of None \<Rightarrow> NUMERIC_CODE_NOT_OBSERVED | Some k \<Rightarrow> k, b\<lparr> bk_passkey_seen := None \<rparr>)"

section \<open>Advertising and waiting for the phone\<close>

definition unix_minute_floor :: "nat \<Rightarrow> 64 word" where
  "unix_minute_floor secs = word_of_nat (secs div PAIR_SECONDS_PER_MINUTE)"

definition pair_discovery_uuid :: "hkdf \<Rightarrow> 64 word \<Rightarrow> uuid" where
  "pair_discovery_uuid hk minute = session_uuid_for hk (replicate 32 0) minute"

definition build_pair_services :: "gatt_service list" where
  "build_pair_services =
     [\<lparr> gs_uuid = SYAUTH_PAIR_SERVICE_UUID,
        gs_chars =
          [\<lparr> gc_uuid = SYAUTH_PAIR_HOST_PUBKEY_CHAR_UUID, gc_read = True, gc_write = False, gc_notify = False, gc_encrypted = False \<rparr>,
           \<lparr> gc_uuid = SYAUTH_PAIR_PHONE_PUBKEY_CHAR_UUID, gc_read = False, gc_write = True, gc_notify = False, gc_encrypted = False \<rparr>] \<rparr>]"

definition pair_advertisement :: "hkdf \<Rightarrow> 64 word \<Rightarrow> advertisement" where
  "pair_advertisement hk minute =
     \<lparr> adv_uuids = {pair_discovery_uuid hk minute}, adv_discoverable = True, adv_local_name = ADVERTISE_LOCAL_NAME \<rparr>"

text \<open>
  What happens while the flow waits: a write on the phone's characteristic, which
  may fail to be accepted or read; another control event; the end of the events;
  a tick with the time and the answer to an advertisement; a request of BlueZ to
  confirm a code.
\<close>

datatype scan_event =
    Se_Write "string + (string + bytes)" | Se_OtherControl | Se_ControlEnd | Se_Tick nat "string option" | Se_Confirm waybar_env "32 word"

record bluez_env =
  bz_session :: "bluer_error option"
  bz_agent :: "bluer_error option"
  bz_adapter :: "bluer_error option"
  bz_powered :: "bluer_error option"
  bz_discoverable :: "bluer_error option"
  bz_pairable :: "bluer_error option"
  bz_serve :: "string option"
  bz_advertise :: "string option"
  bz_secs :: nat
  bz_events :: "(nat \<times> scan_event) list"

definition map_bluer :: "bluer_error \<Rightarrow> pair_error" where
  "map_bluer err = (if be_not_found err then AdapterMissing ''<unknown>'' else PairBackendError (be_text err))"

definition bz_try :: "(bluer_error \<Rightarrow> pair_error) \<Rightarrow> bluer_error option \<Rightarrow> pair_error + unit" where
  "bz_try f r = (case r of None \<Rightarrow> Ok () | Some err \<Rightarrow> Err (f err))"

definition adapter_err :: "string \<Rightarrow> bluer_error \<Rightarrow> pair_error" where
  "adapter_err adapter_id err = (if be_not_found err then AdapterMissing adapter_id else PairBackendError (be_text err))"

definition bluer_adapter_info :: "bluez_env \<Rightarrow> string \<Rightarrow> pair_error + adapter_info" where
  "bluer_adapter_info z adapter_id =
     res_bind (bz_try map_bluer (bz_session z)) (\<lambda>_.
     res_bind (bz_try (adapter_err adapter_id) (bz_adapter z)) (\<lambda>_.
     res_bind (bz_try (\<lambda>err. PairBackendError (be_text err)) (bz_powered z)) (\<lambda>_.
     Ok \<lparr> ai_name = adapter_id, ai_supports_lesc = True \<rparr>)))"

definition scan_setup :: "bluez_env \<Rightarrow> string \<Rightarrow> pair_error + unit" where
  "scan_setup z adapter_id =
     res_bind (bz_try map_bluer (bz_session z)) (\<lambda>_.
     res_bind (bz_try map_bluer (bz_agent z)) (\<lambda>_.
     res_bind (bz_try (adapter_err adapter_id) (bz_adapter z)) (\<lambda>_.
     res_bind (bz_try (\<lambda>err. PairBackendError (be_text err)) (bz_powered z)) (\<lambda>_.
     res_bind (bz_try (\<lambda>err. PairBackendError (be_text err)) (bz_discoverable z)) (\<lambda>_.
     res_bind (bz_try (\<lambda>err. PairBackendError (be_text err)) (bz_pairable z)) (\<lambda>_.
     case bz_serve z of
       Some t \<Rightarrow> Err (PairBackendError (''serve_gatt_application: '' @ t))
     | None \<Rightarrow> (case bz_advertise z of Some t \<Rightarrow> Err (PairBackendError (''advertise: '' @ t)) | None \<Rightarrow> Ok ())))))))"

definition accept_write :: "string + (string + bytes) \<Rightarrow> pair_error + bytes" where
  "accept_write r =
     (case r of
        Inl t \<Rightarrow> Err (PairBackendError (''phone-pubkey write.accept: '' @ t))
      | Inr (Inl t) \<Rightarrow> Err (PairBackendError (''phone-pubkey read: '' @ t))
      | Inr (Inr written) \<Rightarrow>
          (let buf = take PAIR_PUBKEY_LEN written; n = length buf in
           if n \<noteq> PAIR_PUBKEY_LEN
           then Err (PairBackendError (''phone-pubkey: expected '' @ show_nat PAIR_PUBKEY_LEN @ '' bytes, got '' @ show_nat n))
           else Ok buf))"

text \<open>
  The loop: with the advertisement on air and its minute.  It gives back the
  advertisement to keep, which is there only after a write.  Events later than
  the window are not seen any more.
\<close>

fun scan_loop ::
    "hkdf \<Rightarrow> (nat \<times> scan_event) list \<Rightarrow> advertisement \<Rightarrow> 64 word \<Rightarrow> bluer_pair \<Rightarrow>
     (pair_error + unit) \<times> advertisement option \<times> bluer_pair" where
  "scan_loop hk [] adv minute b = (Err NoPeers, None, b)"
| "scan_loop hk ((t, ev) # evs) adv minute b =
     (if t > PAIR_ADVERTISE_ACCEPT_WINDOW then (Err NoPeers, None, b)
      else case ev of
        Se_Write r \<Rightarrow>
          (case accept_write r of
             Inl err \<Rightarrow> (Err err, None, b)
           | Inr buf \<Rightarrow> (Ok (), Some adv, b\<lparr> bk_mailbox := Some buf \<rparr>))
      | Se_OtherControl \<Rightarrow> scan_loop hk evs adv minute b
      | Se_ControlEnd \<Rightarrow> (Err NoPeers, None, b)
      | Se_Tick secs answer \<Rightarrow>
          (let new_minute = unix_minute_floor secs in
           if new_minute = minute then scan_loop hk evs adv minute b
           else case answer of
             None \<Rightarrow> scan_loop hk evs (pair_advertisement hk new_minute) new_minute b
           | Some _ \<Rightarrow> scan_loop hk evs adv minute b)
      | Se_Confirm v passkey \<Rightarrow> scan_loop hk evs adv minute (request_confirmation v passkey (at_time t b)))"

definition bluer_scan_peers :: "hkdf \<Rightarrow> bluez_env \<Rightarrow> bluer_pair \<Rightarrow> (pair_error + pair_candidate list) \<times> bluer_pair" where
  "bluer_scan_peers hk z b =
     (case scan_setup z (bk_adapter_id b) of
        Inl err \<Rightarrow> (Err err, b)
      | Inr _ \<Rightarrow>
          (let minute = unix_minute_floor (bz_secs z) in
           case scan_loop hk (bz_events z) (pair_advertisement hk minute) minute (b\<lparr> bk_app := Some build_pair_services \<rparr>) of
             (drained, slot, b1) \<Rightarrow>
               (res_bind drained (\<lambda>_. Ok [\<lparr> pcd_name = PAIR_CONNECTED_PEER_NAME, pcd_address = PAIR_CONNECTED_PEER_ADDRESS \<rparr>]),
                b1\<lparr> bk_adv := slot \<rparr>)))"

definition bluer_initiate_lesc :: "hkdf \<Rightarrow> bluer_pair \<Rightarrow> (pair_error + lesc_outcome) \<times> bluer_pair" where
  "bluer_initiate_lesc hk b =
     (case bk_mailbox b of
        None \<Rightarrow> (Err NoPeers, b)
      | Some phone_pubkey \<Rightarrow>
          (let b1 = b\<lparr> bk_mailbox := None \<rparr>; bond_key = bond_key_from_pubkeys hk (bk_host_pubkey b) phone_pubkey in
           case take_recorded_passkey b1 of
             (code, b2) \<Rightarrow> (Ok \<lparr> lo_peer_pubkey = phone_pubkey, lo_bond_key = bond_key, lo_numeric_code = code \<rparr>, b2)))"

definition bluer_backend :: "hkdf \<Rightarrow> bluez_env \<Rightarrow> bluer_pair pair_backend" where
  "bluer_backend hk z =
     \<lparr> pb_adapter_info = (\<lambda>a b. (bluer_adapter_info z a, b)),
       pb_scan_peers = bluer_scan_peers hk z,
       pb_initiate_lesc = (\<lambda>_ b. (0, bluer_initiate_lesc hk b)),
       pb_install_os_confirm = install_confirm_handler \<rparr>"

section \<open>The command\<close>

text \<open>
  \<open>run_pair\<close>: one thread feeds the operator's lines, the prompt reads them through
  a buffer, and the lock of standard output is held for the whole run.
\<close>

definition bk_read_line :: "bluer_pair read_line" where
  "bk_read_line b =
     (case lr_read_line \<lparr> lr_lines = bk_lines b, lr_pending = bk_pending b, lr_buf = bk_buf b \<rparr> of
        None \<Rightarrow> None
      | Some (r, x) \<Rightarrow> Some (r, b\<lparr> bk_lines := lr_lines x, bk_pending := lr_pending x, bk_buf := lr_buf x \<rparr>))"

definition run_pair ::
    "toml_lib \<Rightarrow> (bytes \<Rightarrow> bytes) \<Rightarrow> hkdf \<Rightarrow> sys_env \<Rightarrow> int \<Rightarrow> bluez_env \<Rightarrow> pair_opts \<Rightarrow> (nat \<times> (io_error + string)) list \<Rightarrow>
     bluer_pair pair_world \<Rightarrow> ((pair_error + pairing_phase) \<times> bluer_pair pair_world) option" where
  "run_pair L blake3 hk e now z opts stdin w =
     (let b = pw_backend w;
          b1 = b\<lparr> bk_lines := spawn_stdin_reader stdin (bk_lines b), bk_pending := [], bk_buf := [], bk_stdout_held := True \<rparr> in
      run_pair_with_io L blake3 hk e now opts (bluer_backend hk z) bk_read_line (w\<lparr> pw_backend := b1 \<rparr>))"

text \<open>\<open>run_pair_cli\<close> of \<open>main.rs\<close>: a host key that lives for one run.\<close>

definition run_pair_cli ::
    "toml_lib \<Rightarrow> (bytes \<Rightarrow> bytes) \<Rightarrow> hkdf \<Rightarrow> sys_env \<Rightarrow> int \<Rightarrow> bluez_env \<Rightarrow> (bytes \<Rightarrow> bytes) \<Rightarrow> bytes \<Rightarrow> fs \<Rightarrow> pair_opts \<Rightarrow>
     (nat \<times> (io_error + string)) list \<Rightarrow> fs \<Rightarrow> console \<Rightarrow> ((pair_error + pairing_phase) \<times> bluer_pair pair_world) option" where
  "run_pair_cli L blake3 hk e now z verifying_key secret run_fs opts stdin s c =
     run_pair L blake3 hk e now z opts stdin
       \<lparr> pw_backend = bk_new (po_adapter opts) (verifying_key secret) run_fs, pw_fs = s, pw_out = c \<rparr>"

section \<open>The decision of the applet\<close>

lemma ex_nat_Suc: "\<not> P 0 \<Longrightarrow> (\<exists>n. P n) \<longleftrightarrow> (\<exists>n. P (Suc n))"
  by (metis not0_implies_Suc)

lemma decision_loop_cases:
  "now < deadline \<Longrightarrow> poll_decision reads i k = None \<Longrightarrow>
     decision_loop reads lag i deadline k now = decision_loop reads lag i deadline (Suc k) (now + PAIR_IPC_POLL_INTERVAL + lag k)"
  "now < deadline \<Longrightarrow> poll_decision reads i k = Some d \<Longrightarrow> decision_loop reads lag i deadline k now = d"
  "\<not> now < deadline \<Longrightarrow> \<not> decision_loop reads lag i deadline k now"
  by (simp_all only: decision_loop.simps [of reads lag i deadline k now] option.case if_True if_False simp_thms)

text \<open>The \<open>n\<close>-th read from here on is in time and the first with a decision, which is yes.\<close>

definition accepted_at :: "(nat \<Rightarrow> io_error + bytes) \<Rightarrow> (nat \<Rightarrow> nat) \<Rightarrow> string \<Rightarrow> nat \<Rightarrow> nat \<Rightarrow> nat \<Rightarrow> nat \<Rightarrow> bool" where
  "accepted_at reads lag i deadline k now n \<longleftrightarrow>
     now + (\<Sum>j<n. PAIR_IPC_POLL_INTERVAL + lag (k + j)) < deadline \<and> poll_decision reads i (k + n) = Some True \<and>
     (\<forall>j<n. poll_decision reads i (k + j) = None)"

lemma accepted_at_0: "accepted_at reads lag i deadline k now 0 \<longleftrightarrow> now < deadline \<and> poll_decision reads i k = Some True"
  by (simp add: accepted_at_def)

lemma accepted_at_Suc:
  "accepted_at reads lag i deadline k now (Suc n) \<longleftrightarrow>
     poll_decision reads i k = None \<and> accepted_at reads lag i deadline (Suc k) (now + PAIR_IPC_POLL_INTERVAL + lag k) n"
  by (auto simp: accepted_at_def sum.lessThan_Suc_shift All_less_Suc2 add.assoc simp del: sum.lessThan_Suc)

lemma accepted_at_time: "accepted_at reads lag i deadline k now n \<Longrightarrow> now < deadline"
  by (simp add: accepted_at_def)

lemma decision_loop_iff: "decision_loop reads lag i deadline k now \<longleftrightarrow> (\<exists>n. accepted_at reads lag i deadline k now n)"
proof (induction reads lag i deadline k now rule: decision_loop.induct)
  case (1 reads lag i deadline k now)
  consider (late) "\<not> now < deadline" | (waits) "now < deadline" "poll_decision reads i k = None"
    | (decided) d where "now < deadline" "poll_decision reads i k = Some d" by fastforce
  then show ?case
  proof cases
    case late
    then show ?thesis using decision_loop_cases(3) [OF late] accepted_at_time by blast
  next
    case waits
    have "(\<exists>n. accepted_at reads lag i deadline k now n) \<longleftrightarrow> (\<exists>n. accepted_at reads lag i deadline k now (Suc n))"
      by (rule ex_nat_Suc) (simp add: accepted_at_0 waits)
    then show ?thesis unfolding decision_loop_cases(1) [OF waits] accepted_at_Suc 1 [OF waits] by (simp add: waits)
  next
    case decided
    then have "accepted_at reads lag i deadline k now n \<longleftrightarrow> n = 0 \<and> d" for n by (cases n) (simp_all add: accepted_at_0 accepted_at_Suc)
    then show ?thesis unfolding decision_loop_cases(2) [OF decided] by simp
  qed
qed

lemma poll_time: "n * PAIR_IPC_POLL_INTERVAL \<le> (\<Sum>j<n. PAIR_IPC_POLL_INTERVAL + lag j)"
  by (induction n) auto

lemma wait_for_decision_iff:
  "wait_for_decision reads lag i now \<longleftrightarrow>
     (\<exists>n. (\<Sum>j<n. PAIR_IPC_POLL_INTERVAL + lag j) < PAIR_IPC_DECISION_TIMEOUT \<and> poll_decision reads i n = Some True \<and>
          (\<forall>j<n. poll_decision reads i j = None))"
  unfolding wait_for_decision_def decision_loop_iff accepted_at_def by simp

subsection \<open>The scanner reads what the applet writes\<close>

lemma strip_prefix_simps [simp]:
  "strip_prefix s [] = Some s" "strip_prefix [] (c # p) = None"
  "strip_prefix (a # s) (c # p) = (if a = c then strip_prefix s p else None)"
  by (auto simp: strip_prefix_def starts_with_def)

lemma after_str_skip: "c \<notin> set pre \<Longrightarrow> after_str (c # p) (pre @ t) = after_str (c # p) t"
  by (induction pre) auto

definition response_json :: "string \<Rightarrow> string \<Rightarrow> string" where
  "response_json i decision =
     ''{'' @ json_quote ''request_id'' @ '':'' @ json_quote i @ '','' @ json_quote ''decision'' @ '':'' @ json_quote decision @ ''}''"

lemma takeWhile_close: "c \<notin> set v \<Longrightarrow> takeWhile (\<lambda>x. x \<noteq> c) (v @ c # t) = v"
  by (induction v) auto

lemma json_string_field_found:
  assumes "after_str (json_quote key) text = Some ('':'' @ json_quote v @ t)" "CHR 0x22 \<notin> set v"
  shows "json_string_field text key = Some v"
  using assms takeWhile_close [OF assms(2), of t]
  by (simp add: json_string_field_def json_quote_def Let_def)

definition plain_char :: "char \<Rightarrow> bool" where
  "plain_char c \<longleftrightarrow> c = CHR ''-'' \<or> is_digit c"

lemma request_id_plain: "\<forall>c \<in> set (request_id v). plain_char c"
  using show_nat_digits by (auto simp: request_id_def plain_char_def)

lemma plain_char_not: "\<not> plain_char (CHR 0x22)" "\<not> plain_char (CHR ''d'')"
  by (simp_all add: plain_char_def is_digit_def)

lemma plain_char_ascii: "plain_char c \<Longrightarrow> (of_char c :: nat) < 128"
  unfolding plain_char_def is_digit_def by (elim disjE) simp_all

lemma response_json_fields:
  assumes "\<forall>c \<in> set i. plain_char c" "CHR 0x22 \<notin> set d"
  shows "json_string_field (response_json i d) ''request_id'' = Some i" "json_string_field (response_json i d) ''decision'' = Some d"
proof -
  have q: "CHR 0x22 \<notin> set i" using assms(1) plain_char_not by blast
  show "json_string_field (response_json i d) ''request_id'' = Some i"
    by (rule json_string_field_found [OF _ q]) (simp add: response_json_def json_quote_def)
  have n: "strip_prefix (i @ CHR 0x22 # t) (CHR ''d'' # p) = None" for t p
    using assms(1) plain_char_not by (cases i) auto
  have "after_str (json_quote ''decision'') (response_json i d) = Some ('':'' @ json_quote d @ ''}'')"
    using after_str_skip [OF q, of "''decision'' @ [CHR 0x22]"] n by (simp add: response_json_def json_quote_def)
  then show "json_string_field (response_json i d) ''decision'' = Some d" by (rule json_string_field_found [OF _ assms(2)])
qed

lemma from_utf8_ascii: "\<forall>c \<in> set s. (of_char c :: nat) < 128 \<Longrightarrow> from_utf8 (str_bytes s) = Some s"
proof -
  assume "\<forall>c \<in> set s. (of_char c :: nat) < 128"
  then have "\<forall>b \<in> set (str_bytes s). b < 128" by (auto simp: str_bytes_def byte_of_char_def word_less_nat_alt unat_of_nat)
  then show ?thesis using utf8_valid_ascii by (simp add: from_utf8_def)
qed

lemma response_json_ascii:
  assumes "\<forall>c \<in> set i. plain_char c" "\<forall>c \<in> set d. (of_char c :: nat) < 128"
  shows "\<forall>c \<in> set (response_json i d). (of_char c :: nat) < 128"
  using assms plain_char_ascii by (simp add: response_json_def json_quote_def ball_Un)

lemma parse_response:
  assumes "d = ''accept'' \<or> d = ''reject''"
  shows "parse_decision (str_bytes (response_json (request_id v) d)) i =
    (if i = request_id v then Some (d = ''accept'') else None)"
proof -
  have a: "\<forall>c \<in> set d. (of_char c :: nat) < 128" "CHR 0x22 \<notin> set d" using assms by (elim disjE, simp_all)+
  show ?thesis
    using from_utf8_ascii [OF response_json_ascii [OF request_id_plain a(1)]] response_json_fields [OF request_id_plain a(2)] assms
    by (auto simp: parse_decision_def)
qed

text \<open>
  The applet's answer is understood.  The response in the documented form, for
  the id of the pending request, is read as exactly the decision written, and as
  no decision when it is for another request.
\<close>

theorem applet_answer_understood:
  assumes "d = ''accept'' \<or> d = ''reject''"
  shows "parse_decision (str_bytes (response_json (request_id v) d)) i =
    (if i = request_id v then Some (d = ''accept'') else None)"
  by (rule parse_response [OF assms])

section \<open>The agent answers yes only on a confirmation\<close>

text \<open>The request reached the applet's directory.\<close>

definition request_placed :: "waybar_env \<Rightarrow> 32 word \<Rightarrow> fs \<Rightarrow> bool" where
  "request_placed v passkey s \<longleftrightarrow>
     (\<exists>dir s1 s3. pair_ipc_dir (wb_proc v) = Some dir \<and> create_dir_all (wb_sys v) dir s = (Ok (), s1) \<and>
        write_file (wb_sys v) (dir @ [PAIR_IPC_REQUEST_FILE]) (str_bytes (request_json v passkey))
          (snd (remove_file (wb_sys v) (dir @ [PAIR_IPC_RESPONSE_FILE]) s1)) = (Ok (), s3))"

lemma waybar_confirm_iff:
  "fst (waybar_confirm v passkey s) \<longleftrightarrow>
     request_placed v passkey s \<and> wait_for_decision (wb_reads v) (wb_lag v) (request_id v) (wb_now v)"
  by (auto simp: waybar_confirm_def request_placed_def Let_def split: option.splits sum.splits prod.splits)

text \<open>The next line of the operator is a yes that arrives within 25 seconds.\<close>

definition line_confirms :: "bluer_pair \<Rightarrow> bool" where
  "line_confirms b \<longleftrightarrow>
     (\<exists>t l rest. ol_queue (bk_lines b) = (t, l) # rest \<and> t \<le> ol_now (bk_lines b) + OS_CONFIRM_DECISION_TIMEOUT \<and>
        parse_yes_no l = OobAccept)"

text \<open>
  The applet's request was placed and one of its reads, before the 25 seconds are
  over, shows an acceptance of this very request, all earlier reads having shown no
  decision.
\<close>

definition applet_confirms :: "waybar_env \<Rightarrow> 32 word \<Rightarrow> bluer_pair \<Rightarrow> bool" where
  "applet_confirms v passkey b \<longleftrightarrow> request_placed v passkey (bk_run_fs b) \<and>
     (\<exists>n. (\<Sum>j<n. PAIR_IPC_POLL_INTERVAL + wb_lag v j) < PAIR_IPC_DECISION_TIMEOUT \<and>
        poll_decision (wb_reads v) (request_id v) n = Some True \<and>
        (\<forall>j<n. poll_decision (wb_reads v) (request_id v) j = None))"

text \<open>
  C33: the numeric comparison is not answered yes without a confirmation.  With the
  applet as the source the answer is yes exactly on its confirmation in time; with
  the terminal it is never yes without the operator's yes in time, and on that it is
  yes when the flow does not hold standard output; with automatic answers, which the
  operator has asked for, it is yes when the flow does not hold standard output.
  Without a source the agent refuses.
\<close>

theorem agent_accepts_exactly:
  fixes v passkey b
  defines "yes \<equiv> fst (os_confirm_decision v passkey b) = Some True"
  shows "(bk_confirm b = None \<longrightarrow> \<not> yes) \<and>
    (bk_confirm b = Some Cs_Waybar \<longrightarrow> (yes \<longleftrightarrow> applet_confirms v passkey b)) \<and>
    (bk_confirm b = Some Cs_Stdio \<longrightarrow> (yes \<longrightarrow> line_confirms b) \<and> (\<not> bk_stdout_held b \<longrightarrow> (yes \<longleftrightarrow> line_confirms b))) \<and>
    (bk_confirm b = Some Cs_AutoAccept \<longrightarrow> \<not> bk_stdout_held b \<longrightarrow> yes)"
proof -
  have "yes \<longleftrightarrow> \<not> bk_stdout_held b \<and> line_confirms b" if "bk_confirm b = Some Cs_Stdio"
    using that by (auto simp: yes_def line_confirms_def os_confirm_decision_def stdio_confirm_def parse_yes_no_def take_line_def
        split: option.splits list.splits prod.splits if_splits)
  moreover have "yes \<longleftrightarrow> applet_confirms v passkey b" if "bk_confirm b = Some Cs_Waybar"
    using that waybar_confirm_iff [of v passkey "bk_run_fs b"]
    by (cases "waybar_confirm v passkey (bk_run_fs b)") (simp add: yes_def applet_confirms_def os_confirm_decision_def wait_for_decision_iff)
  moreover have "\<not> yes" if "bk_confirm b = None" using that by (simp add: yes_def os_confirm_decision_def)
  moreover have "yes" if "bk_confirm b = Some Cs_AutoAccept" "\<not> bk_stdout_held b"
    using that by (simp add: yes_def os_confirm_decision_def auto_accept_confirm_def)
  ultimately show ?thesis by blast
qed

section \<open>What a negotiation stands for\<close>

text \<open>The fields the agent leaves alone.\<close>

lemma os_confirm_frame:
  assumes "os_confirm_decision v passkey b = (a, b1)"
  shows "bk_mailbox b1 = bk_mailbox b \<and> bk_host_pubkey b1 = bk_host_pubkey b \<and> bk_confirm b1 = bk_confirm b \<and>
    bk_stdout_held b1 = bk_stdout_held b \<and> bk_answers b1 = bk_answers b"
  using assms by (auto simp: os_confirm_decision_def stdio_confirm_def auto_accept_confirm_def split: option.splits confirm_source.splits prod.splits if_splits)

lemma request_confirmation_frame:
  "bk_mailbox (request_confirmation v passkey b) = bk_mailbox b"
  "bk_host_pubkey (request_confirmation v passkey b) = bk_host_pubkey b"
  "bk_confirm (request_confirmation v passkey b) = bk_confirm b"
  "bk_stdout_held (request_confirmation v passkey b) = bk_stdout_held b"
  unfolding request_confirmation_def by (auto dest: os_confirm_frame split: prod.splits)

lemma at_time_frame [simp]:
  "bk_mailbox (at_time t b) = bk_mailbox b" "bk_host_pubkey (at_time t b) = bk_host_pubkey b"
  "bk_confirm (at_time t b) = bk_confirm b" "bk_stdout_held (at_time t b) = bk_stdout_held b" "bk_answers (at_time t b) = bk_answers b"
  by (simp_all add: at_time_def)

lemma accept_write_Ok: "accept_write r = Ok buf \<longleftrightarrow> (\<exists>written. r = Inr (Inr written) \<and> 32 \<le> length written \<and> buf = take 32 written)"
  by (auto simp: accept_write_def Let_def PAIR_PUBKEY_LEN_def split: sum.splits if_splits)

definition key_written :: "(nat \<times> scan_event) list \<Rightarrow> bytes \<Rightarrow> bool" where
  "key_written evs key \<longleftrightarrow>
     (\<exists>pre t written post. evs = pre @ (t, Se_Write (Inr (Inr written))) # post \<and> t \<le> PAIR_ADVERTISE_ACCEPT_WINDOW \<and>
        (\<forall>ev \<in> set pre. \<forall>r. snd ev \<noteq> Se_Write r) \<and> 32 \<le> length written \<and> key = take 32 written)"

lemma key_written_Cons: "\<forall>r. snd ev \<noteq> Se_Write r \<Longrightarrow> key_written evs key \<Longrightarrow> key_written (ev # evs) key"
  unfolding key_written_def by (metis append_Cons set_ConsD)

lemma key_written_length: "key_written evs key \<Longrightarrow> length key = 32"
  by (auto simp: key_written_def)

lemma scan_loop_host: "scan_loop hk evs adv minute b = (r, slot, b1) \<Longrightarrow> bk_host_pubkey b1 = bk_host_pubkey b"
  by (induction hk evs adv minute b rule: scan_loop.induct)
     (auto simp: request_confirmation_frame Let_def split: if_splits scan_event.splits sum.splits option.splits)

lemma scan_loop_mailbox:
  assumes "scan_loop hk evs adv minute b = (r, slot, b1)"
  shows "(r = Ok () \<and> (\<exists>key. key_written evs key \<and> bk_mailbox b1 = Some key)) \<or> (\<exists>err. r = Err err) \<and> bk_mailbox b1 = bk_mailbox b"
  using assms
proof (induction hk evs adv minute b rule: scan_loop.induct)
  case (2 hk t ev evs adv minute b)
  have here: "key_written ((t, Se_Write (Inr (Inr x))) # evs) (take 32 x)" if "\<not> PAIR_ADVERTISE_ACCEPT_WINDOW < t" "32 \<le> length x" for x
    unfolding key_written_def using that by (intro exI [of _ "[]"] exI [of _ t] exI [of _ x] exI [of _ evs]) auto
  show ?case
  proof (cases "PAIR_ADVERTISE_ACCEPT_WINDOW < t")
    case True
    then show ?thesis using "2.prems" by auto
  next
    case False
    show ?thesis
    proof (cases ev)
      case (Se_Write x)
      then show ?thesis using "2.prems" False here by (auto simp: accept_write_Ok split: sum.splits)
    next
      case (Se_Tick secs answer)
      then show ?thesis using "2.prems" "2.IH"(2-4) False key_written_Cons [of "(t, ev)" evs]
        by (simp add: Let_def split: if_splits option.splits) blast+
    qed (use "2.prems" "2.IH"(1,5) False key_written_Cons [of "(t, ev)" evs] in \<open>simp_all add: request_confirmation_frame\<close>, blast+)
  qed
qed auto

lemma bluer_scan_effect:
  assumes "bluer_scan_peers hk z b = (r, b1)"
  shows "bk_host_pubkey b1 = bk_host_pubkey b \<and>
    ((\<exists>key. key_written (bz_events z) key \<and> bk_mailbox b1 = Some key) \<or> (\<exists>err. r = Err err) \<and> bk_mailbox b1 = bk_mailbox b)"
proof (cases "scan_setup z (bk_adapter_id b)")
  case (Inl err)
  then show ?thesis using assms by (auto simp: bluer_scan_peers_def)
next
  case (Inr u)
  let ?m = "unix_minute_floor (bz_secs z)" and ?b = "b\<lparr> bk_app := Some build_pair_services \<rparr>"
  obtain d slot b2 where l: "scan_loop hk (bz_events z) (pair_advertisement hk ?m) ?m ?b = (d, slot, b2)" by (metis prod_cases3)
  then have "b1 = b2\<lparr> bk_adv := slot \<rparr>" "\<And>err. d = Err err \<Longrightarrow> r = Err err"
    using assms Inr by (auto simp: bluer_scan_peers_def Let_def)
  then show ?thesis using scan_loop_mailbox [OF l] scan_loop_host [OF l] by auto
qed

text \<open>The length of the derived key, given that HKDF returns as many bytes as asked for.\<close>

definition hkdf_sized :: "hkdf \<Rightarrow> bool" where
  "hkdf_sized hk \<longleftrightarrow> (\<forall>ikm info n out. hk ikm info n = Some out \<longrightarrow> length out = n)"

lemma bond_key_sized: "hkdf_sized hk \<Longrightarrow> length (bond_key_from_pubkeys hk host phone) = 32"
  by (auto simp: bond_key_from_pubkeys_def hkdf_sized_def const_defs split: option.splits)

definition bk_typed :: "hkdf \<Rightarrow> bluer_pair \<Rightarrow> bool" where
  "bk_typed hk b \<longleftrightarrow> hkdf_sized hk \<and> (\<forall>key. bk_mailbox b = Some key \<longrightarrow> length key = 32)"

lemma bluer_lesc_Ok:
  assumes "bluer_initiate_lesc hk b = (Ok out, b1)"
  shows "bk_mailbox b = Some (lo_peer_pubkey out) \<and> lo_bond_key out = bond_key_from_pubkeys hk (bk_host_pubkey b) (lo_peer_pubkey out)"
  using assms by (auto simp: bluer_initiate_lesc_def Let_def split: option.splits prod.splits)

interpretation bluer: pair_radio "bluer_backend hk z" "bk_typed hk" for hk z
proof unfold_locales
  show "bk_typed hk b1" if "bk_typed hk b" "pb_adapter_info (bluer_backend hk z) a b = (r, b1)" for a r b b1
    using that by (simp add: bluer_backend_def)
  show "bk_typed hk (pb_install_os_confirm (bluer_backend hk z) src b)" if "bk_typed hk b" for src b
    using that by (simp add: bluer_backend_def install_confirm_handler_def bk_typed_def)
  show "bk_typed hk b1" if "bk_typed hk b" "pb_scan_peers (bluer_backend hk z) b = (r, b1)" for r b b1
    using that bluer_scan_effect [of hk z b r b1] by (auto simp: bluer_backend_def bk_typed_def dest: key_written_length)
  show "length (lo_peer_pubkey out) = 32 \<and> length (lo_bond_key out) = 32"
    if "bk_typed hk b" "pb_initiate_lesc (bluer_backend hk z) c b = (t, Ok out, b1)" for b c t out b1
    using that bluer_lesc_Ok [of hk b out b1] bond_key_sized by (auto simp: bluer_backend_def bk_typed_def)
qed

lemma bluer_negotiated:
  assumes "negotiated (bluer_backend hk z) opts b chosen outcome b4"
  shows "key_written (bz_events z) (lo_peer_pubkey outcome) \<and>
    lo_bond_key outcome = bond_key_from_pubkeys hk (bk_host_pubkey b) (lo_peer_pubkey outcome)"
proof -
  from assms obtain candidates b3 where n: "bluer_scan_peers hk z (install_confirm_handler (confirm_source_from_opts opts) b) = (Ok candidates, b3)"
      "bluer_initiate_lesc hk b3 = (Ok outcome, b4)"
    unfolding negotiated_def by (auto simp: bluer_backend_def)
  show ?thesis using bluer_scan_effect [OF n(1)] bluer_lesc_Ok [OF n(2)] by (auto simp: install_confirm_handler_def)
qed

section \<open>The pairing command\<close>

text \<open>
  C30: What a successful pairing command has stored.  When the command with the
  production radio reports success, the phone wrote, within five minutes and as
  its first write, at least 32 bytes; those are the public key of a bond in the
  bonds file; and its key file holds, with mode 0600, the key derived from the
  host's key of this run and that key.
\<close>

theorem pair_command_sound:
  assumes "run_pair_cli L blake3 hk e now z verifying_key secret run_fs opts stdin s c = Some (Ok ph, w')"
    and "toml_lib_ok L" "hkdf_sized hk" "BONDS_FILE_NAME \<noteq> sys_temp e" "sys_fail e' (OpRead (bonds_path (po_bond_dir opts))) = None"
  shows "\<exists>key store bond. key_written (bz_events z) key \<and>
     bs_load L blake3 e' (pw_fs w') (bonds_path (po_bond_dir opts)) = Ok store \<and>
     bond \<in> set (bs_list store) \<and> b_pubkey bond = key \<and> b_status bond = Bonded \<and> b_created_at bond = now \<and>
     fs_nodes (pw_fs w') (pam_bond_key_path (po_bond_dir opts) (peer_id_from_pubkey blake3 key)) =
       Some (FileNode (bond_key_from_pubkeys hk (verifying_key secret) key) PAM_BOND_KEY_FILE_MODE)"
proof -
  from assms(1) obtain w where w: "run_pair_with_io L blake3 hk e now opts (bluer_backend hk z) bk_read_line w = Some (Ok ph, w')"
      "bk_mailbox (pw_backend w) = None" "bk_host_pubkey (pw_backend w) = verifying_key secret"
    by (auto simp: run_pair_cli_def run_pair_def bk_new_def Let_def)
  have t: "bk_typed hk (pw_backend w)" using w(2) assms(3) by (simp add: bk_typed_def)
  obtain chosen outcome b store where p: "negotiated (bluer_backend hk z) opts (pw_backend w) chosen outcome b"
    "confirmed bk_read_line opts b"
    "bs_load L blake3 e' (pw_fs w') (bonds_path (po_bond_dir opts)) = Ok store"
    "build_bond_with_time blake3 outcome chosen now \<in> set (bs_list store)"
    "fs_nodes (pw_fs w') (pam_bond_key_path (po_bond_dir opts) (peer_id_from_pubkey blake3 (lo_peer_pubkey outcome))) =
       Some (FileNode (lo_bond_key outcome) PAM_BOND_KEY_FILE_MODE)"
    by (rule bluer.typed_persists [OF w(1) t assms(2,4,5)])
  then show ?thesis using bluer_negotiated [OF p(1)] w(3)
    by (intro exI [of _ "lo_peer_pubkey outcome"] exI [of _ store] exI [of _ "build_bond_with_time blake3 outcome chosen now"])
       (simp add: build_bond_with_time_def)
qed

section \<open>The terminal lock and the agent\<close>

text \<open>
  While the flow holds the terminal, as \<open>run_pair\<close> does for the whole run, a
  handler that prints never answers: every request for a numeric comparison that
  arrives during the scan stays without an answer, with \<open>--yes\<close> as without.
\<close>

lemma held_no_answer:
  assumes "bk_stdout_held b" "bk_confirm b = Some src" "src \<noteq> Cs_Waybar"
  shows "bk_answers (request_confirmation v passkey b) = bk_answers b @ [(passkey, None)]"
  using assms by (cases src) (simp_all add: request_confirmation_def os_confirm_decision_def stdio_confirm_def auto_accept_confirm_def)

lemma scan_loop_mute:
  assumes "scan_loop hk evs adv minute b = (r, slot, b1)" "bk_stdout_held b" "bk_confirm b = Some src" "src \<noteq> Cs_Waybar"
  shows "\<exists>new. bk_answers b1 = bk_answers b @ new \<and> (\<forall>x \<in> set new. snd x = None)"
  using assms
proof (induction hk evs adv minute b rule: scan_loop.induct)
  case (2 hk t ev evs adv minute b)
  show ?case
  proof (cases "PAIR_ADVERTISE_ACCEPT_WINDOW < t")
    case False
    show ?thesis
    proof (cases ev)
      case (Se_Confirm v passkey)
      have "\<exists>new. bk_answers b1 = bk_answers (request_confirmation v passkey (at_time t b)) @ new \<and> (\<forall>x \<in> set new. snd x = None)"
        using "2.prems" False Se_Confirm by (intro "2.IH"(5) [of v passkey]) (simp_all add: request_confirmation_frame)
      then show ?thesis using held_no_answer [of "at_time t b" src v passkey] "2.prems"(2-4) by auto
    next
      case (Se_Tick secs answer)
      then show ?thesis using "2.prems" "2.IH"(2-4) False by (simp add: Let_def split: if_splits option.splits)
    qed (use "2.prems" "2.IH"(1) False in \<open>auto split: sum.splits\<close>)
  qed (use "2.prems" in auto)
qed auto

theorem agent_mute_while_pairing:
  assumes "bk_stdout_held b" "bk_confirm b = Some src" "src \<noteq> Cs_Waybar" "bluer_scan_peers hk z b = (r, b1)"
  shows "\<exists>new. bk_answers b1 = bk_answers b @ new \<and> (\<forall>x \<in> set new. snd x = None)"
proof (cases "scan_setup z (bk_adapter_id b)")
  case (Inr u)
  let ?m = "unix_minute_floor (bz_secs z)" and ?b = "b\<lparr> bk_app := Some build_pair_services \<rparr>"
  obtain d slot b2 where l: "scan_loop hk (bz_events z) (pair_advertisement hk ?m) ?m ?b = (d, slot, b2)" by (metis prod_cases3)
  then have "b1 = b2\<lparr> bk_adv := slot \<rparr>" using assms(4) Inr by (auto simp: bluer_scan_peers_def Let_def)
  then show ?thesis using scan_loop_mute [OF l] assms(1-3) by simp
qed (use assms(4) in \<open>auto simp: bluer_scan_peers_def\<close>)

section \<open>Concrete runs\<close>

definition ex_cli_file :: raw_file where
  "ex_cli_file = \<lparr> rf_schema_version = 1, rf_bonds = Some
     [\<lparr> rb_peer_id = ex_phone_id, rb_pubkey = hex_lowercase ex_phone, rb_name = PAIR_CONNECTED_PEER_NAME, rb_created_at = ''t'',
        rb_kind = ''Bonded'', rb_reason = None \<rparr>] \<rparr>"

definition ex_toml4 :: toml_lib where
  "ex_toml4 = \<lparr> toml_from = (\<lambda>t. if t = ''v'' then Some ex_cli_file else None),
     toml_to = (\<lambda>rf. if rf = ex_cli_file then Some ''v'' else None),
     rfc_format = (\<lambda>i. if i = 0 then Some ''t'' else None), rfc_parse = (\<lambda>t. if t = ''t'' then Some 0 else None) \<rparr>"

definition ex_bluez :: bluez_env where
  "ex_bluez = \<lparr> bz_session = None, bz_agent = None, bz_adapter = None, bz_powered = None, bz_discoverable = None, bz_pairable = None,
     bz_serve = None, bz_advertise = None, bz_secs = 0, bz_events = [(1, Se_Write (Ok (Ok ex_phone)))] \<rparr>"

definition ex_cli_outcome :: lesc_outcome where
  "ex_cli_outcome = \<lparr> lo_peer_pubkey = ex_phone, lo_bond_key = bond_key_from_pubkeys (cr_hkdf ex_crypto) (replicate 32 4) ex_phone,
     lo_numeric_code = NUMERIC_CODE_NOT_OBSERVED \<rparr>"

definition ex_cli_candidate :: pair_candidate where
  "ex_cli_candidate = \<lparr> pcd_name = PAIR_CONNECTED_PEER_NAME, pcd_address = PAIR_CONNECTED_PEER_ADDRESS \<rparr>"

definition ex_bk :: bluer_pair where
  "ex_bk = (bk_new ''hci0'' (replicate 32 4) ex_fs)\<lparr> bk_lines := spawn_stdin_reader [(2, Ok (''y'' @ [NL]))] \<lparr> ol_now = 0, ol_queue = [] \<rparr>,
     bk_pending := [], bk_buf := [], bk_stdout_held := True \<rparr>"

lemma ex_toml4_ok: "toml_lib_ok ex_toml4"
  by (auto simp: toml_lib_ok_def ex_toml4_def utf8_valid_ascii str_bytes_def byte_of_char_def split: if_splits)

lemma ex_cli_commits:
  "\<exists>s1. bs_save ex_toml4 ex_env \<lparr> bs_bonds = [build_bond_with_time (cr_blake3 ex_crypto) ex_cli_outcome ex_cli_candidate 0] \<rparr> [''d'', ''bonds.toml''] ex_fs = (Ok (), s1) \<and>
     fs_nodes s1 [''d''] = Some (DirNode 448) \<and> fs_nodes s1 [''d'', ''keys''] = None"
  by (simp add: bs_save_def parent_dir_of_def parent_def ensure_parent_dir_def metadata_def ex_env_def const_defs ex_fs_def
      serialize_to_toml_def toml_to_string_def raw_of_bond_def build_bond_with_time_def ex_cli_outcome_def ex_cli_candidate_def
      ex_phone_id_def [symmetric] ex_toml4_def ex_cli_file_def replace_via_temp_def new_temp_def guarded_def temp_path_def
      set_temp_file_mode_def on_err_def set_permissions_def write_all_def sync_all_def rename_def)

lemma ex_bk_lines: "bk_lines ex_bk = \<lparr> ol_now = 0, ol_queue = [(2, ''y'')] \<rparr>" "bk_pending ex_bk = []" "bk_buf ex_bk = []"
proof -
  have t: "trim_newline (''y'' @ [NL]) = ''y''" by code_simp
  show "bk_lines ex_bk = \<lparr> ol_now = 0, ol_queue = [(2, ''y'')] \<rparr>" using t by (simp add: ex_bk_def ol_push_def)
qed (simp_all add: ex_bk_def)

lemma ex_cli_scan:
  "\<exists>adv. bluer_scan_peers hk ex_bluez b =
     (Ok [ex_cli_candidate], b\<lparr> bk_app := Some build_pair_services, bk_mailbox := Some ex_phone, bk_adv := adv \<rparr>)"
proof -
  have "accept_write (Ok (Ok ex_phone)) = Ok ex_phone" by (simp add: accept_write_Ok ex_phone_def)
  moreover have "scan_setup ex_bluez a = Ok ()" for a by (simp add: scan_setup_def ex_bluez_def bz_try_def)
  ultimately show ?thesis
    by (simp add: bluer_scan_peers_def Let_def) (simp add: ex_bluez_def ex_cli_candidate_def PAIR_ADVERTISE_ACCEPT_WINDOW_def, blast)
qed

lemma ex_cli_lesc:
  assumes "bk_mailbox b = Some ex_phone" "bk_host_pubkey b = replicate 32 4" "bk_passkey_seen b = None"
  shows "bluer_initiate_lesc (cr_hkdf ex_crypto) b = (Ok ex_cli_outcome, b\<lparr> bk_mailbox := None, bk_passkey_seen := None \<rparr>)"
  using assms by (simp add: bluer_initiate_lesc_def ex_cli_outcome_def take_recorded_passkey_def Let_def)

lemma ex_cli_negotiated:
  "\<exists>b4. negotiated (bluer_backend (cr_hkdf ex_crypto) ex_bluez) ex_pair_opts ex_bk ex_cli_candidate ex_cli_outcome b4 \<and>
     bk_lines b4 = bk_lines ex_bk \<and> bk_pending b4 = [] \<and> bk_buf b4 = []"
proof -
  let ?b1 = "install_confirm_handler (confirm_source_from_opts ex_pair_opts) ex_bk"
  obtain adv where sc: "bluer_scan_peers (cr_hkdf ex_crypto) ex_bluez ?b1 =
      (Ok [ex_cli_candidate], ?b1\<lparr> bk_app := Some build_pair_services, bk_mailbox := Some ex_phone, bk_adv := adv \<rparr>)"
    using ex_cli_scan by blast
  let ?b3 = "?b1\<lparr> bk_app := Some build_pair_services, bk_mailbox := Some ex_phone, bk_adv := adv \<rparr>"
  have le: "bluer_initiate_lesc (cr_hkdf ex_crypto) ?b3 = (Ok ex_cli_outcome, ?b3\<lparr> bk_mailbox := None, bk_passkey_seen := None \<rparr>)"
    by (rule ex_cli_lesc) (simp_all add: install_confirm_handler_def ex_bk_def bk_new_def)
  have ad: "bluer_adapter_info ex_bluez a = Ok \<lparr> ai_name = a, ai_supports_lesc = True \<rparr>" for a
    by (simp add: bluer_adapter_info_def ex_bluez_def bz_try_def)
  have "pick_unambiguous (filter_candidates [ex_cli_candidate] (po_peer ex_pair_opts)) (po_yes ex_pair_opts) = Ok ex_cli_candidate"
    by (simp add: pick_unambiguous_def filter_candidates_def ex_pair_opts_def)
  then have "negotiated (bluer_backend (cr_hkdf ex_crypto) ex_bluez) ex_pair_opts ex_bk ex_cli_candidate ex_cli_outcome
      (?b3\<lparr> bk_mailbox := None, bk_passkey_seen := None \<rparr>)"
    unfolding negotiated_def bluer_backend_def using sc le by (simp add: ad)
  then show ?thesis by (intro exI conjI) (assumption, simp_all add: install_confirm_handler_def ex_bk_lines)
qed

lemma ex_cli_runs:
  "\<exists>w'. run_pair_cli ex_toml4 (cr_blake3 ex_crypto) (cr_hkdf ex_crypto) ex_env 0 ex_bluez (\<lambda>k. k) (replicate 32 4) ex_fs ex_pair_opts
     [(2, Ok (''y'' @ [NL]))] ex_fs \<lparr> con_text = [], con_count = 0, con_fail = (\<lambda>_. None) \<rparr> = Some (Ok Ph_Bonded, w')"
proof -
  let ?c = "\<lparr> con_text = [], con_count = 0, con_fail = (\<lambda>_. None) \<rparr>"
  let ?w = "\<lparr> pw_backend = ex_bk, pw_fs = ex_fs, pw_out = ?c \<rparr>"
  let ?b = "build_bond_with_time (cr_blake3 ex_crypto) ex_cli_outcome ex_cli_candidate 0"
  have d: "po_bond_dir ex_pair_opts = [''d'']" "po_force ex_pair_opts = False" "po_adapter ex_pair_opts = ''hci0''" by (simp_all add: ex_pair_opts_def)
  have p: "bonds_path [''d''] = [''d''] @ [''bonds.toml'']" by (simp add: bonds_path_def const_defs)
  obtain s1 where s1: "bs_save ex_toml4 ex_env \<lparr> bs_bonds = [?b] \<rparr> ([''d''] @ [''bonds.toml'']) ex_fs = (Ok (), s1)"
      and n2: "fs_nodes s1 [''d''] = Some (DirNode 448)" "fs_nodes s1 [''d'', ''keys''] = None"
    using ex_cli_commits by auto
  have n1: "fs_nodes s1 [''d'', ''keys'', i @ ''.bin''] = None" for i
    using bs_save_frame [OF s1, of "[''d'', ''keys'', i @ ''.bin'']"] by (simp add: ex_env_def ex_fs_def)
  obtain s2 where s2: "write_pam_bond_key ex_env [''d''] (peer_id_from_pubkey (cr_blake3 ex_crypto) (lo_peer_pubkey ex_cli_outcome))
      (lo_bond_key ex_cli_outcome) s1 = (Ok (), s2)"
    using ex_key_written [OF n2 n1] by blast
  obtain b4 where b4: "negotiated (bluer_backend (cr_hkdf ex_crypto) ex_bluez) ex_pair_opts ex_bk ex_cli_candidate ex_cli_outcome b4"
      "bk_lines b4 = \<lparr> ol_now = 0, ol_queue = [(2, ''y'')] \<rparr>" "bk_pending b4 = []" "bk_buf b4 = []"
    using ex_cli_negotiated ex_bk_lines by auto
  have rl: "lr_read_line \<lparr> lr_lines = \<lparr> ol_now = 0, ol_queue = [(2, ''y'')] \<rparr>, lr_pending = [], lr_buf = [] \<rparr> =
      Some (Ok (''y'' @ [NL]), \<lparr> lr_lines = \<lparr> ol_now = 2, ol_queue = [] \<rparr>, lr_pending = [], lr_buf = [] \<rparr>)"
  proof -
    have "NL \<notin> set ''y''" "utf8_valid (str_bytes ''y'')" by code_simp+
    then show ?thesis by (subst read_line_next) simp_all
  qed
  have yes: "parse_yes_no (''y'' @ [NL]) = OobAccept" by code_simp
  have "\<exists>w'. run_pair_with_io ex_toml4 (cr_blake3 ex_crypto) (cr_hkdf ex_crypto) ex_env 0 ex_pair_opts
      (bluer_backend (cr_hkdf ex_crypto) ex_bluez) bk_read_line ?w = Some (Ok Ph_Bonded, w') \<and> pw_fs w' = s2"
  proof (rule pair_completes)
    show "negotiated (bluer_backend (cr_hkdf ex_crypto) ex_bluez) ex_pair_opts (pw_backend ?w) ex_cli_candidate ex_cli_outcome b4"
      using b4(1) by simp
    show "confirmed bk_read_line ex_pair_opts b4" using yes rl b4(2-4) by (simp add: confirmed_def bk_read_line_def)
    show "con_ok (pw_out ?w)" by (simp add: con_ok_def)
    show "bs_load ex_toml4 (cr_blake3 ex_crypto) ex_env (pw_fs ?w) (bonds_path (po_bond_dir ex_pair_opts)) = Ok \<lparr> bs_bonds = [] \<rparr>"
      unfolding d p by (simp add: bs_load_def read_to_string_def read_file_def ex_env_def ex_fs_def)
    show "store_with_bond (po_force ex_pair_opts) ?b \<lparr> bs_bonds = [] \<rparr> = Ok (None, \<lparr> bs_bonds = [?b] \<rparr>)"
      by (simp add: store_with_bond_def bs_add_def find_index_def)
    show "bs_save ex_toml4 ex_env \<lparr> bs_bonds = [?b] \<rparr> (bonds_path (po_bond_dir ex_pair_opts)) (pw_fs ?w) = (Ok (), s1)"
      unfolding d p using s1 by simp
    show "write_pam_bond_key ex_env (po_bond_dir ex_pair_opts) (peer_id_from_pubkey (cr_blake3 ex_crypto) (lo_peer_pubkey ex_cli_outcome))
      (lo_bond_key ex_cli_outcome) s1 = (Ok (), s2)" unfolding d by (rule s2)
  qed
  moreover have "ex_bk = (bk_new ''hci0'' (replicate 32 4) ex_fs)\<lparr> bk_lines := spawn_stdin_reader [(2, Ok (''y'' @ [NL]))]
      (bk_lines (bk_new ''hci0'' (replicate 32 4) ex_fs)), bk_pending := [], bk_buf := [], bk_stdout_held := True \<rparr>"
    by (simp add: ex_bk_def bk_new_def)
  ultimately show ?thesis by (auto simp: run_pair_cli_def run_pair_def Let_def d)
qed

theorem pair_command_sound_witness:
  "\<exists>w' key store bond. run_pair_cli ex_toml4 (cr_blake3 ex_crypto) (cr_hkdf ex_crypto) ex_env 0 ex_bluez (\<lambda>k. k) (replicate 32 4) ex_fs ex_pair_opts
     [(2, Ok (''y'' @ [NL]))] ex_fs \<lparr> con_text = [], con_count = 0, con_fail = (\<lambda>_. None) \<rparr> = Some (Ok Ph_Bonded, w') \<and>
     key_written (bz_events ex_bluez) key \<and>
     bs_load ex_toml4 (cr_blake3 ex_crypto) ex_env (pw_fs w') [''d'', ''bonds.toml''] = Ok store \<and> bond \<in> set (bs_list store) \<and> b_pubkey bond = key"
proof -
  obtain w' where r: "run_pair_cli ex_toml4 (cr_blake3 ex_crypto) (cr_hkdf ex_crypto) ex_env 0 ex_bluez (\<lambda>k. k) (replicate 32 4) ex_fs ex_pair_opts
     [(2, Ok (''y'' @ [NL]))] ex_fs \<lparr> con_text = [], con_count = 0, con_fail = (\<lambda>_. None) \<rparr> = Some (Ok Ph_Bonded, w')"
    using ex_cli_runs by blast
  have p: "bonds_path (po_bond_dir ex_pair_opts) = [''d'', ''bonds.toml'']" by (simp add: bonds_path_def ex_pair_opts_def const_defs)
  have h: "hkdf_sized (cr_hkdf ex_crypto)" by (simp add: hkdf_sized_def ex_crypto_def)
  have t: "BONDS_FILE_NAME \<noteq> sys_temp ex_env" by (simp add: const_defs ex_env_def)
  have f: "sys_fail ex_env (OpRead (bonds_path (po_bond_dir ex_pair_opts))) = None" by (simp add: ex_env_def)
  from pair_command_sound [OF r ex_toml4_ok h t f] show ?thesis using r unfolding p by blast
qed

text \<open>A call for the applet: the first read finds nothing, the second an acceptance.\<close>

definition ex_waybar :: waybar_env where
  "ex_waybar = \<lparr> wb_sys = ex_env, wb_proc = \<lparr> pr_var = (\<lambda>n. if n = ''SUDO_UID'' then Some ''7'' else None), pr_exe = Err NotFound,
     pr_systemctl = (\<lambda>_. Err NotFound) \<rparr>, wb_pid = 7, wb_nanos = 9, wb_secs = 0, wb_now = 0,
     wb_reads = (\<lambda>k. if k = 0 then Err NotFound else Ok (str_bytes (response_json ''7-9'' ''accept''))), wb_lag = (\<lambda>_. 0) \<rparr>"

lemma ex_request_id: "request_id ex_waybar = ''7-9''"
proof -
  have "show_nat 7 @ ''-'' @ show_nat 9 = ''7-9''" by code_simp
  then show ?thesis by (simp add: request_id_def ex_waybar_def)
qed

theorem applet_answer_understood_witness:
  "parse_decision (str_bytes (response_json ''7-9'' ''accept'')) ''7-9'' = Some True"
  using applet_answer_understood [of "''accept''" ex_waybar "''7-9''"] by (simp add: ex_request_id)

lemma ex_polls:
  "poll_decision (wb_reads ex_waybar) ''7-9'' 0 = None" "poll_decision (wb_reads ex_waybar) ''7-9'' (Suc 0) = Some True"
proof -
  have "parse_decision (str_bytes (response_json ''7-9'' ''accept'')) ''7-9'' = Some True"
    using parse_response [of "''accept''" ex_waybar "''7-9''"] by (simp add: ex_request_id)
  then show "poll_decision (wb_reads ex_waybar) ''7-9'' (Suc 0) = Some True" by (simp add: poll_decision_def ex_waybar_def)
qed (simp add: poll_decision_def ex_waybar_def)

lemma ex_request_placed: "request_placed ex_waybar passkey ex_fs"
proof -
  have d: "pair_ipc_dir (wb_proc ex_waybar) = Some [''run'', ''user'', ''7'', ''syauth'']"
  proof -
    have "show_nat 7 = ''7''" by code_simp
    moreover from this have "parse_nat (2 ^ 32 - 1) ''7'' = Some 7" using parse_show_nat [of 7 "2 ^ 32 - 1"] by simp
    ultimately show ?thesis by (simp add: pair_ipc_dir_def ex_waybar_def PAIR_IPC_DIR_SUBPATH_def)
  qed
  have a: "ancestors [''run'', ''user'', ''7'', ''syauth''] =
      [[''run''], [''run'', ''user''], [''run'', ''user'', ''7''], [''run'', ''user'', ''7'', ''syauth'']]" by code_simp
  show ?thesis unfolding request_placed_def d
    by (simp add: create_dir_all_def guarded_def a ex_waybar_def ex_env_def ex_fs_def remove_file_def write_file_def write_all_def
        parent_def const_defs Let_def)
qed

lemma ex_lag: "wb_lag ex_waybar j = 0"
  by (simp add: ex_waybar_def)

theorem agent_accepts_exactly_witness:
  "fst (os_confirm_decision ex_waybar 123456 ((bk_new ''hci0'' [] ex_fs)\<lparr> bk_confirm := Some Cs_Waybar \<rparr>)) = Some True"
proof -
  let ?b = "(bk_new ''hci0'' [] ex_fs)\<lparr> bk_confirm := Some Cs_Waybar \<rparr>"
  have "applet_confirms ex_waybar 123456 ?b"
    using ex_request_placed [of 123456] ex_polls
    by (auto simp: applet_confirms_def bk_new_def ex_request_id const_defs ex_lag intro!: exI [of _ "Suc 0"])
  then show ?thesis using agent_accepts_exactly [of ?b ex_waybar 123456] by simp
qed

end
