(* ===== verification/PamInstall.thy ===== *)
theory PamInstall
  imports FileSystem Text
begin

text \<open>
  The commands that edit a PAM service file, \<open>syauth-cli/src/install_pam.rs\<close> and
  \<open>uninstall_pam.rs\<close>: recognition of a directive, insertion of the module's line,
  the optional second line for a security key, the backup, the atomic write and
  the restoration.
\<close>

unbundle bit_operations_syntax

section \<open>Recognition\<close>

definition DEFAULT_PAM_DIR :: path where [const_defs]: "DEFAULT_PAM_DIR = [''etc'', ''pam.d'']"
definition BACKUP_SUFFIX :: string where [const_defs]: "BACKUP_SUFFIX = ''.bak''"
definition DEFAULT_SO_NAME :: string where [const_defs]: "DEFAULT_SO_NAME = ''pam_syauth.so''"
definition DEFAULT_MODULE_ARGS :: string where [const_defs]: "DEFAULT_MODULE_ARGS = ''timeout=8000''"
definition DEFAULT_CONTROL_FLAG :: string where [const_defs]: "DEFAULT_CONTROL_FLAG = ''sufficient''"
definition U2F_FALLBACK_LINE :: string where [const_defs]: "U2F_FALLBACK_LINE = ''auth    sufficient    pam_u2f.so cue''"
definition MODULE_TYPE :: string where [const_defs]: "MODULE_TYPE = ''auth''"
definition FIELD_SEPARATOR :: string where [const_defs]: "FIELD_SEPARATOR = ''    ''"
definition SERVICE_MODE_MASK :: mode where [const_defs]: "SERVICE_MODE_MASK = 4095" \<comment> \<open>0o7777\<close>

text \<open>
  Whether a text begins with a word character: ASCII letters, digits and the
  underscore; for other characters the table of the regular-expression library,
  the parameter \<open>uw\<close>.
\<close>

definition word_at :: "(string \<Rightarrow> bool) \<Rightarrow> string \<Rightarrow> bool" where
  "word_at uw s =
     (case s of
        [] \<Rightarrow> False
      | c # _ \<Rightarrow>
          (let n = (of_char c :: nat) in
           if n < 128 then 48 \<le> n \<and> n \<le> 57 \<or> 65 \<le> n \<and> n \<le> 90 \<or> n = 95 \<or> 97 \<le> n \<and> n \<le> 122 else uw s))"

text \<open>
  The expression \<open>^\s*auth\s+\S+\s+MODULE\b\<close> from a given place on.  White space and
  the rest exclude each other, so every repetition is as long as it can be and
  nothing is ever taken back.
\<close>

definition match_directive :: "(string \<Rightarrow> bool) \<Rightarrow> string \<Rightarrow> string \<Rightarrow> bool" where
  "match_directive uw module s =
     (case strip_prefix (skip_ws s) ''auth'' of
        None \<Rightarrow> False
      | Some s2 \<Rightarrow>
          ws_len s2 \<noteq> 0 \<and>
          (let s3 = skip_ws s2; s4 = skip_nonws s3 in
           s4 \<noteq> s3 \<and> ws_len s4 \<noteq> 0 \<and>
           (case strip_prefix (skip_ws s4) module of
              None \<Rightarrow> False
            | Some s5 \<Rightarrow> \<not> word_at uw s5)))"

text \<open>The places a line begins at: the start and after each newline.\<close>

fun line_starts :: "string \<Rightarrow> string list" where
  "line_starts [] = []"
| "line_starts (c # cs) = (if c = NL then cs # line_starts cs else line_starts cs)"

definition is_match :: "(string \<Rightarrow> bool) \<Rightarrow> string \<Rightarrow> string \<Rightarrow> bool" where
  "is_match uw module s = list_ex (match_directive uw module) (s # line_starts s)"

definition recognition_regex_match :: "(string \<Rightarrow> bool) \<Rightarrow> string \<Rightarrow> bool" where
  "recognition_regex_match uw body = is_match uw ''pam_syauth.so'' body"

definition u2f_recognition_match :: "(string \<Rightarrow> bool) \<Rightarrow> string \<Rightarrow> bool" where
  "u2f_recognition_match uw body = is_match uw ''pam_u2f.so'' body"

definition is_auth_directive :: "string \<Rightarrow> bool" where
  "is_auth_directive line =
     (case strip_prefix (skip_ws line) ''auth'' of None \<Rightarrow> False | Some rest \<Rightarrow> ws_len rest \<noteq> 0)"

section \<open>Editing the text\<close>

record install_opts =
  io_service :: string
  io_pam_dir :: path
  io_module_args :: string
  io_so_path :: string
  io_yes :: bool
  io_with_presenced :: bool
  io_presenced_dry_run :: bool
  io_presenced_unit_dir :: "path option"
  io_presenced_from :: "path option"
  io_control :: string
  io_with_u2f_fallback :: bool

fun split_inclusive :: "char \<Rightarrow> string \<Rightarrow> string list" where
  "split_inclusive d [] = []"
| "split_inclusive d (c # cs) =
     (if c = d then [c] # split_inclusive d cs
      else case split_inclusive d cs of [] \<Rightarrow> [[c]] | w # ws \<Rightarrow> (c # w) # ws)"

definition build_line :: "install_opts \<Rightarrow> string" where
  "build_line opts =
     MODULE_TYPE @ FIELD_SEPARATOR @ io_control opts @ FIELD_SEPARATOR @ io_so_path opts @ '' '' @ io_module_args opts"

fun insert_loop :: "string \<Rightarrow> bool \<Rightarrow> string list \<Rightarrow> string \<Rightarrow> string \<times> bool" where
  "insert_loop new_line inserted [] out = (out, inserted)"
| "insert_loop new_line inserted (line # ls) out =
     (if \<not> inserted \<and> is_auth_directive line
      then insert_loop new_line True ls (out @ new_line @ [NL] @ line)
      else insert_loop new_line inserted ls (out @ line))"

definition insert_line :: "string \<Rightarrow> string \<Rightarrow> string" where
  "insert_line original new_line =
     (case insert_loop new_line False (split_inclusive NL original) [] of
        (out, inserted) \<Rightarrow> if inserted then out else new_line @ [NL] @ original)"

fun u2f_loop :: "bool \<Rightarrow> string list \<Rightarrow> string \<Rightarrow> string" where
  "u2f_loop inserted [] out = out"
| "u2f_loop inserted (line # ls) out =
     (if \<not> inserted \<and> contains_str line ''pam_syauth.so''
      then u2f_loop True ls (out @ line @ U2F_FALLBACK_LINE @ [NL])
      else u2f_loop inserted ls (out @ line))"

definition maybe_insert_u2f_fallback :: "(string \<Rightarrow> bool) \<Rightarrow> string \<Rightarrow> bool \<Rightarrow> string" where
  "maybe_insert_u2f_fallback uw body enabled =
     (if \<not> enabled then body
      else if u2f_recognition_match uw body then body
      else u2f_loop False (split_inclusive NL body) [])"

section \<open>Installing\<close>

datatype install_error =
    In_ServiceNotFound path | In_BackupExists path | In_NotUtf8 path | In_Io path io_error | In_Persist path io_error

datatype install_outcome = AlreadyInstalled path | Installed path path

text \<open>Service names are plain file names.\<close>

definition service_path :: "path \<Rightarrow> string \<Rightarrow> path" where
  "service_path pam_dir service = pam_dir @ [service]"

definition backup_path :: "path \<Rightarrow> string \<Rightarrow> path" where
  "backup_path pam_dir service = pam_dir @ [service @ BACKUP_SUFFIX]"

definition read_utf8 :: "sys_env \<Rightarrow> fs \<Rightarrow> path \<Rightarrow> install_error + string" where
  "read_utf8 e s p =
     (case read_file e s p of
        Inl err \<Rightarrow> Err (In_Io p err)
      | Inr bs \<Rightarrow> (case from_utf8 bs of None \<Rightarrow> Err (In_NotUtf8 p) | Some t \<Rightarrow> Ok t))"

definition file_mode :: "sys_env \<Rightarrow> fs \<Rightarrow> path \<Rightarrow> install_error + mode" where
  "file_mode e s p = (case metadata e s p of Inl err \<Rightarrow> Err (In_Io p err) | Inr n \<Rightarrow> Ok (node_mode n AND SERVICE_MODE_MASK))"

text \<open>The steps on the temporary file: write, sync, then the mode, before the rename.\<close>

definition write_steps :: "sys_env \<Rightarrow> (path \<Rightarrow> io_error \<Rightarrow> 'e) \<Rightarrow> bytes \<Rightarrow> mode \<Rightarrow> (path \<Rightarrow> fs \<Rightarrow> ('e + unit) \<times> fs) list" where
  "write_steps e io bs md =
     [\<lambda>tmp s. on_err (io tmp) (write_all e tmp bs s),
      \<lambda>tmp s. on_err (io tmp) (sync_all e tmp s),
      \<lambda>tmp s. on_err (io tmp) (set_permissions e tmp md s)]"

definition atomic_write :: "sys_env \<Rightarrow> path \<Rightarrow> string \<Rightarrow> mode \<Rightarrow> fs \<Rightarrow> (install_error + unit) \<times> fs" where
  "atomic_write e target contents md s =
     replace_via_temp e (butlast target) (In_Io (butlast target)) (write_steps e In_Io (str_bytes contents) md)
       target (In_Persist target) s"

definition take_backup :: "sys_env \<Rightarrow> path \<Rightarrow> path \<Rightarrow> mode \<Rightarrow> fs \<Rightarrow> (install_error + unit) \<times> fs" where
  "take_backup e service backup md s =
     (if path_exists e s backup then (Err (In_BackupExists backup), s)
      else case copy_file e service backup s of
        (Inl err, s1) \<Rightarrow> (Err (In_Io backup err), s1)
      | (Inr _, s1) \<Rightarrow> on_err (In_Io backup) (set_permissions e backup md s1))"

definition pam_install :: "(string \<Rightarrow> bool) \<Rightarrow> sys_env \<Rightarrow> install_opts \<Rightarrow> fs \<Rightarrow> (install_error + install_outcome) \<times> fs" where
  "pam_install uw e opts s =
     (let service = service_path (io_pam_dir opts) (io_service opts);
          backup = backup_path (io_pam_dir opts) (io_service opts) in
      if \<not> path_exists e s service then (Err (In_ServiceNotFound service), s)
      else case read_utf8 e s service of
        Inl err \<Rightarrow> (Err err, s)
      | Inr original \<Rightarrow>
          (let syauth_present = recognition_regex_match uw original;
               u2f_present = u2f_recognition_match uw original;
               needs_u2f_insert = (io_with_u2f_fallback opts \<and> \<not> u2f_present) in
           if syauth_present \<and> \<not> needs_u2f_insert then (Ok (AlreadyInstalled service), s)
           else case file_mode e s service of
             Inl err \<Rightarrow> (Err err, s)
           | Inr md \<Rightarrow>
               (case (if syauth_present then (Ok (), s) else take_backup e service backup md s) of
                  (Inl err, s1) \<Rightarrow> (Err err, s1)
                | (Inr _, s1) \<Rightarrow>
                    (let with_syauth = (if syauth_present then original else insert_line original (build_line opts));
                         new_contents = maybe_insert_u2f_fallback uw with_syauth (io_with_u2f_fallback opts) in
                     case atomic_write e service new_contents md s1 of
                       (Inl err, s2) \<Rightarrow> (Err err, s2)
                     | (Inr _, s2) \<Rightarrow> (Ok (Installed service backup), s2)))))"

section \<open>Uninstalling\<close>

datatype uninstall_error =
    Un_ServiceNotFound path | Un_BackupMissing path path | Un_NotUtf8 path | Un_Io path io_error | Un_Persist path io_error

datatype uninstall_outcome = NotInstalled path | Restored path path

definition un_read_utf8 :: "sys_env \<Rightarrow> fs \<Rightarrow> path \<Rightarrow> uninstall_error + string" where
  "un_read_utf8 e s p =
     (case read_file e s p of
        Inl err \<Rightarrow> Err (Un_Io p err)
      | Inr bs \<Rightarrow> (case from_utf8 bs of None \<Rightarrow> Err (Un_NotUtf8 p) | Some t \<Rightarrow> Ok t))"

definition un_file_mode :: "sys_env \<Rightarrow> fs \<Rightarrow> path \<Rightarrow> uninstall_error + mode" where
  "un_file_mode e s p = (case metadata e s p of Inl err \<Rightarrow> Err (Un_Io p err) | Inr n \<Rightarrow> Ok (node_mode n AND SERVICE_MODE_MASK))"

definition atomic_restore :: "sys_env \<Rightarrow> path \<Rightarrow> bytes \<Rightarrow> mode \<Rightarrow> fs \<Rightarrow> (uninstall_error + unit) \<times> fs" where
  "atomic_restore e target bs md s =
     replace_via_temp e (butlast target) (Un_Io (butlast target)) (write_steps e Un_Io bs md) target (Un_Persist target) s"

definition pam_uninstall :: "(string \<Rightarrow> bool) \<Rightarrow> sys_env \<Rightarrow> path \<Rightarrow> string \<Rightarrow> fs \<Rightarrow> (uninstall_error + uninstall_outcome) \<times> fs" where
  "pam_uninstall uw e pam_dir name s =
     (let service = service_path pam_dir name; backup = backup_path pam_dir name in
      if \<not> path_exists e s service then (Err (Un_ServiceNotFound service), s)
      else case un_read_utf8 e s service of
        Inl err \<Rightarrow> (Err err, s)
      | Inr body \<Rightarrow>
          if \<not> recognition_regex_match uw body then (Ok (NotInstalled service), s)
          else if \<not> path_exists e s backup then (Err (Un_BackupMissing backup service), s)
          else case read_file e s backup of
            Inl err \<Rightarrow> (Err (Un_Io backup err), s)
          | Inr bak_bytes \<Rightarrow>
              (case un_file_mode e s service of
                 Inl err \<Rightarrow> (Err err, s)
               | Inr md \<Rightarrow>
                   (case atomic_restore e service bak_bytes md s of
                      (Inl err, s1) \<Rightarrow> (Err err, s1)
                    | (Inr _, s1) \<Rightarrow>
                        (case remove_file e backup s1 of
                           (Inl err, s2) \<Rightarrow> (Err (Un_Io backup err), s2)
                         | (Inr _, s2) \<Rightarrow> (Ok (Restored service backup), s2)))))"

section \<open>Lemmas: pieces of a text\<close>

lemma concat_split_inclusive [simp]: "concat (split_inclusive d s) = s"
  by (induction s) (auto split: list.splits)

text \<open>A list of pieces is terminated when each ends with a newline.\<close>

definition terminated :: "string list \<Rightarrow> bool" where
  "terminated ls \<longleftrightarrow> (\<forall>l \<in> set ls. l \<noteq> [] \<and> last l = NL)"

lemma terminated_simps [simp]:
  "terminated []" "terminated (xs @ ys) \<longleftrightarrow> terminated xs \<and> terminated ys" "terminated ((l @ [NL]) # xs) = terminated xs"
  by (auto simp: terminated_def)

lemma terminated_concat: "terminated ls \<Longrightarrow> concat ls = [] \<or> last (concat ls) = NL"
  by (induction ls rule: rev_induct) (auto simp: terminated_def)

lemma split_inclusive_eq_Nil [simp]: "split_inclusive d s = [] \<longleftrightarrow> s = []"
  by (cases s) (auto split: list.splits)

lemma split_inclusive_append:
  "pre = [] \<or> last pre = d \<Longrightarrow> split_inclusive d (pre @ t) = split_inclusive d pre @ split_inclusive d t"
  by (induction pre) (auto split: list.splits)

lemma split_inclusive_terminated:
  assumes "pre = [] \<or> last pre = NL"
  shows "terminated (split_inclusive NL pre)"
proof (cases pre rule: rev_cases)
  case (snoc p c)
  have "terminated (split_inclusive NL (p @ [NL]))"
  proof (induction p)
    case (Cons d p)
    obtain w ws where "split_inclusive NL (p @ [NL]) = w # ws" by (cases "split_inclusive NL (p @ [NL])") auto
    with Cons show ?case by (auto simp: terminated_def)
  qed (simp add: terminated_def)
  with snoc assms show ?thesis by simp
qed simp

lemma split_inclusive_line: "d \<notin> set l \<Longrightarrow> split_inclusive d (l @ d # t) = (l @ [d]) # split_inclusive d t"
  by (induction l) auto

lemma split_inclusive_parts:
  "split_inclusive NL s = xs @ y # ys \<Longrightarrow> terminated xs"
proof (induction s arbitrary: xs y ys)
  case (Cons c cs)
  show ?case
  proof (cases "c = NL")
    case True
    with Cons.prems obtain xs' where "xs = [] \<or> xs = [NL] # xs' \<and> split_inclusive NL cs = xs' @ y # ys"
      by (cases xs) auto
    then show ?thesis using Cons.IH [of xs' y ys] by (auto simp: terminated_def)
  next
    case False
    then show ?thesis
    proof (cases "split_inclusive NL cs")
      case Nil
      with False Cons.prems show ?thesis by (cases xs) auto
    next
      case (Cons w ws)
      show ?thesis
      proof (cases xs)
        case (Cons x xs')
        with False Cons.prems \<open>split_inclusive NL cs = w # ws\<close> have "x = c # w" "split_inclusive NL cs = (w # xs') @ y # ys" by auto
        then show ?thesis using Cons.IH [of "w # xs'" y ys] Cons by (auto simp: terminated_def)
      qed simp
    qed
  qed
qed simp

section \<open>Lemmas: recognition\<close>

lemma line_starts_append: "t \<in> set (line_starts (pre @ NL # t))"
  by (induction pre) auto

lemma is_match_at:
  assumes "pre = [] \<or> last pre = NL" "match_directive uw m t"
  shows "is_match uw m (pre @ t)"
proof (cases pre rule: rev_cases)
  case Nil
  with assms(2) show ?thesis by (simp add: is_match_def)
next
  case (snoc p c)
  with assms(1) have "t \<in> set (line_starts (pre @ t))" using line_starts_append [of t p] by simp
  with assms(2) show ?thesis by (auto simp: is_match_def list_ex_iff)
qed

lemma is_match_lines:
  assumes "terminated P" "match_directive uw m (concat (l # Q))"
  shows "is_match uw m (concat (P @ l # Q))"
  using is_match_at [OF terminated_concat [OF assms(1)] assms(2)] by simp

text \<open>An ASCII word: no white space, nothing outside ASCII.\<close>

definition ascii_word :: "string \<Rightarrow> bool" where
  "ascii_word w \<longleftrightarrow> w \<noteq> [] \<and> (\<forall>c \<in> set w. \<not> is_space c \<and> (of_char c :: nat) < 128)"

lemma ws_len_ascii: "\<not> is_space c \<Longrightarrow> (of_char c :: nat) < 128 \<Longrightarrow> ws_len (c # cs) = 0"
  by (auto simp: ws_len.simps white2_def white3_def split: list.splits)

lemma ws_len_blank [simp]: "ws_len (CHR '' '' # cs) = 1"
  by (simp add: ws_len.simps is_space_def)

lemma skip_ws_word: "ascii_word w \<Longrightarrow> skip_ws (w @ rest) = w @ rest"
  by (cases w) (auto simp: ascii_word_def skip_ws.simps [of "_ # _"] ws_len_ascii)

lemma skip_ws_blank: "skip_ws (CHR '' '' # s) = skip_ws s"
  by (subst skip_ws.simps) simp

lemma skip_nonws_word:
  "ascii_word w \<Longrightarrow> ws_len rest \<noteq> 0 \<Longrightarrow> skip_nonws (w @ rest) = rest"
proof (induction w)
  case (Cons c w)
  have c: "ws_len (c # w @ rest) = 0" using Cons.prems(1) by (intro ws_len_ascii) (auto simp: ascii_word_def)
  show ?case
  proof (cases w)
    case Nil
    then show ?thesis using Cons.prems c by (cases rest) auto
  next
    case (Cons d w')
    then have "ascii_word w" using Cons.prems(1) by (auto simp: ascii_word_def)
    then show ?thesis using Cons.IH Cons.prems(2) c by simp
  qed
qed (simp add: ascii_word_def)

lemma match_line:
  assumes "ascii_word ctrl" "ascii_word m"
  shows "match_directive uw m (''auth'' @ ''    '' @ ctrl @ ''    '' @ m @ '' '' @ rest)"
proof -
  have auth: "ascii_word ''auth''" by (simp add: ascii_word_def is_space_def)
  have "ctrl \<noteq> []" using assms(1) by (simp add: ascii_word_def)
  have p: "strip_prefix (skip_ws (''auth'' @ ''    '' @ ctrl @ ''    '' @ m @ '' '' @ rest)) ''auth''
      = Some (''    '' @ ctrl @ ''    '' @ m @ '' '' @ rest)"
    unfolding skip_ws_word [OF auth] by (rule strip_prefix_append)
  have q: "skip_ws (''    '' @ ctrl @ ''    '' @ m @ '' '' @ rest) = ctrl @ ''    '' @ m @ '' '' @ rest"
    using skip_ws_word [OF assms(1), of "''    '' @ m @ '' '' @ rest"] by (simp add: skip_ws_blank)
  have r: "skip_nonws (ctrl @ ''    '' @ m @ '' '' @ rest) = ''    '' @ m @ '' '' @ rest"
    by (rule skip_nonws_word [OF assms(1)]) simp
  have t: "skip_ws (''    '' @ m @ '' '' @ rest) = m @ '' '' @ rest"
    using skip_ws_word [OF assms(2), of "'' '' @ rest"] by (simp add: skip_ws_blank)
  show ?thesis
    unfolding match_directive_def p option.case q r t Let_def strip_prefix_append
    using \<open>ctrl \<noteq> []\<close> by (simp add: word_at_def)
qed

section \<open>Lemmas: the edited text\<close>

lemma insert_loop_done: "insert_loop l True ls out = (out @ concat ls, True)"
  by (induction ls arbitrary: out) auto

lemma insert_loop_spec:
  "insert_loop l False ls out =
     (if list_ex is_auth_directive ls
      then (out @ concat (takeWhile (\<lambda>x. \<not> is_auth_directive x) ls) @ l @ NL # concat (dropWhile (\<lambda>x. \<not> is_auth_directive x) ls), True)
      else (out @ concat ls, False))"
  by (induction ls arbitrary: out) (auto simp: insert_loop_done)

lemma insert_line_parts:
  obtains xs ys where "split_inclusive NL original = xs @ ys" "insert_line original l = concat xs @ l @ NL # concat ys"
    "terminated xs" "\<not> list_ex is_auth_directive xs" "xs = [] \<or> (\<exists>y ys'. ys = y # ys' \<and> is_auth_directive y)"
proof (cases "list_ex is_auth_directive (split_inclusive NL original)")
  case False
  then show thesis by (intro that [of "[]" "split_inclusive NL original"]) (auto simp: insert_line_def insert_loop_spec)
next
  case True
  let ?P = "\<lambda>x. \<not> is_auth_directive x" and ?ls = "split_inclusive NL original"
  have "dropWhile ?P ?ls \<noteq> []" using True by (auto simp: list_ex_iff dropWhile_eq_Nil_conv)
  then obtain y ys where y: "dropWhile ?P ?ls = y # ys" by (cases "dropWhile ?P ?ls") auto
  then have "is_auth_directive y" using hd_dropWhile [of ?P ?ls] by simp
  moreover have ls: "?ls = takeWhile ?P ?ls @ y # ys" by (metis y takeWhile_dropWhile_id)
  moreover have "insert_line original l = concat (takeWhile ?P ?ls) @ l @ NL # concat (y # ys)"
    using True y by (simp add: insert_line_def insert_loop_spec)
  ultimately show thesis
    by (intro that [of "takeWhile ?P ?ls" "y # ys"]) (auto simp: list_ex_iff split_inclusive_parts dest: set_takeWhileD)
qed

lemma contains_middle: "contains_str (a @ pat @ b) pat"
proof (induction a)
  case Nil
  have "starts_with (pat @ b) pat" by (simp add: starts_with_def)
  then show ?case by (cases "pat @ b") auto
qed simp

lemma u2f_loop_done: "u2f_loop True ls out = out @ concat ls"
  by (induction ls arbitrary: out) auto

text \<open>The second line goes after a terminated piece, at the latest after the module's own line.\<close>

lemma u2f_loop_parts:
  assumes "terminated P" "contains_str (l @ [NL]) ''pam_syauth.so''"
  shows "\<exists>P' Q'. u2f_loop False (P @ (l @ [NL]) # Q) out = out @ concat (P' @ (l @ [NL]) # Q') \<and> terminated P' \<and>
           (U2F_FALLBACK_LINE @ [NL] \<in> set P' \<or> Q' = (U2F_FALLBACK_LINE @ [NL]) # Q)"
  using assms(1)
proof (induction P arbitrary: out)
  case Nil
  show ?case using assms(2) by (intro exI [of _ "[]"] exI [of _ "(U2F_FALLBACK_LINE @ [NL]) # Q"]) (simp add: u2f_loop_done)
next
  case (Cons p P)
  then have p: "terminated [p]" "terminated P" by (auto simp: terminated_def)
  show ?case
  proof (cases "contains_str p ''pam_syauth.so''")
    case True
    have "terminated (p # (U2F_FALLBACK_LINE @ [NL]) # P)" using p by (simp add: terminated_def)
    then show ?thesis using True
      by (intro exI [of _ "p # (U2F_FALLBACK_LINE @ [NL]) # P"] exI [of _ Q]) (simp add: u2f_loop_done)
  next
    case False
    obtain P' Q' where "u2f_loop False (P @ (l @ [NL]) # Q) (out @ p) = (out @ p) @ concat (P' @ (l @ [NL]) # Q')" "terminated P'"
        "U2F_FALLBACK_LINE @ [NL] \<in> set P' \<or> Q' = (U2F_FALLBACK_LINE @ [NL]) # Q"
      using Cons.IH [OF p(2), of "out @ p"] by blast
    moreover have "terminated (p # P')" using p(1) \<open>terminated P'\<close> by (simp add: terminated_def)
    ultimately show ?thesis using False by (intro exI [of _ "p # P'"] exI [of _ Q']) simp
  qed
qed

definition plain_opts :: "install_opts \<Rightarrow> bool" where
  "plain_opts opts \<longleftrightarrow> ascii_word (io_control opts) \<and> io_so_path opts = ''pam_syauth.so'' \<and> NL \<notin> set (io_module_args opts)"

lemma ascii_words: "ascii_word ''pam_syauth.so''" "ascii_word ''pam_u2f.so''" "ascii_word ''sufficient''"
  by (simp_all add: ascii_word_def is_space_def)

lemma build_line_matches: "plain_opts opts \<Longrightarrow> match_directive uw ''pam_syauth.so'' (build_line opts @ rest)"
  using match_line [OF _ ascii_words(1), of "io_control opts" uw "io_module_args opts @ rest"]
  by (simp add: build_line_def plain_opts_def MODULE_TYPE_def FIELD_SEPARATOR_def)

lemma u2f_line_matches: "match_directive uw ''pam_u2f.so'' (U2F_FALLBACK_LINE @ rest)"
  using match_line [OF ascii_words(3,2), of uw "''cue'' @ rest"] by (simp add: U2F_FALLBACK_LINE_def)

lemma NL_code: "NL = CHR 0x0A"
  by code_simp

lemma build_line_no_newline: "plain_opts opts \<Longrightarrow> NL \<notin> set (build_line opts)"
  by (auto simp: build_line_def plain_opts_def ascii_word_def MODULE_TYPE_def FIELD_SEPARATOR_def is_space_def NL_code)

lemma installed_text_recognized:
  assumes "plain_opts opts" "t = maybe_insert_u2f_fallback uw (insert_line original (build_line opts)) (io_with_u2f_fallback opts)"
  shows "recognition_regex_match uw t \<and> (io_with_u2f_fallback opts \<longrightarrow> u2f_recognition_match uw t)"
proof -
  let ?l = "build_line opts"
  obtain xs ys where ins: "insert_line original ?l = concat xs @ ?l @ NL # concat ys" "terminated xs"
    by (rule insert_line_parts)
  have sy: "recognition_regex_match uw (concat (P @ (?l @ [NL]) # Q))" if "terminated P" for P Q
    using is_match_lines [OF that, of uw _ "?l @ [NL]" Q] build_line_matches [OF assms(1)]
    by (simp add: recognition_regex_match_def)
  have u2: "u2f_recognition_match uw (concat (P @ (U2F_FALLBACK_LINE @ [NL]) # Q))" if "terminated P" for P Q
    using is_match_lines [OF that, of uw _ "U2F_FALLBACK_LINE @ [NL]" Q] u2f_line_matches
    by (simp add: u2f_recognition_match_def)
  have base: "recognition_regex_match uw (insert_line original ?l)" using sy [OF ins(2), of "[concat ys]"] ins(1) by simp
  show ?thesis
  proof (cases "io_with_u2f_fallback opts \<and> \<not> u2f_recognition_match uw (insert_line original ?l)")
    case False
    then show ?thesis using base assms(2) by (auto simp: maybe_insert_u2f_fallback_def)
  next
    case True
    have "split_inclusive NL (insert_line original ?l) = split_inclusive NL (concat xs) @ (?l @ [NL]) # split_inclusive NL (concat ys)"
      unfolding ins(1)
      by (subst split_inclusive_append) (use terminated_concat [OF ins(2)] build_line_no_newline [OF assms(1)] in \<open>auto simp: split_inclusive_line\<close>)
    moreover have "terminated (split_inclusive NL (concat xs))"
      by (rule split_inclusive_terminated [OF terminated_concat [OF ins(2)]])
    moreover have "contains_str (?l @ [NL]) ''pam_syauth.so''"
      using assms(1) contains_middle [of "MODULE_TYPE @ FIELD_SEPARATOR @ io_control opts @ FIELD_SEPARATOR" "''pam_syauth.so''"]
      by (simp add: build_line_def plain_opts_def)
    ultimately obtain P' Q' Q where t: "t = concat (P' @ (?l @ [NL]) # Q')" "terminated P'"
        "U2F_FALLBACK_LINE @ [NL] \<in> set P' \<or> Q' = (U2F_FALLBACK_LINE @ [NL]) # Q"
      using u2f_loop_parts [of "split_inclusive NL (concat xs)" ?l "split_inclusive NL (concat ys)" "[]"] True assms(2)
      by (auto simp: maybe_insert_u2f_fallback_def)
    have "u2f_recognition_match uw t"
      using t(3)
    proof
      assume "U2F_FALLBACK_LINE @ [NL] \<in> set P'"
      then obtain P1 P2 where "P' = P1 @ (U2F_FALLBACK_LINE @ [NL]) # P2" by (meson split_list)
      then show ?thesis using t(1,2) u2 [of P1 "P2 @ (?l @ [NL]) # Q'"] by simp
    next
      assume "Q' = (U2F_FALLBACK_LINE @ [NL]) # Q"
      then show ?thesis using t(1,2) u2 [of "P' @ [?l @ [NL]]" Q] by simp
    qed
    then show ?thesis using sy [OF t(2)] t(1) by simp
  qed
qed

lemma newline_ascii: "byte_of_char NL < 128"
  by (simp add: byte_of_char_def word_less_nat_alt)

lemma str_bytes_append [simp]: "str_bytes (a @ b) = str_bytes a @ str_bytes b" "str_bytes (c # b) = byte_of_char c # str_bytes b"
  by (simp_all add: str_bytes_def)

lemma utf8_line_cut:
  assumes "pre = [] \<or> last pre = NL"
  shows "utf8_valid (str_bytes (pre @ t)) \<longleftrightarrow> utf8_valid (str_bytes pre) \<and> utf8_valid (str_bytes t)"
proof (cases pre rule: rev_cases)
  case (snoc p c)
  with assms have pre: "pre = p @ [NL]" by simp
  show ?thesis
    using utf8_valid_cut [OF newline_ascii, of "str_bytes p"] utf8_valid_cut [OF newline_ascii, of "str_bytes p" "[]"]
    by (simp add: pre str_bytes_def)
qed (simp add: str_bytes_def)

lemma u2f_loop_utf8:
  "utf8_valid (str_bytes out) \<Longrightarrow> (\<forall>l \<in> set ls. utf8_valid (str_bytes l)) \<Longrightarrow> utf8_valid (str_bytes (u2f_loop b ls out))"
proof (induction b ls out rule: u2f_loop.induct)
  case (2 inserted line ls out)
  have "utf8_valid (str_bytes (U2F_FALLBACK_LINE @ [NL]))"
    by (rule utf8_valid_ascii) (auto simp: U2F_FALLBACK_LINE_def str_bytes_def byte_of_char_def NL_code word_less_nat_alt)
  with 2 show ?case by (auto simp: utf8_valid_append)
qed simp

lemma split_inclusive_utf8:
  assumes "utf8_valid (str_bytes s)" "l \<in> set (split_inclusive NL s)"
  shows "utf8_valid (str_bytes l)"
proof -
  obtain xs ys where ls: "split_inclusive NL s = xs @ l # ys" using assms(2) by (meson split_list)
  then have s: "s = concat xs @ l @ concat ys" by (metis concat.simps(2) concat_append concat_split_inclusive)
  have "utf8_valid (str_bytes (l @ concat ys))"
    using assms(1) utf8_line_cut [OF terminated_concat [OF split_inclusive_parts [OF ls]], of "l @ concat ys"] by (simp add: s)
  moreover have "ys = [] \<or> last l = NL \<and> l \<noteq> []"
  proof (cases ys)
    case (Cons y ys')
    then have "split_inclusive NL s = (xs @ [l]) @ y # ys'" using ls by simp
    from split_inclusive_parts [OF this] show ?thesis by (auto simp: terminated_def)
  qed simp
  ultimately show ?thesis using utf8_line_cut [of l "concat ys"] by (auto simp: str_bytes_def)
qed

lemma installed_text_utf8:
  assumes "utf8_valid (str_bytes original)" "utf8_valid (str_bytes (build_line opts))"
  shows "utf8_valid (str_bytes (maybe_insert_u2f_fallback uw (insert_line original (build_line opts)) b))"
proof -
  let ?l = "build_line opts"
  obtain xs ys where ins: "split_inclusive NL original = xs @ ys" "insert_line original ?l = concat xs @ ?l @ NL # concat ys"
      "terminated xs"
    by (rule insert_line_parts)
  have o: "original = concat xs @ concat ys" by (metis ins(1) concat_append concat_split_inclusive)
  then have parts: "utf8_valid (str_bytes (concat xs))" "utf8_valid (str_bytes (concat ys))"
    using assms(1) utf8_line_cut [OF terminated_concat [OF ins(3)], of "concat ys"] by auto
  have "utf8_valid (str_bytes (insert_line original ?l))"
    using parts assms(2) utf8_valid_cut [OF newline_ascii, of "str_bytes ?l"]
    by (simp add: ins(2) utf8_valid_append del: utf8_valid.simps)
  then show ?thesis
    using u2f_loop_utf8 [of "[]"] split_inclusive_utf8 by (auto simp: maybe_insert_u2f_fallback_def str_bytes_def)
qed

section \<open>Lemmas: files\<close>

lemma local_write_steps: "local_steps (write_steps e io bs md)"
  by (auto simp: write_steps_def on_err_Pair dest: set_permissions_touches write_all_touches sync_all_same)

lemma write_steps_ok:
  assumes "run_steps (write_steps e io bs md) t s1 = (Ok (), s2)" "fs_nodes s1 t = Some (FileNode [] m)"
  shows "fs_nodes s2 t = Some (FileNode bs md)"
proof -
  obtain r1 sa where a: "write_all e t bs s1 = (r1, sa)" by fastforce
  obtain r2 sb where b: "sync_all e t sa = (r2, sb)" by fastforce
  obtain r3 sc where c: "set_permissions e t md sb = (r3, sc)" by fastforce
  from assms(1) have "r1 = Ok ()" "r3 = Ok ()" "s2 = sc"
    by (auto simp: write_steps_def on_err_def a b c split: sum.splits)
  then show ?thesis
    using write_all_ok [of e t bs s1 sa] set_permissions_ok [of e t md sb sc] assms(2) sync_all_same [OF b] a c by auto
qed

text \<open>What the atomic replacement of a file by given bytes does, for both commands.\<close>

lemma replace_file:
  assumes "replace_via_temp e dir terr (write_steps e io bs md) (dir @ [f]) perr s = (r, s')" "f \<noteq> sys_temp e"
  shows "r = Ok () \<Longrightarrow> fs_nodes s' (dir @ [f]) = Some (FileNode bs md)"
    "r \<noteq> Ok () \<Longrightarrow> fs_nodes s' (dir @ [f]) = fs_nodes s (dir @ [f])"
    "only_touches {dir @ [f], dir @ [sys_temp e]} s s'"
    "\<exists>new. fs_all s' = new @ fs_all s \<and> (\<forall>m \<in> set new. m (dir @ [f]) = fs_nodes s (dir @ [f]) \<or> r = Ok () \<and> m (dir @ [f]) = Some (FileNode bs md))"
proof -
  have ne: "dir @ [f] \<noteq> temp_path e dir" using assms(2) by (simp add: temp_path_def)
  note at = replace_via_temp_atomic [OF assms(1) local_write_steps ne]
  show ok: "r = Ok () \<Longrightarrow> fs_nodes s' (dir @ [f]) = Some (FileNode bs md)"
    using replace_via_temp_ok [of e dir terr "write_steps e io bs md" "dir @ [f]" perr s s'] assms(1) ne write_steps_ok
    by (metis (no_types, lifting))
  show "r \<noteq> Ok () \<Longrightarrow> fs_nodes s' (dir @ [f]) = fs_nodes s (dir @ [f])" using at(2) by (cases r) auto
  show "only_touches {dir @ [f], dir @ [sys_temp e]} s s'"
    using replace_via_temp_touches [OF assms(1) local_write_steps] by (simp add: temp_path_def)
  show "\<exists>new. fs_all s' = new @ fs_all s \<and> (\<forall>m \<in> set new. m (dir @ [f]) = fs_nodes s (dir @ [f]) \<or> r = Ok () \<and> m (dir @ [f]) = Some (FileNode bs md))"
    using at(1) ok by (cases r) auto
qed

lemma take_backup_cases:
  assumes "take_backup e service backup md s = (r, s1)" "fs_nodes s service = Some (FileNode bs m)"
  shows "only_touches {backup} s s1" "r = Ok () \<Longrightarrow> service \<noteq> backup \<Longrightarrow> fs_nodes s1 backup = Some (FileNode bs md)"
    "r = Ok () \<Longrightarrow> sys_fail e (OpStat backup) = None \<Longrightarrow> fs_nodes s backup = None"
proof -
  obtain rc sc where c: "copy_file e service backup s = (rc, sc)" by fastforce
  obtain rp sp where p: "set_permissions e backup md sc = (rp, sp)" by fastforce
  have t: "only_touches {backup} s sc" "only_touches {backup} s sp"
    using copy_file_touches [OF c] only_touches_trans [OF _ set_permissions_touches [OF p]] by auto
  show "only_touches {backup} s s1"
    using assms(1) t by (auto simp: take_backup_def c p on_err_def split: if_splits sum.splits)
  show "r = Ok () \<Longrightarrow> service \<noteq> backup \<Longrightarrow> fs_nodes s1 backup = Some (FileNode bs md)"
    using assms(1) copy_file_ok [of e service backup s sc bs m] assms(2) set_permissions_ok [of e backup md sc sp bs m] c p
    by (auto simp: take_backup_def on_err_def split: if_splits sum.splits)
  show "r = Ok () \<Longrightarrow> sys_fail e (OpStat backup) = None \<Longrightarrow> fs_nodes s backup = None"
    using assms(1) by (auto simp: take_backup_def path_exists_def metadata_def split: if_splits option.splits)
qed

text \<open>The file as it is after a first installation.\<close>

definition installed_text :: "(string \<Rightarrow> bool) \<Rightarrow> install_opts \<Rightarrow> string \<Rightarrow> string" where
  "installed_text uw opts original =
     maybe_insert_u2f_fallback uw (insert_line original (build_line opts)) (io_with_u2f_fallback opts)"

abbreviation service_of :: "install_opts \<Rightarrow> path" where "service_of opts \<equiv> io_pam_dir opts @ [io_service opts]"
abbreviation backup_of :: "install_opts \<Rightarrow> path" where "backup_of opts \<equiv> io_pam_dir opts @ [io_service opts @ ''.bak'']"

lemma pam_install_cases:
  assumes "pam_install uw e opts s = (r, s')" "fs_nodes s (service_of opts) = Some (FileNode (str_bytes original) m)"
    "utf8_valid (str_bytes original)" "\<not> recognition_regex_match uw original"
  obtains (early) err where "r = Err err" "s' = s"
    | (backup) err where "take_backup e (service_of opts) (backup_of opts) (m AND 4095) s = (Err err, s')" "r = Err err"
    | (written) s1 r2 where "take_backup e (service_of opts) (backup_of opts) (m AND 4095) s = (Ok (), s1)"
        "replace_via_temp e (io_pam_dir opts) (In_Io (io_pam_dir opts))
           (write_steps e In_Io (str_bytes (installed_text uw opts original)) (m AND 4095)) (service_of opts) (In_Persist (service_of opts)) s1 = (r2, s')"
        "r = (case r2 of Inl err \<Rightarrow> Err err | Inr _ \<Rightarrow> Ok (Installed (service_of opts) (backup_of opts)))"
proof (cases "path_exists e s (service_of opts) \<and> sys_fail e (OpRead (service_of opts)) = None")
  case False
  then show thesis using assms(1) early
    by (auto simp: pam_install_def service_path_def read_utf8_def read_file_def Let_def split: if_splits option.splits)
next
  case True
  have rd: "read_utf8 e s (service_of opts) = Ok original"
    using True assms(2,3) by (simp add: read_utf8_def read_file_def from_utf8_def)
  have md: "file_mode e s (service_of opts) = Ok (m AND 4095)"
    using True assms(2)
    by (auto simp: file_mode_def path_exists_def metadata_def node_mode_def SERVICE_MODE_MASK_def split: option.splits sum.splits)
  obtain rb s1 where tb: "take_backup e (service_of opts) (backup_of opts) (m AND 4095) s = (rb, s1)" by fastforce
  obtain r2 s2 where aw: "atomic_write e (service_of opts) (installed_text uw opts original) (m AND 4095) s1 = (r2, s2)" by fastforce
  have inst: "pam_install uw e opts s = (case rb of Inl err \<Rightarrow> (Err err, s1) | Inr _ \<Rightarrow>
      (case r2 of Inl err \<Rightarrow> (Err err, s2) | Inr _ \<Rightarrow> (Ok (Installed (service_of opts) (backup_of opts)), s2)))"
    using True rd md tb aw assms(4)
    by (simp add: pam_install_def service_path_def backup_path_def BACKUP_SUFFIX_def installed_text_def Let_def split: sum.splits)
  show thesis
  proof (cases rb)
    case (Inl err)
    then show thesis using backup [of err] inst tb assms(1) by simp
  next
    case (Inr u)
    then show thesis using written [of s1 r2] inst tb aw assms(1) by (cases r2) (simp_all add: atomic_write_def)
  qed
qed

section \<open>Properties\<close>

text \<open>
  C34: installing is safe against crashes and errors.  At every instant from the
  start of \<open>install\<close> on, the service file is the original one, or it is complete
  with the module's line and the backup holds the original bytes; when \<open>install\<close>
  returns an error the service file is the original one.
\<close>

theorem install_crash_safe:
  assumes "pam_install uw e opts s = (r, s')" "fs_nodes s (service_of opts) = Some (FileNode (str_bytes original) m)"
    and "utf8_valid (str_bytes original)" "\<not> recognition_regex_match uw original"
    and "io_service opts \<noteq> sys_temp e" "io_service opts @ ''.bak'' \<noteq> sys_temp e"
  shows "\<exists>new. fs_all s' = new @ fs_all s \<and>
           (\<forall>x \<in> set new. x (service_of opts) = Some (FileNode (str_bytes original) m) \<or>
              x (service_of opts) = Some (FileNode (str_bytes (installed_text uw opts original)) (m AND 4095)) \<and>
              x (backup_of opts) = Some (FileNode (str_bytes original) (m AND 4095))) \<and>
           (is_ok r \<or> fs_nodes s' (service_of opts) = Some (FileNode (str_bytes original) m))"
proof -
  have sb: "service_of opts \<noteq> backup_of opts" by simp
  have bk: "\<exists>new. fs_all s1 = new @ fs_all s \<and> (\<forall>x \<in> set new. x (service_of opts) = Some (FileNode (str_bytes original) m))"
    if "only_touches {backup_of opts} s s1" for s1
    using that sb assms(2) unfolding only_touches_def by (metis singletonD)
  from assms(1-4) show ?thesis
  proof (cases rule: pam_install_cases)
    case early
    then show ?thesis using assms(2) by (intro exI [of _ "[]"]) simp
  next
    case (backup err)
    note t = take_backup_cases(1) [OF backup(1) assms(2)]
    show ?thesis using bk [OF t] only_touches_nodes [OF t, of "service_of opts"] assms(2) by auto
  next
    case (written s1 r2)
    note t = take_backup_cases(1) [OF written(1) assms(2)]
    have s1: "fs_nodes s1 (service_of opts) = Some (FileNode (str_bytes original) m)"
        "fs_nodes s1 (backup_of opts) = Some (FileNode (str_bytes original) (m AND 4095))"
      using only_touches_nodes [OF t, of "service_of opts"] take_backup_cases(2) [OF written(1) assms(2)] assms(2) by auto
    note rf = replace_file [OF written(2) assms(5)]
    obtain n1 where n1: "fs_all s1 = n1 @ fs_all s" "\<forall>x \<in> set n1. x (service_of opts) = Some (FileNode (str_bytes original) m)"
      using bk [OF t] by blast
    obtain n2 where n2: "fs_all s' = n2 @ fs_all s1"
        "\<forall>x \<in> set n2. x (service_of opts) = fs_nodes s1 (service_of opts) \<or>
           r2 = Ok () \<and> x (service_of opts) = Some (FileNode (str_bytes (installed_text uw opts original)) (m AND 4095))"
      using rf(4) by blast
    have n3: "\<forall>x \<in> set n2. x (backup_of opts) = Some (FileNode (str_bytes original) (m AND 4095))"
    proof -
      obtain n where "fs_all s' = n @ fs_all s1" "\<forall>x \<in> set n. x (backup_of opts) = fs_nodes s1 (backup_of opts)"
        using rf(3) assms(6) unfolding only_touches_def by fastforce
      then show ?thesis using n2(1) s1(2) by simp
    qed
    have "is_ok r \<or> fs_nodes s' (service_of opts) = Some (FileNode (str_bytes original) m)"
      using written(3) rf(2) s1(1) by (cases r2) auto
    then show ?thesis using n1 n2 n3 s1(1) by (intro exI [of _ "n2 @ n1"]) auto
  qed
qed

lemma pam_install_installed:
  assumes "pam_install uw e opts s = (Ok out, s')" "fs_nodes s (service_of opts) = Some (FileNode (str_bytes original) m)"
    "utf8_valid (str_bytes original)" "\<not> recognition_regex_match uw original"
    "io_service opts \<noteq> sys_temp e" "io_service opts @ ''.bak'' \<noteq> sys_temp e"
  shows "fs_nodes s' (service_of opts) = Some (FileNode (str_bytes (installed_text uw opts original)) (m AND 4095))"
    "fs_nodes s' (backup_of opts) = Some (FileNode (str_bytes original) (m AND 4095))"
    "only_touches {service_of opts, backup_of opts, io_pam_dir opts @ [sys_temp e]} s s'"
proof -
  from assms(1-4) have "\<exists>s1. take_backup e (service_of opts) (backup_of opts) (m AND 4095) s = (Ok (), s1) \<and>
      replace_via_temp e (io_pam_dir opts) (In_Io (io_pam_dir opts))
        (write_steps e In_Io (str_bytes (installed_text uw opts original)) (m AND 4095)) (service_of opts) (In_Persist (service_of opts)) s1 = (Ok (), s')"
    by (cases rule: pam_install_cases) (auto split: sum.splits)
  then obtain s1 where tb: "take_backup e (service_of opts) (backup_of opts) (m AND 4095) s = (Ok (), s1)"
    and wr: "replace_via_temp e (io_pam_dir opts) (In_Io (io_pam_dir opts))
        (write_steps e In_Io (str_bytes (installed_text uw opts original)) (m AND 4095)) (service_of opts) (In_Persist (service_of opts)) s1 = (Ok (), s')"
    by blast
  note t = take_backup_cases [OF tb assms(2)] and rf = replace_file [OF wr assms(5)]
  show "fs_nodes s' (service_of opts) = Some (FileNode (str_bytes (installed_text uw opts original)) (m AND 4095))" using rf(1) by simp
  show "fs_nodes s' (backup_of opts) = Some (FileNode (str_bytes original) (m AND 4095))"
    using only_touches_nodes [OF rf(3), of "backup_of opts"] t(2) assms(6) by simp
  show "only_touches {service_of opts, backup_of opts, io_pam_dir opts @ [sys_temp e]} s s'"
    by (rule only_touches_trans [OF only_touches_mono [OF t(1)] only_touches_mono [OF rf(3)]]) auto
qed

lemma installed_recognized:
  assumes "plain_opts opts" "utf8_valid (str_bytes original)" "utf8_valid (str_bytes (build_line opts))"
  shows "from_utf8 (str_bytes (installed_text uw opts original)) = Some (installed_text uw opts original)"
    "recognition_regex_match uw (installed_text uw opts original)"
    "io_with_u2f_fallback opts \<Longrightarrow> u2f_recognition_match uw (installed_text uw opts original)"
  using installed_text_utf8 [OF assms(2,3)] installed_text_recognized [OF assms(1) installed_text_def]
  by (simp_all add: from_utf8_def installed_text_def)

text \<open>
  Installing twice is the same as installing once.  After a successful
  installation with a one-word control flag and the standard module name, a
  second run with the same options reports that the line is there and changes
  nothing, with and without the second line for a security key.
\<close>

theorem install_idempotent:
  assumes "pam_install uw e opts s = (Ok out, s')" "fs_nodes s (service_of opts) = Some (FileNode (str_bytes original) m)"
    and "utf8_valid (str_bytes original)" "\<not> recognition_regex_match uw original"
    and "io_service opts \<noteq> sys_temp e" "io_service opts @ ''.bak'' \<noteq> sys_temp e"
    and "plain_opts opts" "utf8_valid (str_bytes (build_line opts))"
    and "sys_fail e2 (OpStat (service_of opts)) = None" "sys_fail e2 (OpRead (service_of opts)) = None"
  shows "pam_install uw e2 opts s' = (Ok (AlreadyInstalled (service_of opts)), s')"
proof -
  note n = pam_install_installed(1) [OF assms(1-6)] and r = installed_recognized [OF assms(7,3,8), of uw]
  have "path_exists e2 s' (service_of opts)" "read_utf8 e2 s' (service_of opts) = Ok (installed_text uw opts original)"
    using n r(1) assms(9,10) by (simp_all add: path_exists_def metadata_def read_utf8_def read_file_def)
  then show ?thesis using r(2,3) by (auto simp: pam_install_def service_path_def Let_def)
qed

lemma pam_uninstall_ok:
  assumes "pam_uninstall uw e dir name s = (Ok out, s')" "fs_nodes s (dir @ [name]) = Some (FileNode (str_bytes t) m)"
    "from_utf8 (str_bytes t) = Some t" "recognition_regex_match uw t"
    "fs_nodes s (dir @ [name @ ''.bak'']) = Some (FileNode bs m2)" "name \<noteq> sys_temp e"
  shows "out = Restored (dir @ [name]) (dir @ [name @ ''.bak''])"
    "fs_nodes s' (dir @ [name]) = Some (FileNode bs (m AND 4095))" "fs_nodes s' (dir @ [name @ ''.bak'']) = None"
    "only_touches {dir @ [name], dir @ [name @ ''.bak''], dir @ [sys_temp e]} s s'"
proof -
  have r1: "un_read_utf8 e s (dir @ [name]) = Ok t" if "path_exists e s (dir @ [name])"
    using assms(1-3) that
    by (auto simp: pam_uninstall_def service_path_def un_read_utf8_def read_file_def Let_def split: option.splits)
  have ex: "path_exists e s (dir @ [name])" using assms(1) by (auto simp: pam_uninstall_def service_path_def Let_def split: if_splits)
  have md: "un_file_mode e s (dir @ [name]) = Ok (m AND 4095)"
    using ex assms(2) by (auto simp: path_exists_def un_file_mode_def metadata_def node_mode_def SERVICE_MODE_MASK_def split: option.splits sum.splits)
  have rb: "read_file e s (dir @ [name @ ''.bak'']) = Ok bs"
    using assms(1,4,5) ex r1 [OF ex]
    by (auto simp: pam_uninstall_def service_path_def backup_path_def BACKUP_SUFFIX_def read_file_def Let_def split: if_splits option.splits)
  obtain x s1 where ar: "atomic_restore e (dir @ [name]) bs (m AND 4095) s = (x, s1)" by fastforce
  obtain y s2 where rm: "remove_file e (dir @ [name @ ''.bak'']) s1 = (y, s2)" by fastforce
  have xy: "x = Ok ()" "y = Ok ()" "s' = s2" "out = Restored (dir @ [name]) (dir @ [name @ ''.bak''])"
    using assms(1,4) ex r1 [OF ex] md rb ar rm
    by (auto simp: pam_uninstall_def service_path_def backup_path_def BACKUP_SUFFIX_def Let_def split: if_splits sum.splits)
  note rf = replace_file [OF ar [unfolded atomic_restore_def butlast_snoc] assms(6)] and rt = remove_file_touches [OF rm]
  show "out = Restored (dir @ [name]) (dir @ [name @ ''.bak''])" by (rule xy(4))
  show "fs_nodes s' (dir @ [name]) = Some (FileNode bs (m AND 4095))"
    using only_touches_nodes [OF rt, of "dir @ [name]"] rf(1) xy by simp
  show "fs_nodes s' (dir @ [name @ ''.bak'']) = None"
    using rm xy(2,3) by (auto simp: remove_file_def guarded_def split: option.splits node.splits)
  show "only_touches {dir @ [name], dir @ [name @ ''.bak''], dir @ [sys_temp e]} s s'"
    unfolding xy(3) by (rule only_touches_trans [OF only_touches_mono [OF rf(3)] only_touches_mono [OF rt]]) auto
qed

text \<open>
  C35: Uninstalling undoes installing.  Take an installation with a control flag of
  one word, such as the default \<open>sufficient\<close>, the default module name and arguments
  on one line, into a service file that has no syauth line yet.  When it and a later
  uninstallation both succeed, the service file has its original bytes and permission
  bits again, the backup is gone, and no file but the temporary ones differs from
  before.  (A bracketed control of several words is outside of this: the
  uninstaller does not recognise the line.)
\<close>

theorem install_uninstall_roundtrip:
  assumes "pam_install uw e opts s = (Ok out, s1)" "fs_nodes s (service_of opts) = Some (FileNode (str_bytes original) m)"
    and "utf8_valid (str_bytes original)" "\<not> recognition_regex_match uw original"
    and "io_service opts \<noteq> sys_temp e" "io_service opts @ ''.bak'' \<noteq> sys_temp e"
    and "plain_opts opts" "utf8_valid (str_bytes (build_line opts))"
    and "pam_uninstall uw e2 (io_pam_dir opts) (io_service opts) s1 = (Ok out2, s2)" "io_service opts \<noteq> sys_temp e2"
  shows "out2 = Restored (service_of opts) (backup_of opts) \<and>
         fs_nodes s2 (service_of opts) = Some (FileNode (str_bytes original) (m AND 4095)) \<and>
         fs_nodes s2 (backup_of opts) = None \<and>
         (\<forall>p. p \<notin> {service_of opts, backup_of opts, io_pam_dir opts @ [sys_temp e], io_pam_dir opts @ [sys_temp e2]} \<longrightarrow>
            fs_nodes s2 p = fs_nodes s p)"
proof -
  note i = pam_install_installed [OF assms(1-6)] and r = installed_recognized [OF assms(7,3,8), of uw]
  note u = pam_uninstall_ok [OF assms(9) i(1) r(1,2) i(2) assms(10)]
  have "m AND 4095 AND 4095 = m AND 4095" by (simp add: and.assoc)
  then show ?thesis using u(1-3) only_touches_nodes [OF u(4)] only_touches_nodes [OF i(3)] by auto
qed

subsection \<open>Success, and examples\<close>

lemma replace_succeeds:
  assumes "\<And>op. sys_fail e op = None" "fs_nodes s dir = Some (DirNode dm)" "fs_nodes s (dir @ [sys_temp e]) = None"
    "fs_nodes s (dir @ [f]) = Some (FileNode b m)" "f \<noteq> sys_temp e"
  shows "\<exists>s'. replace_via_temp e dir terr (write_steps e io bs md) (dir @ [f]) perr s = (Ok (), s')"
  using assms
  by (simp add: replace_via_temp_def new_temp_def guarded_def temp_path_def write_steps_def on_err_def write_all_def
      sync_all_def set_permissions_def rename_def)

lemma take_backup_succeeds:
  assumes "\<And>op. sys_fail e op = None" "fs_nodes s dir = Some (DirNode dm)" "fs_nodes s (dir @ [b]) = None"
    "fs_nodes s (dir @ [f]) = Some (FileNode bs m)"
  shows "\<exists>s'. take_backup e (dir @ [f]) (dir @ [b]) md s = (Ok (), s')"
  using assms
  by (simp add: take_backup_def path_exists_def metadata_def copy_file_def guarded_def write_all_def parent_def
      set_permissions_def on_err_def)

lemma pam_install_succeeds:
  assumes "\<And>op. sys_fail e op = None" "fs_nodes s (io_pam_dir opts) = Some (DirNode dm)"
    "fs_nodes s (service_of opts) = Some (FileNode (str_bytes original) m)" "utf8_valid (str_bytes original)"
    "\<not> recognition_regex_match uw original" "fs_nodes s (backup_of opts) = None"
    "fs_nodes s (io_pam_dir opts @ [sys_temp e]) = None" "io_service opts \<noteq> sys_temp e" "io_service opts @ ''.bak'' \<noteq> sys_temp e"
  shows "\<exists>s'. pam_install uw e opts s = (Ok (Installed (service_of opts) (backup_of opts)), s')"
proof -
  obtain s1 where tb: "take_backup e (service_of opts) (backup_of opts) (m AND 4095) s = (Ok (), s1)"
    using take_backup_succeeds [OF assms(1,2,6,3)] by blast
  note t = only_touches_nodes [OF take_backup_cases(1) [OF tb assms(3)]]
  obtain s2 where wr: "replace_via_temp e (io_pam_dir opts) (In_Io (io_pam_dir opts))
      (write_steps e In_Io (str_bytes (installed_text uw opts original)) (m AND 4095)) (service_of opts) (In_Persist (service_of opts)) s1 = (Ok (), s2)"
    using replace_succeeds [OF assms(1), of s1 "io_pam_dir opts" dm "io_service opts" "str_bytes original" m]
      t [of "io_pam_dir opts"] t [of "service_of opts"] t [of "io_pam_dir opts @ [sys_temp e]"] assms(2,3,7-9) by fastforce
  show ?thesis
    using assms(1,3-5) tb wr
    by (simp add: pam_install_def service_path_def backup_path_def BACKUP_SUFFIX_def path_exists_def metadata_def read_utf8_def
        read_file_def from_utf8_def file_mode_def node_mode_def SERVICE_MODE_MASK_def atomic_write_def Let_def
        installed_text_def [symmetric])
qed

lemma pam_uninstall_succeeds:
  assumes "\<And>op. sys_fail e op = None" "fs_nodes s dir = Some (DirNode dm)" "fs_nodes s (dir @ [name]) = Some (FileNode (str_bytes t) m)"
    "from_utf8 (str_bytes t) = Some t" "recognition_regex_match uw t" "fs_nodes s (dir @ [name @ ''.bak'']) = Some (FileNode bs m2)"
    "fs_nodes s (dir @ [sys_temp e]) = None" "name \<noteq> sys_temp e" "name @ ''.bak'' \<noteq> sys_temp e"
  shows "\<exists>s'. pam_uninstall uw e dir name s = (Ok (Restored (dir @ [name]) (dir @ [name @ ''.bak''])), s')"
proof -
  obtain s1 where wr: "replace_via_temp e dir (Un_Io dir) (write_steps e Un_Io bs (m AND 4095)) (dir @ [name]) (Un_Persist (dir @ [name])) s = (Ok (), s1)"
    using replace_succeeds [OF assms(1,2,7,3,8)] by blast
  have "fs_nodes s1 (dir @ [name @ ''.bak'']) = Some (FileNode bs m2)"
    using only_touches_nodes [OF replace_file(3) [OF wr assms(8)], of "dir @ [name @ ''.bak'']"] assms(6,9) by simp
  then show ?thesis
    using assms(1,3-6) wr
    by (simp add: pam_uninstall_def service_path_def backup_path_def BACKUP_SUFFIX_def path_exists_def metadata_def
        un_read_utf8_def read_file_def un_file_mode_def node_mode_def SERVICE_MODE_MASK_def atomic_restore_def
        remove_file_def guarded_def Let_def)
qed

definition ex_pam_env :: sys_env where
  "ex_pam_env = \<lparr> sys_fail = (\<lambda>_. None), sys_short = 0, sys_temp = ''tmp'', sys_umask_dir = 493, sys_umask_file = 420 \<rparr>"

definition ex_service :: string where
  "ex_service = ''#%PAM-1.0'' @ [NL] @ ''auth include system-auth'' @ [NL]"

definition ex_pam_fs :: fs where
  "ex_pam_fs = \<lparr> fs_nodes = [[''etc''] \<mapsto> DirNode 493, [''etc'', ''sudo''] \<mapsto> FileNode (str_bytes ex_service) 420], fs_past = [] \<rparr>"

definition ex_opts :: "string \<Rightarrow> install_opts" where
  "ex_opts ctrl = \<lparr> io_service = ''sudo'', io_pam_dir = [''etc''], io_module_args = ''timeout=8000'', io_so_path = ''pam_syauth.so'',
     io_yes = True, io_with_presenced = True, io_presenced_dry_run = False, io_presenced_unit_dir = None, io_presenced_from = None,
     io_control = ctrl, io_with_u2f_fallback = True \<rparr>"

abbreviation no_words :: "string \<Rightarrow> bool" where "no_words \<equiv> \<lambda>_. False"

lemma ex_service_fresh: "\<not> recognition_regex_match no_words ex_service" "utf8_valid (str_bytes ex_service)"
  by code_simp+

lemma ex_opts_plain: "plain_opts (ex_opts ''sufficient'')" "utf8_valid (str_bytes (build_line (ex_opts ''sufficient'')))"
  by (simp add: plain_opts_def ex_opts_def ascii_words NL_code) code_simp


definition ex_installed :: fs where
  "ex_installed = snd (pam_install no_words ex_pam_env (ex_opts ''sufficient'') ex_pam_fs)"

lemma ex_service_node: "fs_nodes ex_pam_fs (service_of (ex_opts c)) = Some (FileNode (str_bytes ex_service) 420)"
  by (simp add: ex_pam_fs_def ex_opts_def)

lemma ex_names: "io_service (ex_opts c) \<noteq> sys_temp ex_pam_env" "io_service (ex_opts c) @ ''.bak'' \<noteq> sys_temp ex_pam_env"
  by (simp_all add: ex_opts_def ex_pam_env_def)

lemma ex_fails: "sys_fail ex_pam_env op = None"
  by (simp add: ex_pam_env_def)

lemma ex_install_runs:
  "pam_install no_words ex_pam_env (ex_opts ''sufficient'') ex_pam_fs =
     (Ok (Installed (service_of (ex_opts ''sufficient'')) (backup_of (ex_opts ''sufficient''))), ex_installed)"
proof -
  have "fs_nodes ex_pam_fs (io_pam_dir (ex_opts c)) = Some (DirNode 493)" "fs_nodes ex_pam_fs (backup_of (ex_opts c)) = None"
      "fs_nodes ex_pam_fs (io_pam_dir (ex_opts c) @ [sys_temp ex_pam_env]) = None" for c
    by (simp_all add: ex_pam_fs_def ex_opts_def ex_pam_env_def)
  then show ?thesis
    using pam_install_succeeds [OF ex_fails _ ex_service_node ex_service_fresh(2,1) _ _ ex_names]
    unfolding ex_installed_def by (metis snd_conv)
qed

theorem install_crash_safe_witness:
  "\<exists>new. fs_all ex_installed = new @ fs_all ex_pam_fs \<and>
     (\<forall>x \<in> set new. x [''etc'', ''sudo''] = Some (FileNode (str_bytes ex_service) 420) \<or>
        x [''etc'', ''sudo.bak''] = Some (FileNode (str_bytes ex_service) 420))"
  using install_crash_safe [OF ex_install_runs ex_service_node ex_service_fresh(2,1) ex_names]
  by (auto simp: ex_opts_def)

theorem install_idempotent_witness:
  "pam_install no_words ex_pam_env (ex_opts ''sufficient'') ex_installed = (Ok (AlreadyInstalled [''etc'', ''sudo'']), ex_installed)"
  using install_idempotent [OF ex_install_runs ex_service_node ex_service_fresh(2,1) ex_names ex_opts_plain ex_fails ex_fails]
  by (simp add: ex_opts_def)

lemma ex_uninstall_runs:
  "\<exists>s'. pam_uninstall no_words ex_pam_env (io_pam_dir (ex_opts ''sufficient'')) (io_service (ex_opts ''sufficient'')) ex_installed =
     (Ok (Restored (service_of (ex_opts ''sufficient'')) (backup_of (ex_opts ''sufficient''))), s')"
proof -
  let ?o = "ex_opts ''sufficient''"
  note i = pam_install_installed [OF ex_install_runs ex_service_node ex_service_fresh(2,1) ex_names]
  note r = installed_recognized [OF ex_opts_plain(1) ex_service_fresh(2) ex_opts_plain(2), of no_words]
  have d: "fs_nodes ex_installed (io_pam_dir ?o) = Some (DirNode 493)"
    using only_touches_nodes [OF i(3), of "io_pam_dir ?o"] by (simp add: ex_opts_def ex_pam_fs_def)
  have "fs_nodes ex_installed (io_pam_dir ?o @ [sys_temp ex_pam_env]) = None"
    unfolding ex_installed_def by code_simp
  then show ?thesis by (rule pam_uninstall_succeeds [OF ex_fails d i(1) r(1,2) i(2) _ ex_names])
qed

theorem install_uninstall_roundtrip_witness:
  "\<exists>s2. pam_uninstall no_words ex_pam_env [''etc''] ''sudo'' ex_installed = (Ok (Restored [''etc'', ''sudo''] [''etc'', ''sudo.bak'']), s2) \<and>
     fs_nodes s2 [''etc'', ''sudo''] = Some (FileNode (str_bytes ex_service) 420) \<and> fs_nodes s2 [''etc'', ''sudo.bak''] = None"
proof -
  obtain s2 where u: "pam_uninstall no_words ex_pam_env (io_pam_dir (ex_opts ''sufficient'')) (io_service (ex_opts ''sufficient'')) ex_installed =
      (Ok (Restored (service_of (ex_opts ''sufficient'')) (backup_of (ex_opts ''sufficient''))), s2)"
    using ex_uninstall_runs by blast
  then show ?thesis
    using install_uninstall_roundtrip [OF ex_install_runs ex_service_node ex_service_fresh(2,1) ex_names ex_opts_plain u ex_names(1)]
    by (auto simp: ex_opts_def)
qed

subsection \<open>Lines the recognition does not know\<close>

text \<open>
  A control flag in brackets, which the documentation of \<open>--control\<close> names, has
  white space in it, and the expression allows one word only: the line such an
  installation writes is not recognised, so a second installation stops at the
  backup of the first and an uninstallation reports that nothing is installed.
\<close>

definition ex_bracket :: install_opts where
  "ex_bracket = ex_opts ''[success=done auth_err=die default=ignore]'' \<lparr>io_with_u2f_fallback := False\<rparr>"

lemma ex_bracket_fields:
  "service_of ex_bracket = [''etc'', ''sudo'']" "backup_of ex_bracket = [''etc'', ''sudo.bak'']" "io_pam_dir ex_bracket = [''etc'']"
  "io_service ex_bracket = ''sudo''"
  by (simp_all add: ex_bracket_def ex_opts_def)

lemma ex_bracket_line:
  "\<not> recognition_regex_match no_words (installed_text no_words ex_bracket ex_service)"
  "utf8_valid (str_bytes (build_line ex_bracket))"
  by code_simp+

theorem bracketed_control_not_recognised:
  "\<exists>s1. pam_install no_words ex_pam_env ex_bracket ex_pam_fs = (Ok (Installed [''etc'', ''sudo''] [''etc'', ''sudo.bak'']), s1) \<and>
     pam_install no_words ex_pam_env ex_bracket s1 = (Err (In_BackupExists [''etc'', ''sudo.bak'']), s1) \<and>
     pam_uninstall no_words ex_pam_env [''etc''] ''sudo'' s1 = (Ok (NotInstalled [''etc'', ''sudo'']), s1)"
proof -
  have node: "fs_nodes ex_pam_fs (service_of ex_bracket) = Some (FileNode (str_bytes ex_service) 420)"
    by (simp add: ex_bracket_fields ex_pam_fs_def)
  have names: "io_service ex_bracket \<noteq> sys_temp ex_pam_env" "io_service ex_bracket @ ''.bak'' \<noteq> sys_temp ex_pam_env"
    by (simp_all add: ex_bracket_fields ex_pam_env_def)
  obtain s1 where i: "pam_install no_words ex_pam_env ex_bracket ex_pam_fs = (Ok (Installed (service_of ex_bracket) (backup_of ex_bracket)), s1)"
    using pam_install_succeeds [OF ex_fails _ node ex_service_fresh(2,1) _ _ names, of 493]
    by (auto simp: ex_bracket_fields ex_pam_fs_def ex_pam_env_def)
  note n = pam_install_installed [OF i node ex_service_fresh(2,1) names]
  have "from_utf8 (str_bytes (installed_text no_words ex_bracket ex_service)) = Some (installed_text no_words ex_bracket ex_service)"
    using installed_text_utf8 [OF ex_service_fresh(2) ex_bracket_line(2)] by (simp add: from_utf8_def installed_text_def)
  moreover have "\<not> io_with_u2f_fallback ex_bracket" by (simp add: ex_bracket_def)
  ultimately have "pam_install no_words ex_pam_env ex_bracket s1 = (Err (In_BackupExists (backup_of ex_bracket)), s1)"
      "pam_uninstall no_words ex_pam_env (io_pam_dir ex_bracket) (io_service ex_bracket) s1 = (Ok (NotInstalled (service_of ex_bracket)), s1)"
    using n(1,2) ex_bracket_line(1) ex_fails
    by (simp_all add: pam_install_def pam_uninstall_def service_path_def backup_path_def BACKUP_SUFFIX_def path_exists_def
        metadata_def read_utf8_def un_read_utf8_def read_file_def file_mode_def take_backup_def Let_def)
  then show ?thesis using i by (simp add: ex_bracket_fields)
qed

text \<open>
  When the service file ends with the module's line and no newline, the line of
  the security key is appended to that line instead of below it, and it is not
  recognised as a directive afterwards.
\<close>

theorem u2f_line_glued:
  "maybe_insert_u2f_fallback no_words ''auth sufficient pam_syauth.so'' True =
     ''auth sufficient pam_syauth.soauth    sufficient    pam_u2f.so cue'' @ [NL] \<and>
   \<not> u2f_recognition_match no_words (maybe_insert_u2f_fallback no_words ''auth sufficient pam_syauth.so'' True) \<and>
   \<not> recognition_regex_match no_words (maybe_insert_u2f_fallback no_words ''auth sufficient pam_syauth.so'' True)"
  by code_simp

text \<open>
  Adding only the line of the security key reports a backup that was never
  written.
\<close>

definition ex_syauth_fs :: fs where
  "ex_syauth_fs = \<lparr> fs_nodes = [[''etc''] \<mapsto> DirNode 493,
     [''etc'', ''sudo''] \<mapsto> FileNode (str_bytes (''auth sufficient pam_syauth.so'' @ [NL])) 420], fs_past = [] \<rparr>"

theorem u2f_only_reports_missing_backup:
  "case pam_install no_words ex_pam_env (ex_opts ''sufficient'') ex_syauth_fs of (r, s1) \<Rightarrow>
     r = Ok (Installed [''etc'', ''sudo''] [''etc'', ''sudo.bak'']) \<and> fs_nodes s1 [''etc'', ''sudo.bak''] = None"
  by code_simp

lemma atomic_restore_errors: "atomic_restore e p bs md s = (Err err, s') \<Longrightarrow> (\<exists>q x. err = Un_Io q x) \<or> (\<exists>q x. err = Un_Persist q x)"
  by (auto simp: atomic_restore_def replace_via_temp_def write_steps_def on_err_def map_err_Err_iff
      split: prod.splits sum.splits)

text \<open>
  When the backup is missing, the message of the uninstaller suggests to run the
  installer again.  That does not bring a backup back: the installer finds its
  line in the file, says so and changes nothing, and the next uninstallation
  fails as before.
\<close>

theorem reinstall_makes_no_backup:
  assumes "pam_uninstall uw e (io_pam_dir opts) (io_service opts) s = (Err (Un_BackupMissing bak service), s')"
    and "\<not> io_with_u2f_fallback opts"
  shows "s' = s" "pam_install uw e opts s = (Ok (AlreadyInstalled service), s)"
proof -
  let ?p = "service_path (io_pam_dir opts) (io_service opts)"
  obtain t where t: "path_exists e s ?p" "un_read_utf8 e s ?p = Ok t" "recognition_regex_match uw t" "s' = s" "service = ?p"
    using assms(1)
    by (auto simp: pam_uninstall_def Let_def un_read_utf8_def un_file_mode_def split: if_splits sum.splits option.splits prod.splits
        dest!: atomic_restore_errors)
  have "read_utf8 e s ?p = Ok t"
    using t(2) by (auto simp: un_read_utf8_def read_utf8_def split: sum.splits option.splits)
  then show "s' = s" "pam_install uw e opts s = (Ok (AlreadyInstalled service), s)"
    using t assms(2) by (simp_all add: pam_install_def Let_def)
qed

end
