(* ===== verification/PresencedInstall.thy ===== *)
theory PresencedInstall
  imports PamInstall Console
begin

text \<open>
  The installer of the daemon, \<open>syauth-cli/src/install_presenced.rs\<close>, and the
  commands of \<open>main.rs\<close> that combine it with the editor of PAM service files.
\<close>

section \<open>The unit file\<close>

text \<open>
  The text of \<open>syauth-presenced/dist/syauth-presenced.service\<close>, which the compiler
  includes: the lines before and after the one that names the program.
\<close>

definition UNIT_HEAD :: "string list" where
  "UNIT_HEAD =
     [''# syauth-presenced '' @ [CHR 0xE2, CHR 0x80, CHR 0x94] @ '' long-running desktop user-service.'',
      ''#'',
      ''# SPEC anchor: specs/unlock-proximity/SPEC.md '' @ [CHR 0xC2, CHR 0xA7] @ ''3 Approach (per-user'',
      ''# user-systemd service), '' @ [CHR 0xC2, CHR 0xA7] @ ''4 Architecture, and '' @ [CHR 0xC2, CHR 0xA7] @ ''3 Decisions row'',
      ''# '' @ [CHR 0x22] @ ''Daemon process model'' @ [CHR 0x22] @ '' (per-user, not system).'',
      ''# Roadmap row: specs/unlock-proximity/ROADMAP.md Step S-001.'',
      ''# Journey: specs/journeys/JOURNEY-S-001-scaffold-syauth-presenced.md.'',
      ''#'',
      ''# Install path: ~/.config/systemd/user/syauth-presenced.service'',
      ''# Enable: systemctl --user daemon-reload && systemctl --user enable --now syauth-presenced'',
      ''# Logs:   journalctl --user -t syauth-presenced -f'',
      [],
      ''[Unit]'',
      ''Description=syauth phone-as-key presence daemon'',
      ''Documentation=https://github.com/dmytrogajewski/syauth/blob/master/specs/unlock-proximity/SPEC.md'',
      ''# Daemon binds ${XDG_RUNTIME_DIR}/syauth/auth.sock (S-002+) and'',
      ''# locks ${XDG_RUNTIME_DIR}/syauth/presenced.pid (S-001), so the'',
      ''# XDG_RUNTIME_DIR must exist before the unit starts.'',
      ''ConditionPathIsDirectory=%t'',
      [],
      ''[Service]'',
      ''Type=simple'',
      ''# The binary lives under /usr/local/libexec/syauth-presenced once'',
      ''# `syauth install-presenced` (S-009) is run. Until S-009 lands an'',
      ''# installer, operators can override via systemctl edit.'']"

definition UNIT_TAIL :: "string list" where
  "UNIT_TAIL =
     [''# Clean shutdown: SIGTERM is the default; the daemon'' @ [CHR 0x27] @ ''s signal handler'',
      ''# drops the pidfile lock + unlinks the pidfile + exits within ~1s.'',
      ''KillSignal=SIGTERM'',
      ''TimeoutStopSec=5'',
      ''# Restart on crash so a transient BlueZ adapter blip (S-003+) does'',
      ''# not require operator intervention. S-001 has no crash conditions'',
      ''# of its own; this setting is forward-looking for the BLE event loop'',
      ''# that arrives in S-003+.'',
      ''Restart=on-failure'',
      ''RestartSec=2'',
      ''# Sandboxing aligned with SPEC '' @ [CHR 0xC2, CHR 0xA7] @ ''7 Security ('' @ [CHR 0x22] @ ''only the daemon'' @ [CHR 0x27] @ ''s own'',
      ''# UID can connect'' @ [CHR 0x22] @ ''). The pidfile + socket live under the per-user'',
      ''# runtime dir (already mode 0700 by systemd), so NoNewPrivileges is'',
      ''# the only meaningful sandbox knob a user-service can enforce.'',
      ''NoNewPrivileges=yes'',
      ''# Audit log path (SPEC '' @ [CHR 0xC2, CHR 0xA7] @ ''7) writes to /var/lib/syauth/last.log; the'',
      ''# daemon needs write access there even though it runs as the user.'',
      ''# An operator who wants the audit log under their $XDG_DATA_HOME can'',
      ''# override --bonds-file / --keys-dir / the audit path via a drop-in.'',
      ''ProtectSystem=strict'',
      ''ProtectHome=read-only'',
      ''ReadWritePaths=/var/lib/syauth /var/log/syauth %t'',
      [],
      ''[Install]'',
      ''WantedBy=default.target'']"

definition DEFAULT_DAEMON_BIN_PATH :: path where
  [const_defs]: "DEFAULT_DAEMON_BIN_PATH = [''usr'', ''local'', ''libexec'', ''syauth-presenced'']"
definition SYSTEMD_USER_UNIT_NAME :: string where [const_defs]: "SYSTEMD_USER_UNIT_NAME = ''syauth-presenced.service''"
definition DAEMON_BIN_NAME :: string where [const_defs]: "DAEMON_BIN_NAME = ''syauth-presenced''"
definition SYSTEMD_USER_UNIT_SUBDIR :: path where [const_defs]: "SYSTEMD_USER_UNIT_SUBDIR = [''systemd'', ''user'']"
definition XDG_CONFIG_HOME_ENV :: string where [const_defs]: "XDG_CONFIG_HOME_ENV = ''XDG_CONFIG_HOME''"
definition XDG_CONFIG_HOME_FALLBACK_SUBDIR :: string where [const_defs]: "XDG_CONFIG_HOME_FALLBACK_SUBDIR = ''.config''"
definition WOULD_RUN_PREFIX :: string where [const_defs]: "WOULD_RUN_PREFIX = ''would-run: ''"

definition SYSTEMD_USER_UNIT_BUNDLED :: string where
  "SYSTEMD_USER_UNIT_BUNDLED = unlines (UNIT_HEAD @ (''ExecStart='' @ display_path DEFAULT_DAEMON_BIN_PATH) # UNIT_TAIL)"

fun exec_start_loop :: "string \<Rightarrow> bool \<Rightarrow> string list \<Rightarrow> string \<Rightarrow> string" where
  "exec_start_loop binary replaced [] out = out"
| "exec_start_loop binary replaced (line # ls) out =
     (if \<not> replaced \<and> starts_with line ''ExecStart=''
      then exec_start_loop binary True ls (out @ ''ExecStart='' @ binary @ [NL])
      else exec_start_loop binary replaced ls (out @ line @ [NL]))"

definition rewrite_exec_start :: "string \<Rightarrow> path \<Rightarrow> string" where
  "rewrite_exec_start body binary_path = exec_start_loop (display_path binary_path) False (lines body) []"

section \<open>Operations\<close>

record install_presenced_opts =
  ip_from :: "path option"
  ip_unit_dir :: "path option"
  ip_dry_run :: bool

datatype install_presenced_outcome = Ip_Installed path path | Ip_DryRun path path

datatype install_presenced_error =
    Ip_SourceMissing | Ip_CurrentExe io_error | Ip_UnitDirUnresolvable | Ip_Io path io_error
  | Ip_SystemctlFailed string "int option" string | Ip_SystemctlSpawn io_error

definition resolve_home :: "proc_env \<Rightarrow> install_presenced_error + path" where
  "resolve_home pr =
     (case pr_var pr ''HOME'' of
        Some home \<Rightarrow>
          if home \<noteq> [] then Ok (path_components home @ [XDG_CONFIG_HOME_FALLBACK_SUBDIR] @ SYSTEMD_USER_UNIT_SUBDIR)
          else Err Ip_UnitDirUnresolvable
      | None \<Rightarrow> Err Ip_UnitDirUnresolvable)"

definition resolve_unit_dir :: "proc_env \<Rightarrow> path option \<Rightarrow> install_presenced_error + path" where
  "resolve_unit_dir pr unit_dir_override =
     (case unit_dir_override of
        Some p \<Rightarrow> Ok p
      | None \<Rightarrow>
          (case pr_var pr XDG_CONFIG_HOME_ENV of
             Some xdg \<Rightarrow>
               if xdg \<noteq> [] then Ok (path_components xdg @ SYSTEMD_USER_UNIT_SUBDIR)
               else resolve_home pr
           | None \<Rightarrow> resolve_home pr))"

definition resolve_source_binary :: "proc_env \<Rightarrow> sys_env \<Rightarrow> fs \<Rightarrow> path option \<Rightarrow> install_presenced_error + path" where
  "resolve_source_binary pr e s from_override =
     (case from_override of
        Some p \<Rightarrow> Ok p
      | None \<Rightarrow>
          (case pr_exe pr of
             Inl err \<Rightarrow> Err (Ip_CurrentExe err)
           | Inr me \<Rightarrow>
               (case map_option (\<lambda>d. d @ [DAEMON_BIN_NAME]) (parent me) of
                  Some sib \<Rightarrow> if path_exists e s sib then Ok sib else Err Ip_SourceMissing
                | None \<Rightarrow> Err Ip_SourceMissing)))"

definition text_steps :: "sys_env \<Rightarrow> bytes \<Rightarrow> (path \<Rightarrow> fs \<Rightarrow> (install_presenced_error + unit) \<times> fs) list" where
  "text_steps e bs =
     [\<lambda>tmp s. on_err (Ip_Io tmp) (write_all e tmp bs s),
      \<lambda>tmp s. on_err (Ip_Io tmp) (sync_all e tmp s)]"

definition atomic_write_text :: "sys_env \<Rightarrow> path \<Rightarrow> string \<Rightarrow> fs \<Rightarrow> (install_presenced_error + unit) \<times> fs" where
  "atomic_write_text e target body s =
     (let d = butlast target in
      case create_dir_all e d s of
        (Inl err, s1) \<Rightarrow> (Err (Ip_Io d err), s1)
      | (Inr _, s1) \<Rightarrow> replace_via_temp e d (Ip_Io d) (text_steps e (str_bytes body)) target (Ip_Io target) s1)"

text \<open>The world of a command: files, the two terminal streams, and the calls of \<open>systemctl\<close> made so far.\<close>

record world =
  w_fs :: fs
  w_out :: console
  w_err :: console
  w_systemctl :: "string list list"

fun join_args :: "string list \<Rightarrow> string" where
  "join_args [] = []"
| "join_args [a] = a"
| "join_args (a # as) = a @ '' '' @ join_args as"

definition run_systemctl :: "proc_env \<Rightarrow> string list \<Rightarrow> world \<Rightarrow> (install_presenced_error + unit) \<times> world" where
  "run_systemctl pr args w =
     (let argv = ''--user'' # args in
      case pr_systemctl pr argv of
        Inl err \<Rightarrow> (Err (Ip_SystemctlSpawn err), w)
      | Inr out \<Rightarrow>
          (if co_success out then Ok () else Err (Ip_SystemctlFailed (join_args args) (co_code out) (from_utf8_lossy (co_stderr out))),
           w\<lparr> w_systemctl := w_systemctl w @ [argv] \<rparr>))"

definition on_fs :: "(fs \<Rightarrow> ('e + 'a) \<times> fs) \<Rightarrow> world \<Rightarrow> ('e + 'a) \<times> world" where
  "on_fs f w = (case f (w_fs w) of (r, s) \<Rightarrow> (r, w\<lparr> w_fs := s \<rparr>))"

definition on_out :: "(io_error \<Rightarrow> 'e) \<Rightarrow> (console \<Rightarrow> (io_error + 'a) \<times> console) \<Rightarrow> world \<Rightarrow> ('e + 'a) \<times> world" where
  "on_out g f w = (case f (w_out w) of (r, c) \<Rightarrow> (map_err g r, w\<lparr> w_out := c \<rparr>))"

definition live_install :: "proc_env \<Rightarrow> sys_env \<Rightarrow> path \<Rightarrow> path \<Rightarrow> world \<Rightarrow> (install_presenced_error + install_presenced_outcome) \<times> world" where
  "live_install pr e unit_path source_binary =
     and_then (on_fs (\<lambda>s. on_err (Ip_Io (butlast DEFAULT_DAEMON_BIN_PATH)) (create_dir_all e (butlast DEFAULT_DAEMON_BIN_PATH) s))) (\<lambda>_.
     and_then (on_fs (\<lambda>s. on_err (Ip_Io DEFAULT_DAEMON_BIN_PATH) (copy_file e source_binary DEFAULT_DAEMON_BIN_PATH s))) (\<lambda>_.
     and_then (run_systemctl pr [''daemon-reload'']) (\<lambda>_.
     and_then (run_systemctl pr [''enable'', ''--now'', SYSTEMD_USER_UNIT_NAME]) (\<lambda>_ w.
       (Ok (Ip_Installed unit_path DEFAULT_DAEMON_BIN_PATH), w)))))"

definition dry_install :: "path \<Rightarrow> path \<Rightarrow> world \<Rightarrow> (install_presenced_error + install_presenced_outcome) \<times> world" where
  "dry_install unit_path source_binary =
     and_then (on_out (Ip_Io [''<stdout>'']) (write_line (WOULD_RUN_PREFIX @ ''systemctl --user daemon-reload''))) (\<lambda>_.
     and_then (on_out (Ip_Io [''<stdout>'']) (write_line (WOULD_RUN_PREFIX @ ''systemctl --user enable --now '' @ SYSTEMD_USER_UNIT_NAME))) (\<lambda>_ w.
       (Ok (Ip_DryRun unit_path source_binary), w)))"

definition install_presenced ::
    "proc_env \<Rightarrow> sys_env \<Rightarrow> install_presenced_opts \<Rightarrow> world \<Rightarrow> (install_presenced_error + install_presenced_outcome) \<times> world" where
  "install_presenced pr e opts w =
     (case resolve_unit_dir pr (ip_unit_dir opts) of
        Inl err \<Rightarrow> (Err err, w)
      | Inr unit_dir \<Rightarrow>
          (let unit_path = unit_dir @ [SYSTEMD_USER_UNIT_NAME] in
           case resolve_source_binary pr e (w_fs w) (ip_from opts) of
             Inl err \<Rightarrow> (Err err, w)
           | Inr source_binary \<Rightarrow>
               (let binary_path = (if ip_dry_run opts \<or> ip_from opts \<noteq> None then source_binary else DEFAULT_DAEMON_BIN_PATH);
                    unit_body = rewrite_exec_start SYSTEMD_USER_UNIT_BUNDLED binary_path in
                and_then (on_fs (atomic_write_text e unit_path unit_body)) (\<lambda>_.
                  if ip_dry_run opts then dry_install unit_path source_binary
                  else live_install pr e unit_path source_binary) w)))"

section \<open>The commands of \<open>main.rs\<close>\<close>

datatype cli_error =
    Cli_Install install_error | Cli_Uninstall uninstall_error | Cli_Presenced install_presenced_error | Cli_Io io_error

definition report_install_presenced :: "install_presenced_outcome \<Rightarrow> world \<Rightarrow> (cli_error + unit) \<times> world" where
  "report_install_presenced outcome =
     on_out Cli_Io (write_line (case outcome of
        Ip_Installed unit_path binary_path \<Rightarrow>
          ''installed syauth-presenced: wrote unit '' @ display_path unit_path @ '', copied binary to '' @ display_path binary_path
      | Ip_DryRun unit_path source_binary \<Rightarrow>
          ''dry-run: wrote unit '' @ display_path unit_path @ '' pointing at '' @ display_path source_binary))"

definition run_install_presenced :: "proc_env \<Rightarrow> sys_env \<Rightarrow> install_presenced_opts \<Rightarrow> world \<Rightarrow> (cli_error + unit) \<times> world" where
  "run_install_presenced pr e opts =
     and_then (\<lambda>w. on_err Cli_Presenced (install_presenced pr e opts w)) report_install_presenced"

definition report_install :: "install_outcome \<Rightarrow> world \<Rightarrow> (cli_error + unit) \<times> world" where
  "report_install outcome =
     on_out Cli_Io (write_line (case outcome of
        AlreadyInstalled p \<Rightarrow> ''syauth line already present in '' @ display_path p @ ''; no changes''
      | Installed service backup \<Rightarrow>
          ''wrote backup to '' @ display_path backup @ ''; inserted syauth at top of auth block in '' @ display_path service))"

definition run_install :: "(string \<Rightarrow> bool) \<Rightarrow> proc_env \<Rightarrow> sys_env \<Rightarrow> install_opts \<Rightarrow> world \<Rightarrow> (cli_error + unit) \<times> world" where
  "run_install uw pr e opts =
     and_then (on_fs (\<lambda>s. on_err Cli_Install (pam_install uw e opts s))) (\<lambda>outcome.
     and_then (report_install outcome) (\<lambda>_.
       if io_with_presenced opts
       then run_install_presenced pr e
              \<lparr> ip_from = io_presenced_from opts, ip_unit_dir = io_presenced_unit_dir opts, ip_dry_run = io_presenced_dry_run opts \<rparr>
       else Pair (Ok ())))"

text \<open>The warning goes to the error stream.\<close>

definition on_stderr :: "(io_error \<Rightarrow> 'e) \<Rightarrow> (console \<Rightarrow> (io_error + 'a) \<times> console) \<Rightarrow> world \<Rightarrow> ('e + 'a) \<times> world" where
  "on_stderr g f w = (case f (w_err w) of (r, c) \<Rightarrow> (map_err g r, w\<lparr> w_err := c \<rparr>))"

definition run_uninstall :: "(string \<Rightarrow> bool) \<Rightarrow> sys_env \<Rightarrow> path \<Rightarrow> string \<Rightarrow> world \<Rightarrow> (cli_error + unit) \<times> world" where
  "run_uninstall uw e pam_dir name =
     and_then (on_fs (\<lambda>s. on_err Cli_Uninstall (pam_uninstall uw e pam_dir name s))) (\<lambda>outcome.
       case outcome of
         NotInstalled p \<Rightarrow>
           on_stderr Cli_Io (write_line (''warning: no syauth line found in '' @ display_path p @ ''; nothing to uninstall''))
       | Restored service backup \<Rightarrow>
           on_out Cli_Io (write_line (''restored '' @ display_path service @ '' from backup; removed '' @ display_path backup)))"

section \<open>Lemmas\<close>

lemma lines_unlines_plain:
  assumes "\<forall>l \<in> set ls. NL \<notin> set l \<and> drop_cr l = l"
  shows "lines (unlines ls) = ls"
  using lines_unlines [of ls] assms by (simp add: map_idI)

lemma unlines_append: "unlines (xs @ l # ys) = unlines xs @ l @ NL # unlines ys"
  by (simp add: unlines_def)

lemma exec_start_done: "exec_start_loop b True ls out = out @ unlines ls"
  by (induction ls arbitrary: out) (simp_all add: unlines_def)

lemma exec_start_found:
  "\<forall>l \<in> set xs. \<not> starts_with l ''ExecStart='' \<Longrightarrow> starts_with x ''ExecStart='' \<Longrightarrow>
   exec_start_loop b False (xs @ x # ys) out = out @ unlines (xs @ (''ExecStart='' @ b) # ys)"
  by (induction xs arbitrary: out) (simp_all add: exec_start_done unlines_def)

lemma CR_code: "CR = CHR 0x0D"
  by code_simp

definition plain_line :: "string \<Rightarrow> bool" where
  "plain_line l \<longleftrightarrow> list_all (\<lambda>c. c \<noteq> CHR 0x0A \<and> c \<noteq> CHR 0x0D) l"

lemma unit_head_plain: "list_all plain_line UNIT_HEAD"
  by code_simp

lemma unit_tail_plain: "list_all plain_line UNIT_TAIL"
  by code_simp

lemma unit_head_other: "list_all (\<lambda>l. \<not> starts_with l ''ExecStart='') UNIT_HEAD"
  by code_simp

lemma drop_cr_plain: "plain_line l \<Longrightarrow> NL \<notin> set l \<and> drop_cr l = l"
  by (cases l rule: rev_cases) (auto simp: plain_line_def drop_cr_def list_all_iff NL_code CR_code)

lemma rewrite_bundled:
  "rewrite_exec_start SYSTEMD_USER_UNIT_BUNDLED p = unlines (UNIT_HEAD @ (''ExecStart='' @ display_path p) # UNIT_TAIL)"
proof -
  let ?x = "''ExecStart='' @ display_path DEFAULT_DAEMON_BIN_PATH"
  have "plain_line ?x" by code_simp
  then have "\<forall>l \<in> set (UNIT_HEAD @ ?x # UNIT_TAIL). plain_line l"
    using unit_head_plain unit_tail_plain by (simp only: list_all_iff set_append list.set ball_Un ball_simps)
  then have "\<forall>l \<in> set (UNIT_HEAD @ ?x # UNIT_TAIL). NL \<notin> set l \<and> drop_cr l = l"
    using drop_cr_plain by blast
  then have "lines SYSTEMD_USER_UNIT_BUNDLED = UNIT_HEAD @ ?x # UNIT_TAIL"
    unfolding SYSTEMD_USER_UNIT_BUNDLED_def by (rule lines_unlines_plain)
  moreover have "\<forall>l \<in> set UNIT_HEAD. \<not> starts_with l ''ExecStart=''" using unit_head_other by (simp add: list_all_iff)
  ultimately show ?thesis
    using exec_start_found [of UNIT_HEAD ?x "display_path p" UNIT_TAIL "[]"]
    by (simp add: rewrite_exec_start_def starts_with_def)
qed

lemma on_fs_Pair: "on_fs f w = (r, w') \<longleftrightarrow> (\<exists>s. f (w_fs w) = (r, s) \<and> w' = w\<lparr> w_fs := s \<rparr>)"
  by (auto simp: on_fs_def split: prod.splits)

lemma on_out_Pair: "on_out g f w = (r, w') \<longleftrightarrow> (\<exists>x c. f (w_out w) = (x, c) \<and> r = map_err g x \<and> w' = w\<lparr> w_out := c \<rparr>)"
  by (auto simp: on_out_def split: prod.splits)

lemmas cmd_Pair = and_then_Pair on_fs_Pair on_out_Pair

text \<open>Making directories keeps every file and directory there is.\<close>

lemma mkdirs_keeps: "mkdirs md ps s = (r, s') \<Longrightarrow> fs_nodes s q \<noteq> None \<Longrightarrow> fs_nodes s' q = fs_nodes s q"
proof (induction md ps s rule: mkdirs.induct)
  case (2 mode p ps s)
  then show ?case by (cases "p = q") (auto split: option.splits node.splits)
qed simp

lemma create_dir_all_keeps: "create_dir_all e p s = (r, s') \<Longrightarrow> fs_nodes s q \<noteq> None \<Longrightarrow> fs_nodes s' q = fs_nodes s q"
  by (auto simp: create_dir_all_def guarded_def split: option.splits dest: mkdirs_keeps)

lemma local_text_steps: "local_steps (text_steps e bs)"
  by (auto simp: text_steps_def on_err_Pair dest: write_all_touches sync_all_same)

lemma text_steps_ok:
  assumes "run_steps (text_steps e bs) t s1 = (Ok (), s2)" "fs_nodes s1 t = Some (FileNode [] m)"
  shows "fs_nodes s2 t = Some (FileNode bs m)"
proof -
  obtain r1 sa where a: "write_all e t bs s1 = (r1, sa)" by fastforce
  obtain r2 sb where b: "sync_all e t sa = (r2, sb)" by fastforce
  from assms(1) have "r1 = Ok ()" "s2 = sb" by (auto simp: text_steps_def on_err_def a b split: sum.splits)
  then show ?thesis using write_all_ok [of e t bs s1 sa] assms(2) sync_all_same [OF b] a by auto
qed

lemma atomic_write_text_effect:
  assumes "atomic_write_text e (d @ [f]) body s = (r, s')" "f \<noteq> sys_temp e"
  shows "r = Ok () \<Longrightarrow> fs_nodes s' (d @ [f]) = Some (FileNode (str_bytes body) 384)"
    "only_touches (set (ancestors d) \<union> {d @ [f], d @ [sys_temp e]}) s s'"
    "fs_nodes s q \<noteq> None \<Longrightarrow> q \<noteq> d @ [f] \<Longrightarrow> q \<noteq> d @ [sys_temp e] \<Longrightarrow> fs_nodes s' q = fs_nodes s q"
proof -
  obtain x s1 where mk: "create_dir_all e d s = (x, s1)" by fastforce
  have ne: "d @ [f] \<noteq> temp_path e d" using assms(2) by (simp add: temp_path_def)
  have t1: "only_touches (set (ancestors d) \<union> {d @ [f], d @ [sys_temp e]}) s s1"
    by (rule only_touches_mono [OF create_dir_all_touches [OF mk]]) auto
  have wr: "replace_via_temp e d (Ip_Io d) (text_steps e (str_bytes body)) (d @ [f]) (Ip_Io (d @ [f])) s1 = (r, s')" if "is_ok x"
    using assms(1) mk that by (auto simp: atomic_write_text_def)
  show "r = Ok () \<Longrightarrow> fs_nodes s' (d @ [f]) = Some (FileNode (str_bytes body) 384)"
    using assms(1) mk wr ne text_steps_ok
    by (cases x) (auto simp: atomic_write_text_def elim!: replace_via_temp_ok)
  show "only_touches (set (ancestors d) \<union> {d @ [f], d @ [sys_temp e]}) s s'"
  proof (cases x)
    case (Inl err)
    then show ?thesis using assms(1) mk t1 by (simp add: atomic_write_text_def)
  next
    case (Inr u)
    then have "only_touches {d @ [f], temp_path e d} s1 s'" using replace_via_temp_touches [OF wr local_text_steps] by simp
    then show ?thesis by (rule only_touches_trans [OF t1 only_touches_mono]) (auto simp: temp_path_def)
  qed
  show "fs_nodes s q \<noteq> None \<Longrightarrow> q \<noteq> d @ [f] \<Longrightarrow> q \<noteq> d @ [sys_temp e] \<Longrightarrow> fs_nodes s' q = fs_nodes s q"
  proof (cases x)
    case (Inl err)
    assume "fs_nodes s q \<noteq> None"
    with Inl show ?thesis using assms(1) mk create_dir_all_keeps [OF mk] by (simp add: atomic_write_text_def)
  next
    case (Inr u)
    assume q: "fs_nodes s q \<noteq> None" "q \<noteq> d @ [f]" "q \<noteq> d @ [sys_temp e]"
    have "fs_nodes s' q = fs_nodes s1 q"
      using replace_via_temp_atomic(3) [OF wr local_text_steps ne q(2)] q(3) Inr by (simp add: temp_path_def)
    then show ?thesis using create_dir_all_keeps [OF mk q(1)] by simp
  qed
qed

text \<open>What has to be on disk before the service manager is asked to do anything.\<close>

definition unit_placed :: "path \<Rightarrow> path \<Rightarrow> fs \<Rightarrow> bool" where
  "unit_placed d binary s \<longleftrightarrow>
     fs_nodes s (d @ [SYSTEMD_USER_UNIT_NAME]) =
       Some (FileNode (str_bytes (unlines (UNIT_HEAD @ (''ExecStart='' @ display_path binary) # UNIT_TAIL))) 384)"

abbreviation reload_call :: "string list" where "reload_call \<equiv> [''--user'', ''daemon-reload'']"
abbreviation enable_call :: "string list" where "enable_call \<equiv> [''--user'', ''enable'', ''--now'', SYSTEMD_USER_UNIT_NAME]"

lemma dry_install_effect:
  "dry_install u b w = (r, w') \<Longrightarrow> w_fs w' = w_fs w \<and> w_systemctl w' = w_systemctl w \<and> (is_ok r \<longrightarrow> r = Ok (Ip_DryRun u b))"
  by (auto simp: dry_install_def cmd_Pair)

lemma run_systemctl_effect:
  "run_systemctl pr args w = (r, w') \<Longrightarrow>
     w_fs w' = w_fs w \<and> (w_systemctl w' = w_systemctl w \<and> \<not> is_ok r \<or> w_systemctl w' = w_systemctl w @ [''--user'' # args])"
  by (auto simp: run_systemctl_def Let_def split: sum.splits if_splits)

lemma live_install_effect:
  assumes "live_install pr e u src w = (r, w')" "fs_nodes (w_fs w) src = Some (FileNode bs m)" "src \<noteq> DEFAULT_DAEMON_BIN_PATH"
    "fs_nodes (w_fs w) q = Some n" "q \<noteq> DEFAULT_DAEMON_BIN_PATH"
  shows "fs_nodes (w_fs w') q = Some n"
    "w_systemctl w' = w_systemctl w \<and> \<not> is_ok r \<or>
     fs_nodes (w_fs w') DEFAULT_DAEMON_BIN_PATH = Some (FileNode bs m) \<and>
     (w_systemctl w' = w_systemctl w @ [reload_call] \<and> \<not> is_ok r \<or> w_systemctl w' = w_systemctl w @ [reload_call, enable_call])"
proof -
  let ?D = DEFAULT_DAEMON_BIN_PATH
  obtain x s1 where mk: "create_dir_all e (butlast ?D) (w_fs w) = (x, s1)" by fastforce
  obtain y s2 where cp: "copy_file e src ?D s1 = (y, s2)" by fastforce
  have k1: "fs_nodes s1 src = Some (FileNode bs m)" "fs_nodes s1 q = Some n" using create_dir_all_keeps [OF mk] assms(2,4) by simp_all
  have k2: "fs_nodes s2 q = Some n" using only_touches_nodes [OF copy_file_touches [OF cp], of q] k1(2) assms(5) by simp
  have k3: "fs_nodes s2 ?D = Some (FileNode bs m)" if "y = Ok ()" using copy_file_ok [of e src ?D s1 s2] cp k1(1) assms(3) that by simp
  let ?w = "w\<lparr> w_fs := s2 \<rparr>"
  obtain z w3 where sc1: "run_systemctl pr [''daemon-reload''] ?w = (z, w3)" by fastforce
  obtain z' w4 where sc2: "run_systemctl pr [''enable'', ''--now'', SYSTEMD_USER_UNIT_NAME] w3 = (z', w4)" by fastforce
  note e1 = run_systemctl_effect [OF sc1] and e2 = run_systemctl_effect [OF sc2]
  have c: "\<not> is_ok x \<and> w' = w\<lparr> w_fs := s1 \<rparr> \<and> \<not> is_ok r \<or> is_ok x \<and> \<not> is_ok y \<and> w' = ?w \<and> \<not> is_ok r \<or>
      y = Ok () \<and> \<not> is_ok z \<and> w' = w3 \<and> \<not> is_ok r \<or> y = Ok () \<and> is_ok z \<and> w' = w4 \<and> (is_ok r \<longrightarrow> is_ok z')"
    using assms(1) mk cp sc1 sc2 by (cases x; cases y; cases z; cases z') (auto simp: live_install_def cmd_Pair on_err_def)
  show "fs_nodes (w_fs w') q = Some n" using c k1(2) k2 e1 e2 by auto
  show "w_systemctl w' = w_systemctl w \<and> \<not> is_ok r \<or>
     fs_nodes (w_fs w') ?D = Some (FileNode bs m) \<and>
     (w_systemctl w' = w_systemctl w @ [reload_call] \<and> \<not> is_ok r \<or> w_systemctl w' = w_systemctl w @ [reload_call, enable_call])"
    using c k3 e1 e2 by auto
qed

section \<open>Properties\<close>

text \<open>
  C36: the service manager is asked last, and never by a dry run.  Let the program to
  install be a file other than the one at the installed path, and neither the unit
  file nor the temporary one.  Then, whatever fails on the way, \<open>systemctl\<close> is called
  only when the complete unit file is in place, its \<open>ExecStart\<close> line naming the
  right program, and the program's bytes are at the installed path; success means
  both calls were made, or, for a dry run, that the unit file is in place and
  nothing was called.  (Installing the installed program over itself empties it.)
\<close>

theorem presenced_install_order:
  assumes "install_presenced pr e opts w = (r, w')"
    and "resolve_unit_dir pr (ip_unit_dir opts) = Ok d" "resolve_source_binary pr e (w_fs w) (ip_from opts) = Ok src"
    and "SYSTEMD_USER_UNIT_NAME \<noteq> sys_temp e" "fs_nodes (w_fs w) src = Some (FileNode bs m)"
    and "src \<notin> {d @ [SYSTEMD_USER_UNIT_NAME], d @ [sys_temp e], DEFAULT_DAEMON_BIN_PATH}"
  shows "ip_dry_run opts \<and> w_systemctl w' = w_systemctl w \<and> (is_ok r \<longrightarrow> unit_placed d src (w_fs w')) \<or>
     \<not> ip_dry_run opts \<and>
       (w_systemctl w' = w_systemctl w \<and> \<not> is_ok r \<or>
        unit_placed d (if ip_from opts = None then DEFAULT_DAEMON_BIN_PATH else src) (w_fs w') \<and>
        fs_nodes (w_fs w') DEFAULT_DAEMON_BIN_PATH = Some (FileNode bs m) \<and>
        (w_systemctl w' = w_systemctl w @ [reload_call] \<and> \<not> is_ok r \<or>
         w_systemctl w' = w_systemctl w @ [reload_call, enable_call]))"
proof -
  let ?u = "d @ [SYSTEMD_USER_UNIT_NAME]"
  define b where "b = (if ip_dry_run opts \<or> ip_from opts \<noteq> None then src else DEFAULT_DAEMON_BIN_PATH)"
  obtain x s1 where aw: "atomic_write_text e ?u (rewrite_exec_start SYSTEMD_USER_UNIT_BUNDLED b) (w_fs w) = (x, s1)" by fastforce
  note eff = atomic_write_text_effect [OF aw assms(4)]
  have src: "fs_nodes s1 src = Some (FileNode bs m)" using eff(3) [of src] assms(5,6) by simp
  have inst: "install_presenced pr e opts w = and_then (on_fs (atomic_write_text e ?u (rewrite_exec_start SYSTEMD_USER_UNIT_BUNDLED b)))
      (\<lambda>_. if ip_dry_run opts then dry_install ?u src else live_install pr e ?u src) w"
    by (simp add: install_presenced_def assms(2,3) Let_def b_def)
  have ne: "?u \<noteq> DEFAULT_DAEMON_BIN_PATH" by (simp add: const_defs)
  show ?thesis
  proof (cases x)
    case (Inl err)
    then have "w' = w\<lparr> w_fs := s1 \<rparr>" "r = Err err" using assms(1) aw by (auto simp: inst cmd_Pair)
    then show ?thesis by simp
  next
    case (Inr u)
    then have node: "unit_placed d b s1" using eff(1) by (simp add: unit_placed_def rewrite_bundled)
    have rest: "(if ip_dry_run opts then dry_install ?u src else live_install pr e ?u src) (w\<lparr> w_fs := s1 \<rparr>) = (r, w')"
      using assms(1) aw Inr by (auto simp: inst cmd_Pair)
    show ?thesis
    proof (cases "ip_dry_run opts")
      case True
      then show ?thesis using dry_install_effect [of ?u src _ r w'] rest node by (simp add: b_def)
    next
      case False
      have live: "live_install pr e ?u src (w\<lparr> w_fs := s1 \<rparr>) = (r, w')" "fs_nodes (w_fs (w\<lparr> w_fs := s1 \<rparr>)) src = Some (FileNode bs m)"
          "src \<noteq> DEFAULT_DAEMON_BIN_PATH"
        using rest False src assms(6) by simp_all
      note l = live_install_effect [OF live _ ne]
      have p: "unit_placed d b (w_fs w')" using l(1) node by (simp add: unit_placed_def)
      have b: "b = (if ip_from opts = None then DEFAULT_DAEMON_BIN_PATH else src)" using False by (simp add: b_def)
      have "w_systemctl w' = w_systemctl w \<and> \<not> is_ok r \<or> fs_nodes (w_fs w') DEFAULT_DAEMON_BIN_PATH = Some (FileNode bs m) \<and>
          (w_systemctl w' = w_systemctl w @ [reload_call] \<and> \<not> is_ok r \<or> w_systemctl w' = w_systemctl w @ [reload_call, enable_call])"
        using l(2) node by (simp add: unit_placed_def)
      then show ?thesis using False p unfolding b by blast
    qed
  qed
qed


subsection \<open>Examples\<close>

definition ex_systemctl :: "string list \<Rightarrow> io_error + cmd_output" where
  "ex_systemctl args = Ok \<lparr> co_success = True, co_code = Some 0, co_stdout = [], co_stderr = [] \<rparr>"

definition ex_proc :: proc_env where
  "ex_proc = \<lparr> pr_var = [''HOME'' \<mapsto> ''/h''], pr_exe = Ok [''b'', ''syauth''], pr_systemctl = ex_systemctl \<rparr>"

definition ex_daemon_fs :: fs where
  "ex_daemon_fs = \<lparr> fs_nodes = [[''b'', ''syauth-presenced''] \<mapsto> FileNode [1, 2, 3] 493], fs_past = [] \<rparr>"

definition ex_world :: "fs \<Rightarrow> world" where
  "ex_world s = \<lparr> w_fs = s, w_out = \<lparr> con_text = [], con_count = 0, con_fail = (\<lambda>_. None) \<rparr>,
     w_err = \<lparr> con_text = [], con_count = 0, con_fail = (\<lambda>_. None) \<rparr>, w_systemctl = [] \<rparr>"

definition ex_presenced_opts :: install_presenced_opts where
  "ex_presenced_opts = \<lparr> ip_from = None, ip_unit_dir = None, ip_dry_run = False \<rparr>"

lemma ex_unit_dir: "resolve_unit_dir ex_proc None = Ok [''h'', ''.config'', ''systemd'', ''user'']"
  by code_simp

lemma ex_ancestors:
  "ancestors [''h'', ''.config'', ''systemd'', ''user''] = [[''h''], [''h'', ''.config''], [''h'', ''.config'', ''systemd''], [''h'', ''.config'', ''systemd'', ''user'']]"
  "ancestors [''usr'', ''local'', ''libexec''] = [[''usr''], [''usr'', ''local''], [''usr'', ''local'', ''libexec'']]"
  by code_simp+

lemma ex_source: "resolve_source_binary ex_proc ex_pam_env ex_daemon_fs None = Ok [''b'', ''syauth-presenced'']"
  by code_simp

lemma ex_fields: "sys_temp ex_pam_env = ''tmp''" "pr_systemctl ex_proc = ex_systemctl" "sys_umask_dir ex_pam_env = 493"
  by (simp_all add: ex_pam_env_def ex_proc_def)

lemma ex_nodes: "fs_nodes ex_daemon_fs = [[''b'', ''syauth-presenced''] \<mapsto> FileNode [1, 2, 3] 493]"
  by (simp add: ex_daemon_fs_def)

lemma ex_unit_write:
  "\<exists>s1. atomic_write_text ex_pam_env [''h'', ''.config'', ''systemd'', ''user'', SYSTEMD_USER_UNIT_NAME] body ex_daemon_fs = (Ok (), s1) \<and>
     fs_nodes s1 [''b'', ''syauth-presenced''] = Some (FileNode [1, 2, 3] 493) \<and> fs_nodes s1 [''usr''] = None \<and>
     fs_nodes s1 [''usr'', ''local''] = None \<and> fs_nodes s1 [''usr'', ''local'', ''libexec''] = None \<and> fs_nodes s1 DEFAULT_DAEMON_BIN_PATH = None"
  by (simp add: Let_def atomic_write_text_def create_dir_all_def ex_ancestors guarded_def ex_fails ex_fields ex_nodes
      replace_via_temp_def new_temp_def temp_path_def text_steps_def write_all_def sync_all_def rename_def on_err_def
      SYSTEMD_USER_UNIT_NAME_def DEFAULT_DAEMON_BIN_PATH_def)

lemma ex_live:
  assumes "fs_nodes (w_fs w) [''b'', ''syauth-presenced''] = Some (FileNode [1, 2, 3] 493)" "fs_nodes (w_fs w) [''usr''] = None"
    "fs_nodes (w_fs w) [''usr'', ''local''] = None" "fs_nodes (w_fs w) [''usr'', ''local'', ''libexec''] = None"
    "fs_nodes (w_fs w) DEFAULT_DAEMON_BIN_PATH = None"
  shows "is_ok (fst (live_install ex_proc ex_pam_env u [''b'', ''syauth-presenced''] w))"
  using assms
  by (simp add: live_install_def and_then_def on_fs_def create_dir_all_def ex_ancestors guarded_def ex_fails ex_fields
      on_err_def copy_file_def parent_def write_all_def run_systemctl_def ex_systemctl_def DEFAULT_DAEMON_BIN_PATH_def)

lemma ex_install_ok:
  "is_ok (fst (install_presenced ex_proc ex_pam_env ex_presenced_opts (ex_world ex_daemon_fs)))"
proof -
  obtain s1 where s1: "atomic_write_text ex_pam_env [''h'', ''.config'', ''systemd'', ''user'', SYSTEMD_USER_UNIT_NAME]
        (rewrite_exec_start SYSTEMD_USER_UNIT_BUNDLED DEFAULT_DAEMON_BIN_PATH) ex_daemon_fs = (Ok (), s1)"
      "fs_nodes s1 [''b'', ''syauth-presenced''] = Some (FileNode [1, 2, 3] 493)" "fs_nodes s1 [''usr''] = None"
      "fs_nodes s1 [''usr'', ''local''] = None" "fs_nodes s1 [''usr'', ''local'', ''libexec''] = None"
      "fs_nodes s1 DEFAULT_DAEMON_BIN_PATH = None"
    using ex_unit_write by blast
  have "install_presenced ex_proc ex_pam_env ex_presenced_opts (ex_world ex_daemon_fs) =
      live_install ex_proc ex_pam_env [''h'', ''.config'', ''systemd'', ''user'', SYSTEMD_USER_UNIT_NAME] [''b'', ''syauth-presenced'']
        ((ex_world ex_daemon_fs)\<lparr> w_fs := s1 \<rparr>)"
    using s1(1) by (simp add: install_presenced_def ex_presenced_opts_def ex_unit_dir ex_world_def ex_source and_then_def on_fs_def)
  then show ?thesis using ex_live [of "(ex_world ex_daemon_fs)\<lparr> w_fs := s1 \<rparr>"] s1(2-6) by simp
qed

theorem presenced_install_order_witness:
  "case install_presenced ex_proc ex_pam_env ex_presenced_opts (ex_world ex_daemon_fs) of (r, w') \<Rightarrow>
     is_ok r \<and> unit_placed [''h'', ''.config'', ''systemd'', ''user''] DEFAULT_DAEMON_BIN_PATH (w_fs w') \<and>
     fs_nodes (w_fs w') DEFAULT_DAEMON_BIN_PATH = Some (FileNode [1, 2, 3] 493) \<and> w_systemctl w' = [reload_call, enable_call]"
proof -
  obtain r w' where i: "install_presenced ex_proc ex_pam_env ex_presenced_opts (ex_world ex_daemon_fs) = (r, w')" by fastforce
  have ok: "is_ok r" using ex_install_ok by (simp add: i)
  have "resolve_unit_dir ex_proc (ip_unit_dir ex_presenced_opts) = Ok [''h'', ''.config'', ''systemd'', ''user'']"
      "resolve_source_binary ex_proc ex_pam_env (w_fs (ex_world ex_daemon_fs)) (ip_from ex_presenced_opts) = Ok [''b'', ''syauth-presenced'']"
      "SYSTEMD_USER_UNIT_NAME \<noteq> sys_temp ex_pam_env"
      "fs_nodes (w_fs (ex_world ex_daemon_fs)) [''b'', ''syauth-presenced''] = Some (FileNode [1, 2, 3] 493)"
    by (simp_all add: ex_presenced_opts_def ex_unit_dir ex_world_def ex_source ex_fields SYSTEMD_USER_UNIT_NAME_def ex_nodes)
  from presenced_install_order [OF i this] show ?thesis
    using ok unfolding i prod.case 
    by (simp add: ex_presenced_opts_def ex_world_def DEFAULT_DAEMON_BIN_PATH_def ex_fields) blast
qed

text \<open>
  Installing from the installed path itself, by \<open>--from\<close> or because \<open>syauth\<close> lives
  in the same directory, empties the daemon: the copy truncates its own source.
\<close>

theorem reinstall_truncates_daemon:
  assumes "live_install pr e u DEFAULT_DAEMON_BIN_PATH w = (Ok out, w')"
  shows "\<exists>m. fs_nodes (w_fs w') DEFAULT_DAEMON_BIN_PATH = Some (FileNode [] m)"
proof -
  let ?D = DEFAULT_DAEMON_BIN_PATH
  obtain s1 s2 where cp: "copy_file e ?D ?D s1 = (Ok (), s2)" and w: "w_fs w' = s2"
    using assms
    by (auto simp: live_install_def cmd_Pair on_err_Pair eq_commute [of "Ok ()" "map_err _ _"] dest!: run_systemctl_effect)
  then show ?thesis
    unfolding w by (auto simp: copy_file_def guarded_def write_all_def split: option.splits node.splits)
qed

theorem reinstall_truncates_daemon_witness:
  "case live_install ex_proc ex_pam_env [''u''] DEFAULT_DAEMON_BIN_PATH
      (ex_world \<lparr> fs_nodes = [[''usr''] \<mapsto> DirNode 493, [''usr'', ''local''] \<mapsto> DirNode 493, [''usr'', ''local'', ''libexec''] \<mapsto> DirNode 493,
         DEFAULT_DAEMON_BIN_PATH \<mapsto> FileNode [1, 2, 3] 493], fs_past = [] \<rparr>) of
     (r, w') \<Rightarrow> is_ok r \<and> fs_nodes (w_fs w') DEFAULT_DAEMON_BIN_PATH = Some (FileNode [] 493)"
  by code_simp

end
