(* ===== verification/Pam.thy ===== *)
theory Pam
  imports Server
begin

text \<open>
  The PAM module \<open>syauth-pam\<close>: its configuration (\<open>config.rs\<close>), the authentication
  flow (\<open>auth.rs\<close>) and the entry points with their panic boundary (\<open>entry.rs\<close>).
  The module is a client of the daemon's socket; what the socket does is an
  argument, and the properties at the end connect it to the daemon's own
  connection handler.
\<close>

section \<open>Configuration\<close>

definition DEFAULT_BOND_DIR :: string where [const_defs]: "DEFAULT_BOND_DIR = ''/var/lib/syauth''"
definition PAM_DEFAULT_AUTH_TIMEOUT :: nat where [const_defs]: "PAM_DEFAULT_AUTH_TIMEOUT = 8000"
definition LAST_LOG_FILENAME :: string where [const_defs]: "LAST_LOG_FILENAME = ''last.log''"
definition DEFAULT_RUNTIME_FALLBACK_PREFIX :: string where [const_defs]: "DEFAULT_RUNTIME_FALLBACK_PREFIX = ''/run/user/''"
definition RUNTIME_SUBDIR :: string where [const_defs]: "RUNTIME_SUBDIR = ''syauth''"
definition DEFAULT_SOCKET_BASENAME :: string where [const_defs]: "DEFAULT_SOCKET_BASENAME = ''auth.sock''"
definition PAM_SOCKET_ARG_PREFIX :: string where [const_defs]: "PAM_SOCKET_ARG_PREFIX = ''socket=''"

record pam_config =
  pc_bond_dir :: path
  pc_socket_path :: path
  pc_auth_timeout :: nat

text \<open>The process environment: the runtime-directory variable if it is set to valid text, and the effective user.\<close>

record proc_env =
  en_xdg_runtime_dir :: "string option"
  en_euid :: "32 word"

definition resolve_socket_path :: "proc_env \<Rightarrow> path option \<Rightarrow> path" where
  "resolve_socket_path en override_path =
     (case override_path of
        Some p \<Rightarrow> p
      | None \<Rightarrow>
          (case en_xdg_runtime_dir en of
             Some dir \<Rightarrow>
               if dir \<noteq> [] then path_components dir @ [RUNTIME_SUBDIR, DEFAULT_SOCKET_BASENAME]
               else path_components (DEFAULT_RUNTIME_FALLBACK_PREFIX @ show_nat (unat (en_euid en)))
                      @ [RUNTIME_SUBDIR, DEFAULT_SOCKET_BASENAME]
           | None \<Rightarrow> path_components (DEFAULT_RUNTIME_FALLBACK_PREFIX @ show_nat (unat (en_euid en)))
                      @ [RUNTIME_SUBDIR, DEFAULT_SOCKET_BASENAME]))"

fun find_map :: "('a \<Rightarrow> 'b option) \<Rightarrow> 'a list \<Rightarrow> 'b option" where
  "find_map f [] = None"
| "find_map f (x # xs) = (case f x of Some y \<Rightarrow> Some y | None \<Rightarrow> find_map f xs)"

definition from_pam_argv :: "proc_env \<Rightarrow> string list \<Rightarrow> pam_config" where
  "from_pam_argv en argv =
     \<lparr> pc_bond_dir = path_components DEFAULT_BOND_DIR,
       pc_socket_path = resolve_socket_path en
         (map_option path_components (find_map (\<lambda>arg. strip_prefix arg PAM_SOCKET_ARG_PREFIX) argv)),
       pc_auth_timeout = PAM_DEFAULT_AUTH_TIMEOUT \<rparr>"

definition last_log_path :: "pam_config \<Rightarrow> path" where
  "last_log_path cfg = pc_bond_dir cfg @ [LAST_LOG_FILENAME]"

definition bonds_file_path :: "pam_config \<Rightarrow> path" where
  "bonds_file_path cfg = pc_bond_dir cfg @ [''bonds.toml'']"

section \<open>Outcomes\<close>

definition PAM_SUCCESS :: int where [const_defs]: "PAM_SUCCESS = 0"
definition PAM_AUTH_ERR :: int where [const_defs]: "PAM_AUTH_ERR = 7"
definition PAM_AUTHINFO_UNAVAIL :: int where [const_defs]: "PAM_AUTHINFO_UNAVAIL = 9"
definition PAM_IGNORE :: int where [const_defs]: "PAM_IGNORE = 25"

definition DAEMON_WRITE_TIMEOUT :: nat where [const_defs]: "DAEMON_WRITE_TIMEOUT = 50"
definition DAEMON_RESPONSE_BUDGET :: nat where [const_defs]: "DAEMON_RESPONSE_BUDGET = 8000"
definition OUTCOME_REASON_OFFLINE :: string where [const_defs]: "OUTCOME_REASON_OFFLINE = ''offline''"
definition OUTCOME_REASON_ADAPTER_MISSING :: string where [const_defs]: "OUTCOME_REASON_ADAPTER_MISSING = ''adapter-missing''"
definition LAST_LOG_VERB_SUCCESS :: string where [const_defs]: "LAST_LOG_VERB_SUCCESS = ''success''"
definition LAST_LOG_VERB_FAILURE :: string where [const_defs]: "LAST_LOG_VERB_FAILURE = ''failure''"
definition LAST_LOG_UNKNOWN_PEER :: string where [const_defs]: "LAST_LOG_UNKNOWN_PEER = ''unknown''"
definition REASON_NO_BONDS_CONFIGURED :: string where [const_defs]: "REASON_NO_BONDS_CONFIGURED = ''no bonds configured''"
definition REASON_NO_BONDED_PEER :: string where [const_defs]: "REASON_NO_BONDED_PEER = ''no bonded peer''"

datatype auth_outcome =
    Au_Success string
  | Au_InfoUnavail string "string option"
  | Au_Err string "string option"

fun to_pam_code :: "auth_outcome \<Rightarrow> int" where
  "to_pam_code (Au_Success _) = PAM_SUCCESS"
| "to_pam_code (Au_InfoUnavail _ _) = PAM_AUTHINFO_UNAVAIL"
| "to_pam_code (Au_Err _ _) = PAM_AUTH_ERR"

fun outcome_reason :: "auth_outcome \<Rightarrow> string" where
  "outcome_reason (Au_Success _) = ''granted''"
| "outcome_reason (Au_InfoUnavail r _) = r"
| "outcome_reason (Au_Err r _) = r"

fun outcome_peer_id :: "auth_outcome \<Rightarrow> string option" where
  "outcome_peer_id (Au_Success p) = Some p"
| "outcome_peer_id (Au_InfoUnavail _ p) = p"
| "outcome_peer_id (Au_Err _ p) = p"

fun is_success :: "auth_outcome \<Rightarrow> bool" where
  "is_success (Au_Success _) = True"
| "is_success _ = False"

definition outcome_reason_to_pam :: "string \<Rightarrow> int \<times> string" where
  "outcome_reason_to_pam reason =
     (if reason = OUTCOME_REASON_OK then (PAM_SUCCESS, OUTCOME_REASON_OK)
      else if reason = OUTCOME_REASON_DENIED then (PAM_AUTH_ERR, OUTCOME_REASON_DENIED)
      else if reason = OUTCOME_REASON_REPLAY then (PAM_AUTH_ERR, OUTCOME_REASON_REPLAY)
      else if reason = OUTCOME_REASON_BAD_SIGNATURE then (PAM_AUTH_ERR, OUTCOME_REASON_BAD_SIGNATURE)
      else if reason = OUTCOME_REASON_RESPONSE_TIMEOUT then (PAM_AUTHINFO_UNAVAIL, OUTCOME_REASON_RESPONSE_TIMEOUT)
      else if reason = OUTCOME_REASON_OFFLINE then (PAM_AUTHINFO_UNAVAIL, OUTCOME_REASON_OFFLINE)
      else if reason = OUTCOME_REASON_BUSY then (PAM_AUTHINFO_UNAVAIL, OUTCOME_REASON_BUSY)
      else if reason = OUTCOME_REASON_UNKNOWN_PEER then (PAM_AUTHINFO_UNAVAIL, OUTCOME_REASON_UNKNOWN_PEER)
      else if reason = OUTCOME_REASON_TRANSPORT_ERROR then (PAM_AUTHINFO_UNAVAIL, OUTCOME_REASON_TRANSPORT_ERROR)
      else if reason = OUTCOME_REASON_ADAPTER_MISSING then (PAM_AUTHINFO_UNAVAIL, OUTCOME_REASON_ADAPTER_MISSING)
      else (PAM_AUTH_ERR, ''unknown-reason''))"

section \<open>Authentication\<close>

text \<open>
  The socket as the module sees it: whether it can connect and set its timeouts,
  whether a request is taken within the write timeout, and the pieces that come
  back, each with the time until it arrives.
\<close>

record sock_env =
  so_connect :: "path \<Rightarrow> io_error option"
  so_set_write_timeout :: "io_error option"
  so_set_read_timeout :: "io_error option"
  so_write :: "bytes \<Rightarrow> io_error option"
  so_reply :: "bytes \<Rightarrow> arrivals"

definition daemon_round_trip :: "cbor \<Rightarrow> sock_env \<Rightarrow> path \<Rightarrow> string \<Rightarrow> bytes \<Rightarrow> nat \<Rightarrow> unit + response" where
  "daemon_round_trip B so socket_path peer_id nonce auth_timeout =
     (if so_connect so socket_path \<noteq> None then Err ()
      else if so_set_write_timeout so \<noteq> None then Err ()
      else if so_set_read_timeout so \<noteq> None then Err ()
      else let request = Req_Challenge peer_id nonce in
        case write_frame_blocking (cb_req_enc B) request [] of
          (Inl _, _) \<Rightarrow> Err ()
        | (Inr _, sent) \<Rightarrow>
            if so_write so sent \<noteq> None then Err ()
            else map_err (\<lambda>_. ())
              (fst (read_frame_blocking (min auth_timeout DAEMON_RESPONSE_BUDGET) (cb_resp_dec B) (so_reply so sent))))"

definition first_bonded :: "bond_store \<Rightarrow> bond option" where
  "first_bonded store = find (\<lambda>b. b_status b = Bonded) (bs_list store)"

text \<open>A panic is the left of the outer sum; the error of the inner one is an outcome to return.\<close>

definition resolve_peer_id ::
    "toml_lib \<Rightarrow> (bytes \<Rightarrow> bytes) \<Rightarrow> sys_env \<Rightarrow> pam_config \<Rightarrow> fs \<Rightarrow> unit + (auth_outcome + string)" where
  "resolve_peer_id L blake3 e cfg s =
     (case bs_load L blake3 e s (bonds_file_path cfg) of
        Inl Bond_Panicked \<Rightarrow> Err ()
      | Inl _ \<Rightarrow> Ok (Err (Au_InfoUnavail REASON_NO_BONDS_CONFIGURED None))
      | Inr store \<Rightarrow>
          (case first_bonded store of
             None \<Rightarrow> Ok (Err (Au_InfoUnavail REASON_NO_BONDED_PEER None))
           | Some b \<Rightarrow> Ok (Ok (b_peer_id b))))"

definition outcome_of_response :: "string \<Rightarrow> response \<Rightarrow> auth_outcome" where
  "outcome_of_response peer_id response =
     (case response of
        Resp_Challenge _ _ reason \<Rightarrow>
          (case outcome_reason_to_pam reason of
             (code, static_reason) \<Rightarrow>
               if code = PAM_SUCCESS then Au_Success peer_id
               else if code = PAM_AUTHINFO_UNAVAIL then Au_InfoUnavail static_reason (Some peer_id)
               else Au_Err static_reason (Some peer_id))
      | _ \<Rightarrow> Au_InfoUnavail OUTCOME_REASON_TRANSPORT_ERROR (Some peer_id))"

record pam_libs =
  pl_toml :: toml_lib
  pl_blake3 :: "bytes \<Rightarrow> bytes"
  pl_cbor :: cbor

text \<open>What one call meets: the socket, the random bytes, the formatted time (if it can be formatted).\<close>

record pam_call =
  pk_sock :: sock_env
  pk_rng :: "unit + bytes"
  pk_ts :: "string option"

definition authenticate_inner :: "pam_libs \<Rightarrow> sys_env \<Rightarrow> pam_call \<Rightarrow> pam_config \<Rightarrow> fs \<Rightarrow> unit + auth_outcome" where
  "authenticate_inner P e k cfg s =
     (case resolve_peer_id (pl_toml P) (pl_blake3 P) e cfg s of
        Inl _ \<Rightarrow> Err ()
      | Inr (Inl outcome) \<Rightarrow> Ok outcome
      | Inr (Inr peer_id) \<Rightarrow>
          (case pk_rng k of
             Inl _ \<Rightarrow> Ok (Au_InfoUnavail OUTCOME_REASON_TRANSPORT_ERROR (Some peer_id))
           | Inr nonce \<Rightarrow>
               (case daemon_round_trip (pl_cbor P) (pk_sock k) (pc_socket_path cfg) peer_id nonce (pc_auth_timeout cfg) of
                  Inl _ \<Rightarrow> Ok (Au_InfoUnavail OUTCOME_REASON_TRANSPORT_ERROR (Some peer_id))
                | Inr response \<Rightarrow> Ok (outcome_of_response peer_id response))))"

definition last_log_line :: "string option \<Rightarrow> auth_outcome \<Rightarrow> string" where
  "last_log_line ts outcome =
     (case ts of Some t \<Rightarrow> t | None \<Rightarrow> ''0000-00-00T00:00:00Z'') @ '' '' @
     (if is_success outcome then LAST_LOG_VERB_SUCCESS else LAST_LOG_VERB_FAILURE) @ '' '' @
     (case outcome_peer_id outcome of Some p \<Rightarrow> p | None \<Rightarrow> LAST_LOG_UNKNOWN_PEER) @ [NL]"

text \<open>The log is opened with the default creation mode.\<close>

definition append_last_log :: "sys_env \<Rightarrow> pam_call \<Rightarrow> pam_config \<Rightarrow> auth_outcome \<Rightarrow> fs \<Rightarrow> (io_error + unit) \<times> fs" where
  "append_last_log e k cfg outcome s =
     (let s1 = (case parent (last_log_path cfg) of None \<Rightarrow> s | Some d \<Rightarrow> snd (create_dir_all e d s)) in
      case open_append e (last_log_path cfg) (sys_umask_file e) s1 of
        (Inl err, s2) \<Rightarrow> (Err err, s2)
      | (Inr _, s2) \<Rightarrow> write_all e (last_log_path cfg) (str_bytes (last_log_line (pk_ts k) outcome)) s2)"

definition authenticate :: "pam_libs \<Rightarrow> sys_env \<Rightarrow> pam_call \<Rightarrow> pam_config \<Rightarrow> fs \<Rightarrow> (unit + auth_outcome) \<times> fs" where
  "authenticate P e k cfg s =
     (case authenticate_inner P e k cfg s of
        Inl _ \<Rightarrow> (Err (), s)
      | Inr outcome \<Rightarrow> (Ok outcome, snd (append_last_log e k cfg outcome s)))"

section \<open>Entry points\<close>

definition STUB_LOG_LINE :: string where [const_defs]: "STUB_LOG_LINE = ''syauth: unlock unavailable reason=stub''"
definition PANIC_LOG_LINE :: string where [const_defs]: "PANIC_LOG_LINE = ''syauth: unlock unavailable reason=panic''"
definition SETCRED_LOG_LINE :: string where [const_defs]: "SETCRED_LOG_LINE = ''syauth: setcred noop reason=stub''"

text \<open>What the module leaves behind: the file system and the lines it gave to syslog.\<close>

record pam_world =
  pw_fs :: fs
  pw_syslog :: "string list"

definition log_info :: "string \<Rightarrow> pam_world \<Rightarrow> pam_world" where
  "log_info line w = w\<lparr> pw_syslog := pw_syslog w @ [line] \<rparr>"

definition run_entry :: "(unit + int) \<times> pam_world \<Rightarrow> int \<times> pam_world" where
  "run_entry r =
     (case r of
        (Inr code, w) \<Rightarrow> (code, w)
      | (Inl _, w) \<Rightarrow> (PAM_AUTH_ERR, log_info PANIC_LOG_LINE w))"

text \<open>\<open>argv\<close> is null or an array of pointers that are null or C strings; text that is not UTF-8 is dropped.\<close>

definition collect_pam_argv :: "int \<Rightarrow> bytes option list option \<Rightarrow> string list" where
  "collect_pam_argv argc argv =
     (case argv of
        None \<Rightarrow> []
      | Some ptrs \<Rightarrow>
          if argc \<le> 0 then []
          else List.map_filter (\<lambda>p. case p of None \<Rightarrow> None | Some bs \<Rightarrow> from_utf8 bs) (take (nat argc) ptrs))"

definition unlock_line :: "auth_outcome \<Rightarrow> string" where
  "unlock_line outcome =
     ''syauth: unlock '' @ (if is_success outcome then ''success'' else ''denied'') @ '' reason='' @ outcome_reason outcome @
     '' peer_id='' @ (case outcome_peer_id outcome of Some p \<Rightarrow> p | None \<Rightarrow> LAST_LOG_UNKNOWN_PEER)"

definition pam_sm_authenticate ::
    "pam_libs \<Rightarrow> proc_env \<Rightarrow> sys_env \<Rightarrow> pam_call \<Rightarrow> int \<Rightarrow> bytes option list option \<Rightarrow> pam_world \<Rightarrow> int \<times> pam_world" where
  "pam_sm_authenticate P en e k argc argv w =
     run_entry
       (case authenticate P e k (from_pam_argv en (collect_pam_argv argc argv)) (pw_fs w) of
          (Inl _, s) \<Rightarrow> (Err (), w\<lparr> pw_fs := s \<rparr>)
        | (Inr outcome, s) \<Rightarrow> (Ok (to_pam_code outcome), log_info (unlock_line outcome) (w\<lparr> pw_fs := s \<rparr>)))"

definition pam_sm_setcred :: "pam_world \<Rightarrow> int \<times> pam_world" where
  "pam_sm_setcred w = run_entry (Ok PAM_SUCCESS, log_info SETCRED_LOG_LINE w)"

definition pam_sm_acct_mgmt :: "pam_world \<Rightarrow> int \<times> pam_world" where
  "pam_sm_acct_mgmt w = run_entry (Ok PAM_AUTHINFO_UNAVAIL, log_info STUB_LOG_LINE w)"


section \<open>Lemmas\<close>

lemma pam_codes_distinct [simp]:
  "PAM_SUCCESS \<noteq> PAM_AUTH_ERR" "PAM_SUCCESS \<noteq> PAM_AUTHINFO_UNAVAIL" "PAM_AUTH_ERR \<noteq> PAM_SUCCESS"
  "PAM_AUTHINFO_UNAVAIL \<noteq> PAM_SUCCESS" "PAM_AUTHINFO_UNAVAIL \<noteq> PAM_AUTH_ERR"
  by (simp_all add: const_defs)

lemma reason_success: "fst (outcome_reason_to_pam reason) = PAM_SUCCESS \<longleftrightarrow> reason = ''ok''"
  by (auto simp: outcome_reason_to_pam_def OUTCOME_REASON_OK_def)

lemma outcome_of_response_success:
  "outcome_of_response i r = Au_Success j \<longleftrightarrow> j = i \<and> (\<exists>ok sig. r = Resp_Challenge ok sig ''ok'')"
proof (cases r)
  case (Resp_Challenge ok sig reason)
  obtain code sr where p: "outcome_reason_to_pam reason = (code, sr)" by fastforce
  then have "code = PAM_SUCCESS \<longleftrightarrow> reason = ''ok''" using reason_success [of reason] by simp
  then show ?thesis by (auto simp: outcome_of_response_def Resp_Challenge p)
qed (simp_all add: outcome_of_response_def)

lemma daemon_round_trip_ok:
  "daemon_round_trip B so p i nonce t = Ok r \<longleftrightarrow>
     so_connect so p = None \<and> so_set_write_timeout so = None \<and> so_set_read_timeout so = None \<and>
     (\<exists>sent. encode_frame (cb_req_enc B) (Req_Challenge i nonce) = Ok sent \<and> so_write so sent = None \<and>
        fst (read_frame_blocking (min t DAEMON_RESPONSE_BUDGET) (cb_resp_dec B) (so_reply so sent)) = Ok r)"
  by (auto simp: daemon_round_trip_def write_frame_blocking_def Let_def split: sum.splits if_splits)

lemma resolve_peer_id_ok:
  "resolve_peer_id L blake3 e cfg s = Ok (Ok i) \<longleftrightarrow>
     (\<exists>store b. bs_load L blake3 e s (bonds_file_path cfg) = Ok store \<and> first_bonded store = Some b \<and> b_peer_id b = i)"
  by (auto simp: resolve_peer_id_def split: sum.splits bond_error.splits option.splits)

lemma resolve_peer_id_not_success: "resolve_peer_id L blake3 e cfg s = Ok (Err out) \<Longrightarrow> \<not> is_success out"
  by (auto simp: resolve_peer_id_def split: sum.splits bond_error.splits option.splits)

lemma authenticate_inner_success:
  "authenticate_inner P e k cfg s = Ok (Au_Success i) \<longleftrightarrow>
     (\<exists>nonce ok sig. resolve_peer_id (pl_toml P) (pl_blake3 P) e cfg s = Ok (Ok i) \<and> pk_rng k = Ok nonce \<and>
        daemon_round_trip (pl_cbor P) (pk_sock k) (pc_socket_path cfg) i nonce (pc_auth_timeout cfg) = Ok (Resp_Challenge ok sig ''ok''))"
  using resolve_peer_id_not_success [of "pl_toml P" "pl_blake3 P" e cfg s "Au_Success i"]
  by (auto simp: authenticate_inner_def outcome_of_response_success split: sum.splits)

lemma pam_success:
  "fst (pam_sm_authenticate P en e k argc argv w) = PAM_SUCCESS \<longleftrightarrow>
     (\<exists>i. authenticate_inner P e k (from_pam_argv en (collect_pam_argv argc argv)) (pw_fs w) = Ok (Au_Success i))"
proof -
  have "to_pam_code out = PAM_SUCCESS \<longleftrightarrow> (\<exists>i. out = Au_Success i)" for out by (cases out) auto
  then show ?thesis
    by (auto simp: pam_sm_authenticate_def run_entry_def authenticate_def split: sum.splits prod.splits)
qed

text \<open>The reply of the daemon of the server theory to a request.\<close>

definition daemon_reply ::
    "'p periph_ops \<Rightarrow> crypto \<Rightarrow> cbor \<Rightarrow> sys_env \<Rightarrow> call_env \<Rightarrow> serve_config \<Rightarrow> 32 word \<Rightarrow> 32 word \<Rightarrow> 'p daemon \<Rightarrow> bytes \<Rightarrow> bytes" where
  "daemon_reply ops C B e ce cfg expected uid D sent =
     (case handle_connection ops C B e ce cfg expected (Ok uid) sent D of
        None \<Rightarrow> [] | Some (res, _) \<Rightarrow> cr_written res)"

lemma on_wire_challenge: "Resp_Challenge ok sig reason = on_wire x \<Longrightarrow> x = Resp_Challenge ok sig reason"
  by (cases x) simp_all

lemma daemon_reply_read:
  assumes "cbor_ok B" "encode_frame (cb_req_enc B) request = Ok sent"
  shows "fst (read_frame (cb_resp_dec B) (daemon_reply ops C B e ce cfg expected uid D sent)) = Ok r \<longleftrightarrow>
           (\<exists>x D1 out. dispatch ops C e ce cfg request D = Some (x, D1) \<and> r = on_wire x \<and> encode_frame (cb_resp_enc B) x = Ok out)"
proof -
  have req: "read_frame (cb_req_dec B) sent = (Ok request, [])"
    using read_request [OF assms, of "[]"] by simp
  have empty: "fst (read_frame (cb_resp_dec B) []) \<noteq> Ok r"
    by (simp add: read_frame_def read_prefixed_def read_exact_def LENGTH_PREFIX_BYTES_def)
  have resp: "read_frame (cb_resp_dec B) out = (Ok (on_wire x), [])" if "encode_frame (cb_resp_enc B) x = Ok out" for x out
    using read_response [OF assms(1) that, of "[]"] by simp
  show ?thesis
  proof (cases "dispatch ops C e ce cfg request D")
    case None
    with req empty show ?thesis by (simp add: daemon_reply_def handle_connection_def Let_def)
  next
    case (Some rD)
    obtain x D1 where x: "rD = (x, D1)" by (cases rD)
    have "daemon_reply ops C B e ce cfg expected uid D sent =
        (case encode_frame (cb_resp_enc B) x of Inl _ \<Rightarrow> [] | Inr out \<Rightarrow> out)"
      using Some req x by (simp add: daemon_reply_def handle_connection_def Let_def write_frame_def split: sum.splits)
    then show ?thesis using Some x empty resp [of x] by (cases "encode_frame (cb_resp_enc B) x") auto
  qed
qed

text \<open>
  A client that reads with a limit gets the daemon's answer exactly if all its
  pieces come in time.
\<close>

lemma daemon_reply_prompt:
  assumes "cbor_ok B" "encode_frame (cb_req_enc B) request = Ok sent"
    and "sent_bytes st = daemon_reply ops C B e ce cfg expected uid D sent"
  shows "fst (read_frame_blocking lim (cb_resp_dec B) st) = Ok r \<longleftrightarrow>
           (\<exists>x D1 out. dispatch ops C e ce cfg request D = Some (x, D1) \<and> r = on_wire x \<and> encode_frame (cb_resp_enc B) x = Ok out \<and>
              prompt_bytes lim st = out)" (is "?l \<longleftrightarrow> ?r")
proof
  assume ?l
  then have "fst (read_frame (cb_resp_dec B) (daemon_reply ops C B e ce cfg expected uid D sent)) = Ok r"
    using read_frame_blocking_sound assms(3) by metis
  then obtain x D1 out where x: "dispatch ops C e ce cfg request D = Some (x, D1)" "r = on_wire x" "encode_frame (cb_resp_enc B) x = Ok out"
    unfolding daemon_reply_read [OF assms(1,2)] by blast
  have "read_frame (cb_req_dec B) sent = (Ok request, [])" using read_request [OF assms(1,2), of "[]"] by simp
  then have out: "sent_bytes st = out"
    using x assms(3) by (simp add: daemon_reply_def handle_connection_def Let_def write_frame_def)
  then have "read_frame (cb_resp_dec B) (sent_bytes st) = (Ok (on_wire x), [])" using read_response [OF assms(1) x(3), of "[]"] by simp
  from read_frame_prompt [OF this] \<open>?l\<close> x out show ?r by auto
next
  assume ?r
  then obtain x D1 out where x: "r = on_wire x" "encode_frame (cb_resp_enc B) x = Ok out" "prompt_bytes lim st = out" by blast
  then show ?l unfolding rpc_blocking_agrees using read_response [OF assms(1) x(2), of "[]"] by simp
qed

section \<open>Properties\<close>

text \<open>
  C1: when the module says yes, a phone has signed.  With the module talking to
  the daemon of this program over the socket, \<open>PAM_SUCCESS\<close> is returned only if
  the first bonded peer of the module's own bond store is live in the daemon and
  a 64-byte signature has arrived that verifies, under that peer's phone key,
  over the version byte and a nonce the daemon drew for this call and had not
  accepted before.
\<close>

theorem unlock_requires_phone_signature:
  assumes "cbor_ok (pl_cbor P)" "sc_test_fixed_nonce cfg = None"
    and "\<forall>sent. sent_bytes (so_reply (pk_sock k) sent) = daemon_reply ops C (pl_cbor P) e' ce cfg expected uid D sent"
    and "fst (pam_sm_authenticate P en e k argc argv w) = PAM_SUCCESS"
  shows "\<exists>store b os pe pk nonce s.
           bs_load (pl_toml P) (pl_blake3 P) e (pw_fs w) (path_components DEFAULT_BOND_DIR @ [''bonds.toml'']) = Ok store \<and>
           find (\<lambda>b. b_status b = Bonded) (bs_list store) = Some b \<and>
           d_orch D = Some os \<and> bt_get (o_peers os) (b_peer_id b) = Some pe \<and> pe_phone_pubkey pe = Some pk \<and>
           ce_rng ce = Ok nonce \<and> length s = 64 \<and> cr_verify C pk ([1] @ nonce) s \<and>
           \<not> nc_contains (pc_nonce_cache (o_cells os ! pe_cell pe)) nonce"
proof -
  let ?cfg = "from_pam_argv en (collect_pam_argv argc argv)"
  obtain i m ok sig where i: "resolve_peer_id (pl_toml P) (pl_blake3 P) e ?cfg (pw_fs w) = Ok (Ok i)"
      and trip: "daemon_round_trip (pl_cbor P) (pk_sock k) (pc_socket_path ?cfg) i m (pc_auth_timeout ?cfg) = Ok (Resp_Challenge ok sig ''ok'')"
    using assms(4) unfolding pam_success authenticate_inner_success by blast
  obtain store b where b: "bs_load (pl_toml P) (pl_blake3 P) e (pw_fs w) (bonds_file_path ?cfg) = Ok store"
      "first_bonded store = Some b" "b_peer_id b = i"
    using i unfolding resolve_peer_id_ok by blast
  obtain sent where sent: "encode_frame (cb_req_enc (pl_cbor P)) (Req_Challenge i m) = Ok sent"
      "fst (read_frame (cb_resp_dec (pl_cbor P)) (sent_bytes (so_reply (pk_sock k) sent))) = Ok (Resp_Challenge ok sig ''ok'')"
    using trip unfolding daemon_round_trip_ok by (elim conjE exE) (blast dest: read_frame_blocking_sound)
  then obtain D1 where "dispatch ops C e' ce cfg (Req_Challenge i m) D = Some (Resp_Challenge ok sig ''ok'', D1)"
    using daemon_reply_read [OF assms(1) sent(1), of ops C e' ce cfg expected uid D "Resp_Challenge ok sig ''ok''"]
      sent(2) assms(3) on_wire_challenge by auto
  from dispatch_challenge_sound [OF this assms(2)] b show ?thesis
    by (auto simp: bonds_file_path_def from_pam_argv_def first_bonded_def)
qed

text \<open>
  The failure table.  Each outcome of a daemon transaction reaches PAM as
  one code: success only for an accepted signature, the hard error for a denied,
  replayed or badly signed challenge, and the code that lets the stack fall
  through for a timeout, an unknown peer, a busy slot and a transport error.
\<close>

theorem pam_code_of_outcome:
  "fst (outcome_reason_to_pam (reason_str out)) =
     (case out of Co_Ok _ \<Rightarrow> 0
      | Co_Denied \<Rightarrow> 7 | Co_Replay \<Rightarrow> 7 | Co_BadSignature \<Rightarrow> 7
      | Co_TimedOut \<Rightarrow> 9 | Co_UnknownPeer \<Rightarrow> 9 | Co_Busy \<Rightarrow> 9 | Co_TransportError _ \<Rightarrow> 9)"
  by (cases out) (simp_all add: outcome_reason_to_pam_def const_defs)

text \<open>
  C5: the module fails closed.  Whatever the arguments, the environment, the
  bond store and the bytes on the socket, it returns one of the three codes.
  Success needs a bonded peer in the store and a reply, no read of which waits
  longer than the receive timeout of eight seconds, that decodes to a challenge
  response with reason \<open>ok\<close>; a reply of that kind with its flag set is a success.
  A peer without such an exchange falls through to the next module, and a panic
  while the store is read becomes the hard error.
\<close>

theorem pam_fails_closed:
  fixes P en e k argc argv w
  defines "code \<equiv> fst (pam_sm_authenticate P en e k argc argv w)"
    and "load \<equiv> bs_load (pl_toml P) (pl_blake3 P) e (pw_fs w) (path_components DEFAULT_BOND_DIR @ [''bonds.toml''])"
    and "trip \<equiv> \<lambda>b nonce. daemon_round_trip (pl_cbor P) (pk_sock k)
           (pc_socket_path (from_pam_argv en (collect_pam_argv argc argv))) (b_peer_id b) nonce 8000"
  shows "code \<in> {0, 7, 9} \<and>
    (code = 0 \<longrightarrow> (\<exists>store b nonce ok sig. load = Ok store \<and> first_bonded store = Some b \<and> pk_rng k = Ok nonce \<and>
       trip b nonce = Ok (Resp_Challenge ok sig ''ok''))) \<and>
    (\<forall>store b nonce sig. load = Ok store \<longrightarrow> first_bonded store = Some b \<longrightarrow> pk_rng k = Ok nonce \<longrightarrow>
       (trip b nonce = Ok (Resp_Challenge True sig ''ok'') \<longrightarrow> code = 0) \<and> (trip b nonce = Err () \<longrightarrow> code = 9)) \<and>
    (load = Err Bond_Panicked \<longrightarrow> code = 7)"
proof -
  let ?cfg = "from_pam_argv en (collect_pam_argv argc argv)"
  have codes: "to_pam_code out \<in> {0, 7, 9}" for out by (cases out) (simp_all add: const_defs)
  have zero: "code = 0 \<longleftrightarrow> fst (pam_sm_authenticate P en e k argc argv w) = PAM_SUCCESS" by (simp add: code_def PAM_SUCCESS_def)
  have cfg: "bonds_file_path ?cfg = path_components DEFAULT_BOND_DIR @ [''bonds.toml'']" "pc_auth_timeout ?cfg = 8000"
    by (simp_all add: bonds_file_path_def from_pam_argv_def PAM_DEFAULT_AUTH_TIMEOUT_def)
  have "code \<in> {0, 7, 9}"
    using codes by (auto simp: code_def pam_sm_authenticate_def run_entry_def PAM_AUTH_ERR_def split: sum.splits prod.splits)
  moreover have "code = 0 \<longleftrightarrow> (\<exists>store b nonce ok sig. load = Ok store \<and> first_bonded store = Some b \<and> pk_rng k = Ok nonce \<and>
       trip b nonce = Ok (Resp_Challenge ok sig ''ok''))"
    unfolding zero pam_success authenticate_inner_success resolve_peer_id_ok cfg load_def trip_def by blast
  moreover have "code = 9" if "load = Ok store" "first_bonded store = Some b" "pk_rng k = Ok nonce" "trip b nonce = Err ()" for store b nonce
  proof -
    have "resolve_peer_id (pl_toml P) (pl_blake3 P) e ?cfg (pw_fs w) = Ok (Ok (b_peer_id b))"
      unfolding resolve_peer_id_ok cfg using that(1,2) unfolding load_def by blast
    with that(3,4) have "authenticate_inner P e k ?cfg (pw_fs w) = Ok (Au_InfoUnavail OUTCOME_REASON_TRANSPORT_ERROR (Some (b_peer_id b)))"
      by (simp add: authenticate_inner_def trip_def cfg)
    then show ?thesis by (simp add: code_def pam_sm_authenticate_def authenticate_def run_entry_def PAM_AUTHINFO_UNAVAIL_def)
  qed
  moreover have "load = Err Bond_Panicked \<longrightarrow> code = 7"
    by (simp add: code_def load_def pam_sm_authenticate_def run_entry_def authenticate_def authenticate_inner_def
        resolve_peer_id_def cfg PAM_AUTH_ERR_def)
  ultimately show ?thesis by metis
qed

text \<open>
  The \<open>ok\<close> flag and the signature of a response are not looked at.  A reply
  with reason \<open>ok\<close> is a success for the module even when its flag is false and
  it carries no signature.
\<close>

theorem pam_ignores_ok_flag:
  "outcome_of_response i (Resp_Challenge False None ''ok'') = Au_Success i"
  by (auto simp: outcome_of_response_success)


subsection \<open>Examples\<close>

text \<open>A bond store with one bonded phone that is live in a daemon on the fake peripheral.\<close>

definition ex_pam_cbor :: cbor where
  "ex_pam_cbor = \<lparr> cb_req_enc = (\<lambda>q. if q = Req_Challenge (b_peer_id ex_bond1) [] then Some [1] else None),
     cb_req_dec = (\<lambda>p. if p = [1] then Some (Req_Challenge (b_peer_id ex_bond1) []) else None),
     cb_resp_enc = (\<lambda>r. if r = Resp_Challenge True (Some (replicate 64 5)) ''ok'' then Some [2] else None),
     cb_resp_dec = (\<lambda>p. if p = [2] then Some (Resp_Challenge True (Some (replicate 64 5)) ''ok'') else None) \<rparr>"

definition ex_pam_libs :: pam_libs where
  "ex_pam_libs = \<lparr> pl_toml = ex_toml1, pl_blake3 = (\<lambda>b. b), pl_cbor = ex_pam_cbor \<rparr>"

definition ex_pam_daemon :: "fake_state daemon" where
  "ex_pam_daemon = \<lparr> d_orch = Some (ex_orch_of (b_peer_id ex_bond1)), d_reload = None \<rparr>"

definition ex_pam_call :: pam_call where
  "ex_pam_call = \<lparr> pk_sock = \<lparr> so_connect = (\<lambda>_. None), so_set_write_timeout = None, so_set_read_timeout = None, so_write = (\<lambda>_. None),
       so_reply = (\<lambda>sent. [(3, daemon_reply fake_ops ex_crypto ex_pam_cbor ex_env ex_call ex_serve 0 0 ex_pam_daemon sent)]) \<rparr>,
     pk_rng = Ok [], pk_ts = None \<rparr>"

definition ex_pam_env :: proc_env where
  "ex_pam_env = \<lparr> en_xdg_runtime_dir = None, en_euid = 0 \<rparr>"

definition ex_pam_world :: pam_world where
  "ex_pam_world = \<lparr> pw_fs = \<lparr> fs_nodes = (\<lambda>p. Some (FileNode [] 384)), fs_past = [] \<rparr>, pw_syslog = [] \<rparr>"

lemma ex_pam_load:
  "bs_load ex_toml1 (\<lambda>b. b) ex_env (pw_fs ex_pam_world) p = Ok \<lparr> bs_bonds = [ex_bond1] \<rparr>"
  by (rule ex_load1 [where m = 384]) (simp add: ex_pam_world_def)

lemma ex_pam_cbor_ok: "cbor_ok ex_pam_cbor"
  by (simp add: cbor_ok_def ex_pam_cbor_def)

lemma ex_pam_dispatch:
  "\<exists>D1. dispatch fake_ops ex_crypto ex_env ex_call ex_serve (Req_Challenge (b_peer_id ex_bond1) []) ex_pam_daemon =
      Some (Resp_Challenge True (Some (replicate 64 5)) ''ok'', D1)"
proof -
  let ?i = "b_peer_id ex_bond1"
  obtain os1 where "issue_challenge fake_ops ex_crypto ex_env ex_call ?i DEFAULT_AUTH_TIMEOUT (ex_orch_of ?i) = (Co_Ok (replicate 64 5), os1)"
    using ex_first [of ?i DEFAULT_AUTH_TIMEOUT]
    by (cases "issue_challenge fake_ops ex_crypto ex_env ex_call ?i DEFAULT_AUTH_TIMEOUT (ex_orch_of ?i)") simp
  then show ?thesis by (simp add: dispatch_challenge_def ex_pam_daemon_def ex_serve_def OUTCOME_REASON_OK_def)
qed

lemma ex_pam_trip:
  "daemon_round_trip ex_pam_cbor (pk_sock ex_pam_call) p (b_peer_id ex_bond1) [] 8000 = Ok (Resp_Challenge True (Some (replicate 64 5)) ''ok'')"
proof -
  have sent: "encode_frame (cb_req_enc ex_pam_cbor) (Req_Challenge (b_peer_id ex_bond1) []) = Ok [0, 0, 0, 1, 1]"
    by (simp add: ex_pam_cbor_def encode_frame_def to_be_bytes_def const_defs)
  have out: "encode_frame (cb_resp_enc ex_pam_cbor) (Resp_Challenge True (Some (replicate 64 5)) ''ok'') = Ok [0, 0, 0, 1, 2]"
    by (simp add: ex_pam_cbor_def encode_frame_def to_be_bytes_def const_defs)
  let ?bs = "daemon_reply fake_ops ex_crypto ex_pam_cbor ex_env ex_call ex_serve 0 0 ex_pam_daemon [0, 0, 0, 1, 1]"
  have "fst (read_frame (cb_resp_dec ex_pam_cbor) ?bs) = Ok (Resp_Challenge True (Some (replicate 64 5)) ''ok'')"
    unfolding daemon_reply_read [OF ex_pam_cbor_ok sent] using ex_pam_dispatch out by (metis on_wire.simps(2))
  moreover have "prompt_bytes 8000 (so_reply (pk_sock ex_pam_call) [0, 0, 0, 1, 1]) = ?bs" by (simp add: ex_pam_call_def)
  ultimately show ?thesis
    unfolding daemon_round_trip_ok rpc_blocking_agrees using sent by (simp add: DAEMON_RESPONSE_BUDGET_def) (simp add: ex_pam_call_def)
qed

lemma ex_pam_success: "fst (pam_sm_authenticate ex_pam_libs ex_pam_env ex_env ex_pam_call 0 None ex_pam_world) = PAM_SUCCESS"
proof -
  let ?cfg = "from_pam_argv ex_pam_env (collect_pam_argv 0 None)"
  have "first_bonded \<lparr> bs_bonds = [ex_bond1] \<rparr> = Some ex_bond1" by (simp add: first_bonded_def bs_list_def ex_bond1_def)
  then have "resolve_peer_id (pl_toml ex_pam_libs) (pl_blake3 ex_pam_libs) ex_env ?cfg (pw_fs ex_pam_world) = Ok (Ok (b_peer_id ex_bond1))"
    using ex_pam_load by (simp add: resolve_peer_id_def ex_pam_libs_def)
  moreover have "pc_auth_timeout ?cfg = 8000" by (simp add: from_pam_argv_def PAM_DEFAULT_AUTH_TIMEOUT_def)
  moreover have "pk_rng ex_pam_call = Ok []" "pl_cbor ex_pam_libs = ex_pam_cbor" by (simp_all add: ex_pam_call_def ex_pam_libs_def)
  ultimately show ?thesis unfolding pam_success authenticate_inner_success using ex_pam_trip by auto
qed

theorem unlock_requires_phone_signature_witness:
  "fst (pam_sm_authenticate ex_pam_libs ex_pam_env ex_env ex_pam_call 0 None ex_pam_world) = PAM_SUCCESS \<and>
   (\<exists>os pe pk nonce s. d_orch ex_pam_daemon = Some os \<and> bt_get (o_peers os) (b_peer_id ex_bond1) = Some pe \<and>
      pe_phone_pubkey pe = Some pk \<and> ce_rng ex_call = Ok nonce \<and> length s = 64 \<and> cr_verify ex_crypto pk ([1] @ nonce) s)"
proof -
  have c: "cbor_ok (pl_cbor ex_pam_libs)" using ex_pam_cbor_ok by (simp add: ex_pam_libs_def)
  have f: "sc_test_fixed_nonce ex_serve = None" by (simp add: ex_serve_def)
  have r: "\<forall>sent. sent_bytes (so_reply (pk_sock ex_pam_call) sent) =
      daemon_reply fake_ops ex_crypto (pl_cbor ex_pam_libs) ex_env ex_call ex_serve 0 0 ex_pam_daemon sent"
    by (simp add: ex_pam_call_def ex_pam_libs_def sent_bytes_def)
  have "b_status ex_bond1 = Bonded" by (simp add: ex_bond1_def)
  then show ?thesis
    using ex_pam_success unlock_requires_phone_signature [OF c f r ex_pam_success] ex_pam_load
    by (auto simp: ex_pam_libs_def bs_list_def)
qed

text \<open>A store whose public-key text has a two-byte character across a pair of digits.\<close>

definition ex_panic_toml :: toml_lib where
  "ex_panic_toml = ex_toml1\<lparr> toml_from := \<lambda>t. Some \<lparr> rf_schema_version = 1,
     rf_bonds = Some [ex_raw\<lparr> rb_pubkey := CHR ''0'' # CHR 0xC3 # CHR 0xA9 # replicate 61 (CHR ''0'') \<rparr>] \<rparr> \<rparr>"

lemma ex_panic: "bs_load ex_panic_toml (\<lambda>b. b) ex_env (pw_fs ex_pam_world) p = Err Bond_Panicked"
proof -
  let ?s = "CHR ''0'' # CHR 0xC3 # CHR 0xA9 # replicate 61 (CHR ''0'')"
  have cont: "utf8_cont (byte_of_char (CHR 0xA9))" by (simp add: utf8_cont_def byte_of_char_def)
  have "\<not> char_boundary ?s 2" using cont by (simp add: char_boundary_def)
  then have "hex_pubkey_loop ?s 0 (Suc 31) = Err De_Panic" by (simp only: hex_pubkey_loop.simps) (simp add: eval_nat_numeral)
  then have "hex_pubkey_deserialize ?s = Err De_Panic" by (simp add: hex_pubkey_deserialize_def PUBKEY_LEN_def)
  then show ?thesis
    by (simp add: bs_load_def read_to_string_def read_file_def ex_env_def from_utf8_def toml_from_str_def ex_pam_world_def
        ex_panic_toml_def ex_toml1_def bond_of_raw_def)
qed

theorem pam_fails_closed_witness:
  "bs_load ex_panic_toml (\<lambda>b. b) ex_env (pw_fs ex_pam_world) (path_components DEFAULT_BOND_DIR @ [''bonds.toml'']) = Err Bond_Panicked \<and>
   fst (pam_sm_authenticate (ex_pam_libs\<lparr> pl_toml := ex_panic_toml \<rparr>) ex_pam_env ex_env ex_pam_call 0 None ex_pam_world) = 7"
  using pam_fails_closed [of "ex_pam_libs\<lparr> pl_toml := ex_panic_toml \<rparr>" ex_pam_env ex_env ex_pam_call 0 None ex_pam_world]
    ex_panic by (simp add: ex_pam_libs_def)

end
