(* ===== verification/Status.thy ===== *)
theory Status
  imports Pam Pair
begin

text \<open>
  The report of \<open>syauth status\<close>, \<open>syauth-cli/src/status.rs\<close>: the probe of the daemon's
  socket, the last line of the unlock log, the adapter, and the text printed
  from them, once or in a loop until the operator interrupts.
\<close>

section \<open>Constants and options\<close>

definition WATCH_INTERVAL :: nat where [const_defs]: "WATCH_INTERVAL = 1000" \<comment> \<open>ms\<close>
definition WATCH_CLEAR_SCREEN :: string where
  [const_defs]: "WATCH_CLEAR_SCREEN = [char_of (27::nat)] @ ''[2J'' @ [char_of (27::nat)] @ ''[H''"
definition DAEMON_CONNECT_TIMEOUT :: nat where [const_defs]: "DAEMON_CONNECT_TIMEOUT = 50" \<comment> \<open>ms\<close>
definition DAEMON_STATUS_READ_TIMEOUT :: nat where [const_defs]: "DAEMON_STATUS_READ_TIMEOUT = 200" \<comment> \<open>ms\<close>
definition STATUS_SHORT_UUID_HEX_LEN :: nat where [const_defs]: "STATUS_SHORT_UUID_HEX_LEN = 8"
definition LAST_UNLOCK_LOG_FILENAME :: string where [const_defs]: "LAST_UNLOCK_LOG_FILENAME = ''last.log''"
definition LAST_UNLOCK_LOG_MAX_LINES :: nat where [const_defs]: "LAST_UNLOCK_LOG_MAX_LINES = 64"
definition ADVERTISING_STATE_V01 :: bool where [const_defs]: "ADVERTISING_STATE_V01 = False"
definition LAST_UNLOCK_NO_ENTRIES :: string where [const_defs]: "LAST_UNLOCK_NO_ENTRIES = ''(no entries)''"
definition LAST_UNLOCK_UNPARSEABLE_PREFIX :: string where [const_defs]: "LAST_UNLOCK_UNPARSEABLE_PREFIX = ''(unparseable: ''"

record status_opts =
  so_adapter :: string
  so_bond_dir :: path
  so_last_log :: "path option"
  so_socket :: "path option"
  so_watch :: bool
  so_json :: bool

datatype status_error = StatusBond bond_error | StatusIo io_error | StatusJson

datatype daemon_probe_state = Dp_Up int "peer_status list" | Dp_Down string

record cli_status_report =
  cr_daemon_socket :: path
  cr_daemon :: daemon_probe_state

datatype adapter_state = Ad_Powered | Ad_Down | Ad_Missing

fun as_token :: "adapter_state \<Rightarrow> string" where
  "as_token Ad_Powered = ''Powered''"
| "as_token Ad_Down = ''Down''"
| "as_token Ad_Missing = ''Missing''"

section \<open>The last unlock\<close>

record last_unlock_entry =
  lu_timestamp :: string
  lu_outcome :: string
  lu_peer_id :: string

text \<open>\<open>split_ascii_whitespace\<close>: space, tab, line feed, form feed and carriage return.\<close>

definition ascii_white :: "char \<Rightarrow> bool" where
  "ascii_white c \<longleftrightarrow> (of_char c :: nat) \<in> {9, 10, 12, 13, 32}"

fun split_ascii_white :: "string \<Rightarrow> string \<Rightarrow> string list" where
  "split_ascii_white word [] = (if word = [] then [] else [word])"
| "split_ascii_white word (c # cs) =
     (if ascii_white c then (if word = [] then split_ascii_white [] cs else word # split_ascii_white [] cs)
      else split_ascii_white (word @ [c]) cs)"

definition parse_last_log_line :: "toml_lib \<Rightarrow> string \<Rightarrow> last_unlock_entry option" where
  "parse_last_log_line L line =
     (case split_ascii_white [] (trim_newline line) of
        [ts, outcome, peer_id] \<Rightarrow>
          if outcome \<noteq> ''success'' \<and> outcome \<noteq> ''failure'' then None
          else if rfc_parse L ts = None then None
          else Some \<lparr> lu_timestamp = ts, lu_outcome = outcome, lu_peer_id = peer_id \<rparr>
      | _ \<Rightarrow> None)"

datatype last_unlock_view = Lu_NoEntries | Lu_Entry last_unlock_entry | Lu_Unparseable string

text \<open>
  \<open>BufRead::lines\<close> on an open file: each line on its own is valid text or an error.
  A file that opens but cannot be read gives an error for its first line.
\<close>

definition buf_lines :: "bytes \<Rightarrow> (io_error + string) list" where
  "buf_lines bs = map (\<lambda>l. if utf8_valid (str_bytes l) then Ok l else Err InvalidData) (lines (bytes_str bs))"

definition open_lines :: "sys_env \<Rightarrow> fs \<Rightarrow> path \<Rightarrow> io_error + (io_error + string) list" where
  "open_lines e s p =
     (case sys_fail e (OpOpen p) of
        Some err \<Rightarrow> Err err
      | None \<Rightarrow>
          if fs_nodes s p = None then Err NotFound
          else Ok (case read_file e s p of Inl err \<Rightarrow> [Err err] | Inr bs \<Rightarrow> buf_lines bs))"

fun last_line_loop :: "nat \<Rightarrow> (io_error + string) list \<Rightarrow> string option \<Rightarrow> io_error + string option" where
  "last_line_loop lines_read [] last_non_empty = Ok last_non_empty"
| "last_line_loop lines_read (line_res # rest) last_non_empty =
     (if lines_read \<ge> LAST_UNLOCK_LOG_MAX_LINES then Ok last_non_empty
      else case line_res of
        Inl err \<Rightarrow> Err err
      | Inr line \<Rightarrow> last_line_loop (Suc lines_read) rest (if trim line \<noteq> [] then Some line else last_non_empty))"

definition read_last_unlock :: "toml_lib \<Rightarrow> sys_env \<Rightarrow> fs \<Rightarrow> path \<Rightarrow> status_error + last_unlock_view" where
  "read_last_unlock L e s p =
     (case open_lines e s p of
        Inl NotFound \<Rightarrow> Ok Lu_NoEntries
      | Inl err \<Rightarrow> Err (StatusIo err)
      | Inr ls \<Rightarrow>
          (case last_line_loop 0 ls None of
             Inl err \<Rightarrow> Err (StatusIo err)
           | Inr None \<Rightarrow> Ok Lu_NoEntries
           | Inr (Some raw) \<Rightarrow>
               (case parse_last_log_line L raw of
                  Some entry \<Rightarrow> Ok (Lu_Entry entry)
                | None \<Rightarrow> Ok (Lu_Unparseable raw))))"

section \<open>The adapter\<close>

text \<open>What BlueZ answers: a session, the names of its adapters, the adapter, its power.\<close>

record bluez_query =
  bq_session :: bool
  bq_names :: "string list option"
  bq_adapter :: bool
  bq_powered :: "bool option"

definition bluer_probe :: "bluez_query \<Rightarrow> string \<Rightarrow> unit + adapter_state" where
  "bluer_probe q adapter_id =
     (if \<not> bq_session q then Err ()
      else case bq_names q of
        None \<Rightarrow> Err ()
      | Some names \<Rightarrow>
          if adapter_id \<notin> set names then Ok Ad_Missing
          else if \<not> bq_adapter q then Err ()
          else case bq_powered q of Some True \<Rightarrow> Ok Ad_Powered | Some False \<Rightarrow> Ok Ad_Down | None \<Rightarrow> Ok Ad_Missing)"

definition probe_async :: "bluez_query \<Rightarrow> string \<Rightarrow> adapter_state" where
  "probe_async q adapter_id = (case bluer_probe q adapter_id of Inl _ \<Rightarrow> Ad_Missing | Inr st \<Rightarrow> st)"

section \<open>The daemon\<close>

text \<open>
  What the probe meets: the socket with its file, the codec, and the text forms
  of errors, of kinds of errors and of times in whole seconds.
\<close>

record probe_env =
  px_exists :: "path \<Rightarrow> bool"
  px_sock :: sock_env
  px_cbor :: cbor
  px_show_rpc :: "rpc_error \<Rightarrow> string"
  px_show_kind :: "io_error \<Rightarrow> string"
  px_debug_kind :: "io_error \<Rightarrow> string"
  px_rfc3339 :: "nat \<Rightarrow> string option"

definition connect_error_reason :: "probe_env \<Rightarrow> io_error \<Rightarrow> string" where
  "connect_error_reason px err =
     (case err of
        NotFound \<Rightarrow> ''socket-missing''
      | ConnectionRefused \<Rightarrow> ''connect-refused''
      | PermissionDenied \<Rightarrow> ''permission-denied''
      | TimedOutIo \<Rightarrow> ''timeout''
      | other \<Rightarrow> ''connect-error: '' @ px_debug_kind px other)"

text \<open>
  The exchange of one status request, up to the response or the reason for there
  being none.  A read that takes longer than its limit fails as one that would
  block.
\<close>

definition status_exchange :: "probe_env \<Rightarrow> path \<Rightarrow> string + response" where
  "status_exchange px socket =
     (let so = px_sock px; B = px_cbor px in
      if \<not> px_exists px socket then Err ''socket-missing''
      else case so_connect so socket of
        Some err \<Rightarrow> Err (connect_error_reason px err)
      | None \<Rightarrow>
          (case so_set_read_timeout so of
             Some err \<Rightarrow> Err (''read-timeout-setup-failed: '' @ px_show_kind px err)
           | None \<Rightarrow>
               (case so_set_write_timeout so of
                  Some err \<Rightarrow> Err (''write-timeout-setup-failed: '' @ px_show_kind px err)
                | None \<Rightarrow>
                    (case write_frame_blocking (cb_req_enc B) Req_Status [] of
                       (Inl err, _) \<Rightarrow> Err (''frame-error: '' @ px_show_rpc px err)
                     | (Inr _, sent) \<Rightarrow>
                         (case so_write so sent of
                            Some err \<Rightarrow> Err (''frame-error: '' @ px_show_rpc px (Rpc_Io err))
                          | None \<Rightarrow>
                              map_err (\<lambda>err. ''frame-error: '' @ px_show_rpc px err)
                                (fst (read_frame_blocking DAEMON_STATUS_READ_TIMEOUT (cb_resp_dec B) (so_reply so sent))))))))"

definition status_probe_daemon :: "probe_env \<Rightarrow> path \<Rightarrow> daemon_probe_state" where
  "status_probe_daemon px socket =
     (case status_exchange px socket of
        Inl reason \<Rightarrow> Dp_Down reason
      | Inr (Resp_Status peers started_at) \<Rightarrow> Dp_Up started_at peers
      | Inr _ \<Rightarrow> Dp_Down ''unexpected-response'')"

text \<open>The environment gives the variable, if set, and the effective user.\<close>

definition status_default_socket :: "(string \<Rightarrow> string option) \<Rightarrow> nat \<Rightarrow> path" where
  "status_default_socket var euid =
     (case var ''XDG_RUNTIME_DIR'' of
        Some v \<Rightarrow> if v \<noteq> [] then path_components v else [''run'', ''user'', show_nat euid]
      | None \<Rightarrow> [''run'', ''user'', show_nat euid]) @ [''syauth'', ''auth.sock'']"

record status_env =
  se_probe :: probe_env
  se_var :: "string \<Rightarrow> string option"
  se_euid :: nat
  se_bluez :: bluez_query
  se_toml :: toml_lib
  se_blake3 :: "bytes \<Rightarrow> bytes"
  se_sys :: sys_env
  se_json :: "cli_status_report \<Rightarrow> string option"

definition build_cli_report :: "status_env \<Rightarrow> status_opts \<Rightarrow> cli_status_report" where
  "build_cli_report v opts =
     (let socket = (case so_socket opts of Some p \<Rightarrow> p | None \<Rightarrow> status_default_socket (se_var v) (se_euid v)) in
      \<lparr> cr_daemon_socket = socket, cr_daemon = status_probe_daemon (se_probe v) socket \<rparr>)"

section \<open>Numbers as text\<close>

definition round_half_even :: "nat \<Rightarrow> nat \<Rightarrow> nat" where
  "round_half_even a b = (let q = a div b; r = a mod b in if 2 * r > b \<or> (2 * r = b \<and> odd q) then Suc q else q)"

fun bit_length :: "nat \<Rightarrow> nat" where
  "bit_length n = (if n = 0 then 0 else Suc (bit_length (n div 2)))"

declare bit_length.simps [simp del]

text \<open>The 64-bit floating-point number nearest to a fraction, as a fraction again.\<close>

definition f64_nearest :: "nat \<Rightarrow> nat \<Rightarrow> nat \<times> nat" where
  "f64_nearest a b =
     (if a = 0 then (0, 1)
      else let n = bit_length (a div b) in
        if n > 53 then (round_half_even a (b * 2 ^ (n - 53)) * 2 ^ (n - 53), 1)
        else let j = 54 + bit_length b - bit_length a; k = (if a * 2 ^ j div b \<ge> 2 ^ 54 then j - 2 else j - 1) in
          (round_half_even (a * 2 ^ k) b, 2 ^ k))"

text \<open>\<open>m as f64 / 1000.0\<close> printed with one decimal.\<close>

definition tenths_of_ms :: "nat \<Rightarrow> nat" where
  "tenths_of_ms m =
     (case f64_nearest m 1 of (a, b) \<Rightarrow> case f64_nearest a (1000 * b) of (c, d) \<Rightarrow> round_half_even (10 * c) d)"

definition format_ms_ago :: "nat option \<Rightarrow> string" where
  "format_ms_ago ms =
     (case ms of
        Some m \<Rightarrow> (let t = tenths_of_ms m in show_nat (t div 10) @ ''.'' @ show_nat (t mod 10) @ ''s ago'')
      | None \<Rightarrow> ''never'')"

definition short_uuid_hex :: "bytes \<Rightarrow> string" where
  "short_uuid_hex u = take STATUS_SHORT_UUID_HEX_LEN (hex_lowercase u)"

definition format_system_time :: "probe_env \<Rightarrow> int \<Rightarrow> string" where
  "format_system_time px t =
     (if t < 0 then ''epoch+0''
      else let secs = nat t div 1000 in
        case px_rfc3339 px (min secs (2 ^ 63 - 1)) of Some x \<Rightarrow> x | None \<Rightarrow> ''epoch+'' @ show_nat secs)"

text \<open>\<open>{:<w}\<close> pads on the right to a number of characters.\<close>

definition pad_right :: "nat \<Rightarrow> string \<Rightarrow> string" where
  "pad_right w t = t @ replicate (w - length (filter (\<lambda>c. \<not> utf8_cont (byte_of_char c)) t)) (CHR '' '')"

section \<open>Rendering\<close>

definition st_line :: "string \<Rightarrow> console \<Rightarrow> (status_error + unit) \<times> console" where
  "st_line t = (\<lambda>c. on_err StatusIo (write_line t c))"

definition st_lines :: "string list \<Rightarrow> console \<Rightarrow> (status_error + unit) \<times> console" where
  "st_lines ts = (\<lambda>c. on_err StatusIo (write_lines ts c))"

definition PEER_TABLE_HEADER :: string where
  [const_defs]: "PEER_TABLE_HEADER =
     ''peer_id'' @ replicate 62 (CHR '' '') @ ''last_challenge  last_connect    uuid      in_flight''"

definition peer_row :: "peer_status \<Rightarrow> string" where
  "peer_row peer =
     pad_right 68 (ps_peer_id peer) @ ''  '' @ pad_right 14 (format_ms_ago (ps_last_challenge_ms_ago peer)) @ ''  '' @
     pad_right 14 (format_ms_ago (ps_last_connect_ms_ago peer)) @ ''  '' @
     pad_right 8 (short_uuid_hex (ps_current_session_uuid peer)) @ ''  '' @ show_nat (ps_in_flight_challenges peer)"

definition write_daemon_section :: "probe_env \<Rightarrow> cli_status_report \<Rightarrow> console \<Rightarrow> (status_error + unit) \<times> console" where
  "write_daemon_section px report =
     (case cr_daemon report of
        Dp_Up started_at peers \<Rightarrow>
          and_then (st_line (''daemon=up started_at='' @ format_system_time px started_at)) (\<lambda>_.
          and_then (st_line PEER_TABLE_HEADER) (\<lambda>_. st_lines (map peer_row peers)))
      | Dp_Down reason \<Rightarrow> st_line (''daemon=down: '' @ reason))"

record status_snapshot =
  ss_adapter :: string
  ss_adapter_state :: adapter_state
  ss_advertising :: bool
  ss_bonds_count :: nat
  ss_last_unlock :: last_unlock_view

fun last_unlock_text :: "last_unlock_view \<Rightarrow> string" where
  "last_unlock_text Lu_NoEntries = LAST_UNLOCK_NO_ENTRIES"
| "last_unlock_text (Lu_Entry entry) = lu_timestamp entry @ ''  '' @ lu_outcome entry @ ''  '' @ lu_peer_id entry"
| "last_unlock_text (Lu_Unparseable raw) = LAST_UNLOCK_UNPARSEABLE_PREFIX @ raw @ '')''"

definition render_status_to :: "status_snapshot \<Rightarrow> console \<Rightarrow> (status_error + unit) \<times> console" where
  "render_status_to snap =
     and_then (st_line (''adapter:           '' @ ss_adapter snap)) (\<lambda>_.
     and_then (st_line (''adapter-state:     '' @ as_token (ss_adapter_state snap))) (\<lambda>_.
     and_then (st_line (''advertising:       '' @ (if ss_advertising snap then ''true'' else ''false''))) (\<lambda>_.
     and_then (st_line (''bonds-count:       '' @ show_nat (ss_bonds_count snap))) (\<lambda>_.
     and_then (\<lambda>c. on_err StatusIo (write_str ''last-unlock:       '' c)) (\<lambda>_.
       st_line (last_unlock_text (ss_last_unlock snap)))))))"

definition effective_last_log_path :: "status_opts \<Rightarrow> path" where
  "effective_last_log_path opts = (case so_last_log opts of Some p \<Rightarrow> p | None \<Rightarrow> so_bond_dir opts @ [LAST_UNLOCK_LOG_FILENAME])"

text \<open>Both variants of \<open>gather_status\<close>; \<open>probe\<close> answers for the adapter.\<close>

definition gather_status ::
    "toml_lib \<Rightarrow> (bytes \<Rightarrow> bytes) \<Rightarrow> sys_env \<Rightarrow> status_opts \<Rightarrow> (string \<Rightarrow> adapter_state) \<Rightarrow> fs \<Rightarrow> status_error + status_snapshot" where
  "gather_status L blake3 e opts probe s =
     res_bind (map_err StatusBond (bs_load L blake3 e s (bonds_path (so_bond_dir opts)))) (\<lambda>store.
     res_bind (read_last_unlock L e s (effective_last_log_path opts)) (\<lambda>last_unlock.
     Ok \<lparr> ss_adapter = so_adapter opts, ss_adapter_state = probe (so_adapter opts), ss_advertising = ADVERTISING_STATE_V01,
          ss_bonds_count = length (bs_list store), ss_last_unlock = last_unlock \<rparr>))"

definition gather_status_async :: "status_env \<Rightarrow> status_opts \<Rightarrow> fs \<Rightarrow> status_error + status_snapshot" where
  "gather_status_async v opts s = gather_status (se_toml v) (se_blake3 v) (se_sys v) opts (probe_async (se_bluez v)) s"

definition write_json_report :: "status_env \<Rightarrow> cli_status_report \<Rightarrow> console \<Rightarrow> (status_error + unit) \<times> console" where
  "write_json_report v report c =
     (case se_json v report of
        None \<Rightarrow> (Err StatusJson, c)
      | Some t \<Rightarrow> and_then (\<lambda>c. on_err StatusIo (write_str t c)) (\<lambda>_ c. on_err StatusIo (write_str [NL] c)) c)"

definition render_one_shot :: "status_env \<Rightarrow> status_opts \<Rightarrow> fs \<Rightarrow> console \<Rightarrow> (status_error + unit) \<times> console" where
  "render_one_shot v opts s =
     (let report = build_cli_report v opts in
      if so_json opts then write_json_report v report
      else and_then (write_daemon_section (se_probe v) report) (\<lambda>_ c.
        case gather_status_async v opts s of Inl err \<Rightarrow> (Err err, c) | Inr snap \<Rightarrow> render_status_to snap c))"

section \<open>Watching\<close>

text \<open>
  One round of the loop: the flag at its head, the world it looks at, and the
  clock and the flag at every look during the wait.  When the rounds given run
  out the loop is still going, which is \<open>None\<close>.
\<close>

record watch_round =
  wr_stop :: bool
  wr_env :: status_env
  wr_fs :: fs
  wr_start :: nat
  wr_looks :: "(nat \<times> bool) list"

fun wait_or_break :: "nat \<Rightarrow> (nat \<times> bool) list \<Rightarrow> bool option" where
  "wait_or_break deadline [] = None"
| "wait_or_break deadline ((now, stop) # looks) =
     (if now < deadline then (if stop then Some True else wait_or_break deadline looks) else Some stop)"

fun run_status_watch_loop :: "status_opts \<Rightarrow> watch_round list \<Rightarrow> console \<Rightarrow> ((status_error + unit) \<times> console) option" where
  "run_status_watch_loop opts [] c = None"
| "run_status_watch_loop opts (r # rs) c =
     (if wr_stop r then Some (Ok (), c)
      else case on_err StatusIo (write_str WATCH_CLEAR_SCREEN c) of
        (Inl err, c1) \<Rightarrow> Some (Err err, c1)
      | (Inr _, c1) \<Rightarrow>
          (case render_one_shot (wr_env r) opts (wr_fs r) c1 of
             (Inl err, c2) \<Rightarrow> Some (Err err, c2)
           | (Inr _, c2) \<Rightarrow>
               (case wait_or_break (wr_start r + WATCH_INTERVAL) (wr_looks r) of
                  None \<Rightarrow> None
                | Some True \<Rightarrow> Some (Ok (), c2)
                | Some False \<Rightarrow> run_status_watch_loop opts rs c2)))"

definition run_status :: "status_env \<Rightarrow> status_opts \<Rightarrow> watch_round list \<Rightarrow> fs \<Rightarrow> console \<Rightarrow> ((status_error + unit) \<times> console) option" where
  "run_status v opts rounds s c =
     (if so_watch opts \<and> \<not> so_json opts then run_status_watch_loop opts rounds c
      else Some (render_one_shot v opts s c))"

section \<open>Lemmas on the log\<close>

lemma last_line_loop_snoc:
  "lines_read + length xs < LAST_UNLOCK_LOG_MAX_LINES \<Longrightarrow> trim l \<noteq> [] \<Longrightarrow>
     last_line_loop lines_read (map Ok (xs @ [l])) acc = Ok (Some l)"
  by (induction xs arbitrary: lines_read acc) simp_all

lemma last_line_loop_capped:
  "LAST_UNLOCK_LOG_MAX_LINES \<le> lines_read + length xs \<Longrightarrow> last_line_loop lines_read (xs @ ys) acc = last_line_loop lines_read xs acc"
proof (induction xs arbitrary: lines_read acc)
  case Nil
  then show ?case by (cases ys) simp_all
next
  case (Cons x xs)
  then show ?case by (cases x) simp_all
qed

text \<open>Visible ASCII text, as a timestamp or a peer id is.\<close>

definition printable :: "string \<Rightarrow> bool" where
  "printable t \<longleftrightarrow> t \<noteq> [] \<and> (\<forall>c \<in> set t. 33 \<le> (of_char c :: nat) \<and> (of_char c :: nat) < 127)"

lemma printable_white: "printable t \<Longrightarrow> c \<in> set t \<Longrightarrow> \<not> ascii_white c"
  by (auto simp: printable_def ascii_white_def)

lemma split_ascii_word:
  assumes "ascii_white c" "\<forall>x \<in> set w. \<not> ascii_white x" "acc @ w \<noteq> []"
  shows "split_ascii_white acc (w @ c # t) = (acc @ w) # split_ascii_white [] t"
  using assms(2,3) by (induction w arbitrary: acc) (simp_all add: assms(1))

lemma split_ascii_last: "\<forall>x \<in> set w. \<not> ascii_white x \<Longrightarrow> acc @ w \<noteq> [] \<Longrightarrow> split_ascii_white acc w = [acc @ w]"
  by (induction w arbitrary: acc) simp_all

lemma split_log_line:
  assumes "printable ts" "printable verb" "printable peer"
  shows "split_ascii_white [] (ts @ '' '' @ verb @ '' '' @ peer) = [ts, verb, peer]"
proof -
  have sp: "ascii_white (CHR '' '')" by (simp add: ascii_white_def)
  have n: "ts \<noteq> []" "verb \<noteq> []" "peer \<noteq> []" using assms by (simp_all add: printable_def)
  have w: "\<forall>x \<in> set ts. \<not> ascii_white x" "\<forall>x \<in> set verb. \<not> ascii_white x" "\<forall>x \<in> set peer. \<not> ascii_white x"
    using assms printable_white by blast+
  show ?thesis
    using split_ascii_word [OF sp w(1), of "[]" "verb @ '' '' @ peer"] split_ascii_word [OF sp w(2), of "[]" peer]
      split_ascii_last [OF w(3), of "[]"] n by simp
qed

lemma printable_ends:
  assumes "printable t"
  shows "NL \<notin> set t" "CR \<notin> set t" "trim_newline (s @ t) = s @ t" "drop_cr (s @ t) = s @ t" "trim (t @ s) \<noteq> []" "utf8_valid (str_bytes t)"
proof -
  have c: "(of_char NL :: nat) = 10" "(of_char CR :: nat) = 13" by simp_all
  show nl: "NL \<notin> set t" and cr: "CR \<notin> set t" using assms c unfolding printable_def by fastforce+
  have "t \<noteq> []" using assms by (simp add: printable_def)
  then have l: "t \<noteq> []" "last t \<noteq> NL" "last t \<noteq> CR" using nl cr last_in_set [of t] by metis+
  show "trim_newline (s @ t) = s @ t" "drop_cr (s @ t) = s @ t"
    using l by (cases t rule: rev_cases; simp add: trim_newline_def drop_cr_def)+
  obtain x xs where x: "t = x # xs" "33 \<le> (of_char x :: nat)" "(of_char x :: nat) < 127" using assms by (cases t) (auto simp: printable_def)
  then have "ws_len (x # xs @ s) = 0" by (auto simp: ws_len.simps(2) is_space_def white2_def white3_def split: list.splits)
  then show "trim (t @ s) \<noteq> []" by (simp add: x trim_def skip_ws.simps [of "x # xs @ s"])
  show "utf8_valid (str_bytes t)"
    using assms by (intro utf8_valid_ascii) (auto simp: printable_def str_bytes_def byte_of_char_def word_less_nat_alt unat_of_nat)
qed

text \<open>What the PAM module's logging leaves in the file.\<close>

lemma append_last_log_content:
  assumes "append_last_log e k cfg outcome s = (Ok (), s1)" "last_log_path cfg = p"
    and "fs_nodes s p = Some (FileNode old m) \<or> fs_nodes s p = None \<and> old = []"
  shows "\<exists>m. fs_nodes s1 p = Some (FileNode (old @ str_bytes (last_log_line (pk_ts k) outcome)) m)"
proof -
  let ?d = "pc_bond_dir cfg"
  have p1: "p = ?d @ [LAST_LOG_FILENAME]" using assms(2) by (simp add: last_log_path_def)
  then have p: "p = ?d @ [LAST_LOG_FILENAME]" "parent p = Some ?d" by (simp_all add: parent_def)
  obtain r s0 where mk: "create_dir_all e ?d s = (r, s0)" by fastforce
  have "p \<notin> set (ancestors ?d)" using ancestors_shorter p(1) by fastforce
  then have n0: "fs_nodes s0 p = fs_nodes s p" by (rule only_touches_nodes [OF create_dir_all_touches [OF mk]])
  obtain s2 where o: "open_append e p (sys_umask_file e) s0 = (Ok (), s2)" "write_all e p (str_bytes (last_log_line (pk_ts k) outcome)) s2 = (Ok (), s1)"
    using assms(1) p(2) mk unfolding append_last_log_def assms(2) by (auto simp: Let_def split: sum.splits prod.splits)
  obtain m' where "fs_nodes s2 p = Some (FileNode old m')"
    using o(1) n0 assms(3) by (auto simp: open_append_def guarded_def fs_set_def split: option.splits node.splits)
  then show ?thesis using o(2) by (auto simp: write_all_def fs_set_def split: option.splits)
qed

lemma bytes_of_append: "str_bytes (a @ b) = str_bytes a @ str_bytes b"
  by (simp add: str_bytes_def)

lemma log_line_shape:
  assumes "pk_ts k = Some ts" "outcome_peer_id outcome = Some peer \<or> outcome_peer_id outcome = None \<and> peer = LAST_LOG_UNKNOWN_PEER"
  shows "last_log_line (pk_ts k) outcome = ts @ '' '' @ (if is_success outcome then ''success'' else ''failure'') @ '' '' @ peer @ [NL]"
  using assms by (auto simp: last_log_line_def const_defs)

lemma buf_lines_unlines:
  assumes "\<forall>l \<in> set ls. NL \<notin> set l" "\<forall>l \<in> set ls. utf8_valid (str_bytes (drop_cr l))"
  shows "buf_lines (str_bytes (unlines ls)) = map Ok (map drop_cr ls)"
  using assms by (simp add: buf_lines_def lines_unlines)

lemma lines_after_unlines: "\<forall>l \<in> set ls. NL \<notin> set l \<Longrightarrow> lines (unlines ls @ t) = map drop_cr ls @ lines t"
  by (simp add: lines_def Let_def split_on_unlines butlast_append last_append)

lemma bytes_str_append: "bytes_str (a @ b) = bytes_str a @ bytes_str b"
  by (simp add: bytes_str_def)

lemma buf_lines_after:
  "\<forall>l \<in> set ls. NL \<notin> set l \<Longrightarrow> buf_lines (str_bytes (unlines ls) @ t) = buf_lines (str_bytes (unlines ls)) @ buf_lines t"
  using lines_after_unlines [of ls "bytes_str t"] lines_unlines [of ls] by (simp add: buf_lines_def bytes_str_append)

lemma status_exchange_ok:
  "status_exchange px socket = Ok r \<longleftrightarrow>
     px_exists px socket \<and> so_connect (px_sock px) socket = None \<and> so_set_read_timeout (px_sock px) = None \<and> so_set_write_timeout (px_sock px) = None \<and>
     (\<exists>sent. encode_frame (cb_req_enc (px_cbor px)) Req_Status = Ok sent \<and> so_write (px_sock px) sent = None \<and>
        fst (read_frame_blocking 200 (cb_resp_dec (px_cbor px)) (so_reply (px_sock px) sent)) = Ok r)"
  by (auto simp: status_exchange_def write_frame_blocking_def Let_def const_defs split: option.splits sum.splits prod.splits)

definition ex_log_cfg :: pam_config where
  "ex_log_cfg = \<lparr> pc_bond_dir = [''d''], pc_socket_path = [''s''], pc_auth_timeout = 0 \<rparr>"

section \<open>Properties\<close>

text \<open>
  Status shows the last unlock.  When the PAM module has logged an outcome to a
  log of fewer than 64 complete lines of valid text, the report shows exactly the
  time, the verdict and the peer of that outcome.
\<close>

theorem status_shows_last_unlock:
  assumes "append_last_log e k cfg outcome s = (Ok (), s1)" "last_log_path cfg = p"
    and "fs_nodes s p = Some (FileNode (str_bytes (unlines ls)) m) \<or> fs_nodes s p = None \<and> ls = []"
    and "\<forall>l \<in> set ls. NL \<notin> set l \<and> utf8_valid (str_bytes (drop_cr l))" "length ls < 64"
    and "pk_ts k = Some ts" "rfc_parse L ts \<noteq> None" "printable ts"
    and "outcome_peer_id outcome = Some peer \<or> outcome_peer_id outcome = None \<and> peer = ''unknown''" "printable peer"
    and "sys_fail e' (OpOpen p) = None" "sys_fail e' (OpRead p) = None"
  shows "read_last_unlock L e' s1 p =
    Ok (Lu_Entry \<lparr> lu_timestamp = ts, lu_outcome = (if is_success outcome then ''success'' else ''failure''), lu_peer_id = peer \<rparr>)"
proof -
  let ?v = "if is_success outcome then ''success'' else ''failure''"
  let ?l = "ts @ '' '' @ ?v @ '' '' @ peer"
  have v: "printable ?v" by (simp add: printable_def)
  have line: "last_log_line (pk_ts k) outcome = unlines [?l]"
    using log_line_shape [OF assms(6), of outcome peer] assms(9) by (simp add: const_defs)
  obtain m' where c: "fs_nodes s1 p = Some (FileNode (str_bytes (unlines ls) @ str_bytes (last_log_line (pk_ts k) outcome)) m')"
    using append_last_log_content [OF assms(1,2), of "str_bytes (unlines ls)" m] assms(3) by (auto simp: str_bytes_def)
  have sp: "NL \<noteq> CHR '' ''" by code_simp
  have nl: "NL \<notin> set ?l"
    using printable_ends(1) [OF assms(8)] printable_ends(1) [OF assms(10)] printable_ends(1) [OF v] sp
    unfolding set_append by simp
  have l: "drop_cr ?l = ?l" "trim ?l \<noteq> []" "trim_newline ?l = ?l"
    using printable_ends(3,4) [OF assms(10), of "ts @ '' '' @ ?v @ '' ''"] printable_ends(5) [OF assms(8), of "'' '' @ ?v @ '' '' @ peer"]
    by simp_all
  have u: "utf8_valid (str_bytes ?l)"
    using printable_ends(6) [OF assms(8)] printable_ends(6) [OF assms(10)] printable_ends(6) [OF v]
    by (simp add: bytes_of_append utf8_valid_append) (simp add: str_bytes_def byte_of_char_def utf8_valid_append)
  have "buf_lines (str_bytes (unlines (ls @ [?l]))) = map Ok (map drop_cr ls @ [?l])"
    using buf_lines_unlines [of "ls @ [?l]"] assms(4) nl l u by auto
  then have "open_lines e' s1 p = Ok (map Ok (map drop_cr ls @ [?l]))"
    using c line assms(11,12) by (simp add: open_lines_def read_file_def bytes_of_append)
  moreover have "last_line_loop 0 (map Ok (map drop_cr ls @ [?l])) None = Ok (Some ?l)"
    using last_line_loop_snoc [of 0 "map drop_cr ls" ?l None] assms(5) l(2) by (simp add: const_defs)
  moreover have "parse_last_log_line L ?l = Some \<lparr> lu_timestamp = ts, lu_outcome = ?v, lu_peer_id = peer \<rparr>"
    unfolding parse_last_log_line_def l(3) split_log_line [OF assms(8) v assms(10)] using assms(7) by auto
  ultimately show ?thesis by (simp add: read_last_unlock_def)
qed

theorem status_shows_last_unlock_witness:
  "\<exists>s1. append_last_log ex_env (ex_pam_call\<lparr> pk_ts := Some ''t'' \<rparr>) ex_log_cfg (Au_Success ''p'') ex_fs = (Ok (), s1) \<and>
     read_last_unlock ex_toml1 ex_env s1 [''d'', ''last.log''] = Ok (Lu_Entry \<lparr> lu_timestamp = ''t'', lu_outcome = ''success'', lu_peer_id = ''p'' \<rparr>)"
proof -
  obtain s1 where s1: "append_last_log ex_env (ex_pam_call\<lparr> pk_ts := Some ''t'' \<rparr>) ex_log_cfg (Au_Success ''p'') ex_fs = (Ok (), s1)"
    by (simp add: append_last_log_def last_log_path_def ex_log_cfg_def parent_def create_dir_all_def open_append_def write_all_def
        guarded_def fs_set_def ex_env_def ex_fs_def const_defs Let_def ancestors_def)
  have "read_last_unlock ex_toml1 ex_env s1 [''d'', ''last.log''] =
      Ok (Lu_Entry \<lparr> lu_timestamp = ''t'', lu_outcome = (if is_success (Au_Success ''p'') then ''success'' else ''failure''), lu_peer_id = ''p'' \<rparr>)"
    by (rule status_shows_last_unlock [OF s1, where ls = "[]"])
      (simp_all add: last_log_path_def ex_log_cfg_def const_defs ex_fs_def ex_toml1_def printable_def ex_env_def)
  with s1 show ?thesis by simp
qed

text \<open>
  Only the first 64 lines of the log are read.  Once it has that many, nothing
  appended changes what the report shows, so the entry it shows is not the last.
\<close>

theorem status_ignores_newer_lines:
  assumes "fs_nodes s p = Some (FileNode (str_bytes (unlines ls)) m)" "fs_nodes s1 p = Some (FileNode (str_bytes (unlines ls) @ newer) m1)"
    and "\<forall>l \<in> set ls. NL \<notin> set l" "64 \<le> length ls"
  shows "read_last_unlock L e s1 p = read_last_unlock L e s p"
proof -
  have "buf_lines (str_bytes (unlines ls) @ newer) = buf_lines (str_bytes (unlines ls)) @ buf_lines newer"
    by (rule buf_lines_after [OF assms(3)])
  moreover have "LAST_UNLOCK_LOG_MAX_LINES \<le> 0 + length (buf_lines (str_bytes (unlines ls)))"
    using assms(3,4) by (simp add: buf_lines_def lines_unlines const_defs)
  ultimately have "last_line_loop 0 (buf_lines (str_bytes (unlines ls) @ newer)) None = last_line_loop 0 (buf_lines (str_bytes (unlines ls))) None"
    by (simp only: last_line_loop_capped)
  then show ?thesis
    using assms(1,2) by (simp add: read_last_unlock_def open_lines_def read_file_def split: option.splits)
qed

text \<open>
  C39: status reports the daemon as it is.  When the socket is served by the daemon
  of this program, the report says that the daemon is up exactly if the exchange
  goes through in time, and then it shows exactly the daemon's peers and its
  start time in whole seconds.
\<close>

theorem status_reports_daemon:
  assumes "cbor_ok (px_cbor px)"
    and "\<forall>sent. sent_bytes (so_reply (px_sock px) sent) = daemon_reply ops C (px_cbor px) e ce cfg expected uid D sent"
  shows "status_probe_daemon px socket = Dp_Up started peers \<longleftrightarrow>
    px_exists px socket \<and> so_connect (px_sock px) socket = None \<and>
    so_set_read_timeout (px_sock px) = None \<and> so_set_write_timeout (px_sock px) = None \<and>
    peers = (case d_orch D of None \<Rightarrow> [] | Some os \<Rightarrow> peers_snapshot C (ce_start ce) os) \<and>
    started = int (nat (sc_started_at cfg) div 1000) * 1000 \<and>
    (\<exists>sent out. encode_frame (cb_req_enc (px_cbor px)) Req_Status = Ok sent \<and> so_write (px_sock px) sent = None \<and>
       encode_frame (cb_resp_enc (px_cbor px)) (Resp_Status peers (sc_started_at cfg)) = Ok out \<and>
       prompt_bytes 200 (so_reply (px_sock px) sent) = out)"
proof -
  let ?ps = "case d_orch D of None \<Rightarrow> [] | Some os \<Rightarrow> peers_snapshot C (ce_start ce) os"
  have up: "status_probe_daemon px socket = Dp_Up started peers \<longleftrightarrow> status_exchange px socket = Ok (Resp_Status peers started)"
    by (auto simp: status_probe_daemon_def split: sum.splits response.splits)
  have reply: "fst (read_frame_blocking 200 (cb_resp_dec (px_cbor px)) (so_reply (px_sock px) sent)) = Ok (Resp_Status peers started) \<longleftrightarrow>
      peers = ?ps \<and> started = int (nat (sc_started_at cfg) div 1000) * 1000 \<and>
      (\<exists>out. encode_frame (cb_resp_enc (px_cbor px)) (Resp_Status ?ps (sc_started_at cfg)) = Ok out \<and> prompt_bytes 200 (so_reply (px_sock px) sent) = out)"
    if "encode_frame (cb_req_enc (px_cbor px)) Req_Status = Ok sent" for sent
    using daemon_reply_prompt [OF assms(1) that assms(2) [rule_format], of 200 "Resp_Status peers started"]
    by (auto simp: epoch_serialize_def epoch_deserialize_def)
  show ?thesis unfolding up status_exchange_ok using reply by auto
qed

definition ex_status_cbor :: cbor where
  "ex_status_cbor = \<lparr> cb_req_enc = (\<lambda>q. if q = Req_Status then Some [1] else None),
     cb_req_dec = (\<lambda>p. if p = [1] then Some Req_Status else None),
     cb_resp_enc = (\<lambda>r. if r = Resp_Status [] 1500 then Some [2] else None),
     cb_resp_dec = (\<lambda>p. if p = [2] then Some (Resp_Status [] 1000) else None) \<rparr>"

definition ex_probe :: probe_env where
  "ex_probe = \<lparr> px_exists = (\<lambda>_. True),
     px_sock = \<lparr> so_connect = (\<lambda>_. None), so_set_write_timeout = None, so_set_read_timeout = None, so_write = (\<lambda>_. None),
       so_reply = (\<lambda>sent. [(3, daemon_reply fake_ops ex_crypto ex_status_cbor ex_env ex_call (ex_serve\<lparr> sc_started_at := 1500 \<rparr>) 0 0
         \<lparr> d_orch = None, d_reload = None \<rparr> sent)]) \<rparr>,
     px_cbor = ex_status_cbor, px_show_rpc = (\<lambda>_. []), px_show_kind = (\<lambda>_. []), px_debug_kind = (\<lambda>_. []), px_rfc3339 = (\<lambda>_. None) \<rparr>"

lemma ex_probe_facts:
  "cbor_ok (px_cbor ex_probe)"
  "\<forall>sent. sent_bytes (so_reply (px_sock ex_probe) sent) = daemon_reply fake_ops ex_crypto (px_cbor ex_probe) ex_env ex_call
      (ex_serve\<lparr> sc_started_at := 1500 \<rparr>) 0 0 \<lparr> d_orch = None, d_reload = None \<rparr> sent"
  "encode_frame (cb_req_enc (px_cbor ex_probe)) Req_Status = Ok [0, 0, 0, 1, 1]"
  "encode_frame (cb_resp_enc (px_cbor ex_probe)) (Resp_Status [] 1500) = Ok [0, 0, 0, 1, 2]"
  by (simp_all add: cbor_ok_def ex_probe_def ex_status_cbor_def sent_bytes_def epoch_serialize_def epoch_deserialize_def encode_frame_def to_be_bytes_def const_defs)

lemma ex_probe_prompt: "prompt_bytes 200 (so_reply (px_sock ex_probe) [0, 0, 0, 1, 1]) = [0, 0, 0, 1, 2]"
proof -
  have "read_frame (cb_req_dec (px_cbor ex_probe)) [0, 0, 0, 1, 1] = (Ok Req_Status, [])"
    using read_request [OF ex_probe_facts(1,3), of "[]"] by simp
  then have "daemon_reply fake_ops ex_crypto (px_cbor ex_probe) ex_env ex_call (ex_serve\<lparr> sc_started_at := 1500 \<rparr>) 0 0
      \<lparr> d_orch = None, d_reload = None \<rparr> [0, 0, 0, 1, 1] = [0, 0, 0, 1, 2]"
    using ex_probe_facts(4) by (simp add: daemon_reply_def handle_connection_def Let_def write_frame_def)
  then show ?thesis by (simp add: ex_probe_def)
qed

lemma ex_probe_open: "px_exists ex_probe p" "so_connect (px_sock ex_probe) p = None" "so_set_read_timeout (px_sock ex_probe) = None"
    "so_set_write_timeout (px_sock ex_probe) = None" "so_write (px_sock ex_probe) bs = None"
  by (simp_all add: ex_probe_def)

theorem status_reports_daemon_witness: "status_probe_daemon ex_probe [''s''] = Dp_Up 1000 []"
  unfolding status_reports_daemon [OF ex_probe_facts(1,2)] using ex_probe_facts(3,4) ex_probe_prompt ex_probe_open by simp

lemma ex_probe_up: "status_probe_daemon ex_probe socket = Dp_Up 1000 []"
proof -
  have "fst (read_frame (cb_resp_dec (px_cbor ex_probe)) [0, 0, 0, 1, 2]) = Ok (Resp_Status [] 1000)"
    using read_response [OF ex_probe_facts(1,4), of "[]"] by (simp add: epoch_serialize_def epoch_deserialize_def)
  then have "status_exchange ex_probe socket = Ok (Resp_Status [] 1000)"
    unfolding status_exchange_ok rpc_blocking_agrees using ex_probe_facts(3) ex_probe_prompt ex_probe_open by simp
  then show ?thesis by (simp add: status_probe_daemon_def)
qed

end
