(* ===== verification/Doctor.thy ===== *)
theory Doctor
  imports Status
begin

text \<open>
  The diagnosis of \<open>syauth doctor\<close>, \<open>syauth-cli/src/doctor.rs\<close>: its probes of the
  runtime directory, the daemon, the bonds, the key files, the service manager
  and the log, the verdict over them, and the two forms it is printed in.
\<close>

section \<open>Constants, options and the report\<close>

definition DOCTOR_DEFAULT_BONDS_FILE :: string where [const_defs]: "DOCTOR_DEFAULT_BONDS_FILE = ''/var/lib/syauth/bonds.toml''"
definition DOCTOR_DEFAULT_KEYS_DIR :: string where [const_defs]: "DOCTOR_DEFAULT_KEYS_DIR = ''/var/lib/syauth/keys''"
definition DEFAULT_AUDIT_LOG_FILE :: string where [const_defs]: "DEFAULT_AUDIT_LOG_FILE = ''/var/lib/syauth/last.log''"
definition EXPECTED_KEYS_FILE_MODE :: mode where [const_defs]: "EXPECTED_KEYS_FILE_MODE = 384" \<comment> \<open>0o600\<close>
definition DOCTOR_LAST_LOG_TAIL :: nat where [const_defs]: "DOCTOR_LAST_LOG_TAIL = 10"
definition DOCTOR_LOG_MAX_READ_LINES :: nat where [const_defs]: "DOCTOR_LOG_MAX_READ_LINES = 4096"
definition DOCTOR_KEYS_FILE_CAP :: nat where [const_defs]: "DOCTOR_KEYS_FILE_CAP = 1024"
definition DOCTOR_KEY_FILE_EXT :: string where [const_defs]: "DOCTOR_KEY_FILE_EXT = ''.bin''"
definition XDG_RUNTIME_DIR_UNSET_PREFIX :: string where [const_defs]: "XDG_RUNTIME_DIR_UNSET_PREFIX = ''unset (fallback ''"
definition XDG_RUNTIME_DIR_SET_PREFIX :: string where [const_defs]: "XDG_RUNTIME_DIR_SET_PREFIX = ''set ''"
definition SUMMARY_OK :: string where [const_defs]: "SUMMARY_OK = ''ok''"
definition SUMMARY_WARN :: string where [const_defs]: "SUMMARY_WARN = ''warn''"
definition SUMMARY_FAIL :: string where [const_defs]: "SUMMARY_FAIL = ''fail''"
definition SYSTEMCTL_ARGV :: "string list" where
  [const_defs]: "SYSTEMCTL_ARGV = [''systemctl'', ''--user'', ''is-active'', ''syauth-presenced.service'']"

record doctor_opts =
  dx_socket :: "path option"
  dx_bonds_file :: path
  dx_keys_dir :: path
  dx_audit_log :: path
  dx_json :: bool
  dx_skip_bluez :: bool
  dx_skip_systemctl :: bool
  dx_skip_daemon :: bool

datatype doctor_error = DoctorIo io_error | DoctorJson

datatype daemon_state = Ds_Up | Ds_Down string

record bonds_report =
  br_path :: path
  br_exists :: bool
  br_count :: nat
  br_parseable :: bool

record key_file_report =
  kf_peer_id :: string
  kf_mode :: string
  kf_ok :: bool

record keys_report =
  kr_dir :: path
  kr_files :: "key_file_report list"

record xdg_runtime_dir_report =
  xr_set :: bool
  xr_value :: path

record doctor_report =
  dr_daemon_socket :: path
  dr_daemon :: daemon_state
  dr_bonds_file :: bonds_report
  dr_keys :: keys_report
  dr_bluez_adapter :: string
  dr_systemctl :: string
  dr_last_log_tail :: "string list"
  dr_xdg_runtime_dir :: xdg_runtime_dir_report
  dr_summary :: string

text \<open>
  What the command meets: the world of \<open>status\<close>, the entries of a directory in the
  order the system gives them, the standard output of a program that could be
  run, and the JSON encoder.
\<close>

record doctor_env =
  de_probe :: probe_env
  de_var :: "string \<Rightarrow> string option"
  de_euid :: nat
  de_toml :: toml_lib
  de_blake3 :: "bytes \<Rightarrow> bytes"
  de_sys :: sys_env
  de_read_dir :: "path \<Rightarrow> io_error + (io_error + string) list"
  de_output :: "string list \<Rightarrow> io_error + bytes"
  de_json :: "doctor_report \<Rightarrow> string option"

section \<open>Probes\<close>

definition probe_xdg_runtime_dir :: "doctor_env \<Rightarrow> xdg_runtime_dir_report" where
  "probe_xdg_runtime_dir v =
     (let fallback = \<lparr> xr_set = False, xr_value = [''run'', ''user'', show_nat (de_euid v)] \<rparr> in
      case de_var v ''XDG_RUNTIME_DIR'' of
        Some d \<Rightarrow> if d \<noteq> [] then \<lparr> xr_set = True, xr_value = path_components d \<rparr> else fallback
      | None \<Rightarrow> fallback)"

definition doctor_default_socket :: "path \<Rightarrow> path" where
  "doctor_default_socket xdg_runtime_dir = xdg_runtime_dir @ [''syauth'', ''auth.sock'']"

fun response_kind :: "response \<Rightarrow> string" where
  "response_kind (Resp_Challenge _ _ _) = ''challenge''"
| "response_kind (Resp_Reload _) = ''reload''"
| "response_kind (Resp_Status _ _) = ''status''"

text \<open>The exchange itself is, statement for statement, the one of \<open>status\<close>.\<close>

definition doctor_probe_daemon :: "probe_env \<Rightarrow> path \<Rightarrow> daemon_state" where
  "doctor_probe_daemon px socket =
     (case status_exchange px socket of
        Inl reason \<Rightarrow> Ds_Down reason
      | Inr (Resp_Status _ _) \<Rightarrow> Ds_Up
      | Inr other \<Rightarrow> Ds_Down (''unexpected-response: '' @ response_kind other))"

text \<open>Loading the bonds may panic, which is \<open>None\<close>.\<close>

definition probe_bonds :: "doctor_env \<Rightarrow> fs \<Rightarrow> path \<Rightarrow> bonds_report option" where
  "probe_bonds v s p =
     (case metadata (de_sys v) s p of
        Inl _ \<Rightarrow> Some \<lparr> br_path = p, br_exists = False, br_count = 0, br_parseable = True \<rparr>
      | Inr _ \<Rightarrow>
          (case bs_load (de_toml v) (de_blake3 v) (de_sys v) s p of
             Inr store \<Rightarrow> Some \<lparr> br_path = p, br_exists = True, br_count = length (bs_list store), br_parseable = True \<rparr>
           | Inl Bond_Panicked \<Rightarrow> None
           | Inl _ \<Rightarrow> Some \<lparr> br_path = p, br_exists = True, br_count = 0, br_parseable = False \<rparr>))"

definition strip_suffix :: "string \<Rightarrow> string \<Rightarrow> string option" where
  "strip_suffix name suf =
     (let n = length name - length suf in
      if length suf \<le> length name \<and> drop n name = suf then Some (take n name) else None)"

definition key_file_peer_id :: "path \<Rightarrow> string option" where
  "key_file_peer_id p =
     (if p = [] \<or> \<not> utf8_valid (str_bytes (last p)) then None
      else case strip_suffix (last p) DOCTOR_KEY_FILE_EXT of
        None \<Rightarrow> None
      | Some stem \<Rightarrow> if stem = [] then None else Some stem)"

definition effective_file_mode :: "sys_env \<Rightarrow> fs \<Rightarrow> path \<Rightarrow> mode" where
  "effective_file_mode e s p = (case metadata e s p of Inr n \<Rightarrow> and (node_mode n) 4095 | Inl _ \<Rightarrow> 0)"

definition octal4 :: "mode \<Rightarrow> string" where
  "octal4 m = map (\<lambda>k. char_of (48 + unat m div 8 ^ k mod 8 :: nat)) [3, 2, 1, 0]"

definition key_file_row :: "sys_env \<Rightarrow> fs \<Rightarrow> path \<Rightarrow> key_file_report option" where
  "key_file_row e s p =
     (case key_file_peer_id p of
        None \<Rightarrow> None
      | Some peer_id \<Rightarrow>
          (let mode = effective_file_mode e s p in
           Some \<lparr> kf_peer_id = peer_id, kf_mode = octal4 mode, kf_ok = (mode = EXPECTED_KEYS_FILE_MODE) \<rparr>))"

definition probe_keys :: "doctor_env \<Rightarrow> fs \<Rightarrow> path \<Rightarrow> keys_report" where
  "probe_keys v s dir =
     (case de_read_dir v dir of
        Inl _ \<Rightarrow> \<lparr> kr_dir = dir, kr_files = [] \<rparr>
      | Inr entries \<Rightarrow>
          \<lparr> kr_dir = dir,
            kr_files = sort_key kf_peer_id (List.map_filter (\<lambda>name. key_file_row (de_sys v) s (dir @ [name]))
              (take DOCTOR_KEYS_FILE_CAP (List.map_filter (\<lambda>r. case r of Inl _ \<Rightarrow> None | Inr name \<Rightarrow> Some name) entries))) \<rparr>)"

definition probe_bluez_adapter :: string where
  "probe_bluez_adapter = ''unknown''"

text \<open>Output that is not valid text gets a replacement character, so it is none of the known words.\<close>

definition probe_systemctl :: "doctor_env \<Rightarrow> string" where
  "probe_systemctl v =
     (case de_output v SYSTEMCTL_ARGV of
        Inl _ \<Rightarrow> ''unknown''
      | Inr out \<Rightarrow>
          (case from_utf8 out of
             None \<Rightarrow> ''unknown''
           | Some t \<Rightarrow>
               (let s = trim t in
                if s = ''active'' then ''active''
                else if s = ''inactive'' \<or> s = ''failed'' \<or> s = ''unknown'' then ''inactive''
                else ''unknown'')))"

definition tail_push :: "string list \<Rightarrow> string \<Rightarrow> string list" where
  "tail_push tail line = (if length tail = DOCTOR_LAST_LOG_TAIL then tl tail else tail) @ [line]"

fun log_tail_loop :: "nat \<Rightarrow> (io_error + string) list \<Rightarrow> string list \<Rightarrow> string list" where
  "log_tail_loop read [] tail = tail"
| "log_tail_loop read (line # rest) tail =
     (if read \<ge> DOCTOR_LOG_MAX_READ_LINES then tail
      else case line of
        Inl _ \<Rightarrow> tail
      | Inr l \<Rightarrow> log_tail_loop (Suc read) rest (if trim l = [] then tail else tail_push tail l))"

definition probe_audit_log_tail :: "sys_env \<Rightarrow> fs \<Rightarrow> path \<Rightarrow> string list" where
  "probe_audit_log_tail e s p = (case open_lines e s p of Inl _ \<Rightarrow> [] | Inr ls \<Rightarrow> log_tail_loop 0 ls [])"

section \<open>The verdict\<close>

definition compute_summary :: "daemon_state \<Rightarrow> bonds_report \<Rightarrow> keys_report \<Rightarrow> xdg_runtime_dir_report \<Rightarrow> string" where
  "compute_summary daemon bonds keys xdg =
     (if (case daemon of Ds_Down reason \<Rightarrow> reason \<noteq> ''skipped'' | Ds_Up \<Rightarrow> False) then SUMMARY_FAIL
      else if (br_exists bonds \<and> \<not> br_parseable bonds) \<or> (\<exists>f \<in> set (kr_files keys). \<not> kf_ok f) \<or> \<not> xr_set xdg
      then SUMMARY_WARN else SUMMARY_OK)"

definition build_report :: "doctor_env \<Rightarrow> doctor_opts \<Rightarrow> fs \<Rightarrow> doctor_report option" where
  "build_report v opts s =
     (let xdg = probe_xdg_runtime_dir v;
          daemon_socket = (case dx_socket opts of Some p \<Rightarrow> p | None \<Rightarrow> doctor_default_socket (xr_value xdg));
          daemon = (if dx_skip_daemon opts then Ds_Down ''skipped'' else doctor_probe_daemon (de_probe v) daemon_socket) in
      case probe_bonds v s (dx_bonds_file opts) of
        None \<Rightarrow> None
      | Some bonds_file \<Rightarrow>
          (let keys = probe_keys v s (dx_keys_dir opts) in
           Some \<lparr> dr_daemon_socket = daemon_socket, dr_daemon = daemon, dr_bonds_file = bonds_file, dr_keys = keys,
             dr_bluez_adapter = (if dx_skip_bluez opts then ''unknown'' else probe_bluez_adapter),
             dr_systemctl = (if dx_skip_systemctl opts then ''unknown'' else probe_systemctl v),
             dr_last_log_tail = probe_audit_log_tail (de_sys v) s (dx_audit_log opts),
             dr_xdg_runtime_dir = xdg, dr_summary = compute_summary daemon bonds_file keys xdg \<rparr>))"

section \<open>Rendering\<close>

definition xdg_line :: "xdg_runtime_dir_report \<Rightarrow> string" where
  "xdg_line xdg = ''xdg_runtime_dir='' @
     (if xr_set xdg then XDG_RUNTIME_DIR_SET_PREFIX @ display_path (xr_value xdg)
      else XDG_RUNTIME_DIR_UNSET_PREFIX @ display_path (xr_value xdg) @ '')'')"

definition key_line :: "key_file_report \<Rightarrow> string" where
  "key_line f = ''keys_'' @ kf_peer_id f @ ''_mode='' @ kf_mode f @ (if kf_ok f then [] else '' (expected 0600)'')"

definition keyvalue_lines :: "doctor_report \<Rightarrow> string list" where
  "keyvalue_lines report =
     [''daemon_socket='' @ display_path (dr_daemon_socket report),
      (case dr_daemon report of Ds_Up \<Rightarrow> ''daemon=up'' | Ds_Down reason \<Rightarrow> ''daemon=down: '' @ reason),
      ''bonds_file='' @ display_path (br_path (dr_bonds_file report)),
      ''bonds_count='' @ show_nat (br_count (dr_bonds_file report)),
      ''bonds_parseable='' @ (if br_parseable (dr_bonds_file report) then ''true'' else ''false''),
      ''keys_dir='' @ display_path (kr_dir (dr_keys report)),
      ''keys_files='' @ show_nat (length (kr_files (dr_keys report)))] @
     map key_line (kr_files (dr_keys report)) @
     [''bluez_adapter='' @ dr_bluez_adapter report, ''systemctl_user_unit='' @ dr_systemctl report] @
     map (\<lambda>(idx, line). ''last_log_tail_'' @ show_nat (Suc idx) @ ''='' @ line) (enumerate 0 (dr_last_log_tail report)) @
     [xdg_line (dr_xdg_runtime_dir report), ''doctor='' @ dr_summary report]"

text \<open>Every line is one write; the first that fails ends the command.\<close>

definition write_keyvalue :: "doctor_report \<Rightarrow> console \<Rightarrow> (doctor_error + unit) \<times> console" where
  "write_keyvalue report c = on_err DoctorIo (write_lines (keyvalue_lines report) c)"

definition write_json :: "doctor_env \<Rightarrow> doctor_report \<Rightarrow> console \<Rightarrow> (doctor_error + unit) \<times> console" where
  "write_json v report c =
     (case de_json v report of
        None \<Rightarrow> (Err DoctorJson, c)
      | Some t \<Rightarrow> and_then (\<lambda>c. on_err DoctorIo (write_str t c)) (\<lambda>_ c. on_err DoctorIo (write_str [NL] c)) c)"

definition run_doctor :: "doctor_env \<Rightarrow> doctor_opts \<Rightarrow> fs \<Rightarrow> console \<Rightarrow> ((doctor_error + unit) \<times> console) option" where
  "run_doctor v opts s c =
     (case build_report v opts s of
        None \<Rightarrow> None
      | Some report \<Rightarrow> Some (if dx_json opts then write_json v report c else write_keyvalue report c))"

section \<open>Lemmas\<close>

lemma doctor_up_iff: "doctor_probe_daemon px socket = Ds_Up \<longleftrightarrow> (\<exists>peers t. status_exchange px socket = Ok (Resp_Status peers t))"
  by (auto simp: doctor_probe_daemon_def split: sum.splits response.splits)

text \<open>No failure of the probe reads like a probe that was skipped.\<close>

lemma exchange_not_skipped: "status_exchange px socket \<noteq> Err ''skipped''"
proof -
  have "map_err (\<lambda>err. ''frame-error: '' @ px_show_rpc px err) r \<noteq> Err ''skipped''" for r :: "rpc_error + response"
    by (cases r) simp_all
  then show ?thesis
    by (simp add: status_exchange_def Let_def connect_error_reason_def split: option.split sum.split prod.split io_error.split)
qed

lemma probe_not_skipped: "doctor_probe_daemon px socket \<noteq> Ds_Down ''skipped''"
  using exchange_not_skipped [of px socket] by (auto simp: doctor_probe_daemon_def split: sum.split response.split)

lemma compute_summary_cases:
  "compute_summary daemon bonds keys xdg = ''fail'' \<longleftrightarrow> (\<exists>reason. daemon = Ds_Down reason \<and> reason \<noteq> ''skipped'')"
  "compute_summary daemon bonds keys xdg = ''ok'' \<longleftrightarrow> (daemon = Ds_Up \<or> daemon = Ds_Down ''skipped'') \<and>
     (br_exists bonds \<longrightarrow> br_parseable bonds) \<and> (\<forall>f \<in> set (kr_files keys). kf_ok f) \<and> xr_set xdg"
  "compute_summary daemon bonds keys xdg \<in> {''ok'', ''warn'', ''fail''}"
  by (cases daemon; auto simp: compute_summary_def const_defs)+

lemma set_map_filter: "set (List.map_filter f xs) = {y. \<exists>x \<in> set xs. f x = Some y}"
  by (induction xs) (auto simp: map_filter_simps split: option.splits)

text \<open>The names in a directory the key probe looks at: the first 1024 that could be read.\<close>

definition inspected :: "(io_error + string) list \<Rightarrow> string list" where
  "inspected entries = take 1024 (List.map_filter (\<lambda>r. case r of Inl _ \<Rightarrow> None | Inr name \<Rightarrow> Some name) entries)"

lemma row_ok: "(\<forall>f. key_file_row e s p = Some f \<longrightarrow> kf_ok f) \<longleftrightarrow> (key_file_peer_id p \<noteq> None \<longrightarrow> effective_file_mode e s p = 384)"
  by (cases "key_file_peer_id p") (simp_all add: key_file_row_def Let_def const_defs)

lemma all_keys_ok:
  "(\<forall>f \<in> set (kr_files (probe_keys v s dir)). kf_ok f) \<longleftrightarrow>
     (\<forall>entries. de_read_dir v dir = Ok entries \<longrightarrow>
       (\<forall>name \<in> set (inspected entries). key_file_peer_id (dir @ [name]) \<noteq> None \<longrightarrow> effective_file_mode (de_sys v) s (dir @ [name]) = 384))"
proof (cases "de_read_dir v dir")
  case (Inr entries)
  then have "kr_files (probe_keys v s dir) = sort_key kf_peer_id (List.map_filter (\<lambda>name. key_file_row (de_sys v) s (dir @ [name])) (inspected entries))"
    by (simp add: probe_keys_def inspected_def const_defs)
  then show ?thesis unfolding row_ok [symmetric] using Inr by (auto simp: set_map_filter)
qed (simp add: probe_keys_def)

lemma probe_bonds_ok:
  "probe_bonds v s p = Some b \<Longrightarrow> (br_exists b \<longrightarrow> br_parseable b) \<longleftrightarrow>
     (\<forall>n. metadata (de_sys v) s p = Ok n \<longrightarrow> (\<exists>store. bs_load (de_toml v) (de_blake3 v) (de_sys v) s p = Ok store))"
  by (auto simp: probe_bonds_def split: sum.splits bond_error.splits)

lemma xdg_set_iff: "xr_set (probe_xdg_runtime_dir v) \<longleftrightarrow> (\<exists>d. de_var v ''XDG_RUNTIME_DIR'' = Some d \<and> d \<noteq> [])"
  by (auto simp: probe_xdg_runtime_dir_def Let_def split: option.splits)

text \<open>The tail of the log is the window of its last ten lines.\<close>

interpretation log_tail: recent_window tail_push "\<lambda>t. t" DOCTOR_LAST_LOG_TAIL "\<lambda>t. length t \<le> DOCTOR_LAST_LOG_TAIL"
proof unfold_locales
  fix t :: "string list" and l
  assume "length t \<le> DOCTOR_LAST_LOG_TAIL"
  then show "tail_push t l = lastn DOCTOR_LAST_LOG_TAIL (t @ [l])" "length (tail_push t l) \<le> DOCTOR_LAST_LOG_TAIL"
    by (auto simp: tail_push_def lastn_def const_defs drop_Suc)
qed

lemma log_tail_loop_foldl:
  "n + length ls \<le> DOCTOR_LOG_MAX_READ_LINES \<Longrightarrow>
     log_tail_loop n (map Ok ls) tail = foldl tail_push tail (filter (\<lambda>l. trim l \<noteq> []) ls)"
  by (induction ls arbitrary: n tail) auto

lemma log_tail_loop_capped:
  "DOCTOR_LOG_MAX_READ_LINES \<le> n + length xs \<Longrightarrow> log_tail_loop n (xs @ ys) tail = log_tail_loop n xs tail"
proof (induction xs arbitrary: n tail)
  case Nil
  then show ?case by (cases ys) simp_all
next
  case (Cons x xs)
  then show ?case by (cases x) simp_all
qed

section \<open>Properties\<close>

text \<open>What the verdict looks at: the daemon, the bonds file, the key files, the runtime directory.\<close>

definition daemon_answers :: "doctor_env \<Rightarrow> path \<Rightarrow> bool" where
  "daemon_answers v socket \<longleftrightarrow> (\<exists>peers t. status_exchange (de_probe v) socket = Ok (Resp_Status peers t))"

definition bonds_readable :: "doctor_env \<Rightarrow> fs \<Rightarrow> path \<Rightarrow> bool" where
  "bonds_readable v s p \<longleftrightarrow>
     (\<forall>n. metadata (de_sys v) s p = Ok n \<longrightarrow> (\<exists>store. bs_load (de_toml v) (de_blake3 v) (de_sys v) s p = Ok store))"

definition keys_private :: "doctor_env \<Rightarrow> fs \<Rightarrow> path \<Rightarrow> bool" where
  "keys_private v s dir \<longleftrightarrow>
     (\<forall>entries. de_read_dir v dir = Ok entries \<longrightarrow>
        (\<forall>name \<in> set (inspected entries). key_file_peer_id (dir @ [name]) \<noteq> None \<longrightarrow>
           effective_file_mode (de_sys v) s (dir @ [name]) = 384))"

definition runtime_dir_set :: "doctor_env \<Rightarrow> bool" where
  "runtime_dir_set v \<longleftrightarrow> (\<exists>d. de_var v ''XDG_RUNTIME_DIR'' = Some d \<and> d \<noteq> [])"

lemma summary_iff:
  assumes "build_report v opts s = Some r"
  shows "dr_summary r \<in> {''ok'', ''warn'', ''fail''}"
    and "dr_summary r = ''fail'' \<longleftrightarrow> \<not> dx_skip_daemon opts \<and> \<not> daemon_answers v (dr_daemon_socket r)"
    and "dr_summary r = ''ok'' \<longleftrightarrow>
      (dx_skip_daemon opts \<or> daemon_answers v (dr_daemon_socket r)) \<and> bonds_readable v s (dx_bonds_file opts) \<and>
      keys_private v s (dx_keys_dir opts) \<and> runtime_dir_set v"
proof -
  let ?daemon = "if dx_skip_daemon opts then Ds_Down ''skipped'' else doctor_probe_daemon (de_probe v) (dr_daemon_socket r)"
  obtain b where b: "probe_bonds v s (dx_bonds_file opts) = Some b"
    using assms by (auto simp: build_report_def Let_def split: option.splits)
  then have r: "dr_summary r = compute_summary ?daemon b (probe_keys v s (dx_keys_dir opts)) (probe_xdg_runtime_dir v)"
    using assms by (auto simp: build_report_def Let_def)
  have down: "(\<exists>reason. ?daemon = Ds_Down reason \<and> reason \<noteq> ''skipped'') \<longleftrightarrow>
      \<not> dx_skip_daemon opts \<and> doctor_probe_daemon (de_probe v) (dr_daemon_socket r) \<noteq> Ds_Up"
    using probe_not_skipped by (cases "doctor_probe_daemon (de_probe v) (dr_daemon_socket r)") auto
  have up: "?daemon = Ds_Up \<or> ?daemon = Ds_Down ''skipped'' \<longleftrightarrow>
      dx_skip_daemon opts \<or> doctor_probe_daemon (de_probe v) (dr_daemon_socket r) = Ds_Up"
    using probe_not_skipped by auto
  note defs = daemon_answers_def bonds_readable_def keys_private_def runtime_dir_set_def
  show "dr_summary r \<in> {''ok'', ''warn'', ''fail''}" unfolding r by (rule compute_summary_cases(3))
  show "dr_summary r = ''fail'' \<longleftrightarrow> \<not> dx_skip_daemon opts \<and> \<not> daemon_answers v (dr_daemon_socket r)"
    unfolding r compute_summary_cases(1,2) down doctor_up_iff defs by blast
  show "dr_summary r = ''ok'' \<longleftrightarrow>
      (dx_skip_daemon opts \<or> daemon_answers v (dr_daemon_socket r)) \<and> bonds_readable v s (dx_bonds_file opts) \<and>
      keys_private v s (dx_keys_dir opts) \<and> runtime_dir_set v"
    unfolding r compute_summary_cases(1,2) up doctor_up_iff probe_bonds_ok [OF b] all_keys_ok xdg_set_iff defs by blast
qed

text \<open>
  C40: the verdict means what it says.  The report ends in \<open>ok\<close>, \<open>warn\<close> or \<open>fail\<close>.  It
  is \<open>fail\<close> exactly if the daemon was asked and did not answer with its status.  It
  is \<open>ok\<close> only if the daemon was not asked or answered, a bonds file that is there
  could be loaded, every key file among the first 1024 names of a key directory that
  can be listed is readable and writable by its owner only, and the runtime directory
  is set; and on a system where all probes are good, the daemon, the bonds file, the
  key directory, the runtime directory and the service unit, it is \<open>ok\<close>.
\<close>

theorem doctor_summary_exact:
  assumes "build_report v opts s = Some r"
  shows "dr_summary r \<in> {''ok'', ''warn'', ''fail''} \<and>
    (dr_summary r = ''fail'' \<longleftrightarrow> \<not> dx_skip_daemon opts \<and> \<not> daemon_answers v (dr_daemon_socket r)) \<and>
    (dr_summary r = ''ok'' \<longrightarrow>
      (dx_skip_daemon opts \<or> daemon_answers v (dr_daemon_socket r)) \<and> bonds_readable v s (dx_bonds_file opts) \<and>
      keys_private v s (dx_keys_dir opts) \<and> runtime_dir_set v) \<and>
    (daemon_answers v (dr_daemon_socket r) \<and>
      (\<exists>store. bs_load (de_toml v) (de_blake3 v) (de_sys v) s (dx_bonds_file opts) = Ok store) \<and>
      is_ok (de_read_dir v (dx_keys_dir opts)) \<and> keys_private v s (dx_keys_dir opts) \<and> runtime_dir_set v \<and>
      dr_systemctl r = ''active'' \<longrightarrow> dr_summary r = ''ok'')"
  using summary_iff [OF assms] by (simp add: bonds_readable_def)

text \<open>
  The verdict does not look at the service unit, and a key directory that cannot be
  listed counts as one without key files: with the unit inactive, or with such a
  directory, a report that is good otherwise still ends in \<open>ok\<close>.
\<close>

theorem doctor_ok_despite_deviation:
  assumes "build_report v opts s = Some r" "dr_summary r = ''ok''"
  shows "\<exists>r1. build_report (v\<lparr> de_output := (\<lambda>_. Ok (str_bytes ''inactive'')) \<rparr>) (opts\<lparr> dx_skip_systemctl := False \<rparr>) s = Some r1 \<and>
           dr_systemctl r1 = ''inactive'' \<and> dr_summary r1 = ''ok''"
    and "\<exists>r1. build_report (v\<lparr> de_read_dir := (\<lambda>_. Err PermissionDenied) \<rparr>) opts s = Some r1 \<and> dr_summary r1 = ''ok''"
proof -
  obtain b where b: "probe_bonds v s (dx_bonds_file opts) = Some b"
    using assms(1) by (auto simp: build_report_def Let_def split: option.splits)
  let ?v1 = "v\<lparr> de_output := (\<lambda>_. Ok (str_bytes ''inactive'')) \<rparr>" and ?v2 = "v\<lparr> de_read_dir := (\<lambda>_. Err PermissionDenied) \<rparr>"
  have fields: "de_probe ?v1 = de_probe v" "de_sys ?v1 = de_sys v" "de_toml ?v1 = de_toml v" "de_blake3 ?v1 = de_blake3 v" "de_var ?v1 = de_var v" "de_euid ?v1 = de_euid v"
    "de_probe ?v2 = de_probe v" "de_sys ?v2 = de_sys v" "de_toml ?v2 = de_toml v" "de_blake3 ?v2 = de_blake3 v" "de_var ?v2 = de_var v" "de_euid ?v2 = de_euid v" "de_read_dir ?v1 = de_read_dir v"
    by simp_all
  have same: "probe_bonds ?v1 s p = probe_bonds v s p" "probe_keys ?v1 s p = probe_keys v s p" "probe_xdg_runtime_dir ?v1 = probe_xdg_runtime_dir v"
    "probe_bonds ?v2 s p = probe_bonds v s p" "probe_xdg_runtime_dir ?v2 = probe_xdg_runtime_dir v" "de_probe ?v1 = de_probe v" "de_probe ?v2 = de_probe v" for p
    unfolding probe_bonds_def probe_keys_def probe_xdg_runtime_dir_def fields by (rule refl)+
  have "trim ''inactive'' = ''inactive''" "from_utf8 (str_bytes ''inactive'') = Some ''inactive''" by code_simp+
  then have sc: "probe_systemctl ?v1 = ''inactive''" by (simp add: probe_systemctl_def)
  show "\<exists>r1. build_report ?v1 (opts\<lparr> dx_skip_systemctl := False \<rparr>) s = Some r1 \<and> dr_systemctl r1 = ''inactive'' \<and> dr_summary r1 = ''ok''"
    using assms b unfolding build_report_def same sc Let_def by auto
  have keys: "kr_files (probe_keys ?v2 s p) = []" for p by (simp add: probe_keys_def)
  have "compute_summary d b (probe_keys ?v2 s p) x = ''ok''" if "compute_summary d b k x = ''ok''" for d p k x
    using that keys [of p] by (auto simp: compute_summary_cases(2))
  then show "\<exists>r1. build_report ?v2 opts s = Some r1 \<and> dr_summary r1 = ''ok''"
    using assms b unfolding build_report_def same Let_def by auto
qed

text \<open>
  For a log of at most 4096 complete lines of valid text the report shows exactly
  its last ten lines that are not blank, in their order.
\<close>

theorem doctor_tail_exact:
  assumes "fs_nodes s p = Some (FileNode (str_bytes (unlines ls)) m)" "sys_fail e (OpOpen p) = None" "sys_fail e (OpRead p) = None"
    and "\<forall>l \<in> set ls. NL \<notin> set l" "\<forall>l \<in> set ls. utf8_valid (str_bytes (drop_cr l))" "length ls \<le> 4096"
  shows "probe_audit_log_tail e s p = lastn 10 (filter (\<lambda>l. trim l \<noteq> []) (map drop_cr ls))"
proof -
  let ?ls = "filter (\<lambda>l. trim l \<noteq> []) (map drop_cr ls)"
  have "open_lines e s p = Ok (map Ok (map drop_cr ls))"
    using assms(1-3) buf_lines_unlines [OF assms(4,5)] by (simp add: open_lines_def read_file_def)
  then have "probe_audit_log_tail e s p = foldl tail_push [] ?ls"
    using log_tail_loop_foldl [of 0 "map drop_cr ls" "[]"] assms(6) by (simp add: probe_audit_log_tail_def const_defs)
  also have "\<dots> = lastn 10 ?ls"
    using log_tail.window_pushes [of "[]" ?ls] by (cases "?ls = []") (simp_all add: const_defs)
  finally show ?thesis .
qed

text \<open>Past 4096 lines nothing that is appended is shown, so the lines shown are not the last ones.\<close>

theorem doctor_ignores_newer_lines:
  assumes "fs_nodes s p = Some (FileNode (str_bytes (unlines ls)) m)" "fs_nodes s1 p = Some (FileNode (str_bytes (unlines ls) @ newer) m1)"
    and "\<forall>l \<in> set ls. NL \<notin> set l" "4096 \<le> length ls"
  shows "probe_audit_log_tail e s1 p = probe_audit_log_tail e s p"
proof -
  have "buf_lines (str_bytes (unlines ls) @ newer) = buf_lines (str_bytes (unlines ls)) @ buf_lines newer"
    by (rule buf_lines_after [OF assms(3)])
  moreover have "DOCTOR_LOG_MAX_READ_LINES \<le> 0 + length (buf_lines (str_bytes (unlines ls)))"
    using assms(3,4) by (simp add: buf_lines_def lines_unlines const_defs)
  ultimately have "log_tail_loop 0 (buf_lines (str_bytes (unlines ls) @ newer)) [] = log_tail_loop 0 (buf_lines (str_bytes (unlines ls))) []"
    by (simp only: log_tail_loop_capped)
  then show ?thesis using assms(1,2) by (simp add: probe_audit_log_tail_def open_lines_def read_file_def split: option.splits)
qed

text \<open>The two commands agree on whether the daemon is up.\<close>

lemma doctor_agrees_with_status:
  "doctor_probe_daemon px socket = Ds_Up \<longleftrightarrow> (\<exists>t peers. status_probe_daemon px socket = Dp_Up t peers)"
  by (auto simp: doctor_probe_daemon_def status_probe_daemon_def split: sum.splits response.splits)

text \<open>A bonds file that makes the loader panic ends the command before it prints anything.\<close>

theorem doctor_panics_with_loader:
  assumes "metadata (de_sys v) s (dx_bonds_file opts) = Ok n"
    and "bs_load (de_toml v) (de_blake3 v) (de_sys v) s (dx_bonds_file opts) = Err Bond_Panicked"
  shows "run_doctor v opts s c = None"
  using assms by (simp add: run_doctor_def build_report_def probe_bonds_def Let_def)

text \<open>The name under which a key file is written is read back as the peer it belongs to.\<close>

lemma key_file_named: "i \<noteq> [] \<Longrightarrow> utf8_valid (str_bytes (i @ ''.bin'')) \<Longrightarrow> key_file_peer_id (dir @ [i @ ''.bin'']) = Some i"
  by (simp add: key_file_peer_id_def strip_suffix_def const_defs)

subsection \<open>Example\<close>

text \<open>A daemon that answers, a bonds file that loads, one key file with the right mode beside a file that is no key.\<close>

definition ex_doctor :: doctor_env where
  "ex_doctor = \<lparr> de_probe = ex_probe, de_var = (\<lambda>_. Some ''/r''), de_euid = 0, de_toml = ex_toml1, de_blake3 = (\<lambda>b. b), de_sys = ex_env,
     de_read_dir = (\<lambda>_. Ok [Ok ''p.bin'', Err NotFound, Ok ''x'']), de_output = (\<lambda>_. Ok (str_bytes ''active'')), de_json = (\<lambda>_. None) \<rparr>"

definition ex_doctor_opts :: doctor_opts where
  "ex_doctor_opts = \<lparr> dx_socket = None, dx_bonds_file = [''f''], dx_keys_dir = [''k''], dx_audit_log = [''l''], dx_json = False,
     dx_skip_bluez = False, dx_skip_systemctl = False, dx_skip_daemon = False \<rparr>"

definition ex_doctor_fs :: fs where
  "ex_doctor_fs = \<lparr> fs_nodes = (\<lambda>p. Some (FileNode [] 384)), fs_past = [] \<rparr>"

lemma ex_doctor_load: "bs_load (de_toml ex_doctor) (de_blake3 ex_doctor) (de_sys ex_doctor) ex_doctor_fs p = Ok \<lparr> bs_bonds = [ex_bond1] \<rparr>"
  using ex_load1 [of ex_doctor_fs p 384] by (simp add: ex_doctor_def ex_doctor_fs_def)

lemma ex_doctor_report: "\<exists>r. build_report ex_doctor ex_doctor_opts ex_doctor_fs = Some r \<and> dr_systemctl r = ''active''"
proof -
  have "probe_systemctl ex_doctor = ''active''" by code_simp
  then show ?thesis by (auto simp: build_report_def probe_bonds_def ex_doctor_load Let_def ex_doctor_opts_def split: sum.splits)
qed

theorem doctor_summary_exact_witness:
  "\<exists>r. build_report ex_doctor ex_doctor_opts ex_doctor_fs = Some r \<and> dr_summary r = ''ok''"
proof -
  obtain r where r: "build_report ex_doctor ex_doctor_opts ex_doctor_fs = Some r" "dr_systemctl r = ''active''" using ex_doctor_report by blast
  have "status_probe_daemon ex_probe socket = Dp_Up 1000 []" for socket by (rule ex_probe_up)
  then have "daemon_answers ex_doctor (dr_daemon_socket r)"
    unfolding daemon_answers_def doctor_up_iff [symmetric] doctor_agrees_with_status by (auto simp: ex_doctor_def)
  moreover have "effective_file_mode (de_sys ex_doctor) ex_doctor_fs p = 384" for p
    by (simp add: effective_file_mode_def metadata_def ex_doctor_def ex_env_def ex_doctor_fs_def node_mode_def)
  moreover have "de_var ex_doctor ''XDG_RUNTIME_DIR'' = Some ''/r''" "is_ok (de_read_dir ex_doctor p)" for p by (simp_all add: ex_doctor_def)
  ultimately have "dr_summary r = ''ok''"
    using doctor_summary_exact [OF r(1)] r(2) ex_doctor_load by (simp add: keys_private_def runtime_dir_set_def)
  with r show ?thesis by blast
qed

end
