(* ===== verification/ErrorText.thy ===== *)
theory ErrorText
  imports StoreCommands BluerPair PresencedInstall Doctor
begin

text \<open>
  What the errors of the command line tool say: the text of each variant and the
  texts of its sources, as the attributes on the error types of \<open>syauth-cli\<close> and of
  \<open>syauth-core/src/bond.rs\<close> give them.  The errors of the standard library and of
  other packages bring their own texts, which are parameters.
\<close>

section \<open>Texts from outside\<close>

text \<open>An error is its own text and the texts of its sources, the nearest first.\<close>

type_synonym error_chain = "string \<times> string list"

text \<open>
  The texts of operating system errors, of the errors of the TOML and JSON
  packages, of a text that is not UTF-8, of a temporary file that could not be
  renamed, and the form of a string in quotes.
\<close>

record lib_texts =
  lt_io :: "io_error \<Rightarrow> error_chain"
  lt_toml_de :: error_chain
  lt_toml_ser :: error_chain
  lt_utf8 :: error_chain
  lt_json :: error_chain
  lt_persist :: "io_error \<Rightarrow> error_chain"
  lt_debug_str :: "string \<Rightarrow> string"

text \<open>An error with a source: its own text, then the source and what the source has.\<close>

definition caused_by :: "string \<Rightarrow> error_chain \<Rightarrow> error_chain" where
  "caused_by t src = (t, fst src # snd src)"

text \<open>An error whose text ends with the text of its source.\<close>

definition wraps :: "string \<Rightarrow> error_chain \<Rightarrow> error_chain" where
  "wraps t src = caused_by (t @ fst src) src"

definition alone :: "string \<Rightarrow> error_chain" where
  "alone t = (t, [])"

section \<open>Formats of the standard library\<close>

function show_oct :: "nat \<Rightarrow> string" where
  "show_oct n = (if n < 8 then [char_of (48 + n)] else show_oct (n div 8) @ [char_of (48 + n mod 8)])"
  by auto

termination
  by (relation "measure id") simp_all

declare show_oct.simps [simp del]

definition show_int :: "int \<Rightarrow> string" where
  "show_int i = (if i < 0 then CHR ''-'' # show_nat (nat (- i)) else show_nat (nat i))"

definition debug_code :: "int option \<Rightarrow> string" where
  "debug_code c = (case c of None \<Rightarrow> ''None'' | Some i \<Rightarrow> ''Some('' @ show_int i @ '')'')"

definition debug_strings :: "lib_texts \<Rightarrow> string list \<Rightarrow> string" where
  "debug_strings X ts =
     ''['' @ (case map (lt_debug_str X) ts of [] \<Rightarrow> [] | u # us \<Rightarrow> u @ concat (map (\<lambda>v. '', '' @ v) us)) @ '']''"

definition QUOTE :: string where
  "QUOTE = [char_of (39::nat)]"

definition BACKTICK :: string where
  "BACKTICK = [char_of (96::nat)]"

definition code_text :: "string \<Rightarrow> string" where
  "code_text t = BACKTICK @ t @ BACKTICK"

section \<open>The error types\<close>

text \<open>\<open>BondError\<close>.  The panicking branch of the model is no value of the type.\<close>

fun bond_error_chain :: "lib_texts \<Rightarrow> bond_error \<Rightarrow> error_chain" where
  "bond_error_chain X (Bond_Io p err) = caused_by (''bond i/o failed at '' @ display_path p) (lt_io X err)"
| "bond_error_chain X Bond_Parse = caused_by ''bond file parse error'' (lt_toml_de X)"
| "bond_error_chain X Bond_Serialize = caused_by ''bond file serialize error'' (lt_toml_ser X)"
| "bond_error_chain X (Bond_UnsupportedSchemaVersion found supported) =
     alone (''unsupported bond schema_version: file is v'' @ show_nat found @ '', this build understands up to v'' @ show_nat supported)"
| "bond_error_chain X (Bond_AlreadyBonded i) = alone (''peer already bonded: peer_id='' @ i)"
| "bond_error_chain X (Bond_UnknownPeer i) = alone (''unknown peer: peer_id='' @ i)"
| "bond_error_chain X (Bond_ParentDirTooPermissive p m expected) =
     alone (''bond parent directory at '' @ display_path p @ '' has too-permissive mode 0o'' @ show_oct (unat m) @
            '' (expected 0o'' @ show_oct (unat expected) @ '')'')"
| "bond_error_chain X (Bond_PeerIdMismatch found expected) =
     alone (''bond peer_id mismatch: file says '' @ found @ '', BLAKE3(pubkey) gives '' @ expected)"
| "bond_error_chain X Bond_Panicked = alone []"

fun revoke_reason_debug :: "revoke_reason \<Rightarrow> string" where
  "revoke_reason_debug Rr_Timeout = ''Timeout''"
| "revoke_reason_debug Rr_OperatorReject = ''OperatorReject''"

text \<open>The section sign of the refusal message, in UTF-8.\<close>

definition SECTION_SIGN :: string where
  "SECTION_SIGN = bytes_str [194, 167]"

fun pair_error_chain :: "lib_texts \<Rightarrow> pair_error \<Rightarrow> error_chain" where
  "pair_error_chain X (AdapterMissing n) = alone (''bluetooth adapter '' @ QUOTE @ n @ QUOTE @ '' not found'')"
| "pair_error_chain X (LescUnsupported a hint) =
     alone (''adapter '' @ QUOTE @ a @ QUOTE @ '' does not support LE Secure Connections; '' @ hint)"
| "pair_error_chain X NoPeers =
     alone ''no advertising peers found; ensure the phone app is on the pairing screen and within range''"
| "pair_error_chain X (AmbiguousPeer ns) = alone (''ambiguous --peer filter: matched '' @ debug_strings X ns)"
| "pair_error_chain X PeerNotFound = alone ''--peer filter matched no advertising peers''"
| "pair_error_chain X (PairRevoked r) = alone (''pair flow revoked: '' @ revoke_reason_debug r @ ''; no bond written'')"
| "pair_error_chain X (PairBond err) = wraps ''bond store error: '' (bond_error_chain X err)"
| "pair_error_chain X (PeerAlreadyBonded i) =
     alone (''peer already paired with this desktop'' @ [NL] @ ''  peer_id='' @ i @ [NL] @
            ''  hint: rerun with '' @ code_text ''--force'' @ '' to replace the existing bond,'' @ [NL] @
            ''        or run '' @ code_text (''syauth revoke --id '' @ i) @ '' first.'')"
| "pair_error_chain X (PairBackendError r) = alone (''pair backend error: '' @ r)"
| "pair_error_chain X (DowngradeBlocked v) =
     alone (''pair flow refused: '' @ pairing_variant_display v @
            '' variant has no MITM protection (LESC numeric comparison required by SPEC '' @ SECTION_SIGN @ ''3.2 D5)'')"
| "pair_error_chain X (UnsupportedPairingVariant v) =
     alone (''pair flow refused: unsupported pairing variant '' @ QUOTE @ pairing_variant_display v @ QUOTE)"
| "pair_error_chain X (PairIo err) = wraps ''pair I/O error: '' (lt_io X err)"

fun revoke_error_chain :: "lib_texts \<Rightarrow> revoke_error \<Rightarrow> error_chain" where
  "revoke_error_chain X (Rv_UnknownId i) =
     alone (''no bond with id='' @ i @ '' (run '' @ code_text ''syauth list'' @ '' to see known ids)'')"
| "revoke_error_chain X (Rv_Bond err) = wraps ''bond store error: '' (bond_error_chain X err)"
| "revoke_error_chain X (Rv_Io err) = wraps ''revoke i/o error: '' (lt_io X err)"

fun status_error_chain :: "lib_texts \<Rightarrow> status_error \<Rightarrow> error_chain" where
  "status_error_chain X (StatusBond err) = wraps ''bond store error: '' (bond_error_chain X err)"
| "status_error_chain X (StatusIo err) = wraps ''status i/o error: '' (lt_io X err)"
| "status_error_chain X StatusJson = wraps ''status json encode error: '' (lt_json X)"

fun doctor_error_chain :: "lib_texts \<Rightarrow> doctor_error \<Rightarrow> error_chain" where
  "doctor_error_chain X (DoctorIo err) = wraps ''doctor i/o error: '' (lt_io X err)"
| "doctor_error_chain X DoctorJson = wraps ''doctor json encode error: '' (lt_json X)"

fun install_error_chain :: "lib_texts \<Rightarrow> install_error \<Rightarrow> error_chain" where
  "install_error_chain X (In_ServiceNotFound p) = alone (''PAM service file not found: '' @ display_path p)"
| "install_error_chain X (In_BackupExists p) =
     alone (''refusing to overwrite existing backup at '' @ display_path p @ ''; move it aside (e.g. '' @
            code_text (''mv '' @ display_path p @ '' '' @ display_path p @ ''.before-syauth'') @ '') and retry'')"
| "install_error_chain X (In_NotUtf8 p) = wraps (''PAM service file at '' @ display_path p @ '' is not valid UTF-8: '') (lt_utf8 X)"
| "install_error_chain X (In_Io p err) = wraps (''I/O error on '' @ display_path p @ '': '') (lt_io X err)"
| "install_error_chain X (In_Persist p err) = wraps (''atomic persist of '' @ display_path p @ '' failed: '') (lt_persist X err)"

text \<open>\<open>BackupMissingService\<close>: the second field of the missing backup is a source of its own.\<close>

definition backup_missing_service :: "path \<Rightarrow> error_chain" where
  "backup_missing_service p = alone (''service file: '' @ display_path p)"

fun uninstall_error_chain :: "lib_texts \<Rightarrow> uninstall_error \<Rightarrow> error_chain" where
  "uninstall_error_chain X (Un_ServiceNotFound p) = alone (''PAM service file not found: '' @ display_path p)"
| "uninstall_error_chain X (Un_BackupMissing bak service) =
     caused_by (''no backup found at '' @ display_path bak @
                ''; refusing to remove the syauth line without restoring known-good state. Restore the affected '' @
                fst (backup_missing_service service) @ '' manually or rerun install-pam to recreate the bond.'')
       (backup_missing_service service)"
| "uninstall_error_chain X (Un_NotUtf8 p) = wraps (''PAM service file at '' @ display_path p @ '' is not valid UTF-8: '') (lt_utf8 X)"
| "uninstall_error_chain X (Un_Io p err) = wraps (''I/O error on '' @ display_path p @ '': '') (lt_io X err)"
| "uninstall_error_chain X (Un_Persist p err) = wraps (''atomic persist of '' @ display_path p @ '' failed: '') (lt_persist X err)"

fun install_presenced_error_chain :: "lib_texts \<Rightarrow> install_presenced_error \<Rightarrow> error_chain" where
  "install_presenced_error_chain X Ip_SourceMissing = alone ''could not locate syauth-presenced binary; pass --from <path>''"
| "install_presenced_error_chain X (Ip_CurrentExe err) = wraps ''failed to resolve current executable path: '' (lt_io X err)"
| "install_presenced_error_chain X Ip_UnitDirUnresolvable =
     alone ''cannot resolve user-unit directory: neither XDG_CONFIG_HOME nor HOME is set''"
| "install_presenced_error_chain X (Ip_Io p err) = wraps (''I/O error on '' @ display_path p @ '': '') (lt_io X err)"
| "install_presenced_error_chain X (Ip_SystemctlFailed verb code stderr) =
     alone (code_text (''systemctl --user '' @ verb) @ '' failed (exit '' @ debug_code code @ ''): '' @ stderr)"
| "install_presenced_error_chain X (Ip_SystemctlSpawn err) =
     wraps (''failed to spawn '' @ code_text ''systemctl'' @ '': '') (lt_io X err)"

fun cli_error_chain :: "lib_texts \<Rightarrow> cli_error \<Rightarrow> error_chain" where
  "cli_error_chain X (Cli_Install err) = install_error_chain X err"
| "cli_error_chain X (Cli_Uninstall err) = uninstall_error_chain X err"
| "cli_error_chain X (Cli_Presenced err) = install_presenced_error_chain X err"
| "cli_error_chain X (Cli_Io err) = lt_io X err"

end
