(* ===== verification/Commands.thy ===== *)
theory Commands
  imports ErrorText
begin

text \<open>
  The command line tool as a whole, \<open>syauth-cli/src/main.rs\<close>: the choice of the
  command, its run on the machine, and the exit code with the messages for an
  error.  Option parsing is the library's; here the options are given.
\<close>

section \<open>Commands\<close>

record uninstall_opts =
  uo_service :: string
  uo_pam_dir :: path
  uo_yes :: bool

datatype cmd =
    Cmd_Pair pair_opts
  | Cmd_List path
  | Cmd_Revoke revoke_opts
  | Cmd_Status status_opts
  | Cmd_InstallPam install_opts
  | Cmd_UninstallPam uninstall_opts
  | Cmd_InstallPresenced install_presenced_opts
  | Cmd_Doctor doctor_opts

datatype cmd_error =
    Ce_Pair pair_error
  | Ce_Revoke revoke_error
  | Ce_Status status_error
  | Ce_Doctor doctor_error
  | Ce_Install cli_error

text \<open>
  How a command ends: with a result, with a panic, or not at all (the pairing
  prompt may wait for ever, the watch goes on until it is interrupted).
\<close>

datatype cmd_end = Ended "cmd_error + unit" | Panicked | Running

text \<open>
  Everything outside that the commands meet.  The random secret of a pairing run
  and the key derived from it, BlueZ and the files of its applet, the operator's
  lines with their times, the worlds of the two reports, the class of word
  characters of the regular expressions, the texts of errors from outside.
\<close>

record cli_env =
  cv_toml :: toml_lib
  cv_blake3 :: "bytes \<Rightarrow> bytes"
  cv_hkdf :: hkdf
  cv_sys :: sys_env
  cv_now :: int
  cv_bluez :: bluez_env
  cv_verifying_key :: "bytes \<Rightarrow> bytes"
  cv_secret :: bytes
  cv_run_fs :: fs
  cv_stdin :: "(nat \<times> (io_error + string)) list"
  cv_status :: status_env
  cv_rounds :: "watch_round list"
  cv_doctor :: doctor_env
  cv_word :: "string \<Rightarrow> bool"
  cv_proc :: Console.proc_env
  cv_texts :: lib_texts

definition bond_panicked :: "cmd_error \<Rightarrow> bool" where
  "bond_panicked err \<longleftrightarrow>
     err \<in> {Ce_Pair (PairBond Bond_Panicked), Ce_Revoke (Rv_Bond Bond_Panicked), Ce_Status (StatusBond Bond_Panicked)}"

definition cmd_ended :: "cmd_error + unit \<Rightarrow> cmd_end" where
  "cmd_ended r = (case r of Inl err \<Rightarrow> if bond_panicked err then Panicked else Ended r | Inr _ \<Rightarrow> Ended r)"

definition run_list_cli :: "cli_env \<Rightarrow> path \<Rightarrow> world \<Rightarrow> cmd_end \<times> world" where
  "run_list_cli v bond_dir w =
     (case run_list (cv_toml v) (cv_blake3 v) (cv_sys v) bond_dir (w_fs w) (w_out w) of
        (r, c) \<Rightarrow> (cmd_ended (map_err Ce_Pair r), w\<lparr> w_out := c \<rparr>))"

definition run_revoke_cli :: "cli_env \<Rightarrow> revoke_opts \<Rightarrow> world \<Rightarrow> cmd_end \<times> world" where
  "run_revoke_cli v opts w =
     (case run_revoke (cv_toml v) (cv_blake3 v) (cv_sys v) opts (w_fs w, w_out w) of
        (r, s, c) \<Rightarrow> (cmd_ended (map_err Ce_Revoke r), w\<lparr> w_fs := s, w_out := c \<rparr>))"

definition run_status_cli :: "cli_env \<Rightarrow> status_opts \<Rightarrow> world \<Rightarrow> cmd_end \<times> world" where
  "run_status_cli v opts w =
     (case run_status (cv_status v) opts (cv_rounds v) (w_fs w) (w_out w) of
        None \<Rightarrow> (Running, w)
      | Some (r, c) \<Rightarrow> (cmd_ended (map_err Ce_Status r), w\<lparr> w_out := c \<rparr>))"

definition run_doctor_cli :: "cli_env \<Rightarrow> doctor_opts \<Rightarrow> world \<Rightarrow> cmd_end \<times> world" where
  "run_doctor_cli v opts w =
     (case run_doctor (cv_doctor v) opts (w_fs w) (w_out w) of
        None \<Rightarrow> (Panicked, w)
      | Some (r, c) \<Rightarrow> (cmd_ended (map_err Ce_Doctor r), w\<lparr> w_out := c \<rparr>))"

definition run_pair_world :: "cli_env \<Rightarrow> pair_opts \<Rightarrow> world \<Rightarrow> cmd_end \<times> world" where
  "run_pair_world v opts w =
     (case run_pair_cli (cv_toml v) (cv_blake3 v) (cv_hkdf v) (cv_sys v) (cv_now v) (cv_bluez v) (cv_verifying_key v) (cv_secret v)
             (cv_run_fs v) opts (cv_stdin v) (w_fs w) (w_out w) of
        None \<Rightarrow> (Running, w)
      | Some (r, pw) \<Rightarrow> (cmd_ended (map_err Ce_Pair (res_bind r (\<lambda>_. Ok ()))), w\<lparr> w_fs := pair_world.pw_fs pw, w_out := pw_out pw \<rparr>))"

definition install_ended :: "(cli_error + unit) \<times> world \<Rightarrow> cmd_end \<times> world" where
  "install_ended rw = (case rw of (r, w) \<Rightarrow> (cmd_ended (map_err Ce_Install r), w))"

fun cli_dispatch :: "cli_env \<Rightarrow> cmd \<Rightarrow> world \<Rightarrow> cmd_end \<times> world" where
  "cli_dispatch v (Cmd_Pair opts) w = run_pair_world v opts w"
| "cli_dispatch v (Cmd_List bond_dir) w = run_list_cli v bond_dir w"
| "cli_dispatch v (Cmd_Revoke opts) w = run_revoke_cli v opts w"
| "cli_dispatch v (Cmd_Status opts) w = run_status_cli v opts w"
| "cli_dispatch v (Cmd_InstallPam opts) w = install_ended (run_install (cv_word v) (cv_proc v) (cv_sys v) opts w)"
| "cli_dispatch v (Cmd_UninstallPam opts) w = install_ended (run_uninstall (cv_word v) (cv_sys v) (uo_pam_dir opts) (uo_service opts) w)"
| "cli_dispatch v (Cmd_InstallPresenced opts) w = install_ended (run_install_presenced (cv_proc v) (cv_sys v) opts w)"
| "cli_dispatch v (Cmd_Doctor opts) w = run_doctor_cli v opts w"

section \<open>The process\<close>

text \<open>
  The runtime may fail to start.  An error is shown with its sources; a line that
  cannot be written to the error stream is passed over.
\<close>

fun cmd_error_chain :: "lib_texts \<Rightarrow> cmd_error \<Rightarrow> error_chain" where
  "cmd_error_chain X (Ce_Pair err) = pair_error_chain X err"
| "cmd_error_chain X (Ce_Revoke err) = revoke_error_chain X err"
| "cmd_error_chain X (Ce_Status err) = status_error_chain X err"
| "cmd_error_chain X (Ce_Doctor err) = doctor_error_chain X err"
| "cmd_error_chain X (Ce_Install err) = cli_error_chain X err"

definition try_line :: "string \<Rightarrow> console \<Rightarrow> console" where
  "try_line t c = snd (write_line t c)"

definition report_error :: "lib_texts \<Rightarrow> cmd_error \<Rightarrow> console \<Rightarrow> console" where
  "report_error X err c =
     (case cmd_error_chain X err of (text, sources) \<Rightarrow> foldl (\<lambda>c t. try_line (''  caused by: '' @ t) c) (try_line (''error: '' @ text) c) sources)"

definition cli_main ::
    "cli_env \<Rightarrow> string option \<Rightarrow> cmd \<Rightarrow> world \<Rightarrow> nat option \<times> world" where
  "cli_main v runtime_error cmd w =
     (case runtime_error of
        Some t \<Rightarrow> (Some 1, w\<lparr> w_err := try_line (''error: failed to start tokio runtime: '' @ t) (w_err w) \<rparr>)
      | None \<Rightarrow>
          (case cli_dispatch v cmd w of
             (Ended (Inr _), w1) \<Rightarrow> (Some 0, w1)
           | (Ended (Inl err), w1) \<Rightarrow> (Some 1, w1\<lparr> w_err := report_error (cv_texts v) err (w_err w1) \<rparr>)
           | (Panicked, w1) \<Rightarrow> (Some 101, w1)
           | (Running, w1) \<Rightarrow> (None, w1)))"

section \<open>Lemmas\<close>

definition read_only :: "cmd \<Rightarrow> bool" where
  "read_only cmd = (case cmd of Cmd_List _ \<Rightarrow> True | Cmd_Status _ \<Rightarrow> True | Cmd_Doctor _ \<Rightarrow> True | _ \<Rightarrow> False)"

lemma ended_not_running [simp]: "cmd_ended r \<noteq> Running"
  by (simp add: cmd_ended_def split: sum.splits)

lemma cmd_ended_Ok [simp]: "cmd_ended r = Ended (Ok u) \<longleftrightarrow> r = Ok u"
  by (cases r) (auto simp: cmd_ended_def)

lemma read_only_keeps: "read_only cmd \<Longrightarrow> cli_dispatch v cmd w = (r, w1) \<Longrightarrow> w_fs w1 = w_fs w \<and> w_systemctl w1 = w_systemctl w \<and> w_err w1 = w_err w"
  by (cases cmd)
    (auto simp: read_only_def run_list_cli_def run_status_cli_def run_doctor_cli_def split: option.splits prod.splits)

lemma report_error_text:
  assumes "con_ok c" "cmd_error_chain X err = (text, sources)"
  shows "con_text (report_error X err c) =
    con_text c @ ''error: '' @ text @ [NL] @ concat (map (\<lambda>t. ''  caused by: '' @ t @ [NL]) sources)"
proof -
  have line: "con_ok (try_line t c) \<and> con_text (try_line t c) = con_text c @ t @ [NL]" if "con_ok c" for t c
    using that by (simp add: try_line_def write_line_def write_str_def con_ok_def)
  have "con_ok c \<Longrightarrow> con_text (foldl (\<lambda>c t. try_line (''  caused by: '' @ t) c) c ts) = con_text c @ concat (map (\<lambda>t. ''  caused by: '' @ t @ [NL]) ts)" for c ts
    by (induction ts arbitrary: c) (simp_all add: line)
  then show ?thesis using assms line [OF assms(1)] by (simp add: report_error_def)
qed

section \<open>Properties\<close>

text \<open>
  The exit code tells how the command ended: zero exactly if the runtime started
  and the command returned without an error; one with a message on the error
  stream as the last thing otherwise.  The commands that only report leave the
  file system alone, start no other program and write nothing else to the error
  stream.
\<close>

theorem cli_exit_code:
  assumes "cli_main v runtime_error cmd w = (code, w1)" "con_ok (w_err w)" "read_only cmd"
  shows "code = Some 0 \<longleftrightarrow> runtime_error = None \<and> fst (cli_dispatch v cmd w) = Ended (Ok ())"
    and "code = Some 0 \<Longrightarrow> w_err w1 = w_err w"
    and "code = Some 1 \<Longrightarrow> \<exists>t. con_text (w_err w1) = con_text (w_err w) @ ''error: '' @ t"
    and "w_fs w1 = w_fs w" "w_systemctl w1 = w_systemctl w"
proof -
  obtain r w2 where d: "cli_dispatch v cmd w = (r, w2)" by fastforce
  note k = read_only_keeps [OF assms(3) d]
  show "code = Some 0 \<longleftrightarrow> runtime_error = None \<and> fst (cli_dispatch v cmd w) = Ended (Ok ())"
    and "code = Some 0 \<Longrightarrow> w_err w1 = w_err w" "w_fs w1 = w_fs w" "w_systemctl w1 = w_systemctl w"
    using assms(1) k by (auto simp: cli_main_def d split: option.splits cmd_end.splits sum.splits)
  have line: "\<exists>x. con_text (try_line (''error: '' @ t) (w_err w)) = con_text (w_err w) @ ''error: '' @ x" for t
    using assms(2) by (auto simp: try_line_def write_line_def write_str_def con_ok_def)
  have chained: "\<exists>x. con_text (report_error (cv_texts v) err (w_err w)) = con_text (w_err w) @ ''error: '' @ x" for err
    using report_error_text [OF assms(2), of "cv_texts v" err] by (cases "cmd_error_chain (cv_texts v) err") auto
  show "code = Some 1 \<Longrightarrow> \<exists>t. con_text (w_err w1) = con_text (w_err w) @ ''error: '' @ t"
    using assms(1) line [of "''failed to start tokio runtime: '' @ t" for t] chained k
    by (auto simp: cli_main_def d split: option.splits cmd_end.splits sum.splits)
qed

text \<open>
  Revoking an id that no bond has: the tool fails with a message that names the
  id and the command that lists the known ones, and neither the files nor the
  output change.
\<close>

theorem revoke_unknown_reported:
  assumes "bs_load (cv_toml v) (cv_blake3 v) (cv_sys v) (w_fs w) (bonds_path (ro_bond_dir opts)) = Ok store"
    and "bs_map store (ro_id opts) = None" "con_ok (w_err w)"
  shows "\<exists>c. cli_main v None (Cmd_Revoke opts) w = (Some 1, w\<lparr> w_err := c \<rparr>) \<and>
    con_text c = con_text (w_err w) @ ''error: no bond with id='' @ ro_id opts @
      '' (run '' @ code_text ''syauth list'' @ '' to see known ids)'' @ [NL]"
proof -
  let ?err = "Ce_Revoke (Rv_UnknownId (ro_id opts))"
  have "run_revoke (cv_toml v) (cv_blake3 v) (cv_sys v) opts (w_fs w, w_out w) = (Err (Rv_UnknownId (ro_id opts)), w_fs w, w_out w)"
    using assms(1,2) by (simp add: run_revoke_def Let_def apply_revoke_def lookup_status_map)
  then have "cli_main v None (Cmd_Revoke opts) w = (Some 1, w\<lparr> w_err := report_error (cv_texts v) ?err (w_err w) \<rparr>)"
    by (simp add: cli_main_def run_revoke_cli_def cmd_ended_def bond_panicked_def)
  moreover have "con_text (report_error (cv_texts v) ?err (w_err w)) = con_text (w_err w) @ ''error: no bond with id='' @ ro_id opts @
      '' (run '' @ code_text ''syauth list'' @ '' to see known ids)'' @ [NL]"
    using report_error_text [OF assms(3), of "cv_texts v" ?err] by (simp add: alone_def)
  ultimately show ?thesis by blast
qed

text \<open>
  An uninstallation without its backup: the tool fails, and running the
  installer afterwards, as the message says, reports success without having
  changed anything.
\<close>

theorem missing_backup_advice:
  assumes "pam_uninstall (cv_word v) (cv_sys v) (uo_pam_dir opts) (uo_service opts) (w_fs w) = (Err (Un_BackupMissing bak service), s')"
    and "con_ok (w_out w)" "con_ok (w_err w)" "io_pam_dir again = uo_pam_dir opts" "io_service again = uo_service opts"
    and "\<not> io_with_u2f_fallback again" "\<not> io_with_presenced again"
  shows "\<exists>c. cli_main v None (Cmd_UninstallPam opts) w = (Some 1, w\<lparr> w_err := c \<rparr>)"
    and "\<exists>c. cli_main v None (Cmd_InstallPam again) w = (Some 0, w\<lparr> w_out := c \<rparr>) \<and>
      con_text c = con_text (w_out w) @ ''syauth line already present in '' @ display_path service @ ''; no changes'' @ [NL]"
proof -
  note same = reinstall_makes_no_backup [OF assms(1) [folded assms(4,5)] assms(6)]
  have "run_uninstall (cv_word v) (cv_sys v) (uo_pam_dir opts) (uo_service opts) w = (Err (Cli_Uninstall (Un_BackupMissing bak service)), w)"
    using assms(1) same(1) by (simp add: run_uninstall_def and_then_def on_fs_def on_err_def)
  then show "\<exists>c. cli_main v None (Cmd_UninstallPam opts) w = (Some 1, w\<lparr> w_err := c \<rparr>)"
    by (simp add: cli_main_def install_ended_def cmd_ended_def bond_panicked_def, blast)
  obtain c where c: "write_line (''syauth line already present in '' @ display_path service @ ''; no changes'') (w_out w) = (Ok (), c)"
      "con_text c = con_text (w_out w) @ (''syauth line already present in '' @ display_path service @ ''; no changes'') @ [NL]"
    using write_line_ok [OF assms(2)] by blast
  then have "run_install (cv_word v) (cv_proc v) (cv_sys v) again w = (Ok (), w\<lparr> w_out := c \<rparr>)"
    using same(2) assms(7) by (simp add: run_install_def report_install_def and_then_def on_fs_def on_err_def on_out_def)
  then show "\<exists>c. cli_main v None (Cmd_InstallPam again) w = (Some 0, w\<lparr> w_out := c \<rparr>) \<and>
      con_text c = con_text (w_out w) @ ''syauth line already present in '' @ display_path service @ ''; no changes'' @ [NL]"
    using c(2) by (intro exI [of _ c]) (simp add: cli_main_def install_ended_def cmd_ended_def)
qed

end
