(* ===== verification/DaemonCli.thy ===== *)
theory DaemonCli
  imports Runtime Console
begin

text \<open>
  The command line of the daemon, \<open>syauth-presenced/src/main.rs\<close>: its options, the
  configuration made from them and from the environment, the writer that tags
  every log line, and the exit code of the process.  Option parsing is the
  library's; here the options are given.
\<close>

section \<open>Options\<close>

definition SYSLOG_TAG :: string where [const_defs]: "SYSLOG_TAG = ''syauth-presenced''"
definition XDG_RUNTIME_DIR_ENV :: string where [const_defs]: "XDG_RUNTIME_DIR_ENV = ''XDG_RUNTIME_DIR''"
definition DEFAULT_LOG_LEVEL :: string where [const_defs]: "DEFAULT_LOG_LEVEL = ''info''"
definition PERIPHERAL_REAL :: string where [const_defs]: "PERIPHERAL_REAL = ''real''"
definition PERIPHERAL_FAKE :: string where [const_defs]: "PERIPHERAL_FAKE = ''fake''"

record daemon_cli =
  dm_socket :: "path option"
  dm_bonds_file :: path
  dm_keys_dir :: path
  dm_audit_log :: path
  dm_log_level :: string
  dm_pidfile :: "path option"
  dm_peripheral :: string
  dm_inject_response :: "string list"
  dm_test_fixed_nonce :: "string option"

text \<open>The options when none is given.\<close>

definition daemon_cli_default :: daemon_cli where
  "daemon_cli_default =
     \<lparr> dm_socket = None, dm_bonds_file = DEFAULT_BONDS_FILE, dm_keys_dir = DEFAULT_KEYS_DIR, dm_audit_log = DEFAULT_AUDIT_LOG_PATH,
       dm_log_level = DEFAULT_LOG_LEVEL, dm_pidfile = None, dm_peripheral = PERIPHERAL_REAL, dm_inject_response = [],
       dm_test_fixed_nonce = None \<rparr>"

datatype config_error =
    Cfg_Peripheral string
  | Cfg_InjectFormat string
  | Cfg_InjectHex string
  | Cfg_NonceHex string
  | Cfg_NonceLength nat

section \<open>Configuration\<close>

text \<open>
  The environment variable is taken when it is set, valid text and not empty.
\<close>

definition resolve_runtime_dir :: "(string \<Rightarrow> string option) \<Rightarrow> nat \<Rightarrow> path" where
  "resolve_runtime_dir var euid =
     (case var XDG_RUNTIME_DIR_ENV of
        Some dir \<Rightarrow> if dir \<noteq> [] then path_components dir else [''run'', ''user'', show_nat euid]
      | None \<Rightarrow> [''run'', ''user'', show_nat euid])"

text \<open>\<open>str::split_once\<close> at the first colon.\<close>

fun split_once :: "char \<Rightarrow> string \<Rightarrow> (string \<times> string) option" where
  "split_once d [] = None"
| "split_once d (c # cs) = (if c = d then Some ([], cs) else map_option (map_prod (Cons c) id) (split_once d cs))"

text \<open>The decoder of hexadecimal text is the library's.\<close>

definition parse_inject_response :: "(string \<Rightarrow> bytes option) \<Rightarrow> string \<Rightarrow> config_error + string \<times> bytes" where
  "parse_inject_response hex_decode spec =
     (case split_once (CHR '':'') spec of
        None \<Rightarrow> Err (Cfg_InjectFormat spec)
      | Some (peer_id, hex_part) \<Rightarrow>
          (case hex_decode hex_part of
             None \<Rightarrow> Err (Cfg_InjectHex spec)
           | Some bs \<Rightarrow> Ok (peer_id, bs)))"

fun parse_inject_responses :: "(string \<Rightarrow> bytes option) \<Rightarrow> string list \<Rightarrow> config_error + (string \<times> bytes) list" where
  "parse_inject_responses hex_decode [] = Ok []"
| "parse_inject_responses hex_decode (spec # specs) =
     res_bind (parse_inject_response hex_decode spec) (\<lambda>r.
     res_bind (parse_inject_responses hex_decode specs) (\<lambda>rs. Ok (r # rs)))"

definition parse_fixed_nonce :: "(string \<Rightarrow> bytes option) \<Rightarrow> string option \<Rightarrow> config_error + bytes option" where
  "parse_fixed_nonce hex_decode nonce =
     (case nonce of
        None \<Rightarrow> Ok None
      | Some hex_str \<Rightarrow>
          (case hex_decode hex_str of
             None \<Rightarrow> Err (Cfg_NonceHex hex_str)
           | Some bs \<Rightarrow> if length bs = NONCE_LEN then Ok (Some bs) else Err (Cfg_NonceLength (length bs))))"

definition build_config :: "(string \<Rightarrow> bytes option) \<Rightarrow> (string \<Rightarrow> string option) \<Rightarrow> nat \<Rightarrow> daemon_cli \<Rightarrow> config_error + daemon_config" where
  "build_config hex_decode var euid cli =
     (let runtime_dir = resolve_runtime_dir var euid;
          socket_default = runtime_dir @ [PRESENCED_RUNTIME_SUBDIR, PRESENCED_SOCKET_BASENAME];
          pidfile_default = runtime_dir @ [PRESENCED_RUNTIME_SUBDIR, PIDFILE_BASENAME] in
      res_bind (if dm_peripheral cli = PERIPHERAL_REAL then Ok Pm_Real
                else if dm_peripheral cli = PERIPHERAL_FAKE then Ok Pm_Fake
                else Err (Cfg_Peripheral (dm_peripheral cli))) (\<lambda>peripheral_mode.
      res_bind (parse_inject_responses hex_decode (dm_inject_response cli)) (\<lambda>inject_responses.
      res_bind (parse_fixed_nonce hex_decode (dm_test_fixed_nonce cli)) (\<lambda>test_fixed_nonce.
      Ok \<lparr> dc_socket = (case dm_socket cli of Some p \<Rightarrow> p | None \<Rightarrow> socket_default),
           dc_bonds_file = dm_bonds_file cli, dc_keys_dir = dm_keys_dir cli, dc_audit_log_path = dm_audit_log cli,
           dc_pidfile = (case dm_pidfile cli of Some p \<Rightarrow> p | None \<Rightarrow> pidfile_default),
           dc_expected_uid = None, dc_peripheral_mode = peripheral_mode, dc_inject_responses = inject_responses,
           dc_test_fixed_nonce = test_fixed_nonce \<rparr>))))"

section \<open>Log lines\<close>

text \<open>\<open>TaggedWriter::write\<close>: the tag, then the text; on success all of the text counts as written.\<close>

definition tagged_write :: "string \<Rightarrow> console \<Rightarrow> (io_error + nat) \<times> console" where
  "tagged_write buf =
     and_then (write_str SYSLOG_TAG) (\<lambda>_. and_then (write_str '': '') (\<lambda>_. and_then (write_str buf) (\<lambda>_ c. (Ok (length buf), c))))"

section \<open>The process\<close>

text \<open>
  What can go wrong before the daemon runs: the log filter, the subscriber and
  the runtime.  The exit code is \<open>None\<close> while the daemon serves; a panic gives 101.
\<close>

record main_env =
  me_filter_ok :: "string \<Rightarrow> bool"
  me_subscriber_ok :: bool
  me_runtime_ok :: bool
  me_hex_decode :: "string \<Rightarrow> bytes option"
  me_var :: "string \<Rightarrow> string option"
  me_euid :: nat

definition init_tracing :: "main_env \<Rightarrow> string \<Rightarrow> bool" where
  "init_tracing m filter_text \<longleftrightarrow> me_filter_ok m filter_text \<and> me_subscriber_ok m"

definition EXIT_SUCCESS :: nat where [const_defs]: "EXIT_SUCCESS = 0"
definition EXIT_FAILURE :: nat where [const_defs]: "EXIT_FAILURE = 1"
definition EXIT_PANIC :: nat where [const_defs]: "EXIT_PANIC = 101"

definition daemon_main ::
    "crypto \<Rightarrow> toml_lib \<Rightarrow> main_env \<Rightarrow> run_env \<Rightarrow> nat \<Rightarrow> daemon_cli \<Rightarrow> pid_world \<times> fs \<Rightarrow> nat option \<times> pid_world \<times> fs" where
  "daemon_main C L m re pid cli ws =
     (if \<not> init_tracing m (dm_log_level cli) then (Some EXIT_FAILURE, ws)
      else case build_config (me_hex_decode m) (me_var m) (me_euid m) cli of
        Inl _ \<Rightarrow> (Some EXIT_FAILURE, ws)
      | Inr cfg \<Rightarrow>
          if \<not> me_runtime_ok m then (Some EXIT_FAILURE, ws)
          else case daemon_run C L re pid cfg ws of
            (Run_Done (Inr _), ws1) \<Rightarrow> (Some EXIT_SUCCESS, ws1)
          | (Run_Done (Inl _), ws1) \<Rightarrow> (Some EXIT_FAILURE, ws1)
          | (Run_Panicked, ws1) \<Rightarrow> (Some EXIT_PANIC, ws1)
          | (Run_Serving, ws1) \<Rightarrow> (None, ws1))"

section \<open>Lemmas\<close>

lemma split_once_iff: "split_once d s = Some (a, b) \<longleftrightarrow> s = a @ d # b \<and> d \<notin> set a"
proof (induction s arbitrary: a)
  case (Cons c cs)
  show ?case
  proof (cases a)
    case Nil
    then show ?thesis by auto
  next
    case (Cons x xs)
    then show ?thesis using Cons.IH [of xs] by (cases "split_once d cs") auto
  qed
qed simp

lemma parse_inject_responses_length: "parse_inject_responses h specs = Ok rs \<Longrightarrow> length rs = length specs"
  by (induction specs arbitrary: rs) (auto split: sum.splits)

text \<open>Without options the configuration is the one of \<open>Config::with_runtime_dir\<close>.\<close>

lemma build_config_default: "build_config h var euid daemon_cli_default = Ok (with_runtime_dir (resolve_runtime_dir var euid))"
  by (simp add: build_config_def daemon_cli_default_def with_runtime_dir_def parse_fixed_nonce_def Let_def PERIPHERAL_REAL_def)

text \<open>A configuration that is accepted has a nonce of the right length, if it has one, and never names a user.\<close>

lemma build_config_ok:
  assumes "build_config h var euid cli = Ok cfg"
  shows "dc_expected_uid cfg = None" "dc_test_fixed_nonce cfg = Some nonce \<Longrightarrow> length nonce = NONCE_LEN"
    "dc_socket cfg = (case dm_socket cli of Some p \<Rightarrow> p | None \<Rightarrow> resolve_runtime_dir var euid @ [''syauth'', ''auth.sock''])"
    "dm_peripheral cli = ''real'' \<longleftrightarrow> dc_peripheral_mode cfg = Pm_Real"
  using assms
  by (auto simp: build_config_def Let_def parse_fixed_nonce_def const_defs split: sum.splits if_splits option.splits)

lemma tagged_write_ok:
  assumes "con_ok c"
  shows "\<exists>c'. tagged_write buf c = (Ok (length buf), c') \<and> con_text c' = con_text c @ ''syauth-presenced: '' @ buf"
  using assms by (simp add: tagged_write_def and_then_def write_str_def con_ok_def SYSLOG_TAG_def)

end
