(* ===== verification/Secrets.thy ===== *)
theory Secrets
  imports Prelude
begin

text \<open>
  Secret storage, \<open>syauth-core/src/secrets.rs\<close>: the trait \<open>KeyStore\<close> with its three
  implementations, and the detection of a working one.  The kernel keyring and
  the Secret Service are parameters: records of the calls the code makes.
\<close>

section \<open>Constants and errors\<close>

definition KEYRING_ID_PREFIX :: string where [const_defs]: "KEYRING_ID_PREFIX = ''syauth:''"
definition SECRET_SERVICE_COLLECTION :: string where [const_defs]: "SECRET_SERVICE_COLLECTION = ''syauth''"
definition SECRET_SERVICE_ATTR_KIND :: string where [const_defs]: "SECRET_SERVICE_ATTR_KIND = ''kind''"
definition SECRET_SERVICE_ATTR_KIND_VALUE :: string where [const_defs]: "SECRET_SERVICE_ATTR_KIND_VALUE = ''syauth-bond''"
definition SECRET_SERVICE_ATTR_ID :: string where [const_defs]: "SECRET_SERVICE_ATTR_ID = ''id''"
definition SECRET_SERVICE_CONTENT_TYPE :: string where [const_defs]: "SECRET_SERVICE_CONTENT_TYPE = ''application/octet-stream''"
definition LOG_LINE_KERNEL :: string where [const_defs]: "LOG_LINE_KERNEL = ''syauth: using kernel keyring backend''"
definition LOG_LINE_SECRET_SERVICE :: string where
  [const_defs]: "LOG_LINE_SECRET_SERVICE = ''syauth: using libsecret (secret-service) backend''"
definition PROBE_DESCRIPTION :: string where [const_defs]: "PROBE_DESCRIPTION = ''syauth:__probe__''"

datatype backend_kind = Bk_Kernel | Bk_SecretService | Bk_InMemory

datatype secret_error = SecretBackend string | SecretNotImplemented

text \<open>The trait: its three methods over a state.\<close>

record 's key_store_ops =
  ks_put :: "string \<Rightarrow> bytes \<Rightarrow> 's \<Rightarrow> (secret_error + unit) \<times> 's"
  ks_get :: "string \<Rightarrow> 's \<Rightarrow> secret_error + bytes option"
  ks_remove :: "string \<Rightarrow> 's \<Rightarrow> (secret_error + unit) \<times> 's"

section \<open>The store in memory\<close>

text \<open>The map behind its lock; \<open>im_poisoned\<close> is the message of a poisoned one.\<close>

record in_memory =
  im_inner :: "string \<rightharpoonup> bytes"
  im_poisoned :: "string option"

definition in_memory_new :: in_memory where
  "in_memory_new = \<lparr> im_inner = Map.empty, im_poisoned = None \<rparr>"

definition im_lock :: "in_memory \<Rightarrow> secret_error + unit" where
  "im_lock s = (case im_poisoned s of None \<Rightarrow> Ok () | Some err \<Rightarrow> Err (SecretBackend (''in-memory store mutex poisoned: '' @ err)))"

definition im_put :: "string \<Rightarrow> bytes \<Rightarrow> in_memory \<Rightarrow> (secret_error + unit) \<times> in_memory" where
  "im_put i secret s = (case im_lock s of Inl err \<Rightarrow> (Err err, s) | Inr _ \<Rightarrow> (Ok (), s\<lparr> im_inner := (im_inner s)(i \<mapsto> secret) \<rparr>))"

definition im_get :: "string \<Rightarrow> in_memory \<Rightarrow> secret_error + bytes option" where
  "im_get i s = res_bind (im_lock s) (\<lambda>_. Ok (im_inner s i))"

definition im_remove :: "string \<Rightarrow> in_memory \<Rightarrow> (secret_error + unit) \<times> in_memory" where
  "im_remove i s = (case im_lock s of Inl err \<Rightarrow> (Err err, s) | Inr _ \<Rightarrow> (Ok (), s\<lparr> im_inner := (im_inner s)(i := None) \<rparr>))"

definition in_memory_ops :: "in_memory key_store_ops" where
  "in_memory_ops = \<lparr> ks_put = im_put, ks_get = im_get, ks_remove = im_remove \<rparr>"

section \<open>The kernel keyring\<close>

datatype key_error = KeyDoesNotExist | KeyRevoked | KeyExpired | OtherKeyError string

text \<open>The calls of \<open>linux_keyutils\<close>: the session keyring, and keys named by serial numbers.\<close>

record 'k keyutils =
  ku_session :: "'k \<Rightarrow> key_error + unit"
  ku_add :: "string \<Rightarrow> bytes \<Rightarrow> 'k \<Rightarrow> (key_error + unit) \<times> 'k"
  ku_search :: "string \<Rightarrow> 'k \<Rightarrow> key_error + nat"
  ku_read :: "nat \<Rightarrow> 'k \<Rightarrow> key_error + bytes"
  ku_invalidate :: "nat \<Rightarrow> 'k \<Rightarrow> (key_error + unit) \<times> 'k"
  ku_show :: "key_error \<Rightarrow> string"

definition description_for :: "string \<Rightarrow> string" where
  "description_for i = KEYRING_ID_PREFIX @ i"

definition map_key_error :: "'k keyutils \<Rightarrow> key_error \<Rightarrow> secret_error" where
  "map_key_error K err = SecretBackend (''kernel keyring: '' @ ku_show K err)"

text \<open>The three errors the code reads as absence.\<close>

fun key_gone :: "key_error \<Rightarrow> bool" where
  "key_gone KeyDoesNotExist = True"
| "key_gone KeyRevoked = True"
| "key_gone KeyExpired = True"
| "key_gone (OtherKeyError _) = False"

definition kernel_open :: "'k keyutils \<Rightarrow> 'k \<Rightarrow> secret_error + unit" where
  "kernel_open K s = map_err (map_key_error K) (ku_session K s)"

definition kernel_probe :: "'k keyutils \<Rightarrow> 'k \<Rightarrow> bool" where
  "kernel_probe K s =
     (case ku_session K s of
        Inl _ \<Rightarrow> False
      | Inr _ \<Rightarrow> (case ku_search K PROBE_DESCRIPTION s of Inl KeyDoesNotExist \<Rightarrow> True | Inl _ \<Rightarrow> False | Inr _ \<Rightarrow> True))"

definition kernel_put :: "'k keyutils \<Rightarrow> string \<Rightarrow> bytes \<Rightarrow> 'k \<Rightarrow> (secret_error + unit) \<times> 'k" where
  "kernel_put K i secret s = (case ku_add K (description_for i) secret s of (r, s1) \<Rightarrow> (map_err (map_key_error K) r, s1))"

definition kernel_get :: "'k keyutils \<Rightarrow> string \<Rightarrow> 'k \<Rightarrow> secret_error + bytes option" where
  "kernel_get K i s =
     (case ku_search K (description_for i) s of
        Inr key \<Rightarrow>
          (case ku_read K key s of
             Inr raw \<Rightarrow> Ok (Some raw)
           | Inl err \<Rightarrow> if key_gone err then Ok None else Err (map_key_error K err))
      | Inl err \<Rightarrow> if key_gone err then Ok None else Err (map_key_error K err))"

definition kernel_remove :: "'k keyutils \<Rightarrow> string \<Rightarrow> 'k \<Rightarrow> (secret_error + unit) \<times> 'k" where
  "kernel_remove K i s =
     (case ku_search K (description_for i) s of
        Inr key \<Rightarrow>
          (case ku_invalidate K key s of
             (Inr _, s1) \<Rightarrow> (Ok (), s1)
           | (Inl err, s1) \<Rightarrow> (if key_gone err then Ok () else Err (map_key_error K err), s1))
      | Inl err \<Rightarrow> (if key_gone err then Ok () else Err (map_key_error K err), s))"

definition kernel_ops :: "'k keyutils \<Rightarrow> 'k key_store_ops" where
  "kernel_ops K = \<lparr> ks_put = kernel_put K, ks_get = kernel_get K, ks_remove = kernel_remove K \<rparr>"

section \<open>The Secret Service\<close>

text \<open>The calls of the \<open>secret_service\<close> crate; an item is named by a handle.\<close>

type_synonym attributes = "string \<rightharpoonup> string"

record 'c ss_client =
  ss_connect :: "'c \<Rightarrow> string + unit"
  ss_default :: "'c \<Rightarrow> string + unit"
  ss_create :: "string \<Rightarrow> attributes \<Rightarrow> bytes \<Rightarrow> bool \<Rightarrow> string \<Rightarrow> 'c \<Rightarrow> (string + unit) \<times> 'c"
  ss_search :: "attributes \<Rightarrow> 'c \<Rightarrow> string + nat list"
  ss_secret :: "nat \<Rightarrow> 'c \<Rightarrow> string + bytes"
  ss_delete :: "nat \<Rightarrow> 'c \<Rightarrow> (string + unit) \<times> 'c"

definition map_ss_error :: "string \<Rightarrow> secret_error" where
  "map_ss_error err = SecretBackend (''libsecret: '' @ err)"

definition service_probe :: "'c ss_client \<Rightarrow> 'c \<Rightarrow> bool" where
  "service_probe S c = (case ss_connect S c of Inl _ \<Rightarrow> False | Inr _ \<Rightarrow> \<not> isl (ss_default S c))"

definition attributes_for :: "string \<Rightarrow> attributes" where
  "attributes_for i = [SECRET_SERVICE_ATTR_KIND \<mapsto> SECRET_SERVICE_ATTR_KIND_VALUE, SECRET_SERVICE_ATTR_ID \<mapsto> i]"

definition open_collection :: "'c ss_client \<Rightarrow> 'c \<Rightarrow> secret_error + unit" where
  "open_collection S c = map_err map_ss_error (ss_default S c)"

text \<open>The first two lines of each method.\<close>

definition service_session :: "'c ss_client \<Rightarrow> 'c \<Rightarrow> secret_error + unit" where
  "service_session S c = res_bind (map_err map_ss_error (ss_connect S c)) (\<lambda>_. open_collection S c)"

definition service_put :: "'c ss_client \<Rightarrow> string \<Rightarrow> bytes \<Rightarrow> 'c \<Rightarrow> (secret_error + unit) \<times> 'c" where
  "service_put S i secret c =
     (case service_session S c of
        Inl err \<Rightarrow> (Err err, c)
      | Inr _ \<Rightarrow>
          (case ss_create S (SECRET_SERVICE_COLLECTION @ '': '' @ i) (attributes_for i) secret True SECRET_SERVICE_CONTENT_TYPE c of
             (r, c1) \<Rightarrow> (map_err map_ss_error r, c1)))"

definition service_get :: "'c ss_client \<Rightarrow> string \<Rightarrow> 'c \<Rightarrow> secret_error + bytes option" where
  "service_get S i c =
     res_bind (service_session S c) (\<lambda>_.
     res_bind (map_err map_ss_error (ss_search S (attributes_for i) c)) (\<lambda>items.
       case items of
         [] \<Rightarrow> Ok None
       | item # _ \<Rightarrow> res_bind (map_err map_ss_error (ss_secret S item c)) (\<lambda>raw. Ok (Some raw))))"

fun delete_items :: "'c ss_client \<Rightarrow> nat list \<Rightarrow> 'c \<Rightarrow> (secret_error + unit) \<times> 'c" where
  "delete_items S [] c = (Ok (), c)"
| "delete_items S (item # items) c =
     (case ss_delete S item c of
        (Inl err, c1) \<Rightarrow> (Err (map_ss_error err), c1)
      | (Inr _, c1) \<Rightarrow> delete_items S items c1)"

definition service_remove :: "'c ss_client \<Rightarrow> string \<Rightarrow> 'c \<Rightarrow> (secret_error + unit) \<times> 'c" where
  "service_remove S i c =
     (case res_bind (service_session S c) (\<lambda>_. map_err map_ss_error (ss_search S (attributes_for i) c)) of
        Inl err \<Rightarrow> (Err err, c)
      | Inr items \<Rightarrow> delete_items S items c)"

definition service_ops :: "'c ss_client \<Rightarrow> 'c key_store_ops" where
  "service_ops S = \<lparr> ks_put = service_put S, ks_get = service_get S, ks_remove = service_remove S \<rparr>"

section \<open>Detection\<close>

text \<open>The kind of the store chosen, and what was logged.\<close>

definition detect_with_logger :: "'k keyutils \<Rightarrow> 'c ss_client \<Rightarrow> 'k \<Rightarrow> 'c \<Rightarrow> (secret_error + backend_kind) \<times> string list" where
  "detect_with_logger K S k c =
     (if kernel_probe K k
      then case kernel_open K k of Inl err \<Rightarrow> (Err err, []) | Inr _ \<Rightarrow> (Ok Bk_Kernel, [LOG_LINE_KERNEL])
      else if service_probe S c then (Ok Bk_SecretService, [LOG_LINE_SECRET_SERVICE])
      else (Err SecretNotImplemented, []))"

text \<open>The boxed store: the methods of the kind chosen, over the states of both services.\<close>

definition on_fst :: "('a \<Rightarrow> 'r \<times> 'a) \<Rightarrow> 'a \<times> 'b \<Rightarrow> 'r \<times> 'a \<times> 'b" where
  "on_fst f w = (case f (fst w) of (r, a) \<Rightarrow> (r, a, snd w))"

definition on_snd :: "('b \<Rightarrow> 'r \<times> 'b) \<Rightarrow> 'a \<times> 'b \<Rightarrow> 'r \<times> 'a \<times> 'b" where
  "on_snd f w = (case f (snd w) of (r, b) \<Rightarrow> (r, fst w, b))"

definition boxed :: "'k keyutils \<Rightarrow> 'c ss_client \<Rightarrow> backend_kind \<Rightarrow> ('k \<times> 'c) key_store_ops" where
  "boxed K S kind =
     (if kind = Bk_Kernel
      then \<lparr> ks_put = (\<lambda>i v. on_fst (kernel_put K i v)), ks_get = (\<lambda>i w. kernel_get K i (fst w)), ks_remove = (\<lambda>i. on_fst (kernel_remove K i)) \<rparr>
      else \<lparr> ks_put = (\<lambda>i v. on_snd (service_put S i v)), ks_get = (\<lambda>i w. service_get S i (snd w)), ks_remove = (\<lambda>i. on_snd (service_remove S i)) \<rparr>)"

section \<open>The contract of a key store\<close>

text \<open>
  The contract of the trait: what a store holds is a map \<open>view\<close> from ids to
  secrets; \<open>put\<close> overwrites, \<open>get\<close> answers \<open>None\<close> for an unknown id, \<open>remove\<close> may be
  repeated, and no call, failing or not, touches another id.
\<close>

locale key_store =
  fixes B :: "'s key_store_ops" and view :: "'s \<Rightarrow> string \<rightharpoonup> bytes" and inv :: "'s \<Rightarrow> bool"
  assumes put_inv: "inv s \<Longrightarrow> ks_put B i v s = (r, s1) \<Longrightarrow> inv s1"
    and put_view: "inv s \<Longrightarrow> ks_put B i v s = (Ok u, s1) \<Longrightarrow> view s1 = (view s)(i \<mapsto> v)"
    and put_frame: "inv s \<Longrightarrow> ks_put B i v s = (r, s1) \<Longrightarrow> j \<noteq> i \<Longrightarrow> view s1 j = view s j"
    and get_view: "inv s \<Longrightarrow> ks_get B i s = Ok x \<Longrightarrow> x = view s i"
    and remove_inv: "inv s \<Longrightarrow> ks_remove B i s = (r, s1) \<Longrightarrow> inv s1"
    and remove_view: "inv s \<Longrightarrow> ks_remove B i s = (Ok u, s1) \<Longrightarrow> view s1 = (view s)(i := None)"
    and remove_frame: "inv s \<Longrightarrow> ks_remove B i s = (r, s1) \<Longrightarrow> j \<noteq> i \<Longrightarrow> view s1 j = view s j"
begin

lemma get_after_put: "inv s \<Longrightarrow> ks_put B i v s = (Ok u, s1) \<Longrightarrow> ks_get B i s1 = Ok x \<Longrightarrow> x = Some v"
  by (metis put_inv put_view get_view fun_upd_same)

lemma get_after_remove: "inv s \<Longrightarrow> ks_remove B i s = (Ok u, s1) \<Longrightarrow> ks_get B i s1 = Ok x \<Longrightarrow> x = None"
  by (metis remove_inv remove_view get_view fun_upd_same)

lemma remove_twice: "inv s \<Longrightarrow> ks_remove B i s = (Ok u, s1) \<Longrightarrow> ks_remove B i s1 = (Ok u', s2) \<Longrightarrow> view s2 = view s1"
  by (metis remove_inv remove_view fun_upd_upd)

end

text \<open>Sequences of calls, with what each reports, and the same calls on a map.\<close>

datatype store_call = Put string bytes | Get string | Remove string
datatype store_answer = Done | Found "bytes option" | Failed

fun run_call :: "'s key_store_ops \<Rightarrow> store_call \<Rightarrow> 's \<Rightarrow> store_answer \<times> 's" where
  "run_call B (Put i v) s = (case ks_put B i v s of (r, s1) \<Rightarrow> (if isl r then Failed else Done, s1))"
| "run_call B (Get i) s = (case ks_get B i s of Inl _ \<Rightarrow> Failed | Inr x \<Rightarrow> Found x, s)"
| "run_call B (Remove i) s = (case ks_remove B i s of (r, s1) \<Rightarrow> (if isl r then Failed else Done, s1))"

fun run_calls :: "'s key_store_ops \<Rightarrow> store_call list \<Rightarrow> 's \<Rightarrow> store_answer list \<times> 's" where
  "run_calls B [] s = ([], s)"
| "run_calls B (c # cs) s = (case run_call B c s of (a, s1) \<Rightarrow> case run_calls B cs s1 of (as, s2) \<Rightarrow> (a # as, s2))"

fun map_call :: "store_call \<Rightarrow> (string \<rightharpoonup> bytes) \<Rightarrow> store_answer \<times> (string \<rightharpoonup> bytes)" where
  "map_call (Put i v) m = (Done, m(i \<mapsto> v))"
| "map_call (Get i) m = (Found (m i), m)"
| "map_call (Remove i) m = (Done, m(i := None))"

fun map_calls :: "store_call list \<Rightarrow> (string \<rightharpoonup> bytes) \<Rightarrow> store_answer list \<times> (string \<rightharpoonup> bytes)" where
  "map_calls [] m = ([], m)"
| "map_calls (c # cs) m = (case map_call c m of (a, m1) \<Rightarrow> case map_calls cs m1 of (as, m2) \<Rightarrow> (a # as, m2))"

fun call_id :: "store_call \<Rightarrow> string" where
  "call_id (Put i v) = i"
| "call_id (Get i) = i"
| "call_id (Remove i) = i"

context key_store begin

lemma run_call_refines:
  assumes "inv s" "run_call B c s = (a, s1)"
  shows "inv s1 \<and> (a \<noteq> Failed \<longrightarrow> map_call c (view s) = (a, view s1)) \<and> (\<forall>j. j \<noteq> call_id c \<longrightarrow> view s1 j = view s j)"
proof (cases c)
  case (Put i v)
  obtain r s' where p: "ks_put B i v s = (r, s')" by fastforce
  then show ?thesis using assms Put put_inv [OF assms(1) p] put_frame [OF assms(1) p] put_view [OF assms(1), of i v]
    by (cases r) auto
next
  case (Get i)
  then show ?thesis using assms get_view [OF assms(1), of i] by (auto split: sum.splits)
next
  case (Remove i)
  obtain r s' where p: "ks_remove B i s = (r, s')" by fastforce
  then show ?thesis using assms Remove remove_inv [OF assms(1) p] remove_frame [OF assms(1) p] remove_view [OF assms(1), of i]
    by (cases r) auto
qed

lemma run_calls_refines:
  assumes "inv s" "run_calls B cs s = (as, s1)" "Failed \<notin> set as"
  shows "inv s1 \<and> map_calls cs (view s) = (as, view s1)"
  using assms
proof (induction cs arbitrary: s as)
  case (Cons c cs)
  obtain a s2 bs where c: "run_call B c s = (a, s2)" "run_calls B cs s2 = (bs, s1)" "as = a # bs"
    using Cons.prems(2) by (auto split: prod.splits)
  then show ?case using run_call_refines [OF Cons.prems(1) c(1)] Cons.IH [of s2 bs] Cons.prems(3) by auto
qed simp

lemma run_calls_frame:
  assumes "inv s" "run_calls B cs s = (as, s1)" "j \<notin> call_id ` set cs"
  shows "view s1 j = view s j"
  using assms
proof (induction cs arbitrary: s as)
  case (Cons c cs)
  obtain a s2 bs where c: "run_call B c s = (a, s2)" "run_calls B cs s2 = (bs, s1)"
    using Cons.prems(2) by (auto split: prod.splits)
  then show ?case using run_call_refines [OF Cons.prems(1) c(1)] Cons.IH [of s2 bs] Cons.prems(3) by auto
qed simp

end

interpretation memory_store: key_store in_memory_ops im_inner "\<lambda>_. True"
  by unfold_locales (auto simp: in_memory_ops_def im_put_def im_get_def im_remove_def im_lock_def split: option.splits sum.splits)

section \<open>The kernel keyring keeps the contract\<close>

text \<open>
  What the code relies on of the keyring, with \<open>held s\<close> the live keys by
  description: \<open>add_key\<close> stores or updates, a search that finds a key finds the one
  of that description, a key reported as gone is not held, and invalidating a
  found key removes it.  A call that fails in another way changes nothing.
\<close>

definition keyring_ok :: "'k keyutils \<Rightarrow> ('k \<Rightarrow> string \<rightharpoonup> bytes) \<Rightarrow> bool" where
  "keyring_ok K held \<longleftrightarrow>
     (\<forall>d v s r s1. ku_add K d v s = (r, s1) \<longrightarrow> held s1 = (if isl r then held s else (held s)(d \<mapsto> v))) \<and>
     (\<forall>d s err. ku_search K d s = Err err \<longrightarrow> key_gone err \<longrightarrow> held s d = None) \<and>
     (\<forall>d s key v. ku_search K d s = Ok key \<longrightarrow> ku_read K key s = Ok v \<longrightarrow> held s d = Some v) \<and>
     (\<forall>d s key err. ku_search K d s = Ok key \<longrightarrow> ku_read K key s = Err err \<longrightarrow> key_gone err \<longrightarrow> held s d = None) \<and>
     (\<forall>d s key r s1. ku_search K d s = Ok key \<longrightarrow> ku_invalidate K key s = (r, s1) \<longrightarrow>
        held s1 = (case r of Inr _ \<Rightarrow> (held s)(d := None) | Inl err \<Rightarrow> if key_gone err then (held s)(d := None) else held s))"

definition kernel_view :: "('k \<Rightarrow> string \<rightharpoonup> bytes) \<Rightarrow> 'k \<Rightarrow> string \<rightharpoonup> bytes" where
  "kernel_view held s i = held s (description_for i)"

lemma description_for_inj [simp]: "description_for i = description_for j \<longleftrightarrow> i = j"
  by (simp add: description_for_def)

lemma keyring_okD:
  assumes "keyring_ok K held"
  shows "ku_add K d v s = (r, s1) \<Longrightarrow> held s1 = (if isl r then held s else (held s)(d \<mapsto> v))"
    and "ku_search K d s = Err err \<Longrightarrow> key_gone err \<Longrightarrow> held s d = None"
    and "ku_search K d s = Ok key \<Longrightarrow> ku_read K key s = Ok v \<Longrightarrow> held s d = Some v"
    and "ku_search K d s = Ok key \<Longrightarrow> ku_read K key s = Err err \<Longrightarrow> key_gone err \<Longrightarrow> held s d = None"
    and "ku_search K d s = Ok key \<Longrightarrow> ku_invalidate K key s = (r, s1) \<Longrightarrow>
        held s1 = (case r of Inr _ \<Rightarrow> (held s)(d := None) | Inl err \<Rightarrow> if key_gone err then (held s)(d := None) else held s)"
  using assms unfolding keyring_ok_def by simp_all

lemma kernel_put_held:
  assumes "keyring_ok K held" "kernel_put K i v s = (r, s1)"
  shows "held s1 = (if isl r then held s else (held s)(description_for i \<mapsto> v))"
proof -
  obtain r0 where r0: "ku_add K (description_for i) v s = (r0, s1)" "r = map_err (map_key_error K) r0"
    using assms(2) by (auto simp: kernel_put_def split: prod.splits)
  then have "held s1 = (if isl r0 then held s else (held s)(description_for i \<mapsto> v))"
    by (intro keyring_okD(1) [OF assms(1)])
  then show ?thesis using r0(2) by (cases r0) auto
qed

lemma kernel_get_held:
  assumes "keyring_ok K held" "kernel_get K i s = Ok x"
  shows "x = held s (description_for i)"
  using assms(2) keyring_okD(2-4) [OF assms(1)] by (auto simp: kernel_get_def split: sum.splits if_splits)

lemma kernel_remove_held:
  assumes "keyring_ok K held" "kernel_remove K i s = (r, s1)"
  shows "held s1 = (if isl r then held s else (held s)(description_for i := None))"
proof (cases "ku_search K (description_for i) s")
  case (Inl err)
  have "key_gone err \<longrightarrow> held s (description_for i) = None" using keyring_okD(2) [OF assms(1) Inl] by blast
  then show ?thesis using assms(2) Inl by (auto simp: kernel_remove_def fun_upd_idem split: if_splits)
next
  case (Inr key)
  obtain r0 s' where r0: "ku_invalidate K key s = (r0, s')" by fastforce
  have "held s' = (case r0 of Inr _ \<Rightarrow> (held s)(description_for i := None) | Inl err \<Rightarrow> if key_gone err then (held s)(description_for i := None) else held s)"
    by (rule keyring_okD(5) [OF assms(1) Inr r0])
  then show ?thesis using assms(2) Inr r0 by (cases r0) (auto simp: kernel_remove_def split: if_splits)
qed

interpretation kernel_store: key_store "kernel_ops K" "kernel_view held" "\<lambda>_. keyring_ok K held" for K held
proof unfold_locales
  fix s i j v r s1 and u :: unit and x
  assume ok: "keyring_ok K held"
  { assume "ks_put (kernel_ops K) i v s = (r, s1)"
    then have h: "held s1 = (if isl r then held s else (held s)(description_for i \<mapsto> v))"
      using kernel_put_held [OF ok] by (simp add: kernel_ops_def)
    show "keyring_ok K held" by (rule ok)
    show "j \<noteq> i \<Longrightarrow> kernel_view held s1 j = kernel_view held s j" using h by (simp add: kernel_view_def) }
  show "ks_put (kernel_ops K) i v s = (Ok u, s1) \<Longrightarrow> kernel_view held s1 = (kernel_view held s)(i \<mapsto> v)"
    using kernel_put_held [OF ok, of i v s "Ok u" s1] by (auto simp: kernel_ops_def kernel_view_def fun_eq_iff)
  show "ks_get (kernel_ops K) i s = Ok x \<Longrightarrow> x = kernel_view held s i"
    using kernel_get_held [OF ok] by (simp add: kernel_ops_def kernel_view_def)
  show "keyring_ok K held" by (rule ok)
  show "ks_remove (kernel_ops K) i s = (Ok u, s1) \<Longrightarrow> kernel_view held s1 = (kernel_view held s)(i := None)"
    using kernel_remove_held [OF ok, of i s "Ok u" s1] by (auto simp: kernel_ops_def kernel_view_def fun_eq_iff)
  show "ks_remove (kernel_ops K) i s = (r, s1) \<Longrightarrow> j \<noteq> i \<Longrightarrow> kernel_view held s1 j = kernel_view held s j"
    using kernel_remove_held [OF ok] by (simp add: kernel_ops_def kernel_view_def)
qed

section \<open>The Secret Service keeps the contract\<close>

text \<open>
  What the code relies on of the service, with \<open>content c\<close> the items of the default
  collection as handle, attributes and secret: a search finds the items whose
  attributes include the wanted ones, in order; deletion deletes the item; and
  creation with replacement gives the items of exactly these attributes the
  secret, or makes a new item.  A call that fails may have taken effect or not, as
  when the reply is lost.
\<close>

type_synonym item = "nat \<times> attributes \<times> bytes"

definition stored :: "attributes \<Rightarrow> bytes \<Rightarrow> item list \<Rightarrow> item list \<Rightarrow> bool" where
  "stored a v its its1 \<longleftrightarrow>
     (if \<exists>it \<in> set its. fst (snd it) = a
      then its1 = map (\<lambda>(h, at, x). (h, at, if at = a then v else x)) its
      else \<exists>h. h \<notin> fst ` set its \<and> its1 = its @ [(h, a, v)])"

definition service_ok :: "'c ss_client \<Rightarrow> ('c \<Rightarrow> item list) \<Rightarrow> bool" where
  "service_ok S content \<longleftrightarrow>
     (\<forall>a c hs. ss_search S a c = Ok hs \<longrightarrow> hs = map fst (filter (\<lambda>it. a \<subseteq>\<^sub>m fst (snd it)) (content c))) \<and>
     (\<forall>h c v. ss_secret S h c = Ok v \<longrightarrow> map_of (map (\<lambda>(h, at, x). (h, x)) (content c)) h = Some v) \<and>
     (\<forall>h c r c1. ss_delete S h c = (r, c1) \<longrightarrow> content c1 = filter (\<lambda>it. fst it \<noteq> h) (content c) \<or> isl r \<and> content c1 = content c) \<and>
     (\<forall>l a v t c r c1. ss_create S l a v True t c = (r, c1) \<longrightarrow> stored a v (content c) (content c1) \<or> isl r \<and> content c1 = content c)"

text \<open>
  No two items share a handle, and nobody else stores items with syauth's kind
  and id and further attributes.
\<close>

definition service_inv :: "item list \<Rightarrow> bool" where
  "service_inv its \<longleftrightarrow> distinct (map fst its) \<and> (\<forall>it \<in> set its. \<forall>i. attributes_for i \<subseteq>\<^sub>m fst (snd it) \<longrightarrow> fst (snd it) = attributes_for i)"

definition items_view :: "item list \<Rightarrow> string \<rightharpoonup> bytes" where
  "items_view its i = (case filter (\<lambda>it. attributes_for i \<subseteq>\<^sub>m fst (snd it)) its of [] \<Rightarrow> None | it # _ \<Rightarrow> Some (snd (snd it)))"

lemma attributes_for_le [simp]: "attributes_for i \<subseteq>\<^sub>m attributes_for j \<longleftrightarrow> i = j"
proof
  assume "attributes_for i \<subseteq>\<^sub>m attributes_for j"
  then have "attributes_for i SECRET_SERVICE_ATTR_ID = attributes_for j SECRET_SERVICE_ATTR_ID"
    unfolding map_le_def by (rule bspec) (simp add: attributes_for_def)
  then show "i = j" by (simp add: attributes_for_def)
qed simp

lemma attributes_for_inj [simp]: "attributes_for i = attributes_for j \<longleftrightarrow> i = j"
  by (metis attributes_for_le)

lemma service_inv_mine:
  "service_inv its \<Longrightarrow> it \<in> set its \<Longrightarrow> attributes_for i \<subseteq>\<^sub>m fst (snd it) \<longleftrightarrow> fst (snd it) = attributes_for i"
  by (auto simp: service_inv_def)

lemma items_view_eq:
  assumes "service_inv its"
  shows "items_view its i = (case filter (\<lambda>it. fst (snd it) = attributes_for i) its of [] \<Rightarrow> None | it # _ \<Rightarrow> Some (snd (snd it)))"
  unfolding items_view_def using service_inv_mine [OF assms] by (simp cong: filter_cong)

lemma service_okD:
  assumes "service_ok S content"
  shows "ss_search S a c = Ok hs \<Longrightarrow> hs = map fst (filter (\<lambda>it. a \<subseteq>\<^sub>m fst (snd it)) (content c))"
    and "ss_secret S h c = Ok v \<Longrightarrow> map_of (map (\<lambda>(h, at, x). (h, x)) (content c)) h = Some v"
    and "ss_delete S h c = (r, c1) \<Longrightarrow> content c1 = filter (\<lambda>it. fst it \<noteq> h) (content c) \<or> isl r \<and> content c1 = content c"
    and "ss_create S l a v True t c = (r, c1) \<Longrightarrow> stored a v (content c) (content c1) \<or> isl r \<and> content c1 = content c"
  using assms unfolding service_ok_def by simp_all

lemma stored_inv:
  assumes "service_inv its" "stored (attributes_for i) v its its1"
  shows "service_inv its1"
  using assms by (auto simp: service_inv_def stored_def split_def o_def split: if_splits)

lemma stored_view:
  assumes "service_inv its" "stored (attributes_for i) v its its1"
  shows "items_view its1 = (items_view its)(i \<mapsto> v)"
proof
  fix j
  let ?up = "\<lambda>it :: item. (fst it, fst (snd it), if fst (snd it) = attributes_for i then v else snd (snd it))"
  note eq = items_view_eq [OF assms(1), of j] items_view_eq [OF stored_inv [OF assms], of j]
  show "items_view its1 j = ((items_view its)(i \<mapsto> v)) j"
  proof (cases "\<exists>it \<in> set its. fst (snd it) = attributes_for i")
    case True
    then have m: "its1 = map ?up its" using assms(2) by (simp add: stored_def split_def)
    have f: "filter (\<lambda>it. fst (snd it) = attributes_for j) its1 = map ?up (filter (\<lambda>it. fst (snd it) = attributes_for j) its)"
      unfolding m by (simp add: filter_map o_def)
    show ?thesis
    proof (cases "j = i")
      case True
      obtain it rest where "filter (\<lambda>it. fst (snd it) = attributes_for i) its = it # rest" "fst (snd it) = attributes_for i"
        using \<open>\<exists>it \<in> set its. _\<close> by (metis (mono_tags, lifting) empty_filter_conv filter_eq_Cons_iff list.exhaust)
      then show ?thesis using eq(2) f True by simp
    next
      case False
      have "map ?up (filter (\<lambda>it. fst (snd it) = attributes_for j) its) = filter (\<lambda>it. fst (snd it) = attributes_for j) its"
        using False by (intro map_idI) auto
      then show ?thesis using eq f False by simp
    qed
  next
    case False
    then obtain h where m: "its1 = its @ [(h, attributes_for i, v)]" using assms(2) by (auto simp: stored_def)
    have "filter (\<lambda>it. fst (snd it) = attributes_for i) its = []" using False by (simp add: filter_empty_conv)
    then show ?thesis using eq unfolding m by (cases "j = i") auto
  qed
qed

lemma delete_items_content:
  assumes "service_ok S content"
  shows "delete_items S hs c = (r, c1) \<Longrightarrow>
    \<exists>gone. gone \<subseteq> set hs \<and> content c1 = filter (\<lambda>it. fst it \<notin> gone) (content c) \<and> (\<not> isl r \<longrightarrow> gone = set hs)"
proof (induction hs arbitrary: c)
  case (Cons h hs)
  obtain r0 c0 where d: "ss_delete S h c = (r0, c0)" by fastforce
  show ?case
  proof (cases r0)
    case (Inl err)
    then have r: "isl r" "c1 = c0" using Cons.prems d by auto
    from service_okD(3) [OF assms d] show ?thesis
    proof
      assume "content c0 = filter (\<lambda>it. fst it \<noteq> h) (content c)"
      with r show ?thesis by (intro exI [of _ "{h}"]) auto
    next
      assume "isl r0 \<and> content c0 = content c"
      with r show ?thesis by (intro exI [of _ "{}"]) auto
    qed
  next
    case (Inr u)
    then obtain gone where g: "gone \<subseteq> set hs" "content c1 = filter (\<lambda>it. fst it \<notin> gone) (content c0)" "\<not> isl r \<longrightarrow> gone = set hs"
      using Cons.IH [of c0] Cons.prems d by auto
    then show ?thesis using service_okD(3) [OF assms d] Inr by (intro exI [of _ "insert h gone"]) (auto intro: filter_cong)
  qed
qed (auto intro: exI [of _ "{}"])

lemma filter_inv: "service_inv its \<Longrightarrow> service_inv (filter P its)"
  by (auto simp: service_inv_def distinct_map inj_on_subset)

lemma removed_view:
  assumes "service_inv its" "gone \<subseteq> fst ` set (filter (\<lambda>it. attributes_for i \<subseteq>\<^sub>m fst (snd it)) its)" "j \<noteq> i"
  shows "items_view (filter (\<lambda>it. fst it \<notin> gone) its) j = items_view its j"
proof -
  have "fst it \<notin> gone" if it: "it \<in> set its" "attributes_for j \<subseteq>\<^sub>m fst (snd it)" for it
  proof
    assume "fst it \<in> gone"
    then obtain it' where "it' \<in> set its" "attributes_for i \<subseteq>\<^sub>m fst (snd it')" "fst it' = fst it" using assms(2) by auto
    then have "it' = it" using assms(1) it(1) by (auto simp: service_inv_def distinct_map inj_on_def)
    then show False using \<open>attributes_for i \<subseteq>\<^sub>m _\<close> it assms(1,3) by (metis service_inv_mine attributes_for_inj)
  qed
  then have "filter (\<lambda>it. attributes_for j \<subseteq>\<^sub>m fst (snd it)) (filter (\<lambda>it. fst it \<notin> gone) its) =
      filter (\<lambda>it. attributes_for j \<subseteq>\<^sub>m fst (snd it)) its"
    by (auto simp: filter_filter intro: filter_cong)
  then show ?thesis by (simp add: items_view_def)
qed

definition service_view :: "('c \<Rightarrow> item list) \<Rightarrow> 'c \<Rightarrow> string \<rightharpoonup> bytes" where
  "service_view content c = items_view (content c)"

lemma service_put_content:
  assumes "service_ok S content" "service_put S i v c = (r, c1)"
  shows "stored (attributes_for i) v (content c) (content c1) \<or> isl r \<and> content c1 = content c"
proof (cases "service_session S c")
  case (Inl err)
  then show ?thesis using assms(2) unfolding service_put_def Inl by auto
next
  case (Inr u)
  obtain r0 where r0: "ss_create S (SECRET_SERVICE_COLLECTION @ '': '' @ i) (attributes_for i) v True SECRET_SERVICE_CONTENT_TYPE c = (r0, c1)"
      "r = map_err map_ss_error r0"
    using assms(2) Inr by (auto simp: service_put_def split: prod.splits)
  then show ?thesis using service_okD(4) [OF assms(1) r0(1)] by (cases r0) auto
qed

lemma service_get_content:
  assumes "service_ok S content" "service_inv (content c)" "service_get S i c = Ok x"
  shows "x = items_view (content c) i"
proof -
  let ?f = "filter (\<lambda>it. attributes_for i \<subseteq>\<^sub>m fst (snd it)) (content c)"
  have s: "ss_search S (attributes_for i) c = Ok (map fst ?f)"
    using assms(3) service_okD(1) [OF assms(1), of "attributes_for i" c] by (auto simp: service_get_def)
  show ?thesis
  proof (cases ?f)
    case Nil
    then show ?thesis using assms(3) s by (auto simp: service_get_def items_view_def)
  next
    case (Cons it rest)
    then obtain v where v: "ss_secret S (fst it) c = Ok v" "x = Some v" using assms(3) s by (auto simp: service_get_def)
    have "it \<in> set ?f" unfolding Cons by simp
    then have "it \<in> set (content c)" by simp
    then have "map_of (map (\<lambda>(h, at, x). (h, x)) (content c)) (fst it) = Some (snd (snd it))"
      using assms(2) by (intro map_of_is_SomeI) (auto simp: service_inv_def o_def split_def image_iff intro: bexI [of _ it])
    then show ?thesis using service_okD(2) [OF assms(1) v(1)] v(2) Cons by (simp add: items_view_def)
  qed
qed

lemma service_remove_content:
  assumes "service_ok S content" "service_remove S i c = (r, c1)"
  shows "\<exists>gone \<subseteq> fst ` set (filter (\<lambda>it. attributes_for i \<subseteq>\<^sub>m fst (snd it)) (content c)).
    content c1 = filter (\<lambda>it. fst it \<notin> gone) (content c) \<and>
    (\<not> isl r \<longrightarrow> gone = fst ` set (filter (\<lambda>it. attributes_for i \<subseteq>\<^sub>m fst (snd it)) (content c)))"
proof (cases "res_bind (service_session S c) (\<lambda>_. map_err map_ss_error (ss_search S (attributes_for i) c))")
  case (Inl err)
  then show ?thesis using assms(2) by (intro exI [of _ "{}"]) (auto simp: service_remove_def)
next
  case (Inr items)
  then have i: "items = map fst (filter (\<lambda>it. attributes_for i \<subseteq>\<^sub>m fst (snd it)) (content c))"
    using service_okD(1) [OF assms(1)] by auto
  have "delete_items S items c = (r, c1)" using assms(2) Inr by (simp add: service_remove_def)
  from delete_items_content [OF assms(1) this] show ?thesis unfolding i by simp
qed

lemma service_remove_view:
  assumes "service_ok S content" "service_inv (content c)" "service_remove S i c = (r, c1)"
  shows "service_inv (content c1)" "j \<noteq> i \<Longrightarrow> items_view (content c1) j = items_view (content c) j"
    "\<not> isl r \<Longrightarrow> items_view (content c1) i = None"
proof -
  let ?f = "filter (\<lambda>it. attributes_for i \<subseteq>\<^sub>m fst (snd it)) (content c)"
  obtain gone where g: "gone \<subseteq> fst ` set ?f" "content c1 = filter (\<lambda>it. fst it \<notin> gone) (content c)" "\<not> isl r \<longrightarrow> gone = fst ` set ?f"
    using service_remove_content [OF assms(1,3)] by blast
  show "service_inv (content c1)" using filter_inv [OF assms(2)] g(2) by simp
  show "j \<noteq> i \<Longrightarrow> items_view (content c1) j = items_view (content c) j" unfolding g(2) by (rule removed_view [OF assms(2) g(1)])
  assume "\<not> isl r"
  then have "filter (\<lambda>it. attributes_for i \<subseteq>\<^sub>m fst (snd it)) (content c1) = []" using g by (auto simp: filter_empty_conv)
  then show "items_view (content c1) i = None" by (simp add: items_view_def)
qed

interpretation service_store: key_store "service_ops S" "service_view content" "\<lambda>c. service_ok S content \<and> service_inv (content c)" for S content
proof unfold_locales
  fix c i j v r c1 and u :: unit and x
  assume inv: "service_ok S content \<and> service_inv (content c)"
  { assume p: "ks_put (service_ops S) i v c = (r, c1)"
    then have "stored (attributes_for i) v (content c) (content c1) \<or> isl r \<and> content c1 = content c"
      using service_put_content [of S content] inv by (simp add: service_ops_def)
    then have "service_inv (content c1) \<and>
        (service_view content c1 = (service_view content c)(i \<mapsto> v) \<or> isl r \<and> service_view content c1 = service_view content c)"
      using inv stored_inv stored_view by (auto simp: service_view_def) }
  note put = this
  show "service_ok S content \<and> service_inv (content c1)" if "ks_put (service_ops S) i v c = (r, c1)" using put [OF that] inv by simp
  show "service_view content c1 = (service_view content c)(i \<mapsto> v)" if "ks_put (service_ops S) i v c = (Ok u, c1)"
    using service_put_content [of S content i v c "Ok u" c1] that inv stored_view by (simp add: service_ops_def service_view_def)
  show "service_view content c1 j = service_view content c j" if "ks_put (service_ops S) i v c = (r, c1)" "j \<noteq> i"
    using put [OF that(1)] that(2) by auto
  show "x = service_view content c i" if "ks_get (service_ops S) i c = Ok x"
    using service_get_content [of S content c i x] that inv by (simp add: service_ops_def service_view_def)
  show "service_ok S content \<and> service_inv (content c1)" if "ks_remove (service_ops S) i c = (r, c1)"
    using service_remove_view(1) [of S content c i r c1] that inv by (simp add: service_ops_def)
  show "service_view content c1 = (service_view content c)(i := None)" if "ks_remove (service_ops S) i c = (Ok u, c1)"
    using service_remove_view(2,3) [of S content c i "Ok u" c1] that inv by (auto simp: service_ops_def service_view_def fun_eq_iff)
  show "service_view content c1 j = service_view content c j" if "ks_remove (service_ops S) i c = (r, c1)" "j \<noteq> i"
    using service_remove_view(2) [of S content c i r c1 j] that inv by (simp add: service_ops_def service_view_def)
qed

section \<open>The store that is detected\<close>

lemma boxed_kernel: "run_calls (boxed K S Bk_Kernel) cs (k, c) = (as, w) \<Longrightarrow> run_calls (kernel_ops K) cs k = (as, fst w) \<and> snd w = c"
proof (induction cs arbitrary: k as)
  case (Cons x cs)
  obtain a k1 where a: "run_call (kernel_ops K) x k = (a, k1)" by fastforce
  then have "run_call (boxed K S Bk_Kernel) x (k, c) = (a, k1, c)"
    by (cases x) (auto simp: boxed_def kernel_ops_def on_fst_def split: prod.splits)
  then obtain bs where "run_calls (boxed K S Bk_Kernel) cs (k1, c) = (bs, w)" "as = a # bs"
    using Cons.prems by (auto split: prod.splits)
  then show ?case using Cons.IH a by auto
qed auto

lemma boxed_service: "run_calls (boxed K S Bk_SecretService) cs (k, c) = (as, w) \<Longrightarrow> run_calls (service_ops S) cs c = (as, snd w) \<and> fst w = k"
proof (induction cs arbitrary: c as)
  case (Cons x cs)
  obtain a c1 where a: "run_call (service_ops S) x c = (a, c1)" by fastforce
  then have "run_call (boxed K S Bk_SecretService) x (k, c) = (a, k, c1)"
    by (cases x) (auto simp: boxed_def service_ops_def on_snd_def split: prod.splits)
  then obtain bs where "run_calls (boxed K S Bk_SecretService) cs (k, c1) = (bs, w)" "as = a # bs"
    using Cons.prems by (auto split: prod.splits)
  then show ?case using Cons.IH a by auto
qed auto

text \<open>
  Detection fails closed: a store is given exactly when one of the two services
  answers its probe, the kernel keyring first; it is never the one in memory, and
  one line is logged exactly when a store is given.
\<close>

lemma kernel_probe_opens: "kernel_probe K k \<Longrightarrow> \<exists>u. kernel_open K k = Ok u"
  by (auto simp: kernel_probe_def kernel_open_def split: sum.splits)

theorem detect_fails_closed:
  "fst (detect_with_logger K S k c) =
     (if kernel_probe K k then Ok Bk_Kernel else if service_probe S c then Ok Bk_SecretService else Err SecretNotImplemented) \<and>
   length (snd (detect_with_logger K S k c)) = (if kernel_probe K k \<or> service_probe S c then 1 else 0)"
  using kernel_probe_opens [of K k] by (auto simp: detect_with_logger_def split: sum.splits)

definition boxed_view :: "('k \<Rightarrow> string \<rightharpoonup> bytes) \<Rightarrow> ('c \<Rightarrow> item list) \<Rightarrow> backend_kind \<Rightarrow> 'k \<times> 'c \<Rightarrow> string \<rightharpoonup> bytes" where
  "boxed_view held content kind w = (if kind = Bk_Kernel then kernel_view held (fst w) else service_view content (snd w))"

text \<open>
  C38: the detected secret store is a map.  Over a keyring and a Secret Service that
  behave as documented, any sequence of puts, gets and removes on the store that
  was detected, of which none reports an error, answers as the same calls on a
  finite map and leaves the store holding the resulting map; the other service
  is not touched, and ids that no call names keep their secrets even when calls
  fail.
\<close>

theorem detected_store_refines_map:
  assumes "detect_with_logger K S k c = (Ok kind, log)" "keyring_ok K held" "service_ok S content" "service_inv (content c)"
    and "run_calls (boxed K S kind) cs (k, c) = (as, w)"
  shows "(Failed \<notin> set as \<longrightarrow> map_calls cs (boxed_view held content kind (k, c)) = (as, boxed_view held content kind w)) \<and>
    (if kind = Bk_Kernel then snd w = c else fst w = k) \<and>
    (\<forall>j. j \<notin> call_id ` set cs \<longrightarrow> boxed_view held content kind w j = boxed_view held content kind (k, c) j)"
proof -
  consider "kind = Bk_Kernel" | "kind = Bk_SecretService"
    using assms(1) by (auto simp: detect_with_logger_def split: if_splits sum.splits)
  then show ?thesis
  proof cases
    case 1
    have b: "run_calls (kernel_ops K) cs k = (as, fst w)" "snd w = c" using boxed_kernel [of K S cs k c as w] assms(5) 1 by simp_all
    then show ?thesis using 1 kernel_store.run_calls_refines [OF assms(2) b(1)] kernel_store.run_calls_frame [OF assms(2) b(1)]
      by (simp add: boxed_view_def)
  next
    case 2
    have b: "run_calls (service_ops S) cs c = (as, snd w)" "fst w = k" using boxed_service [of K S cs k c as w] assms(5) 2 by simp_all
    have i: "service_ok S content \<and> service_inv (content c)" using assms(3,4) by simp
    show ?thesis using 2 b(2) service_store.run_calls_refines [OF i b(1)] service_store.run_calls_frame [OF i b(1)]
      by (simp add: boxed_view_def)
  qed
qed

text \<open>A keyring as an association list, one that cannot be used, and a service that holds a list of items.\<close>

definition ex_keyring :: "(string \<times> bytes) list keyutils" where
  "ex_keyring = \<lparr> ku_session = (\<lambda>s. Ok ()), ku_add = (\<lambda>d v s. (Ok (), (d, v) # s)),
     ku_search = (\<lambda>d s. let n = length (takeWhile (\<lambda>p. fst p \<noteq> d) s) in if n < length s then Ok n else Err KeyDoesNotExist),
     ku_read = (\<lambda>n s. Ok (snd (s ! n))), ku_invalidate = (\<lambda>n s. (Ok (), filter (\<lambda>p. fst p \<noteq> fst (s ! n)) s)), ku_show = (\<lambda>_. []) \<rparr>"

definition ex_no_keyring :: "(string \<times> bytes) list keyutils" where
  "ex_no_keyring = ex_keyring\<lparr> ku_session := (\<lambda>s. Err KeyDoesNotExist) \<rparr>"

definition ex_service :: "item list ss_client" where
  "ex_service = \<lparr> ss_connect = (\<lambda>c. Ok ()), ss_default = (\<lambda>c. Ok ()),
     ss_create = (\<lambda>l a v r t c. (Ok (), if \<exists>it \<in> set c. fst (snd it) = a then map (\<lambda>(h, at, x). (h, at, if at = a then v else x)) c
       else c @ [(Suc (sum_list (map fst c)), a, v)])),
     ss_search = (\<lambda>a c. Ok (map fst (filter (\<lambda>it. a \<subseteq>\<^sub>m fst (snd it)) c))),
     ss_secret = (\<lambda>h c. case map_of (map (\<lambda>(h, at, x). (h, x)) c) h of None \<Rightarrow> Err ''no item'' | Some v \<Rightarrow> Ok v),
     ss_delete = (\<lambda>h c. (Ok (), filter (\<lambda>it. fst it \<noteq> h) c)) \<rparr>"

lemma takeWhile_map_of:
  "length (takeWhile (\<lambda>p. fst p \<noteq> d) s) < length s \<Longrightarrow> fst (s ! length (takeWhile (\<lambda>p. fst p \<noteq> d) s)) = d"
  "length (takeWhile (\<lambda>p. fst p \<noteq> d) s) < length s \<Longrightarrow> map_of s d = Some (snd (s ! length (takeWhile (\<lambda>p. fst p \<noteq> d) s)))"
  "\<not> length (takeWhile (\<lambda>p. fst p \<noteq> d) s) < length s \<Longrightarrow> map_of s d = None"
  by (induction s) (auto split: if_splits)

lemma ex_keyring_ok: "keyring_ok ex_keyring map_of" "keyring_ok ex_no_keyring map_of"
proof -
  have f: "map_of (filter (\<lambda>p. fst p \<noteq> d) s) = (map_of s)(d := None)" for d and s :: "(string \<times> bytes) list"
    by (induction s) auto
  show "keyring_ok ex_keyring map_of" unfolding keyring_ok_def ex_keyring_def by (auto simp: Let_def takeWhile_map_of f split: if_splits)
  then show "keyring_ok ex_no_keyring map_of" by (simp add: keyring_ok_def ex_no_keyring_def)
qed

lemma ex_service_ok: "service_ok ex_service (\<lambda>c. c)"
proof -
  have "Suc (sum_list (map fst c)) \<notin> fst ` set c" for c :: "item list"
  proof
    assume "Suc (sum_list (map fst c)) \<in> fst ` set c"
    then have "Suc (sum_list (map fst c)) \<le> sum_list (map fst c)" by (intro member_le_sum_list) auto
    then show False by simp
  qed
  then show ?thesis by (auto simp: service_ok_def ex_service_def stored_def split: option.splits)
qed

lemma ex_service_never_fails: "Failed \<notin> set (fst (run_calls (service_ops ex_service) cs c))"
proof (induction cs arbitrary: c)
  case (Cons x cs)
  have del: "\<exists>c1. delete_items ex_service hs c = (Ok (), c1)" for hs c
    by (induction hs arbitrary: c) (auto simp: ex_service_def)
  have session: "service_session ex_service c = Ok ()" by (simp add: service_session_def open_collection_def ex_service_def)
  have search: "ss_search ex_service a c = Ok (map fst (filter (\<lambda>it. a \<subseteq>\<^sub>m fst (snd it)) c))" for a by (simp add: ex_service_def)
  have secret: "\<exists>v. ss_secret ex_service (fst it) c = Ok v" if "filter P c = it # rest" for P it rest
  proof -
    have "it \<in> set c" using that by (auto simp: filter_eq_Cons_iff)
    then have "map_of (map (\<lambda>(h, at, x). (h, x)) c) (fst it) \<noteq> None"
      unfolding map_of_eq_None_iff by (simp add: image_image split_def)
    then show ?thesis by (auto simp: ex_service_def)
  qed
  have "fst (run_call (service_ops ex_service) x c) \<noteq> Failed"
  proof (cases x)
    case (Get i)
    show ?thesis
    proof (cases "filter (\<lambda>it. attributes_for i \<subseteq>\<^sub>m fst (snd it)) c")
      case Nil
      then show ?thesis using Get session search by (simp add: service_ops_def service_get_def)
    next
      case (Cons it rest)
      obtain v where "ss_secret ex_service (fst it) c = Ok v" using secret [OF Cons] by blast
      then show ?thesis using Get session search Cons by (simp add: service_ops_def service_get_def)
    qed
  next
    case (Remove i)
    obtain c1 where "delete_items ex_service (map fst (filter (\<lambda>it. attributes_for i \<subseteq>\<^sub>m fst (snd it)) c)) c = (Ok (), c1)" using del by blast
    then show ?thesis using Remove session search by (simp add: service_ops_def service_remove_def)
  qed (use session in \<open>auto simp: service_ops_def service_put_def ex_service_def\<close>)
  then show ?case using Cons.IH by (auto split: prod.splits) (metis fst_conv)+
qed simp

theorem detected_store_refines_map_witness:
  "fst (run_calls (boxed ex_keyring ex_service Bk_Kernel) [Put ''a'' [1], Put ''a'' [2], Get ''a'', Remove ''a'', Remove ''a'', Get ''a''] ([], [])) =
     [Done, Done, Found (Some [2]), Done, Done, Found None] \<and>
   fst (run_calls (boxed ex_no_keyring ex_service Bk_SecretService) [Put ''a'' [1], Put ''a'' [2], Get ''a'', Remove ''a'', Remove ''a'', Get ''a''] ([], [])) =
     [Done, Done, Found (Some [2]), Done, Done, Found None]"
proof
  let ?cs = "[Put ''a'' [1], Put ''a'' [2], Get ''a'', Remove ''a'', Remove ''a'', Get ''a'']"
  have inv: "service_inv ((\<lambda>c. c) [])" by (simp add: service_inv_def)
  obtain as w where r: "run_calls (boxed ex_keyring ex_service Bk_Kernel) ?cs ([], []) = (as, w)" by (metis surj_pair)
  have d: "detect_with_logger ex_keyring ex_service [] [] = (Ok Bk_Kernel, [LOG_LINE_KERNEL])"
    by (simp add: detect_with_logger_def kernel_probe_def kernel_open_def ex_keyring_def)
  have "Failed \<notin> set as"
    using r by (auto simp: boxed_def on_fst_def kernel_put_def kernel_get_def kernel_remove_def ex_keyring_def description_for_def
        split: if_splits)
  then have "map_calls ?cs (boxed_view map_of (\<lambda>c. c) Bk_Kernel ([], [])) = (as, boxed_view map_of (\<lambda>c. c) Bk_Kernel w)"
    using detected_store_refines_map [OF d ex_keyring_ok(1) ex_service_ok inv r] by blast
  then show "fst (run_calls (boxed ex_keyring ex_service Bk_Kernel) ?cs ([], [])) = [Done, Done, Found (Some [2]), Done, Done, Found None]"
    using r by auto
  obtain bs w2 where r2: "run_calls (boxed ex_no_keyring ex_service Bk_SecretService) ?cs ([], []) = (bs, w2)" by (metis surj_pair)
  have d2: "detect_with_logger ex_no_keyring ex_service [] [] = (Ok Bk_SecretService, [LOG_LINE_SECRET_SERVICE])"
    by (simp add: detect_with_logger_def kernel_probe_def service_probe_def ex_no_keyring_def ex_service_def)
  have "Failed \<notin> set bs"
    using boxed_service [OF r2] ex_service_never_fails [of ?cs "[]"] by simp
  then have "map_calls ?cs (boxed_view map_of (\<lambda>c. c) Bk_SecretService ([], [])) = (bs, boxed_view map_of (\<lambda>c. c) Bk_SecretService w2)"
    using detected_store_refines_map [OF d2 ex_keyring_ok(2) ex_service_ok inv r2] by blast
  then show "fst (run_calls (boxed ex_no_keyring ex_service Bk_SecretService) ?cs ([], [])) = [Done, Done, Found (Some [2]), Done, Done, Found None]"
    using r2 by auto
qed

end
