(* ===== verification/Mobile.thy ===== *)
theory Mobile
  imports Oob Orchestrator
begin

text \<open>
  The functions of \<open>syauth-mobile/src/implementation.rs\<close> that the phone calls through
  UniFFI: the invite URI, the check and the signature of a challenge frame, the
  response frame, the out-of-band code and the rotating UUID.  BLAKE3, HKDF,
  Ed25519 and the phone's own signer are arguments.
\<close>

definition INVITE_URI_SCHEME :: string where [const_defs]: "INVITE_URI_SCHEME = ''syauth://''"
definition INVITE_URI_HOST_PATH :: string where [const_defs]: "INVITE_URI_HOST_PATH = ''invite?''"
definition INVITE_QUERY_KEY_HOST :: string where [const_defs]: "INVITE_QUERY_KEY_HOST = ''host''"
definition INVITE_QUERY_KEY_PUBKEY :: string where [const_defs]: "INVITE_QUERY_KEY_PUBKEY = ''pubkey''"
definition INVITE_PUBKEY_LEN :: nat where [const_defs]: "INVITE_PUBKEY_LEN = 32"
definition ED25519_SECRET_KEY_LEN :: nat where [const_defs]: "ED25519_SECRET_KEY_LEN = 32"
definition MOBILE_BOND_KEY_LEN :: nat where [const_defs]: "MOBILE_BOND_KEY_LEN = BOND_KEY_BYTES"
definition ED25519_SIGNATURE_LEN :: nat where [const_defs]: "ED25519_SIGNATURE_LEN = 64"
definition SESSION_UUID_BYTES_MOBILE :: nat where [const_defs]: "SESSION_UUID_BYTES_MOBILE = 16"

record invite =
  iv_host_name :: string
  iv_host_pubkey :: bytes

datatype mobile_error =
    InvalidInvite string | InvalidKey string | BadFrame string | VerifyFailed string | SignFailed string

section \<open>The invite URI\<close>

text \<open>\<open>hex::decode\<close>: pairs of digits of either case; an odd length or another character is an error.\<close>

fun hex_decode :: "string \<Rightarrow> bytes option" where
  "hex_decode [] = Some []"
| "hex_decode [c] = None"
| "hex_decode (c # d # cs) =
     (case (hex_digit c, hex_digit d) of
        (Some h, Some l) \<Rightarrow> map_option (\<lambda>bs. word_of_nat (h * 16 + l) # bs) (hex_decode cs)
      | _ \<Rightarrow> None)"

text \<open>\<open>splitn(2, '=')\<close> with a missing value read as empty.\<close>

definition split_pair :: "string \<Rightarrow> string \<times> string" where
  "split_pair p = (takeWhile (\<lambda>c. c \<noteq> CHR ''='') p, drop 1 (dropWhile (\<lambda>c. c \<noteq> CHR ''='') p))"

definition quoted :: "string \<Rightarrow> string" where
  "quoted s = [char_of (39::nat)] @ s @ [char_of (39::nat)]"

fun invite_loop :: "string list \<Rightarrow> string option \<Rightarrow> string option \<Rightarrow> mobile_error + (string option \<times> string option)" where
  "invite_loop [] host pubkey = Ok (host, pubkey)"
| "invite_loop (p # ps) host pubkey =
     (if p = [] then invite_loop ps host pubkey
      else let (key, value) = split_pair p in
        if key = INVITE_QUERY_KEY_HOST
        then (if value = []
              then Err (InvalidInvite (''query key '' @ quoted INVITE_QUERY_KEY_HOST @ '' has empty value''))
              else invite_loop ps (Some value) pubkey)
        else if key = INVITE_QUERY_KEY_PUBKEY then invite_loop ps host (Some value)
        else invite_loop ps host pubkey)"

definition parse_invite_uri :: "string \<Rightarrow> mobile_error + invite" where
  "parse_invite_uri uri =
     (case strip_prefix uri INVITE_URI_SCHEME of
        None \<Rightarrow> Err (InvalidInvite (''missing scheme prefix '' @ INVITE_URI_SCHEME))
      | Some after_scheme \<Rightarrow>
     (case strip_prefix after_scheme INVITE_URI_HOST_PATH of
        None \<Rightarrow> Err (InvalidInvite (''missing path segment '' @ quoted INVITE_URI_HOST_PATH))
      | Some query \<Rightarrow>
     (case invite_loop (split_on (CHR ''&'') query) None None of
        Inl err \<Rightarrow> Err err
      | Inr (None, _) \<Rightarrow> Err (InvalidInvite (''missing required query key '' @ quoted INVITE_QUERY_KEY_HOST))
      | Inr (Some host, None) \<Rightarrow> Err (InvalidInvite (''missing required query key '' @ quoted INVITE_QUERY_KEY_PUBKEY))
      | Inr (Some host, Some hex) \<Rightarrow>
          (case hex_decode hex of
             None \<Rightarrow> Err (InvalidInvite (''query key '' @ quoted INVITE_QUERY_KEY_PUBKEY @ '' is not lowercase hex''))
           | Some pubkey \<Rightarrow>
               if length pubkey \<noteq> INVITE_PUBKEY_LEN
               then Err (InvalidInvite (''query key '' @ quoted INVITE_QUERY_KEY_PUBKEY @ '' must decode to '' @
                      show_nat INVITE_PUBKEY_LEN @ '' bytes, got '' @ show_nat (length pubkey)))
               else Ok \<lparr> iv_host_name = host, iv_host_pubkey = pubkey \<rparr>))))"

section \<open>Challenge and response\<close>

definition bond_key_array :: "bytes \<Rightarrow> mobile_error + bytes" where
  "bond_key_array bond_key =
     (if length bond_key \<noteq> MOBILE_BOND_KEY_LEN
      then Err (InvalidKey (''bond_key must be '' @ show_nat MOBILE_BOND_KEY_LEN @ '' bytes, got '' @ show_nat (length bond_key)))
      else Ok bond_key)"

definition verify_challenge_frame :: "keyed_hash \<Rightarrow> bytes \<Rightarrow> bytes \<Rightarrow> mobile_error + bytes" where
  "verify_challenge_frame kh bond_key frame_bytes =
     res_bind (bond_key_array bond_key) (\<lambda>key.
     res_bind (map_err (\<lambda>e. BadFrame (''frame decode failed: '' @ frame_error_display e)) (frame_decode frame_bytes)) (\<lambda>frame.
     res_bind (map_err (\<lambda>e. BadFrame (''frame body encode failed: '' @ frame_error_display e)) (body_bytes frame)) (\<lambda>body.
       if \<not> verify_tag kh key body (f_tag frame)
       then Err (VerifyFailed ''frame MAC tag did not verify under the supplied bond key'')
       else Ok (f_payload frame))))"

text \<open>\<open>SigningKey::from_bytes\<close> takes any 32 bytes as the seed of a key.\<close>

definition sign_challenge_response :: "(bytes \<Rightarrow> bytes \<Rightarrow> bytes) \<Rightarrow> bytes \<Rightarrow> bytes \<Rightarrow> mobile_error + bytes" where
  "sign_challenge_response sign signing_key frame_bytes =
     (if length signing_key \<noteq> ED25519_SECRET_KEY_LEN
      then Err (InvalidKey (''signing_key must be '' @ show_nat ED25519_SECRET_KEY_LEN @ '' bytes, got '' @ show_nat (length signing_key)))
      else res_bind (map_err (\<lambda>e. BadFrame (''frame decode failed: '' @ frame_error_display e)) (frame_decode frame_bytes)) (\<lambda>frame.
           map_err (\<lambda>e. SignFailed (''ed25519 sign failed: '' @ frame_error_display e)) (sign_frame sign signing_key frame)))"

text \<open>The signer is the foreign callback; the nonce of the response comes from the random generator.\<close>

definition build_response_frame :: "keyed_hash \<Rightarrow> (bytes \<Rightarrow> bytes) \<Rightarrow> bytes \<Rightarrow> bytes \<Rightarrow> bytes \<Rightarrow> mobile_error + bytes" where
  "build_response_frame kh signer rng bond_key challenge_frame_bytes =
     res_bind (bond_key_array bond_key) (\<lambda>key.
     res_bind (map_err (\<lambda>e. BadFrame (''challenge decode failed: '' @ frame_error_display e)) (frame_decode challenge_frame_bytes)) (\<lambda>challenge.
     res_bind (map_err (\<lambda>e. BadFrame (''challenge body encode failed: '' @ frame_error_display e)) (body_bytes challenge)) (\<lambda>unsigned_body.
       let sig_bytes = signer unsigned_body in
       if length sig_bytes \<noteq> ED25519_SIGNATURE_LEN
       then Err (SignFailed (''foreign signer returned '' @ show_nat (length sig_bytes) @ '' bytes, expected '' @ show_nat ED25519_SIGNATURE_LEN))
       else let payload = sig_bytes;
                body = [SYAUTH_WIRE_VERSION_V1] @ rng @ payload;
                response = \<lparr> f_version = SYAUTH_WIRE_VERSION_V1, f_nonce = rng, f_payload = payload,
                             f_tag = compute_tag kh key body \<rparr> in
              map_err (\<lambda>e. SignFailed (''response frame encode failed: '' @ frame_error_display e)) (frame_wire response))))"

section \<open>Derived values\<close>

text \<open>The phone crate has its own copies of the strings and lengths of the derivations.\<close>

definition MOBILE_HKDF_INFO_OOB_V1 :: bytes where "MOBILE_HKDF_INFO_OOB_V1 = str_bytes ''syauth-oob-v1''"
definition MOBILE_OOB_WORD_COUNT :: nat where "MOBILE_OOB_WORD_COUNT = 4"
definition MOBILE_HKDF_INFO_SESSION_V1 :: bytes where "MOBILE_HKDF_INFO_SESSION_V1 = str_bytes ''syauth-session-v1''"

definition mobile_oob_code_for_bond :: "hkdf \<Rightarrow> bytes \<Rightarrow> mobile_error + string list" where
  "mobile_oob_code_for_bond hk bond_key =
     res_bind (bond_key_array bond_key) (\<lambda>key.
       case hk key MOBILE_HKDF_INFO_OOB_V1 MOBILE_OOB_WORD_COUNT of
         None \<Rightarrow> Err (InvalidKey ''hkdf expand failed (unreachable in production)'')
       | Some out \<Rightarrow> Ok [MOBILE_OOB_WORDS ! unat (out ! 0), MOBILE_OOB_WORDS ! unat (out ! 1),
                        MOBILE_OOB_WORDS ! unat (out ! 2), MOBILE_OOB_WORDS ! unat (out ! 3)])"

definition session_uuid_for_bond :: "hkdf \<Rightarrow> bytes \<Rightarrow> 64 word \<Rightarrow> mobile_error + bytes" where
  "session_uuid_for_bond hk bond_key minute =
     res_bind (bond_key_array bond_key) (\<lambda>key.
       case hk key (MOBILE_HKDF_INFO_SESSION_V1 @ i64_be_bytes minute) SESSION_UUID_BYTES_MOBILE of
         None \<Rightarrow> Err (InvalidKey ''hkdf expand failed (unreachable in production)'')
       | Some out \<Rightarrow> Ok out)"


section \<open>Lemmas\<close>

lemma hex_decode_byte: "hex_decode (hex_byte b @ cs) = map_option (\<lambda>bs. b # bs) (hex_decode cs)"
proof -
  have "word_of_nat (unat b div 16 * 16 + unat b mod 16) = b" by simp
  then show ?thesis
    by (simp add: hex_byte_def hi_nibble lo_nibble hex_digit_char del: word_of_nat_eq_iff)
qed

lemma hex_decode_hex: "hex_decode (hex_lowercase bs) = Some bs"
  by (induction bs) (simp_all add: hex_decode_byte)

lemma hex_char_plain_query: "n < 16 \<Longrightarrow> hex_char n \<noteq> CHR ''&'' \<and> hex_char n \<noteq> CHR ''=''"
  by (auto simp: hex_char_def numeral_eq_Suc less_Suc_eq)

lemma hex_lowercase_query: "c \<in> set (hex_lowercase bs) \<Longrightarrow> c \<noteq> CHR ''&'' \<and> c \<noteq> CHR ''=''"
  by (induction bs) (auto simp: hex_byte_def hi_nibble lo_nibble hex_char_plain_query)

lemma split_pair_eq: "CHR ''='' \<notin> set k \<Longrightarrow> split_pair (k @ CHR ''='' # v) = (k, v)"
  by (induction k) (auto simp: split_pair_def)

text \<open>The bytes of the challenge the daemon sends decode to its frame.\<close>

lemma challenge_decode:
  assumes "keyed_hash_len (cr_keyed_hash C)" "length nonce = 16"
  shows "frame_decode (1 # nonce @ f_tag (challenge_of C key nonce)) = Ok (challenge_of C key nonce)"
proof (rule frame_decode_wire)
  show "frame_valid (challenge_of C key nonce)"
    using assms compute_tag_length [OF assms(1)]
    by (simp add: frame_valid_def frame_typed_def challenge_of_def const_defs)
  show "frame_wire (challenge_of C key nonce) = Ok (1 # nonce @ f_tag (challenge_of C key nonce))"
    by (simp add: frame_wire_eq challenge_of_def)
qed

lemma sign_challenge_ok:
  assumes "keyed_hash_len (cr_keyed_hash C)" "length nonce = 16" "length seed = 32"
  shows "sign_challenge_response sign seed (1 # nonce @ f_tag (challenge_of C key nonce)) = Ok (sign seed (1 # nonce))"
  using challenge_decode [OF assms(1,2), of key] assms(3)
  by (simp add: sign_challenge_response_def ED25519_SECRET_KEY_LEN_def sign_frame_def body_bytes_def challenge_of_def)

section \<open>Properties\<close>

text \<open>
  C4: a phone with the right keys opens the lock.  When the phone signs, with
  the library function, the challenge bytes that the daemon sent for a live
  peer, and its answer arrives in time, then the transaction succeeds with that
  signature, and the phone's own check of the challenge accepts it under the
  shared bond key.
\<close>

theorem phone_answer_accepted:
  assumes "signature_scheme pk_of sign (cr_verify C)" "\<forall>s. length s = 64 \<longrightarrow> cr_sig_ok C s" "keyed_hash_len (cr_keyed_hash C)"
    and "lookup_peer os i = Some st" "length (st_bond_key st) = 32" "st_phone_pubkey st = pk_of seed" "cr_key_ok C (pk_of seed)"
    and "length seed = 32" "acquire_challenge_slot ce (pc_challenge_slot (o_cells os ! st_cell st))"
    and "ce_rng ce = Ok nonce" "length nonce = 16" "nonce \<notin> set (nc_nonces (pc_nonce_cache (o_cells os ! st_cell st)))"
    and "challenge = [1] @ nonce @ compute_tag (cr_keyed_hash C) (st_bond_key st) ([1] @ nonce)"
    and "op_notify_challenge ops i challenge (o_periph os) = (Ok (), p1)"
    and "sign_challenge_response sign seed challenge = Ok sig" "op_wait_for_response ops i d p1 = (Ok sig, p2)"
  shows "fst (issue_challenge ops C e ce i d os) = Co_Ok sig \<and>
         verify_challenge_frame (cr_keyed_hash C) (st_bond_key st) challenge = Ok []"
proof -
  let ?f = "challenge_of C (st_bond_key st) nonce"
  have ch: "challenge = 1 # nonce @ f_tag ?f" using assms(13) by (simp add: challenge_of_def)
  have sig: "sig = sign seed (1 # nonce)" using assms(15) sign_challenge_ok [OF assms(3,11,8)] by (simp add: ch)
  have "accepts C st nonce sig"
    using assms(1,2,6,7) by (simp add: accepts_def sig signature_scheme_def SIGNATURE_LEN_def)
  then have "fst (issue_challenge ops C e ce i d os) = Co_Ok sig"
    unfolding issue_challenge_ok using assms(4,9,10,12,14,16) by (auto simp: ch cell_nonces_def)
  moreover have "verify_challenge_frame (cr_keyed_hash C) (st_bond_key st) challenge = Ok []"
    unfolding ch verify_challenge_frame_def challenge_decode [OF assms(3,11)] using assms(5)
    by (simp add: bond_key_array_def MOBILE_BOND_KEY_LEN_def BOND_KEY_BYTES_def body_bytes_def challenge_of_def verify_tag_def)
  ultimately show ?thesis by blast
qed

text \<open>
  C27: the phone accepts a challenge exactly when the bytes are the encoding of a
  valid version-1 frame whose tag is the keyed hash of its body under the bond
  key, and what it returns is that frame's payload.
\<close>

theorem phone_accepts_tagged_frames:
  "verify_challenge_frame kh key bs = Ok payload \<longleftrightarrow>
     length key = 32 \<and> (\<exists>f. frame_valid f \<and> frame_encode f [] = (Ok (), bs) \<and> f_payload f = payload \<and>
        f_tag f = compute_tag kh key ([f_version f] @ f_nonce f @ f_payload f))"
proof -
  have "length key = 32 \<Longrightarrow> verify_challenge_frame kh key bs = Ok payload \<longleftrightarrow>
      (\<exists>f body. frame_decode bs = Ok f \<and> body_bytes f = Ok body \<and> f_tag f = compute_tag kh key body \<and> f_payload f = payload)"
    by (auto simp: verify_challenge_frame_def bond_key_array_def MOBILE_BOND_KEY_LEN_def BOND_KEY_BYTES_def verify_tag_def split: if_splits)
  moreover have "length key \<noteq> 32 \<Longrightarrow> verify_challenge_frame kh key bs \<noteq> Ok payload"
    by (simp add: verify_challenge_frame_def bond_key_array_def MOBILE_BOND_KEY_LEN_def BOND_KEY_BYTES_def)
  moreover have "frame_decode bs = Ok f \<longleftrightarrow> frame_valid f \<and> frame_encode f [] = (Ok (), bs)" for f
    unfolding frame_codec.dec_iff by (auto simp: frame_wire_def frame_encode_def split: if_splits)
  moreover have "frame_valid f \<Longrightarrow> body_bytes f = Ok ([f_version f] @ f_nonce f @ f_payload f)" for f
    by (simp add: body_bytes_def frame_valid_def)
  ultimately show ?thesis by (cases "length key = 32") auto
qed

lemma mobile_constants_same:
  "MOBILE_HKDF_INFO_OOB_V1 = HKDF_INFO_OOB_V1" "MOBILE_OOB_WORD_COUNT = HKDF_OOB_OUTPUT_LEN"
  "MOBILE_HKDF_INFO_SESSION_V1 = HKDF_INFO_SESSION_V1" "SESSION_UUID_BYTES_MOBILE = SESSION_UUID_BYTES"
  by (simp_all add: MOBILE_HKDF_INFO_OOB_V1_def MOBILE_OOB_WORD_COUNT_def MOBILE_HKDF_INFO_SESSION_V1_def const_defs)


text \<open>
  C28: phone and desktop agree on what they derive from a bond key: for a 32-byte
  key and an expansion that succeeds, the four words shown for confirmation and
  the rotating UUID of a minute are the same on both sides, each of which has its
  own table of words, context strings and lengths.
\<close>

theorem phone_desktop_derivations_agree:
  assumes "length key = 32" "hk key HKDF_INFO_OOB_V1 4 \<noteq> None" "hk key (HKDF_INFO_SESSION_V1 @ i64_be_bytes minute) 16 \<noteq> None"
  shows "mobile_oob_code_for_bond hk key = Ok (oob_code_for_bond hk key) \<and>
         session_uuid_for_bond hk key minute = Ok (session_uuid_for hk key minute)"
  using assms
  by (auto simp: mobile_oob_code_for_bond_def oob_code_for_bond_def session_uuid_for_bond_def session_uuid_for_def
      bond_key_array_def MOBILE_BOND_KEY_LEN_def BOND_KEY_BYTES_def mobile_constants_same OOB_WORD_COUNT_def HKDF_OOB_OUTPUT_LEN_def
      SESSION_UUID_BYTES_def mobile_words_same Let_def)

text \<open>
  An invite URI in the canonical form is parsed to the host name and the key
  it was made from, for every non-empty name without an ampersand.
\<close>

theorem invite_roundtrip:
  assumes "host \<noteq> []" "CHR ''&'' \<notin> set host" "length pk = 32"
  shows "parse_invite_uri (''syauth://invite?host='' @ host @ ''&pubkey='' @ hex_lowercase pk) =
           Ok \<lparr> iv_host_name = host, iv_host_pubkey = pk \<rparr>"
proof -
  let ?h = "''host'' @ CHR ''='' # host" and ?p = "''pubkey'' @ CHR ''='' # hex_lowercase pk"
  have h: "CHR ''&'' \<notin> set ?h" using assms(2) by simp
  have p: "CHR ''&'' \<notin> set ?p" using hex_lowercase_query by auto
  have sp: "split_on (CHR ''&'') (?h @ CHR ''&'' # ?p) = [?h, ?p]"
    unfolding split_on_Cons [OF h, of ?p] split_on_single [OF p] by (rule refl)
  have "split_pair ?h = (''host'', host)" "split_pair ?p = (''pubkey'', hex_lowercase pk)"
    by (rule split_pair_eq; simp)+
  then have loop: "invite_loop [?h, ?p] None None = Ok (Some host, Some (hex_lowercase pk))"
    using assms(1) by (simp add: INVITE_QUERY_KEY_HOST_def INVITE_QUERY_KEY_PUBKEY_def)
  have uri: "''syauth://invite?host='' @ host @ ''&pubkey='' @ hex_lowercase pk =
      ''syauth://'' @ ''invite?'' @ (?h @ CHR ''&'' # ?p)" by simp
  show ?thesis
    unfolding parse_invite_uri_def uri INVITE_URI_SCHEME_def INVITE_URI_HOST_PATH_def strip_prefix_append option.case sp loop
    using assms(3) by (simp add: hex_decode_hex INVITE_PUBKEY_LEN_def)
qed

text \<open>
  The framed response is not what the daemon expects.  Every response that
  \<open>build_response_frame\<close> returns has 97 bytes, and the daemon's parser takes no
  signature from it, so a phone that sends it is answered with a bad signature.
\<close>

theorem response_frame_not_a_signature:
  assumes "keyed_hash_len kh" "length rng = 16" "build_response_frame kh signer rng key challenge = Ok out"
  shows "length out = 97 \<and> parse_signature C out = None"
proof -
  from assms(3) obtain body where "length (signer body) = 64"
      "out = [1] @ rng @ signer body @ compute_tag kh key ([1] @ rng @ signer body)"
    by (auto simp: build_response_frame_def bond_key_array_def frame_wire_eq Let_def const_defs split: if_splits)
  then have "length out = 97" using assms(1,2) compute_tag_length [OF assms(1)] by (simp add: TAG_LEN_def)
  then show ?thesis by (simp add: parse_signature_def SIGNATURE_LEN_def)
qed


subsection \<open>Examples\<close>

text \<open>A toy scheme in which a signature repeats the first byte of the key, on the fake peripheral.\<close>

definition ex_sign :: "bytes \<Rightarrow> bytes \<Rightarrow> bytes" where
  "ex_sign seed m = replicate 64 (hd seed)"

definition ex_sig_crypto :: crypto where
  "ex_sig_crypto = ex_crypto\<lparr> cr_verify := \<lambda>pk m s. s = replicate 64 (hd pk) \<rparr>"

definition ex_phone_orch :: "fake_state orch" where
  "ex_phone_orch = (ex_orch_of ''a'')\<lparr> o_periph := fake_new\<lparr> fk_peer_keys := [''a'' \<mapsto> replicate 32 9],
     fk_response_queue := (\<lambda>_. [replicate 64 3]) \<rparr> \<rparr>"

definition ex_phone_state :: peer_state where
  "ex_phone_state = \<lparr> st_phone_pubkey = replicate 32 3, st_bond_key = replicate 32 9, st_cell = 0 \<rparr>"

lemma ex_sig_facts:
  "signature_scheme (\<lambda>k. k) ex_sign (cr_verify ex_sig_crypto)" "\<forall>s. length s = 64 \<longrightarrow> cr_sig_ok ex_sig_crypto s"
  "keyed_hash_len (cr_keyed_hash ex_sig_crypto)" "cr_key_ok ex_sig_crypto pk"
  by (simp_all add: signature_scheme_def ex_sign_def ex_sig_crypto_def ex_crypto_def SIGNATURE_LEN_def keyed_hash_len_def)

theorem phone_answer_accepted_witness:
  "fst (issue_challenge fake_ops ex_sig_crypto ex_env ex_call ''a'' 10 ex_phone_orch) = Co_Ok (replicate 64 3)"
proof -
  let ?ch = "[1] @ replicate 16 7 @ compute_tag (cr_keyed_hash ex_sig_crypto) (st_bond_key ex_phone_state) ([1] @ replicate 16 7)"
  let ?r = "op_notify_challenge fake_ops ''a'' ?ch (o_periph ex_phone_orch)"
  let ?w = "op_wait_for_response fake_ops ''a'' 10 (snd ?r)"
  have st: "lookup_peer ex_phone_orch ''a'' = Some ex_phone_state"
    by (simp add: ex_phone_orch_def ex_orch_of_def lookup_peer_def bt_get_def ex_phone_state_def)
  have r: "?r = (Ok (), snd ?r)" by (simp add: ex_phone_orch_def fake_defs fake_new_def)
  have w: "?w = (Ok (replicate 64 3), snd ?w)" by (simp add: ex_phone_orch_def fake_defs fake_new_def)
  have "sign_challenge_response ex_sign (replicate 32 3) ?ch = Ok (ex_sign (replicate 32 3) (1 # replicate 16 7))"
    using sign_challenge_ok [OF ex_sig_facts(3), of "replicate 16 7" "replicate 32 3" ex_sign "st_bond_key ex_phone_state"]
    by (simp add: challenge_of_def)
  then have sg: "sign_challenge_response ex_sign (replicate 32 3) ?ch = Ok (replicate 64 3)" by (simp add: ex_sign_def)
  show ?thesis
    using phone_answer_accepted [OF ex_sig_facts(1-3) st _ _ ex_sig_facts(4) _ _ _ _ _ refl r sg w, of ex_call]
    by (simp add: ex_phone_state_def ex_call_def acquire_challenge_slot_def ex_phone_orch_def ex_orch_of_def peer_cell_new_def
        nonce_cache_new_def)
qed

theorem phone_desktop_derivations_agree_witness:
  "mobile_oob_code_for_bond (\<lambda>k i n. Some (replicate n 0)) (replicate 32 1) = Ok (oob_code_for_bond (\<lambda>k i n. Some (replicate n 0)) (replicate 32 1))"
  using phone_desktop_derivations_agree [of "replicate 32 1" "\<lambda>k i n. Some (replicate n 0)" 5] by simp

theorem invite_roundtrip_witness:
  "parse_invite_uri (''syauth://invite?host='' @ ''desk'' @ ''&pubkey='' @ hex_lowercase (replicate 32 171)) =
     Ok \<lparr> iv_host_name = ''desk'', iv_host_pubkey = replicate 32 171 \<rparr>"
  by (rule invite_roundtrip) simp_all

lemma ex_response:
  "build_response_frame (cr_keyed_hash ex_sig_crypto) (\<lambda>m. replicate 64 3) (replicate 16 2) (replicate 32 9)
     (1 # replicate 16 7 @ f_tag (challenge_of ex_sig_crypto (replicate 32 9) (replicate 16 7)))
   = Ok (1 # replicate 16 2 @ replicate 64 3 @ compute_tag (cr_keyed_hash ex_sig_crypto) (replicate 32 9) (1 # replicate 16 2 @ replicate 64 3))"
proof -
  note d = challenge_decode [OF ex_sig_facts(3), of "replicate 16 7" "replicate 32 9", simplified]
  show ?thesis unfolding build_response_frame_def d
    by (simp add: bond_key_array_def MOBILE_BOND_KEY_LEN_def BOND_KEY_BYTES_def body_bytes_def challenge_of_def
        ED25519_SIGNATURE_LEN_def frame_wire_eq MAX_PAYLOAD_LEN_def SYAUTH_WIRE_VERSION_V1_def Let_def)
qed

theorem response_frame_not_a_signature_witness:
  "parse_signature ex_sig_crypto (1 # replicate 16 2 @ replicate 64 3 @
     compute_tag (cr_keyed_hash ex_sig_crypto) (replicate 32 9) (1 # replicate 16 2 @ replicate 64 3)) = None"
  using response_frame_not_a_signature [OF ex_sig_facts(3) _ ex_response] by simp

end
