(* ===== verification/AuthSpec.thy ===== *)
theory AuthSpec
  imports Interleaving
begin

text \<open>
  What the daemon promises, as a specification of its own: phones that are
  registered and dropped, transactions that ask, are challenged and end, and the
  history of everything that was ever granted.  The locale lifts a simulation to
  runs; its interpretation shows that the interleaved daemon, with its permits,
  bounded caches and the single steps of its reloads and rotations, does nothing
  the specification does not allow.
\<close>

section \<open>Simulations\<close>

locale forward_sim =
  fixes cstep :: "'c \<Rightarrow> 'c \<Rightarrow> bool"
    and astep :: "'a \<Rightarrow> 'a \<Rightarrow> bool"
    and cinv :: "'c \<Rightarrow> bool"
    and sim :: "'c \<Rightarrow> 'a \<Rightarrow> bool"
  assumes inv_step: "cinv c \<Longrightarrow> cstep c c' \<Longrightarrow> cinv c'"
    and sim_step: "cinv c \<Longrightarrow> sim c a \<Longrightarrow> cstep c c' \<Longrightarrow> \<exists>a'. astep\<^sup>*\<^sup>* a a' \<and> sim c' a'"
begin

lemma sim_run: "cstep\<^sup>*\<^sup>* c c' \<Longrightarrow> cinv c \<Longrightarrow> sim c a \<Longrightarrow> \<exists>a'. astep\<^sup>*\<^sup>* a a' \<and> sim c' a' \<and> cinv c'"
proof (induction rule: rtranclp_induct)
  case (step y z)
  then obtain a1 where a1: "astep\<^sup>*\<^sup>* a a1" "sim y a1" "cinv y" by blast
  with sim_step [OF a1(3,2) step(2)] inv_step [OF a1(3) step(2)] show ?case by (meson rtranclp_trans)
qed blast

end

section \<open>The specification\<close>

datatype auth_tx =
    Tx_Asked string peer_state
  | Tx_Open string peer_state bytes
  | Tx_Granted string peer_state bytes bytes
  | Tx_Refused

text \<open>
  The registry of the phones that are bonded, the number of registrations made
  so far, the transactions, each with the phone it is for and what the registry
  said of that phone when it asked, and the grants, kept for ever, oldest first,
  each with the registration it was granted to.  \<open>st_cell\<close> is the number of the
  registration: a phone that is dropped and registered again gets a new one, and
  the memory of nonces is kept per registration.
\<close>

record auth_spec =
  au_peers :: "string \<Rightarrow> peer_state option"
  au_next :: nat
  au_tx :: "auth_tx list"
  au_grants :: "(nat \<times> bytes) list"

definition auth_init :: "(string \<Rightarrow> peer_state option) \<Rightarrow> nat \<Rightarrow> auth_spec" where
  "auth_init m n = \<lparr> au_peers = m, au_next = n, au_tx = [], au_grants = [] \<rparr>"

definition grants_of :: "nat \<Rightarrow> (nat \<times> bytes) list \<Rightarrow> bytes list" where
  "grants_of c gs = map snd (filter (\<lambda>g. fst g = c) gs)"

definition recent_grants :: "nat \<Rightarrow> (nat \<times> bytes) list \<Rightarrow> bytes list" where
  "recent_grants c gs = lastn NONCE_LRU_CAP (grants_of c gs)"

inductive auth_step :: "crypto \<Rightarrow> auth_spec \<Rightarrow> auth_spec \<Rightarrow> bool" for C where
  ask: "au_peers a i = Some st \<Longrightarrow> auth_step C a (a\<lparr> au_tx := au_tx a @ [Tx_Asked i st] \<rparr>)"
| turn_away: "au_peers a i = None \<Longrightarrow> auth_step C a (a\<lparr> au_tx := au_tx a @ [Tx_Refused] \<rparr>)"
| unregister: "auth_step C a (a\<lparr> au_peers := (au_peers a)(i := None) \<rparr>)"
| register:
    "st_cell st = au_next a \<Longrightarrow> auth_step C a (a\<lparr> au_peers := (au_peers a)(i \<mapsto> st), au_next := au_next a + 1 \<rparr>)"
| challenge:
    "k < length (au_tx a) \<Longrightarrow> au_tx a ! k = Tx_Asked i st \<Longrightarrow>
     \<forall>j st' n. Tx_Open j st' n \<in> set (au_tx a) \<longrightarrow> st_cell st' \<noteq> st_cell st \<Longrightarrow>
     auth_step C a (a\<lparr> au_tx := (au_tx a)[k := Tx_Open i st nonce] \<rparr>)"
| grant:
    "k < length (au_tx a) \<Longrightarrow> au_tx a ! k = Tx_Open i st nonce \<Longrightarrow> accepts C st nonce sig \<Longrightarrow>
     nonce \<notin> set (recent_grants (st_cell st) (au_grants a)) \<Longrightarrow>
     auth_step C a (a\<lparr> au_tx := (au_tx a)[k := Tx_Granted i st nonce sig], au_grants := au_grants a @ [(st_cell st, nonce)] \<rparr>)"
| refuse:
    "k < length (au_tx a) \<Longrightarrow> (\<exists>i st. au_tx a ! k = Tx_Asked i st) \<or> (\<exists>i st n. au_tx a ! k = Tx_Open i st n) \<Longrightarrow>
     auth_step C a (a\<lparr> au_tx := (au_tx a)[k := Tx_Refused] \<rparr>)"

subsection \<open>What the specification guarantees\<close>

text \<open>A history in which every nonce differs from the 64 before it.\<close>

definition spaced :: "bytes list \<Rightarrow> bool" where
  "spaced ns \<longleftrightarrow> (\<forall>i < length ns. ns ! i \<notin> set (lastn NONCE_LRU_CAP (take i ns)))"

lemma spaced_snoc: "spaced ns \<Longrightarrow> n \<notin> set (lastn NONCE_LRU_CAP ns) \<Longrightarrow> spaced (ns @ [n])"
  by (auto simp: spaced_def nth_append less_Suc_eq)

text \<open>
  Every grant rests on a signature that the phone's key verifies over the
  challenge, and is in the history; the history repeats no nonce within the
  window.
\<close>

definition auth_sound :: "crypto \<Rightarrow> auth_spec \<Rightarrow> bool" where
  "auth_sound C a \<longleftrightarrow>
     (\<forall>i st n sig. Tx_Granted i st n sig \<in> set (au_tx a) \<longrightarrow> accepts C st n sig \<and> (st_cell st, n) \<in> set (au_grants a)) \<and>
     (\<forall>c. spaced (grants_of c (au_grants a)))"

lemma grants_of_snoc: "grants_of c (gs @ [(d, n)]) = grants_of c gs @ (if d = c then [n] else [])"
  by (simp add: grants_of_def)

lemma auth_sound_update:
  assumes "auth_sound C a" "\<And>i st n sig. tx \<noteq> Tx_Granted i st n sig"
  shows "auth_sound C (a\<lparr> au_tx := (au_tx a)[k := tx] \<rparr>)"
  using assms set_update_subset_insert [of "au_tx a" k tx] by (fastforce simp: auth_sound_def)

lemma auth_step_sound: "auth_step C a a' \<Longrightarrow> auth_sound C a \<Longrightarrow> auth_sound C a'"
proof (induction rule: auth_step.induct)
  case (grant k a i st nonce sig)
  let ?tx = "(au_tx a)[k := Tx_Granted i st nonce sig]"
  have "Tx_Granted i' st' n' sig' \<in> set ?tx \<Longrightarrow>
      Tx_Granted i' st' n' sig' \<in> set (au_tx a) \<or> (st' = st \<and> n' = nonce \<and> sig' = sig)" for i' st' n' sig'
    using set_update_subset_insert [of "au_tx a" k "Tx_Granted i st nonce sig"] by auto
  moreover have "spaced (grants_of c (au_grants a @ [(st_cell st, nonce)]))" for c
    using grant(4,5) by (auto simp: grants_of_snoc auth_sound_def recent_grants_def intro: spaced_snoc)
  ultimately show ?case using grant(3,5) by (fastforce simp: auth_sound_def)
next
  case (challenge k a i st nonce)
  then show ?case by (simp add: auth_sound_update)
next
  case (refuse k a)
  then show ?case by (simp add: auth_sound_update)
qed (auto simp: auth_sound_def)

section \<open>The simulation\<close>

text \<open>A transaction whose outcome is decided is granted or refused, whatever of it is left to do.\<close>

definition decided_sim :: "string \<Rightarrow> challenge_outcome \<Rightarrow> auth_tx \<Rightarrow> bool" where
  "decided_sim i out tx = (case signature_bytes out of Some sig \<Rightarrow> \<exists>st n. tx = Tx_Granted i st n sig | None \<Rightarrow> tx = Tx_Refused)"

fun tx_sim :: "crypto \<Rightarrow> string \<Rightarrow> call_phase \<Rightarrow> auth_tx \<Rightarrow> bool" where
  "tx_sim C i (Ph_Queued st _) tx = (tx = Tx_Asked i st)"
| "tx_sim C i (Ph_Admitted st) tx = (tx = Tx_Asked i st)"
| "tx_sim C i (Ph_Ready st) tx = (tx = Tx_Asked i st)"
| "tx_sim C i (Ph_Sent st ch) tx = (\<exists>n. tx = Tx_Open i st n \<and> ch = challenge_of C (st_bond_key st) n)"
| "tx_sim C i (Ph_Answered st ch _) tx = (\<exists>n. tx = Tx_Open i st n \<and> ch = challenge_of C (st_bond_key st) n)"
| "tx_sim C i (Ph_Judged _ _ _ out) tx = decided_sim i out tx"
| "tx_sim C i (Ph_Audited _ out) tx = decided_sim i out tx"
| "tx_sim C i (Ph_Done out) tx = decided_sim i out tx"

definition calls_sim :: "crypto \<Rightarrow> call list \<Rightarrow> auth_tx list \<Rightarrow> bool" where
  "calls_sim C = list_all2 (\<lambda>k. tx_sim C (cl_peer k) (cl_phase k))"

text \<open>
  Each transaction is where the specification has it, the registry is the map of
  the peers, and the cache of each registration is the window of its history.
\<close>

definition cells_sim :: "'p orch \<Rightarrow> auth_spec \<Rightarrow> bool" where
  "cells_sim os a \<longleftrightarrow>
     au_peers a = lookup_peer os \<and> au_next a = length (o_cells os) \<and>
     (\<forall>c < length (o_cells os). cell_nonces os c = recent_grants c (au_grants a)) \<and>
     (\<forall>g \<in> set (au_grants a). fst g < length (o_cells os))"

definition system_sim :: "crypto \<Rightarrow> 'p system \<Rightarrow> auth_spec \<Rightarrow> bool" where
  "system_sim C s a \<longleftrightarrow> calls_sim C (sy_calls s) (au_tx a) \<and> cells_sim (sy_orch s) a"

lemma cells_sim_tx [simp]: "cells_sim os (a\<lparr> au_tx := txs \<rparr>) = cells_sim os a"
  by (simp add: cells_sim_def)

lemma sim_set_phase:
  assumes "calls_sim C cs txs" "k < length cs" "tx_sim C (cl_peer (cs ! k)) ph tx"
  shows "calls_sim C (set_phase k ph cs) (txs[k := tx])"
  using assms by (auto simp: calls_sim_def set_phase_def intro: list_all2_update_cong)

lemma sim_nth:
  assumes "system_sim C s a" "phase_at s k ph"
  shows "tx_sim C (peer_at s k) ph (au_tx a ! k)" "k < length (au_tx a)" "k < length (sy_calls s)"
  using assms by (auto simp: system_sim_def calls_sim_def phase_at_def peer_at_def list_all2_conv_all_nth)

text \<open>What a step of the orchestrator leaves alone: the map, and the nonces of every cell.\<close>

definition same_auth :: "'p orch \<Rightarrow> 'p orch \<Rightarrow> bool" where
  "same_auth os os' \<longleftrightarrow> o_peers os' = o_peers os \<and> length (o_cells os') = length (o_cells os) \<and>
     (\<forall>c < length (o_cells os). pc_nonce_cache (o_cells os' ! c) = pc_nonce_cache (o_cells os ! c))"

lemma lookup_peer_ext: "o_peers os' = o_peers os \<Longrightarrow> lookup_peer os' = lookup_peer os"
  by (rule ext) (rule lookup_peer_cong)

lemma cells_sim_same: "same_auth os os' \<Longrightarrow> cells_sim os a \<Longrightarrow> cells_sim os' a"
  using lookup_peer_ext [of os' os] by (simp add: same_auth_def cells_sim_def cell_nonces_def)

lemma same_auth_simps [simp]:
  "same_auth os os" "same_auth os (os\<lparr> o_periph := p \<rparr>)" "same_auth os (os\<lparr> o_periph := p, o_fs := f \<rparr>)"
  "same_auth os (take_slot c os)" "same_auth os (stamp_cell c now os)" "same_auth os (leave_slot c os)"
  "same_auth os (audit_at e i nh t u x os)"
  by (auto simp: same_auth_def take_slot_def stamp_cell_def leave_slot_def upd_cell_def nth_list_update' audit_keeps)

text \<open>A step that the specification does not see.\<close>

lemma sim_stutter:
  assumes "system_sim C s a" "phase_at s k ph0" "same_auth (sy_orch s) os'"
    and "tx_sim C (peer_at s k) ph0 (au_tx a ! k) \<Longrightarrow> tx_sim C (peer_at s k) ph (au_tx a ! k)"
  shows "\<exists>a'. (auth_step C)\<^sup>*\<^sup>* a a' \<and> system_sim C (goes k ph os' s) a'"
proof -
  have "system_sim C (goes k ph os' s) a"
    using sim_set_phase [of C "sy_calls s" "au_tx a" k ph "au_tx a ! k"] sim_nth [OF assms(1,2)] assms cells_sim_same
    by (auto simp: system_sim_def peer_at_def)
  then show ?thesis by blast
qed

text \<open>A refusal: the outcome carries no signature.\<close>

fun undecided :: "call_phase \<Rightarrow> bool" where
  "undecided (Ph_Judged _ _ _ _) = False"
| "undecided (Ph_Audited _ _) = False"
| "undecided (Ph_Done _) = False"
| "undecided _ = True"

lemma sim_refused:
  assumes "system_sim C s a" "phase_at s k ph0" "same_auth (sy_orch s) os'" "signature_bytes out = None"
    and "undecided ph0"
  shows "\<exists>a'. (auth_step C)\<^sup>*\<^sup>* a a' \<and> system_sim C (goes k (Ph_Judged held nh t out) os' s) a'"
proof -
  let ?a = "a\<lparr> au_tx := (au_tx a)[k := Tx_Refused] \<rparr>"
  note k = sim_nth [OF assms(1,2)]
  have "(\<exists>i st. au_tx a ! k = Tx_Asked i st) \<or> (\<exists>i st n. au_tx a ! k = Tx_Open i st n)"
    using k(1) assms(5) by (cases ph0) auto
  then have "auth_step C a ?a" using refuse k(2) by blast
  moreover have "system_sim C (goes k (Ph_Judged held nh t out) os' s) ?a"
    using sim_set_phase [of C "sy_calls s" "au_tx a" k "Ph_Judged held nh t out" Tx_Refused] k assms(1,3,4) cells_sim_same
    by (auto simp: system_sim_def decided_sim_def)
  ultimately show ?thesis by blast
qed

text \<open>A permit that is held by one transaction is held by no other, so no other challenge of its registration is open.\<close>

lemma no_other_open:
  assumes "slots_invar s" "system_sim C s a" "phase_at s k (Ph_Ready st)" "Tx_Open i st' n \<in> set (au_tx a)"
  shows "st_cell st' \<noteq> st_cell st"
proof
  assume same: "st_cell st' = st_cell st"
  let ?cs = "sy_calls s" and ?P = "\<lambda>k. holds_slot (st_cell st) (cl_phase k)"
  obtain j where j: "j < length (au_tx a)" "au_tx a ! j = Tx_Open i st' n" using assms(4) by (auto simp: in_set_conv_nth)
  then have jl: "j < length ?cs" "tx_sim C (cl_peer (?cs ! j)) (cl_phase (?cs ! j)) (Tx_Open i st' n)"
    using assms(2) by (auto simp: system_sim_def calls_sim_def list_all2_conv_all_nth)
  have two: "j \<noteq> k" "?P (?cs ! j)" "?P (?cs ! k)" "k < length ?cs"
    using jl(2) same assms(3)
    by (cases "cl_phase (?cs ! j)"; auto simp: decided_sim_def phase_at_def split: option.splits)+
  have "card {j, k} \<le> card {i. i < length ?cs \<and> ?P (?cs ! i)}" by (rule card_mono) (use two jl(1) in auto)
  then have "2 \<le> holders (st_cell st) ?cs" using two(1) by (simp add: holders_def length_filter_conv_card)
  moreover have "holders (st_cell st) ?cs \<le> 1"
    using slot_taken [OF assms(1,3), of "st_cell st"] assms(1) by (auto simp: slots_invar_def)
  ultimately show False by simp
qed

lemma sim_send:
  assumes "phase_at s k (Ph_Ready st)" "send_challenge ops C (peer_at s k) nonce st (sy_orch s) = (Ok ch, os1)"
    and "sys_invar s" "system_sim C s a"
  shows "\<exists>a'. (auth_step C)\<^sup>*\<^sup>* a a' \<and> system_sim C (goes k (Ph_Sent st ch) os1 s) a'"
proof -
  let ?a = "a\<lparr> au_tx := (au_tx a)[k := Tx_Open (peer_at s k) st nonce] \<rparr>"
  have ch: "ch = challenge_of C (st_bond_key st) nonce" "same_auth (sy_orch s) os1"
    using assms(2) send_keeps [OF assms(2)] by (auto simp: send_challenge_eq split: prod.splits sum.splits)
  note k = sim_nth [OF assms(4,1)]
  have "\<forall>j st' n. Tx_Open j st' n \<in> set (au_tx a) \<longrightarrow> st_cell st' \<noteq> st_cell st"
    using no_other_open [OF _ assms(4,1)] assms(3) by (auto simp: sys_invar_def)
  then have "auth_step C a ?a" using challenge [OF k(2)] k(1) by simp
  moreover have "system_sim C (goes k (Ph_Sent st ch) os1 s) ?a"
    using sim_set_phase [of C "sy_calls s" "au_tx a" k "Ph_Sent st ch" "Tx_Open (peer_at s k) st nonce"] k assms(4) ch cells_sim_same
    by (auto simp: system_sim_def peer_at_def)
  ultimately show ?thesis by blast
qed

text \<open>The nonces after a judgement: those of the specification, with the new one when there is a grant.\<close>

lemma judge_grants:
  assumes "judge_response C st (challenge_of C key n) bs os = (Co_Ok sig, os1)" "cells_sim os a"
    and "st_cell st < length (o_cells os)" "orch_invar os"
  shows "accepts C st n sig" "n \<notin> set (recent_grants (st_cell st) (au_grants a))"
    "cells_sim os1 (a\<lparr> au_grants := au_grants a @ [(st_cell st, n)] \<rparr>)"
proof -
  let ?c = "st_cell st"
  have j: "accepts C st n sig" "n \<notin> set (cell_nonces os ?c)" "os1 = remember ?c n os"
    using assms(1) by (auto simp: judge_response_eq split: if_splits)
  have here: "cell_nonces os c = recent_grants c (au_grants a)" if "c < length (o_cells os)" for c
    using assms(2) that by (simp add: cells_sim_def)
  show "accepts C st n sig" "n \<notin> set (recent_grants ?c (au_grants a))" using j here [OF assms(3)] by simp_all
  have "cell_nonces os1 c = recent_grants c (au_grants a @ [(?c, n)])" if "c < length (o_cells os)" for c
  proof -
    have "length (nc_nonces (pc_nonce_cache (o_cells os ! c))) \<le> NONCE_LRU_CAP"
      using assms(4) that by (auto simp: orch_invar_def cells_ok_def nc_invar_def)
    then show ?thesis
      using nc_insert_window [of "pc_nonce_cache (o_cells os ! c)" n] here [OF that] that
      by (cases "c = ?c")
        (simp_all add: j(3) remember_def upd_cell_def cell_nonces_def recent_grants_def grants_of_snoc lastn_lastn_append)
  qed
  then show "cells_sim os1 (a\<lparr> au_grants := au_grants a @ [(?c, n)] \<rparr>)"
    using assms(2,3) lookup_peer_ext [of os1 os] by (auto simp: cells_sim_def j(3) remember_def)
qed

lemma judge_refuses:
  "judge_response C st ch bs os = (out, os1) \<Longrightarrow> signature_bytes out = None \<Longrightarrow> os1 = os"
  by (auto simp: judge_response_def split: option.splits sum.splits if_splits)

lemma sim_judge:
  assumes "phase_at s k (Ph_Answered st ch bs)" "judge_response C st ch bs (sy_orch s) = (out, os1)"
    and "sys_invar s" "system_sim C s a"
  shows "\<exists>a'. (auth_step C)\<^sup>*\<^sup>* a a' \<and> system_sim C (goes k (Ph_Judged (Some st) nh t out) os1 s) a'"
proof (cases "signature_bytes out")
  case None
  then show ?thesis using judge_refuses [OF assms(2)] by (intro sim_refused [OF assms(4,1)]) simp_all
next
  case (Some sig)
  note k = sim_nth [OF assms(4,1)]
  obtain n where tx: "au_tx a ! k = Tx_Open (peer_at s k) st n" "ch = challenge_of C (st_bond_key st) n" using k(1) by auto
  let ?a = "a\<lparr> au_tx := (au_tx a)[k := Tx_Granted (peer_at s k) st n sig], au_grants := au_grants a @ [(st_cell st, n)] \<rparr>"
  have out: "out = Co_Ok sig" using Some by (cases out) simp_all
  have cell: "st_cell st < length (o_cells (sy_orch s))" "orch_invar (sy_orch s)"
    using slot_taken [OF _ assms(1), of "st_cell st"] assms(3) by (simp_all add: sys_invar_def)
  note g = judge_grants [OF assms(2) [unfolded tx(2) out] _ cell]
  have cs: "cells_sim (sy_orch s) a" using assms(4) by (simp add: system_sim_def)
  have "auth_step C a ?a" using grant [OF k(2) tx(1) g(1,2) [OF cs]] .
  moreover have "system_sim C (goes k (Ph_Judged (Some st) nh t out) os1 s) ?a"
    using sim_set_phase [of C "sy_calls s" "au_tx a" k "Ph_Judged (Some st) nh t out" "Tx_Granted (peer_at s k) st n sig"]
      k assms(4) Some g(3) [OF cs] by (auto simp: system_sim_def decided_sim_def peer_at_def cells_sim_def)
  ultimately show ?thesis by blast
qed

text \<open>The reload task: only its changes of the map are seen.\<close>

lemma recent_new: "cells_sim os a \<Longrightarrow> recent_grants (length (o_cells os)) (au_grants a) = []"
proof -
  assume "cells_sim os a"
  then have "filter (\<lambda>g. fst g = length (o_cells os)) (au_grants a) = []" by (auto simp: cells_sim_def filter_empty_conv)
  then show ?thesis by (simp add: recent_grants_def grants_of_def)
qed

lemma sim_map:
  assumes "cells_sim os a"
  shows "cells_sim (insert_peer_entry i key (Some pk) os)
    (a\<lparr> au_peers := (au_peers a)(i \<mapsto> \<lparr> st_phone_pubkey = pk, st_bond_key = key, st_cell = au_next a \<rparr>), au_next := au_next a + 1 \<rparr>)"
proof -
  have "lookup_peer (insert_peer_entry i key (Some pk) os) =
      (lookup_peer os)(i \<mapsto> \<lparr> st_phone_pubkey = pk, st_bond_key = key, st_cell = length (o_cells os) \<rparr>)"
    by (rule ext) (simp add: lookup_peer_def insert_peer_entry_def bt_get_insert)
  then show ?thesis
    using assms recent_new [OF assms]
    by (auto simp: cells_sim_def insert_peer_entry_def cell_nonces_def nth_append less_Suc_eq peer_cell_new_def nonce_cache_new_def)
qed

lemma sim_unmap:
  assumes "cells_sim os a"
  shows "cells_sim (os\<lparr> o_peers := bt_remove i (o_peers os) \<rparr>) (a\<lparr> au_peers := (au_peers a)(i := None) \<rparr>)"
proof -
  have "lookup_peer (os\<lparr> o_peers := bt_remove i (o_peers os) \<rparr>) = (lookup_peer os)(i := None)"
    by (rule ext) (simp add: lookup_peer_def bt_get_remove)
  then show ?thesis using assms by (simp add: cells_sim_def cell_nonces_def)
qed

lemma sim_work:
  assumes "work_step ops C sh now w os = (new, os1)" "cells_sim os a"
  shows "\<exists>a'. (auth_step C)\<^sup>*\<^sup>* a a' \<and> au_tx a' = au_tx a \<and> cells_sim os1 a'"
proof -
  consider i where "os1 = os\<lparr> o_peers := bt_remove i (o_peers os) \<rparr>" | i key pk where "os1 = insert_peer_entry i key (Some pk) os"
    | "same_auth os os1"
    using assms(1) by (cases w) (auto split: prod.splits sum.splits option.splits)
  then show ?thesis
  proof cases
    case (1 i)
    then show ?thesis using sim_unmap [OF assms(2), of i]
      by (intro exI [of _ "a\<lparr> au_peers := (au_peers a)(i := None) \<rparr>"]) (auto intro: unregister)
  next
    case (2 i key pk)
    let ?a = "a\<lparr> au_peers := (au_peers a)(i \<mapsto> \<lparr> st_phone_pubkey = pk, st_bond_key = key, st_cell = au_next a \<rparr>), au_next := au_next a + 1 \<rparr>"
    have "auth_step C a ?a" by (rule register) simp
    then show ?thesis using 2 sim_map [OF assms(2), of i key pk] by (intro exI [of _ ?a]) auto
  next
    case 3
    then show ?thesis using cells_sim_same [OF _ assms(2)] by blast
  qed
qed

lemma transport_no_signature: "signature_bytes (challenge_outcome_for_transport err) = None"
  by (cases err) simp_all

lemma send_error: "send_challenge ops C i nonce st os = (Err out, os1) \<Longrightarrow> signature_bytes out = None \<and> same_auth os os1"
  using send_keeps [of ops C i nonce st os "Err out" os1]
  by (auto simp: send_challenge_eq transport_no_signature split: prod.splits sum.splits)

lemma daemon_step_sim:
  assumes "daemon_step ops C L sh s s'" "sys_invar s" "system_sim C s a"
  shows "\<exists>a'. (auth_step C)\<^sup>*\<^sup>* a a' \<and> system_sim C s' a'"
  using assms
proof (induction rule: daemon_step.induct)
  case (call_unknown s i t now)
  then have "auth_step C a (a\<lparr> au_tx := au_tx a @ [Tx_Refused] \<rparr>)"
    by (intro turn_away [of a i]) (simp add: system_sim_def cells_sim_def)
  then show ?case using call_unknown
    by (intro exI conjI) (rule r_into_rtranclp, assumption, auto simp: system_sim_def calls_sim_def decided_sim_def intro: list_all2_appendI)
next
  case (call_queued s i st t now)
  then have "auth_step C a (a\<lparr> au_tx := au_tx a @ [Tx_Asked i st] \<rparr>)"
    by (intro ask) (simp add: system_sim_def cells_sim_def)
  then show ?case using call_queued
    by (intro exI conjI) (rule r_into_rtranclp, assumption, auto simp: system_sim_def calls_sim_def intro: list_all2_appendI)
next
  case (busy s k st w now)
  show ?case by (rule sim_refused [OF busy(4,1)]) simp_all
next
  case (rng_fails s k st out err now)
  show ?case by (rule sim_refused [OF rng_fails(4,1)]) (simp_all add: rng_fails(2))
next
  case (send_fails s k st nonce out os1 now)
  show ?case using send_error [OF send_fails(2)] by (intro sim_refused [OF send_fails(4,1)]) simp_all
next
  case (send s k st nonce ch os1)
  then show ?case by (rule sim_send)
next
  case (response_fails s k st ch d err p1 now)
  show ?case by (rule sim_refused [OF response_fails(4,1)]) (simp_all add: transport_no_signature)
next
  case (judge s k st ch bs out os1 now)
  then show ?case by (rule sim_judge)
next
  case (audit s k held nh t out e)
  show ?case by (rule sim_stutter [OF audit(3,1)]) (simp_all split: option.splits)
next
  case (work s w ws now new os1)
  then show ?case using sim_work [OF work(2), of a] by (auto simp: system_sim_def)
next
  case (outside s p f)
  then show ?case by (intro exI [of _ a]) (auto simp: system_sim_def intro: cells_sim_same [OF same_auth_simps(3)])
next
  case (waits s k st w d)
  show ?case by (rule sim_stutter [OF waits(4,1)]) simp_all
next
  case (admit s k st w)
  show ?case by (rule sim_stutter [OF admit(4,1)]) simp_all
next
  case (stamp s k st now)
  show ?case by (rule sim_stutter [OF stamp(3,1)]) simp_all
next
  case (response s k st ch d bs p1)
  show ?case by (rule sim_stutter [OF response(4,1)]) simp_all
next
  case (release s k st out)
  show ?case by (rule sim_stutter [OF release(3,1)]) simp_all
qed (auto simp: system_sim_def)

interpretation daemon_auth: forward_sim "daemon_step ops C L sh" "auth_step C" sys_invar "system_sim C" for ops C L sh
  by unfold_locales (use daemon_step_invar daemon_step_sim in blast)+

lemma reachable_run: "reachable ops C L sh os0 s \<Longrightarrow> runs_to ops C L sh (fresh_system os0) s"
  by (induction rule: reachable.induct) auto

lemma auth_sound_init: "auth_sound C (auth_init m n)"
  by (simp add: auth_sound_def auth_init_def grants_of_def spaced_def)

lemma fresh_start_sim:
  assumes "orch_invar os0" "o_cells os0 = replicate n peer_cell_new"
  shows "sys_invar (fresh_system os0)" "system_sim C (fresh_system os0) (auth_init (lookup_peer os0) n)"
proof -
  show "sys_invar (fresh_system os0)"
    using assms by (simp add: sys_invar_def slots_invar_def holders_def peer_cell_new_def fresh_system_def)
  show "system_sim C (fresh_system os0) (auth_init (lookup_peer os0) n)"
    using assms by (simp add: system_sim_def calls_sim_def auth_init_def cells_sim_def cell_nonces_def recent_grants_def grants_of_def
        peer_cell_new_def nonce_cache_new_def fresh_system_def)
qed

section \<open>Properties\<close>

text \<open>
  C7: the daemon implements its specification.  From a fresh start, whatever the
  interleaving of the steps of transactions, reloads and rotations and of changes
  from outside, the state reached is one that the specification can reach: every
  transaction stands where the specification has it, the registry is the daemon's
  map of peers, each nonce cache is the window of the grants of its registration,
  and so every success carries a signature that verifies, over its challenge,
  under the key the registry had for the phone that was asked for, and no nonce
  is good twice within 64 grants of one registration.  A phone that a reload
  drops and a later one registers again starts with an empty window.
\<close>

theorem daemon_refines_auth_spec:
  assumes "reachable ops C L sh os0 s" "orch_invar os0" "o_cells os0 = replicate n peer_cell_new"
  shows "\<exists>a. (auth_step C)\<^sup>*\<^sup>* (auth_init (lookup_peer os0) n) a \<and> system_sim C s a \<and> auth_sound C a"
proof -
  obtain a where a: "(auth_step C)\<^sup>*\<^sup>* (auth_init (lookup_peer os0) n) a" "system_sim C s a"
    using daemon_auth.sim_run [OF reachable_run [OF assms(1)] fresh_start_sim [OF assms(2,3)]] by blast
  from a(1) have "auth_sound C a"
    by (induction rule: rtranclp_induct) (auto intro: auth_sound_init auth_step_sound)
  with a show ?thesis by blast
qed

text \<open>The transaction of the example that has been admitted: in the specification it has asked.\<close>

theorem daemon_refines_auth_spec_witness:
  "\<exists>a. (auth_step ex_crypto)\<^sup>*\<^sup>* (auth_init (lookup_peer ex_orch) 1) a \<and> system_sim ex_crypto ex_admitted a \<and>
     au_tx a = [Tx_Asked ''a'' ex_state]"
proof -
  have "o_cells ex_orch = replicate 1 peer_cell_new" by (simp add: ex_orch_of_def)
  from daemon_refines_auth_spec [OF ex_admitted_reachable ex_orch_invar this]
  obtain a where a: "(auth_step ex_crypto)\<^sup>*\<^sup>* (auth_init (lookup_peer ex_orch) 1) a" "system_sim ex_crypto ex_admitted a" by blast
  then have "au_tx a = [Tx_Asked ''a'' ex_state]"
    by (simp add: system_sim_def calls_sim_def ex_admitted_def with_call_def fresh_system_def list_all2_Cons1)
  with a show ?thesis by blast
qed

end
