(* ===== verification/Spec2Isabelle.thy ===== *)
theory Spec2Isabelle
  imports Commands DaemonCli Secrets Mobile AuthSpec
begin

text \<open>
  A verification development for syauth, which unlocks a Linux machine with a
  phone over Bluetooth.

  \<^bold>\<open>The program.\<close>  A phone and a desktop share a bond: an Ed25519 public key of the
  phone and a symmetric bond key.  The desktop stores them in \<open>bonds.toml\<close> and one
  key file per phone.  To unlock, the PAM module (\<open>syauth-pam\<close>) asks the daemon
  (\<open>syauth-presenced\<close>) over a Unix socket for a challenge to the first bonded phone;
  the daemon sends a tagged frame with a fresh nonce through its GATT peripheral
  (\<open>syauth-transport\<close>), the phone (\<open>syauth-mobile\<close>) checks the tag and signs, the
  daemon checks signature and replay memory and answers with a reason, which the
  module maps to a PAM code.  The command line tool (\<open>syauth-cli\<close>) pairs, lists and
  revokes phones, installs the module and the daemon and reports on both.  What
  all of them share (frames, tags, signatures, bonds, replay cache, secret
  stores) is in \<open>syauth-core\<close>.

  \<^bold>\<open>The theories\<close> follow the crates; every path below is under \<open>src/crates\<close>.

  \<^item> \<open>Prelude\<close>: results as sums, the collection \<open>const_defs\<close> of the program's
    constants, words and lists, the locale of self-delimiting encodings.
    \<open>Text\<close>: strings as UTF-8 bytes, trimming, lines, numbers.  \<open>FileSystem\<close>: files with
    modes, each primitive may fail, and the history of states, so that a crash
    between two primitives can be spoken about.  \<open>BTree\<close>: sorted maps.  \<open>Console\<close>:
    terminals whose writes may fail.
  \<^item> \<open>Frame\<close>, \<open>Replay\<close>, \<open>Bond\<close>, \<open>Secrets\<close>: \<open>syauth-core\<close> (\<open>frame.rs\<close>, \<open>mac.rs\<close>, \<open>sign.rs\<close>,
    \<open>replay.rs\<close>, \<open>bond.rs\<close>, \<open>secrets.rs\<close>).
  \<^item> \<open>Transport\<close>, \<open>Peripheral\<close>: \<open>syauth-transport\<close> (\<open>error.rs\<close>, \<open>bluez.rs\<close>, \<open>mock.rs\<close>,
    \<open>peripheral.rs\<close>, \<open>notification.rs\<close>, \<open>bluez_advertise.rs\<close>).
  \<^item> \<open>AuditLog\<close>, \<open>Orchestrator\<close>, \<open>Reload\<close>, \<open>Interleaving\<close>, \<open>AuthSpec\<close>, \<open>Rpc\<close>, \<open>Server\<close>, \<open>Lock\<close>,
    \<open>Runtime\<close>, \<open>DaemonCli\<close>: \<open>syauth-presenced\<close> (\<open>audit.rs\<close>, \<open>orchestrator.rs\<close>, \<open>rpc.rs\<close>, \<open>server.rs\<close>,
    \<open>lock.rs\<close>, \<open>runtime.rs\<close>, \<open>main.rs\<close>).
  \<^item> \<open>Pam\<close>: \<open>syauth-pam\<close> (\<open>config.rs\<close>, \<open>auth.rs\<close>, \<open>entry.rs\<close>).
  \<^item> \<open>Oob\<close>, \<open>Mobile\<close>: the confirmation words of \<open>syauth-cli/src/oob.rs\<close> and the phone's
    functions of \<open>syauth-mobile/src/implementation.rs\<close>.
  \<^item> \<open>PamInstall\<close>, \<open>PresencedInstall\<close>, \<open>Pair\<close>, \<open>BluerPair\<close>, \<open>StoreCommands\<close>, \<open>Status\<close>, \<open>Doctor\<close>,
    \<open>ErrorText\<close>, \<open>Commands\<close>: \<open>syauth-cli\<close> (\<open>install_pam.rs\<close>, \<open>uninstall_pam.rs\<close>, \<open>install_presenced.rs\<close>,
    \<open>pair.rs\<close>, \<open>pair_backend.rs\<close>, \<open>list.rs\<close>, \<open>revoke.rs\<close>, \<open>status.rs\<close>, \<open>doctor.rs\<close>, \<open>main.rs\<close>).

  \<^bold>\<open>How code becomes definitions.\<close>  A struct is a record, an enum a datatype, a
  function or method a function that returns its result and the changed state;
  \<open>Result\<close> is a sum with the error on the left, and each \<open>return\<close>, \<open>?\<close> and panic is a
  branch.  Machine integers are words where their width matters and naturals
  where a bound is written out.  Time is given from outside in milliseconds.
  Cryptography, TOML, CBOR, RFC 3339, JSON, BlueZ, the kernel keyring, the Secret
  Service and \<open>systemctl\<close> are parameters, records of functions; what a theorem needs
  of them is a named hypothesis (\<open>toml_lib_ok\<close>, \<open>cbor_ok\<close>, \<open>keyring_ok\<close>, \<open>service_ok\<close>,
  laws on signatures), and each theorem with hypotheses has a witness in which
  they hold.  Tasks of the daemon that run beside each other are step relations
  (\<open>Interleaving\<close> for challenge transactions beside the task of reloads and
  rotations, cut at every await of the source, with a call of the peripheral as one
  step and with changes of files and radio from outside; \<open>Lock\<close> for processes) or
  lists of events (signals, inotify, connections, pair events).  A socket with a
  receive timeout delivers pieces with the time that passes before each, so that a
  read fails when its own piece is late (\<open>Rpc\<close>).

  \<^bold>\<open>Interfaces\<close> are locales, interpreted on the model: \<open>wire_codec\<close> and \<open>stream_codec\<close>
  (frames, RPC messages), \<open>recent_window\<close> (replay cache, nonce cache, tail of the
  log), \<open>finite_map_laws\<close> (sorted maps), \<open>peripheral_laws\<close> with its extension
  \<open>reliable_peripheral\<close> (production and fake peripheral), \<open>pair_radio\<close> (the radio of the
  pairing command), \<open>key_store\<close> (the three secret stores), \<open>forward_sim\<close> (the
  interleaved daemon and its specification in \<open>AuthSpec\<close>).

  \<^bold>\<open>What is shown.\<close>  Unlocking: a success of the module needs a signature of the
  first bonded phone over a fresh nonce, in every interleaving one challenge per
  registration of a phone is in flight and every run is one of the abstract
  specification of authentication (ask, challenge, grant or refuse), a nonce is good
  once within 64 grants of a registration, an honest phone is accepted, and any
  failure fails closed.  Bonds: the store is a finite map under any sequence of
  operations, saving is atomic at every crash point, what is saved is loaded again,
  and what is loaded has checked identifiers.  Reload: when BlueZ accepts the
  registrations, after it the live phones are exactly the bonded ones with a key,
  in the orchestrator's map and in the peripheral's table, so a revoked phone is
  refused and a newly paired one is live.  (\<open>Peripheral\<close> shows that BlueZ then serves
  the application of the phone added last only.)
  Codecs: frames, RPC messages and segments are decoded exactly from what is
  encoded.  The daemon: one holder of the lock, a second daemon changes nothing,
  no lost change of the bonds file, at most four connections.  Commands: pairing
  writes nothing without the operator's confirmation, a first installation is safe at
  every instant and, with a control flag of one word, undone by uninstallation, the
  reports show what is there,
  and all programs meet at the same paths.  The theorems also show where the
  code does not do what its comments say; these have no part in the claims above
  and are listed as findings in the manifest.

  \<^bold>\<open>Bounds and fuel.\<close>  No definition uses fuel, and all recursive definitions
  terminate except the line reader of the pairing prompt, a partial function into
  options.  A loop that waits for the world runs over the list of what the world does, and its
  result says so when the list ends before the loop does (\<open>None\<close> in the watch of
  \<open>status\<close> and in the prompts of \<open>pair\<close>, \<open>Run_Serving\<close> for the daemon).  The poll for the
  applet's decision ends because its clock advances with each round.

  \<^bold>\<open>Not modelled.\<close>  Option parsing by \<open>clap\<close>, log output and the texts of the errors in it,
  the UniFFI scaffolding of \<open>syauth-mobile/src/lib.rs\<close>, code for other systems than
  Unix, accessors that only return a field, and the tests.  The file system has no symbolic links and no concurrent
  writers except where a theory says so.
\<close>

section \<open>Properties that span the programs\<close>

lemma fallback_runtime_dir: "path_components (''/run/user/'' @ show_nat n) = [''run'', ''user'', show_nat n]"
proof -
  have d: "CHR ''/'' \<notin> set (show_nat n)" "show_nat n \<noteq> []" "show_nat n \<noteq> ''.''"
    using show_nat_digits [of n] by (auto simp: is_digit_def)
  then show ?thesis by (simp add: path_components_def split_on_single)
qed

lemma pam_socket_default:
  "pc_socket_path (from_pam_argv en []) =
     (case en_xdg_runtime_dir en of
        Some d \<Rightarrow> if d \<noteq> [] then path_components d else [''run'', ''user'', show_nat (unat (en_euid en))]
      | None \<Rightarrow> [''run'', ''user'', show_nat (unat (en_euid en))]) @ [''syauth'', ''auth.sock'']"
  using fallback_runtime_dir [of "unat (en_euid en)"]
  by (simp add: from_pam_argv_def resolve_socket_path_def const_defs split: option.splits)

text \<open>
  C37: the programs meet at the same files.  Started without options in the same
  environment and as the same user, the daemon listens on the socket that the
  PAM module, \<open>status\<close> and \<open>doctor\<close> connect to, and all of them use one bonds file
  and one directory of key files.
\<close>

theorem default_paths_agree:
  assumes "en_xdg_runtime_dir en = var ''XDG_RUNTIME_DIR''" "unat (en_euid en) = euid"
    and "de_var v = var" "de_euid v = euid"
  shows "\<exists>cfg. build_config dehex var euid daemon_cli_default = Ok cfg \<and>
    dc_socket cfg = pc_socket_path (from_pam_argv en []) \<and>
    dc_socket cfg = status_default_socket var euid \<and>
    dc_socket cfg = doctor_default_socket (xr_value (probe_xdg_runtime_dir v)) \<and>
    dc_bonds_file cfg = bonds_file_path (from_pam_argv en []) \<and>
    dc_bonds_file cfg = bonds_path Pair.DEFAULT_BOND_DIR \<and>
    dc_bonds_file cfg = path_components DOCTOR_DEFAULT_BONDS_FILE \<and>
    dc_keys_dir cfg = path_components DOCTOR_DEFAULT_KEYS_DIR \<and>
    dc_keys_dir cfg @ [i @ BOND_KEY_FILE_EXT] = pam_bond_key_path Pair.DEFAULT_BOND_DIR i"
proof -
  let ?dir = "case var ''XDG_RUNTIME_DIR'' of
      Some d \<Rightarrow> if d \<noteq> [] then path_components d else [''run'', ''user'', show_nat euid] | None \<Rightarrow> [''run'', ''user'', show_nat euid]"
  have dir: "resolve_runtime_dir var euid = ?dir" "xr_value (probe_xdg_runtime_dir v) = ?dir"
    using assms(3,4) by (simp_all add: resolve_runtime_dir_def probe_xdg_runtime_dir_def XDG_RUNTIME_DIR_ENV_def Let_def split: option.splits)
  have socket: "pc_socket_path (from_pam_argv en []) = ?dir @ [''syauth'', ''auth.sock'']"
    unfolding pam_socket_default assms(1,2) ..
  have fixed: "path_components ''/var/lib/syauth'' = [''var'', ''lib'', ''syauth'']"
    "path_components ''/var/lib/syauth/bonds.toml'' = [''var'', ''lib'', ''syauth'', ''bonds.toml'']"
    "path_components ''/var/lib/syauth/keys'' = [''var'', ''lib'', ''syauth'', ''keys'']"
    by code_simp+
  have bonds: "bonds_file_path (from_pam_argv en []) = [''var'', ''lib'', ''syauth'', ''bonds.toml'']"
    by (simp add: bonds_file_path_def from_pam_argv_def const_defs fixed)
  show ?thesis
    unfolding build_config_default dir
    by (rule exI [where x = "with_runtime_dir ?dir"])
      (simp add: dir socket status_default_socket_def doctor_default_socket_def with_runtime_dir_def const_defs bonds
        bonds_path_def pam_bond_key_path_def fixed Let_def split del: if_split)
qed

text \<open>The environment of a user with the identifier 1000 and the usual runtime directory.\<close>

theorem default_paths_agree_witness:
  "\<exists>cfg. build_config (\<lambda>_. None) (\<lambda>_. Some ''/run/user/1000'') 1000 daemon_cli_default = Ok cfg \<and>
     dc_socket cfg = pc_socket_path (from_pam_argv \<lparr> en_xdg_runtime_dir = Some ''/run/user/1000'', en_euid = 1000 \<rparr> []) \<and>
     dc_socket cfg = [''run'', ''user'', ''1000'', ''syauth'', ''auth.sock'']"
proof -
  let ?v = "ex_doctor\<lparr> de_var := (\<lambda>_. Some ''/run/user/1000''), de_euid := 1000 \<rparr>"
  let ?en = "\<lparr> en_xdg_runtime_dir = Some ''/run/user/1000'', en_euid = 1000 \<rparr>"
  have c: "path_components ''/run/user/1000'' = [''run'', ''user'', ''1000'']" by code_simp
  show ?thesis
    using default_paths_agree [where en = ?en and var = "\<lambda>_. Some ''/run/user/1000''" and euid = 1000 and v = ?v and dehex = "\<lambda>_. None"]
    by (auto simp: status_default_socket_def c)
qed

end
